(* ===== verification/Prelude.thy ===== *)
theory Prelude
  imports
    "HOL-Library.Word"
    "HOL-Library.Product_Lexorder"
    "HOL-Library.Sublist"
    "HOL-Library.Signed_Division"
    "HOL-Library.List_Lexorder"
    "HOL-Library.Char_ord"
begin

text \<open>
  The vocabulary shared by every component of the development.

  \<^item> Machine integers: Rust's \<^verbatim>\<open>i64\<close> saturating addition and multiplication on \<^typ>\<open>int\<close> and the
    saturating addition and subtraction of the unsigned types on words.
  \<^item> SQL tables: a table is the list of its rows in insertion order, and \<^verbatim>\<open>UPDATE\<close>, \<^verbatim>\<open>DELETE\<close>,
    \<^verbatim>\<open>SELECT ... WHERE key = ?\<close>, \<^verbatim>\<open>INSERT OR IGNORE\<close>, \<^verbatim>\<open>ORDER BY ... LIMIT\<close> and \<^verbatim>\<open>COUNT\<close> are the
    generic functions below, with their characteristic equations in the collection
    \<^verbatim>\<open>table_simps\<close>.
  \<^item> The interface \<^verbatim>\<open>row_lifecycle\<close>: what a keyed table promises about a row along any sequence of
    its operations. Every table of the engine and every status machine of the node is an
    interpretation of it.

  Rust strings are UTF-8 byte sequences, which \<^typ>\<open>string\<close> (lists of 8-bit characters) represents
  directly; \<^verbatim>\<open>Vec<u8>\<close> is a list of 8-bit words.
\<close>

section \<open>Types and machine integers\<close>

type_synonym bytes = "8 word list"

text \<open>The UTF-8 bytes of a string (\<^verbatim>\<open>as_bytes\<close>, and byte-string literals).\<close>

definition as_bytes :: "string \<Rightarrow> bytes" where
  "as_bytes s = map of_char s"

definition i64_max :: int where
  "i64_max = 9223372036854775807"

definition i64_min :: int where
  "i64_min = - 9223372036854775808"

definition i64_clamp :: "int \<Rightarrow> int" where
  "i64_clamp x = max i64_min (min i64_max x)"

definition i64_saturating_add :: "int \<Rightarrow> int \<Rightarrow> int" where
  "i64_saturating_add a b = i64_clamp (a + b)"

definition i64_saturating_mul :: "int \<Rightarrow> int \<Rightarrow> int" where
  "i64_saturating_mul a b = i64_clamp (a * b)"

definition in_i64 :: "int \<Rightarrow> bool" where
  "in_i64 x \<longleftrightarrow> i64_min \<le> x \<and> x \<le> i64_max"

definition saturating_add :: "'a::len word \<Rightarrow> 'a word \<Rightarrow> 'a word" where
  "saturating_add a b = (if uint a + uint b < 2 ^ LENGTH('a) then a + b else - 1)"

definition saturating_sub :: "'a::len word \<Rightarrow> 'a word \<Rightarrow> 'a word" where
  "saturating_sub a b = (if b \<le> a then a - b else 0)"

section \<open>SQL tables as lists of rows\<close>

definition find_row :: "('r \<Rightarrow> 'k) \<Rightarrow> 'k \<Rightarrow> 'r list \<Rightarrow> 'r option" where
  "find_row key k t = List.find (\<lambda>r. key r = k) t"

definition update_rows :: "('r \<Rightarrow> bool) \<Rightarrow> ('r \<Rightarrow> 'r) \<Rightarrow> 'r list \<Rightarrow> 'r list" where
  "update_rows p f t = map (\<lambda>r. if p r then f r else r) t"

definition delete_rows :: "('r \<Rightarrow> bool) \<Rightarrow> 'r list \<Rightarrow> 'r list" where
  "delete_rows p t = filter (\<lambda>r. \<not> p r) t"

definition count_rows :: "('r \<Rightarrow> bool) \<Rightarrow> 'r list \<Rightarrow> nat" where
  "count_rows p t = length (filter p t)"

definition insert_or_ignore :: "('r \<Rightarrow> 'k) \<Rightarrow> 'r \<Rightarrow> 'r list \<Rightarrow> 'r list" where
  "insert_or_ignore key r t = (if find_row key (key r) t = None then t @ [r] else t)"

text \<open>\<^verbatim>\<open>UPDATE ... RETURNING\<close> yields the rows it wrote; \<^verbatim>\<open>fetch_optional\<close> takes the first of them.\<close>

definition update_returning :: "('r \<Rightarrow> bool) \<Rightarrow> ('r \<Rightarrow> 'r) \<Rightarrow> 'r list \<Rightarrow> 'r list \<times> 'r list" where
  "update_returning p f t = (map f (filter p t), update_rows p f t)"

fun fetch_optional :: "'r list \<Rightarrow> 'r option" where
  "fetch_optional [] = None"
| "fetch_optional (r # rs) = Some r"

text \<open>SQLite reads a negative \<^verbatim>\<open>LIMIT\<close> as no limit.\<close>

definition sql_limit :: "int \<Rightarrow> 'r list \<Rightarrow> 'r list" where
  "sql_limit n xs = (if n < 0 then xs else take (nat n) xs)"

text \<open>SQL's remainder truncates towards zero, and is \<^verbatim>\<open>NULL\<close> for a zero divisor.\<close>

definition sql_mod :: "int \<Rightarrow> int \<Rightarrow> int option" where
  "sql_mod a b = (if b = 0 then None else Some (a smod b))"

text \<open>\<^verbatim>\<open>a || ':' || b\<close>, the way the code and its queries name an aggregate.\<close>

definition colon_join :: "string \<Rightarrow> string \<Rightarrow> string" where
  "colon_join a b = a @ '':'' @ b"

text \<open>Decimal rendering of an integer, as \<^verbatim>\<open>format!\<close> prints it.\<close>

fun show_nat :: "nat \<Rightarrow> string" where
  "show_nat n = (if n < 10 then [char_of (48 + n)] else show_nat (n div 10) @ [char_of (48 + n mod 10)])"

definition show_int :: "int \<Rightarrow> string" where
  "show_int i = (if i < 0 then ''-'' @ show_nat (nat (- i)) else show_nat (nat i))"

declare show_nat.simps [simp del]

section \<open>Lemmas on machine integers\<close>

lemma of_char_inj: "(of_char c :: 8 word) = of_char d \<Longrightarrow> c = d"
proof -
  assume "(of_char c :: 8 word) = of_char d"
  then have "(of_nat (of_char c) :: 8 word) = of_nat (of_char d)"
    by (simp add: of_nat_of_char)
  moreover have "(of_char c :: nat) < 2 ^ LENGTH(8)" "(of_char d :: nat) < 2 ^ LENGTH(8)"
    using nat_of_char_less_256 by auto
  ultimately have "(of_char c :: nat) = of_char d"
    by (simp add: word_of_nat_eq_iff take_bit_nat_eq_self)
  then show "c = d" by simp
qed

lemma as_bytes_inj: "as_bytes a = as_bytes b \<Longrightarrow> a = b"
  unfolding as_bytes_def by (rule map_injective) (auto intro: injI of_char_inj)

named_theorems i64_defs

declare i64_max_def [i64_defs] i64_min_def [i64_defs] i64_clamp_def [i64_defs]
  i64_saturating_add_def [i64_defs] i64_saturating_mul_def [i64_defs] in_i64_def [i64_defs]

lemma in_i64_clamp [simp, intro]: "in_i64 (i64_clamp x)"
  by (auto simp: i64_defs)

lemma i64_saturating_add_exact:
  "in_i64 (a + b) \<Longrightarrow> i64_saturating_add a b = a + b"
  by (auto simp: i64_defs)

lemma i64_saturating_add_ge:
  "in_i64 a \<Longrightarrow> 0 \<le> b \<Longrightarrow> a \<le> i64_saturating_add a b"
  by (auto simp: i64_defs)

lemma i64_saturating_add_mono:
  "b \<le> c \<Longrightarrow> i64_saturating_add a b \<le> i64_saturating_add a c"
  by (auto simp: i64_defs)

lemma uint_saturating_add:
  fixes a b :: "'a::len word"
  shows "uint (saturating_add a b) = min (uint a + uint b) (2 ^ LENGTH('a) - 1)"
proof (cases "uint a + uint b < 2 ^ LENGTH('a)")
  case True
  then have "uint (a + b) = uint a + uint b"
    by (simp add: uint_word_ariths)
  with True show ?thesis
    by (simp add: saturating_add_def)
next
  case False
  have "uint (- 1 :: 'a word) = 2 ^ LENGTH('a) - 1"
    by (simp add: unsigned_minus_1_eq_mask mask_eq_exp_minus_1)
  with False show ?thesis
    by (simp add: saturating_add_def)
qed

lemma uint_saturating_sub:
  fixes a b :: "'a::len word"
  shows "uint (saturating_sub a b) = max (uint a - uint b) 0"
proof (cases "b \<le> a")
  case True
  then have "uint (a - b) = uint a - uint b"
    by (simp add: uint_minus_simple_alt word_le_def)
  with True show ?thesis
    by (simp add: saturating_sub_def word_le_def)
next
  case False
  then show ?thesis
    by (simp add: saturating_sub_def word_le_def)
qed

section \<open>Lemmas on tables\<close>

named_theorems table_simps

lemma find_row_Nil [simp, table_simps]: "find_row key k [] = None"
  by (simp add: find_row_def)

lemma find_row_Cons [simp]:
  "find_row key k (r # t) = (if key r = k then Some r else find_row key k t)"
  by (simp add: find_row_def)

lemma find_row_SomeD: "find_row key k t = Some r \<Longrightarrow> r \<in> set t \<and> key r = k"
  by (induction t) (auto split: if_splits)

lemma find_row_None_iff: "find_row key k t = None \<longleftrightarrow> k \<notin> key ` set t"
  by (induction t) auto

lemma find_row_key: "find_row key k t = Some r \<Longrightarrow> k \<in> key ` set t"
  by (auto dest: find_row_SomeD)

lemma find_row_append [table_simps]:
  "find_row key k (t @ u) = (case find_row key k t of None \<Rightarrow> find_row key k u | Some r \<Rightarrow> Some r)"
  by (induction t) auto

lemma find_row_mem:
  "distinct (map key t) \<Longrightarrow> r \<in> set t \<Longrightarrow> find_row key (key r) t = Some r"
  by (induction t) (auto simp: rev_image_eqI)

lemma find_row_iff_mem:
  "distinct (map key t) \<Longrightarrow> find_row key k t = Some r \<longleftrightarrow> r \<in> set t \<and> key r = k"
  using find_row_mem find_row_SomeD by fastforce

lemma list_all_iff_find_row:
  "distinct (map key t) \<Longrightarrow> list_all P t \<longleftrightarrow> (\<forall>k r. find_row key k t = Some r \<longrightarrow> P r)"
  by (auto simp: list_all_iff find_row_iff_mem)

lemma update_rows_Nil [simp]: "update_rows p f [] = []"
  by (simp add: update_rows_def)

lemma update_rows_Cons [simp]:
  "update_rows p f (r # t) = (if p r then f r else r) # update_rows p f t"
  by (simp add: update_rows_def)

lemma set_update_rows: "set (update_rows p f t) = (\<lambda>r. if p r then f r else r) ` set t"
  by (simp add: update_rows_def)

lemma length_update_rows [simp]: "length (update_rows p f t) = length t"
  by (simp add: update_rows_def)

lemma update_rows_id: "(\<And>r. r \<in> set t \<Longrightarrow> \<not> p r) \<Longrightarrow> update_rows p f t = t"
  by (induction t) auto

lemma map_update_rows:
  "(\<And>r. p r \<Longrightarrow> g (f r) = g r) \<Longrightarrow> map g (update_rows p f t) = map g t"
  by (induction t) auto

lemma find_row_update_rows [table_simps]:
  "(\<And>r. p r \<Longrightarrow> key (f r) = key r) \<Longrightarrow>
   find_row key k (update_rows p f t) = map_option (\<lambda>r. if p r then f r else r) (find_row key k t)"
  by (induction t) auto

lemma list_all_update_rows:
  "list_all P t \<Longrightarrow> (\<And>r. p r \<Longrightarrow> P r \<Longrightarrow> P (f r)) \<Longrightarrow> list_all P (update_rows p f t)"
  by (induction t) auto

lemma list_all_delete_rows: "list_all P t \<Longrightarrow> list_all P (delete_rows p t)"
  by (induction t) (auto simp: delete_rows_def)

lemma set_delete_rows: "set (delete_rows p t) = {r \<in> set t. \<not> p r}"
  by (simp add: delete_rows_def)

lemma distinct_delete_rows: "distinct (map key t) \<Longrightarrow> distinct (map key (delete_rows p t))"
  by (simp add: delete_rows_def distinct_map_filter)

lemma find_row_delete_rows [table_simps]:
  "distinct (map key t) \<Longrightarrow>
   find_row key k (delete_rows p t) =
     (case find_row key k t of None \<Rightarrow> None | Some r \<Rightarrow> if p r then None else Some r)"
  by (induction t)
    (auto simp: delete_rows_def find_row_None_iff dest: find_row_key split: option.splits)

lemma count_rows_pos: "0 < count_rows p t \<longleftrightarrow> (\<exists>r \<in> set t. p r)"
  by (auto simp: count_rows_def filter_empty_conv)

lemma count_rows_0: "count_rows p t = 0 \<longleftrightarrow> (\<forall>r \<in> set t. \<not> p r)"
  by (auto simp: count_rows_def filter_empty_conv)

lemma count_rows_key_pos:
  "distinct (map key t) \<Longrightarrow>
   0 < count_rows (\<lambda>r. key r = k \<and> q r) t \<longleftrightarrow> (\<exists>r. find_row key k t = Some r \<and> q r)"
  by (auto simp: count_rows_pos find_row_iff_mem)

lemma count_rows_update_same:
  "(\<And>r. p r \<Longrightarrow> q (f r) = q r) \<Longrightarrow> count_rows q (update_rows p f t) = count_rows q t"
  by (induction t) (auto simp: count_rows_def)

lemma count_rows_update_le:
  "(\<And>r. p r \<Longrightarrow> q (f r) \<Longrightarrow> q r) \<Longrightarrow> count_rows q (update_rows p f t) \<le> count_rows q t"
  by (induction t) (auto simp: count_rows_def)

lemma count_rows_update_less:
  "(\<And>r. p r \<Longrightarrow> \<not> q (f r)) \<Longrightarrow> (\<And>r. p r \<Longrightarrow> q r) \<Longrightarrow> \<exists>r \<in> set t. p r \<Longrightarrow>
   count_rows q (update_rows p f t) < count_rows q t"
proof (induction t)
  case (Cons a t)
  have "count_rows q (update_rows p f t) \<le> count_rows q t"
    using Cons.prems(1) by (intro count_rows_update_le) blast
  with Cons show ?case by (auto simp: count_rows_def)
qed simp

lemma ex_update_rows:
  "(\<And>r. p r \<Longrightarrow> q (f r) = q r) \<Longrightarrow> (\<exists>r \<in> set (update_rows p f t). q r) \<longleftrightarrow> (\<exists>r \<in> set t. q r)"
  by (induction t) auto

lemma insert_or_ignore_distinct:
  "distinct (map key t) \<Longrightarrow> distinct (map key (insert_or_ignore key r t))"
  by (auto simp: insert_or_ignore_def find_row_None_iff)

lemma find_row_insert_or_ignore [table_simps]:
  "find_row key k (insert_or_ignore key r t) =
     (case find_row key k t of None \<Rightarrow> if key r = k then Some r else None | Some r' \<Rightarrow> Some r')"
  by (auto simp: insert_or_ignore_def find_row_append split: option.splits)

lemma list_all_insert_or_ignore:
  "list_all P t \<Longrightarrow> P r \<Longrightarrow> list_all P (insert_or_ignore key r t)"
  by (simp add: insert_or_ignore_def)

lemma filter_key_find_row:
  "distinct (map key t) \<Longrightarrow>
   filter (\<lambda>r. key r = k \<and> q r) t =
     (case find_row key k t of None \<Rightarrow> [] | Some r \<Rightarrow> if q r then [r] else [])"
proof (induction t)
  case (Cons a t)
  have "filter (\<lambda>r. key r = key a \<and> q r) t = []"
    using Cons.prems by (auto simp: filter_empty_conv) (metis imageI)
  with Cons show ?case by auto
qed simp

lemma fetch_optional_update_returning:
  "distinct (map key t) \<Longrightarrow>
   fetch_optional (fst (update_returning (\<lambda>r. key r = k \<and> q r) f t)) =
     (case find_row key k t of None \<Rightarrow> None | Some r \<Rightarrow> if q r then Some (f r) else None)"
  by (simp add: update_returning_def filter_key_find_row split: option.split)

lemma set_sql_limit: "set (sql_limit n xs) \<subseteq> set xs"
  by (auto simp: sql_limit_def dest: in_set_takeD)

lemma length_sql_limit: "0 \<le> n \<Longrightarrow> int (length (sql_limit n xs)) \<le> n"
  by (simp add: sql_limit_def)

lemma distinct_sql_limit: "distinct xs \<Longrightarrow> distinct (sql_limit n xs)"
  by (simp add: sql_limit_def)

lemma sql_mod_nonneg: "0 \<le> a \<Longrightarrow> 0 < b \<Longrightarrow> sql_mod a b = Some (a mod b)"
  by (simp add: sql_mod_def smod_mod_positive)

lemma fold_related:
  "(\<And>s. R s s) \<Longrightarrow> (\<And>a b c. R a b \<Longrightarrow> R b c \<Longrightarrow> R a c) \<Longrightarrow> (\<And>x s. R s (f x s)) \<Longrightarrow> R s (fold f xs s)"
  by (induction xs arbitrary: s) (simp, metis fold_simps(2))

section \<open>Row life cycles\<close>

text \<open>
  A keyed table together with the operations that may change it. \<^verbatim>\<open>le\<close> is what an operation may
  do to one row: identity columns stay, terminal states stay, counters only grow. A row that is in
  the table then stays there and evolves along \<^verbatim>\<open>le\<close> through any sequence of operations.
\<close>

locale row_lifecycle =
  fixes lookup :: "'t \<Rightarrow> 'k \<Rightarrow> 'r option"
    and inv :: "'t \<Rightarrow> bool"
    and step :: "'t \<Rightarrow> 't \<Rightarrow> bool"
    and le :: "'r \<Rightarrow> 'r \<Rightarrow> bool"
  assumes inv_step: "inv t \<Longrightarrow> step t t' \<Longrightarrow> inv t'"
    and row_step: "inv t \<Longrightarrow> step t t' \<Longrightarrow> lookup t k = Some r \<Longrightarrow> \<exists>r'. lookup t' k = Some r' \<and> le r r'"
    and le_refl: "le r r"
    and le_trans: "le r1 r2 \<Longrightarrow> le r2 r3 \<Longrightarrow> le r1 r3"
begin

lemma inv_steps: "step\<^sup>*\<^sup>* t t' \<Longrightarrow> inv t \<Longrightarrow> inv t'"
  by (induction rule: rtranclp_induct) (auto intro: inv_step)

lemma row_steps:
  "step\<^sup>*\<^sup>* t t' \<Longrightarrow> inv t \<Longrightarrow> lookup t k = Some r \<Longrightarrow> \<exists>r'. lookup t' k = Some r' \<and> le r r'"
proof (induction rule: rtranclp_induct)
  case base
  then show ?case using le_refl by blast
next
  case (step t1 t2)
  then obtain r1 where "lookup t1 k = Some r1" "le r r1" by blast
  moreover have "inv t1" using step inv_steps by blast
  ultimately show ?case using row_step [OF _ step.hyps(2)] le_trans by blast
qed

lemma final_steps:
  assumes "step\<^sup>*\<^sup>* t t'" and "inv t" and "lookup t k = Some r" and "final r"
    and "\<And>r1 r2. final r1 \<Longrightarrow> le r1 r2 \<Longrightarrow> final r2"
  shows "\<exists>r'. lookup t' k = Some r' \<and> final r' \<and> le r r'"
  using row_steps [OF assms(1-3)] assms(4,5) by blast

end

end
