(* ===== verification/EngineConfig.thy ===== *)
theory EngineConfig
  imports Prelude
begin

text \<open>
  The tuning knobs of the execution engine (\<^verbatim>\<open>src/crates/engine/src/config.rs\<close>): the retry schedules
  and the configuration record with its defaults. A \<^verbatim>\<open>Duration\<close> is its number of nanoseconds.

  The interface \<^verbatim>\<open>retry_schedule\<close> is what the worker, the publisher, the executor and the poison
  bookkeeping rely on: a delay is never negative, never above a cap, and never shrinks with the
  number of attempts. It is interpreted on the four schedules of the default configuration.
\<close>

section \<open>Definitions\<close>

datatype Backoff = Steps "int list" | Doubling int int

text \<open>
  \<^verbatim>\<open>attempt\<close> is an \<^verbatim>\<open>i64\<close>, so \<^verbatim>\<open>attempt - 1\<close> is below \<^verbatim>\<open>usize::MAX\<close> and the fallible conversion of the
  step index always succeeds; the conversion to \<^verbatim>\<open>u32\<close> may fail, and its fallback is cut to 30.
\<close>

definition delay :: "Backoff \<Rightarrow> int \<Rightarrow> int" where
  "delay b attempt0 =
     (let attempt = max attempt0 1 in
      case b of
        Steps steps \<Rightarrow>
          if steps = [] then 0
          else steps ! min (nat (attempt - 1)) (length steps - 1)
      | Doubling base cap \<Rightarrow>
          let shift = min (if attempt - 1 < 2 ^ 32 then attempt - 1 else 2 ^ 32 - 1) 30 in
          min (i64_saturating_mul base (2 ^ nat shift)) cap)"

type_synonym duration = nat

definition from_secs :: "nat \<Rightarrow> duration" where
  "from_secs n = n * 1000000000"

definition as_secs :: "duration \<Rightarrow> nat" where
  "as_secs d = d div 1000000000"

text \<open>The cast \<^verbatim>\<open>as i64\<close> of a \<^verbatim>\<open>u64\<close>.\<close>

definition i64_of_u64 :: "nat \<Rightarrow> int" where
  "i64_of_u64 n = (if n < 2 ^ 63 then int n else int n - 2 ^ 64)"

record engine_config =
  worker_count :: nat
  thread_stack_bytes :: nat
  apply_timeout :: duration
  worker_poll_interval :: duration
  recheck_interval :: duration
  inbox_retry_backoff :: Backoff
  outbox_backoff :: Backoff
  outbox_batch :: int
  outbox_lease_secs :: int
  outbox_poll_interval :: duration
  job_lease_secs :: int
  job_lease_renew_interval :: duration
  job_retry_backoff :: Backoff
  job_poll_interval :: duration
  poison_backoff :: Backoff
  cpu_pool_slots :: nat
  pegout_pool_slots :: nat
  network_pool_slots :: nat
  ack_channel_capacity :: nat
  terminal_retention_secs :: int
  housekeeping_interval :: duration

definition default_engine_config :: engine_config where
  "default_engine_config = \<lparr>
     worker_count = 1,
     thread_stack_bytes = 32 * 1024 * 1024,
     apply_timeout = from_secs 120,
     worker_poll_interval = from_secs 1,
     recheck_interval = from_secs 60,
     inbox_retry_backoff = Steps [10, 30, 60, 120, 300, 600],
     outbox_backoff = Doubling 30 600,
     outbox_batch = 16,
     outbox_lease_secs = 60,
     outbox_poll_interval = from_secs 1,
     job_lease_secs = 300,
     job_lease_renew_interval = from_secs 60,
     job_retry_backoff = Steps [10, 30, 60, 120, 300, 600],
     job_poll_interval = from_secs 1,
     poison_backoff = Steps [0, 600, 3600, 6 * 3600, 24 * 3600],
     cpu_pool_slots = 1,
     pegout_pool_slots = 1,
     network_pool_slots = 4,
     ack_channel_capacity = 256,
     terminal_retention_secs = 15 * 24 * 60 * 60,
     housekeeping_interval = from_secs (60 * 60) \<rparr>"

definition waiting_recheck_secs :: "engine_config \<Rightarrow> int" where
  "waiting_recheck_secs c = i64_of_u64 (max (as_secs (recheck_interval c)) 1)"

text \<open>A schedule in the shape the engine is configured with: delays are not negative and do not shrink.\<close>

fun backoff_ok :: "Backoff \<Rightarrow> bool" where
  "backoff_ok (Steps steps) \<longleftrightarrow> sorted steps \<and> list_all (\<lambda>s. 0 \<le> s) steps"
| "backoff_ok (Doubling base cap) \<longleftrightarrow> 0 \<le> base \<and> 0 \<le> cap"

fun backoff_cap :: "Backoff \<Rightarrow> int" where
  "backoff_cap (Steps steps) = (if steps = [] then 0 else last steps)"
| "backoff_cap (Doubling base cap) = cap"

section \<open>The interface of a retry schedule\<close>

locale retry_schedule =
  fixes d :: "int \<Rightarrow> int"
    and limit :: int
  assumes nonneg: "0 \<le> d n"
    and le_limit: "d n \<le> limit"
    and mono: "m \<le> n \<Longrightarrow> d m \<le> d n"
begin

lemma retry_not_before: "now \<le> now + d n"
  using nonneg by simp

lemma retry_window: "now + d n \<in> {now .. now + limit}"
  using nonneg le_limit by simp

lemma retry_later: "m \<le> n \<Longrightarrow> now \<le> now' \<Longrightarrow> now + d m \<le> now' + d n"
  using mono by (simp add: add_mono)

end

section \<open>The schedules satisfy it\<close>

lemma delay_Steps:
  "steps \<noteq> [] \<Longrightarrow> delay (Steps steps) n = steps ! min (nat (max n 1 - 1)) (length steps - 1)"
  by (simp add: delay_def Let_def)

lemma delay_Doubling:
  "delay (Doubling b c) n = min (i64_saturating_mul b (2 ^ nat (min (max n 1 - 1) 30))) c"
proof -
  have "min (if a < 2 ^ 32 then a else 2 ^ 32 - 1) 30 = min a (30::int)" for a
    by simp
  then show ?thesis
    by (simp only: delay_def Let_def Backoff.case)
qed

lemma delay_Steps_mono:
  assumes "sorted steps" "m \<le> n"
  shows "delay (Steps steps) m \<le> delay (Steps steps) n"
proof (cases "steps = []")
  case True
  then show ?thesis by (simp add: delay_def)
next
  case False
  then have "min (nat (max n 1 - 1)) (length steps - 1) < length steps"
    by (cases steps) auto
  with False assms show ?thesis
    by (simp add: delay_Steps) (rule sorted_nth_mono; simp add: min.coboundedI1)
qed

lemma i64_saturating_mul_mono:
  "0 \<le> a \<Longrightarrow> b \<le> c \<Longrightarrow> i64_saturating_mul a b \<le> i64_saturating_mul a c"
  using mult_left_mono [of b c a] by (auto simp: i64_defs)

lemma i64_saturating_mul_nonneg: "0 \<le> a \<Longrightarrow> 0 \<le> b \<Longrightarrow> 0 \<le> i64_saturating_mul a b"
  by (simp add: i64_defs le_max_iff_disj)

lemma delay_mono: "backoff_ok b \<Longrightarrow> m \<le> n \<Longrightarrow> delay b m \<le> delay b n"
proof (cases b)
  case (Steps x1)
  then show "backoff_ok b \<Longrightarrow> m \<le> n \<Longrightarrow> ?thesis" by (simp add: delay_Steps_mono)
next
  case (Doubling x y)
  then show "backoff_ok b \<Longrightarrow> m \<le> n \<Longrightarrow> ?thesis"
    by (auto simp only: delay_Doubling backoff_ok.simps
        intro!: min.mono i64_saturating_mul_mono power_increasing nat_mono max.mono diff_right_mono)
qed

lemma delay_nonneg: "backoff_ok b \<Longrightarrow> 0 \<le> delay b n"
  by (cases b)
    (auto simp: delay_Doubling i64_saturating_mul_nonneg delay_def Let_def list_all_length min_less_iff_disj)

lemma delay_le_cap: "backoff_ok b \<Longrightarrow> delay b n \<le> backoff_cap b"
proof (cases b)
  case (Steps steps)
  assume "backoff_ok b"
  show ?thesis
  proof (cases "steps = []")
    case True
    with Steps show ?thesis by (simp add: delay_def)
  next
    case False
    with Steps \<open>backoff_ok b\<close> show ?thesis
      by (simp add: delay_Steps last_conv_nth) (rule sorted_nth_mono; simp)
  qed
qed (simp add: delay_Doubling)

lemma retry_schedule_delay: "backoff_ok b \<Longrightarrow> retry_schedule (delay b) (backoff_cap b)"
  by unfold_locales (auto intro: delay_nonneg delay_le_cap delay_mono)

interpretation inbox_retry: retry_schedule "delay (inbox_retry_backoff default_engine_config)" 600
  using retry_schedule_delay [of "inbox_retry_backoff default_engine_config"]
  by (simp add: default_engine_config_def)

interpretation outbox_retry: retry_schedule "delay (outbox_backoff default_engine_config)" 600
  using retry_schedule_delay [of "outbox_backoff default_engine_config"]
  by (simp add: default_engine_config_def)

interpretation job_retry: retry_schedule "delay (job_retry_backoff default_engine_config)" 600
  using retry_schedule_delay [of "job_retry_backoff default_engine_config"]
  by (simp add: default_engine_config_def)

interpretation poison_retry: retry_schedule "delay (poison_backoff default_engine_config)" 86400
  using retry_schedule_delay [of "poison_backoff default_engine_config"]
  by (simp add: default_engine_config_def)

lemma waiting_recheck_secs_pos:
  "recheck_interval c < 2 ^ 63 * 1000000000 \<Longrightarrow> 1 \<le> waiting_recheck_secs c"
  by (auto simp: waiting_recheck_secs_def i64_of_u64_def as_secs_def less_mult_imp_div_less)

end
