(* ===== verification/EngineAggregates.thy ===== *)
theory EngineAggregates
  imports EngineConfig
begin

text \<open>
  The aggregate and poison tables of the engine's store
  (\<^verbatim>\<open>src/crates/store/src/engine/mod.rs\<close>, sections on aggregates).

  An aggregate row carries the status, the phase and the opaque state its handler keeps, and a
  version that every committed apply bumps. A poison row holds an action (a job action or an event
  kind) of an aggregate back after a panic. The lemmas show that the upsert always returns the row
  it wrote and touches no other row, that versions only grow, that the poison count is the number
  of consecutive poisons and grows the hold monotonically, and that a release starts it over.
\<close>

section \<open>Aggregate rows\<close>

record engine_aggregate =
  ag_kind :: string
  ag_id :: string
  ag_status :: string
  ag_phase :: string
  ag_state :: "string option"
  ag_version :: int
  ag_last_event_id :: "string option"
  ag_created_at :: int
  ag_updated_at :: int

record engine_aggregate_update =
  au_status :: "string option"
  au_phase :: "string option"
  au_state :: "string option option"
  au_last_event_id :: "string option"

definition ag_key :: "engine_aggregate \<Rightarrow> string \<times> string" where
  "ag_key r = (ag_kind r, ag_id r)"

definition find_engine_aggregate ::
  "string \<Rightarrow> string \<Rightarrow> engine_aggregate list \<Rightarrow> engine_aggregate option" where
  "find_engine_aggregate kind id' t = find_row ag_key (kind, id') t"

definition new_engine_aggregate :: "string \<Rightarrow> string \<Rightarrow> int \<Rightarrow> engine_aggregate" where
  "new_engine_aggregate kind id' now = \<lparr>
     ag_kind = kind, ag_id = id', ag_status = '''', ag_phase = '''', ag_state = None,
     ag_version = 0, ag_last_event_id = None, ag_created_at = now, ag_updated_at = now \<rparr>"

definition apply_aggregate_update ::
  "engine_aggregate_update \<Rightarrow> int \<Rightarrow> engine_aggregate \<Rightarrow> engine_aggregate" where
  "apply_aggregate_update u now r = r\<lparr>
     ag_version := ag_version r + 1,
     ag_updated_at := now,
     ag_status := (case au_status u of None \<Rightarrow> ag_status r | Some s \<Rightarrow> s),
     ag_phase := (case au_phase u of None \<Rightarrow> ag_phase r | Some p \<Rightarrow> p),
     ag_state := (case au_state u of None \<Rightarrow> ag_state r | Some s \<Rightarrow> s),
     ag_last_event_id := (case au_last_event_id u of None \<Rightarrow> ag_last_event_id r | Some e \<Rightarrow> Some e) \<rparr>"

text \<open>\<^verbatim>\<open>Inl\<close> is the error the code reports when the row it just wrote cannot be read back.\<close>

definition upsert_engine_aggregate ::
  "string \<Rightarrow> string \<Rightarrow> engine_aggregate_update \<Rightarrow> int \<Rightarrow> engine_aggregate list \<Rightarrow>
   (string + engine_aggregate) \<times> engine_aggregate list" where
  "upsert_engine_aggregate kind id' u now t =
     (let t1 = insert_or_ignore ag_key (new_engine_aggregate kind id' now) t;
          t2 = update_rows (\<lambda>r. ag_key r = (kind, id')) (apply_aggregate_update u now) t1
      in (case find_engine_aggregate kind id' t2 of
            None \<Rightarrow> Inl (''engine aggregate '' @ colon_join kind id' @ '' vanished'')
          | Some r \<Rightarrow> Inr r,
          t2))"

section \<open>Poison rows\<close>

record engine_poison =
  po_kind :: string
  po_id :: string
  po_action :: string
  po_reason :: string
  po_count :: int
  po_poisoned_at :: int
  po_blocked_until :: int

text \<open>The table has one more column than the struct the queries return.\<close>

record poison_row = engine_poison +
  po_updated_at :: int

definition po_key :: "poison_row \<Rightarrow> string \<times> string \<times> string" where
  "po_key r = (po_kind r, po_id r, po_action r)"

definition to_engine_poison :: "poison_row \<Rightarrow> engine_poison" where
  "to_engine_poison r = engine_poison.truncate r"

definition mark_engine_aggregate_poisoned ::
  "string \<Rightarrow> string \<Rightarrow> string \<Rightarrow> string \<Rightarrow> int \<Rightarrow> (int \<Rightarrow> int) \<Rightarrow> poison_row list \<Rightarrow>
   engine_poison \<times> poison_row list" where
  "mark_engine_aggregate_poisoned kind id' action reason now backoff_secs t =
     (let k = (kind, id', action);
          t1 = (case find_row po_key k t of
                  None \<Rightarrow> t @ [\<lparr> po_kind = kind, po_id = id', po_action = action, po_reason = reason,
                               po_count = 1, po_poisoned_at = now, po_blocked_until = now,
                               po_updated_at = now \<rparr>]
                | Some _ \<Rightarrow> update_rows (\<lambda>r. po_key r = k)
                    (\<lambda>r. r\<lparr> po_reason := reason, po_count := po_count r + 1,
                           po_poisoned_at := now, po_updated_at := now \<rparr>) t);
          poison_count = (case find_row po_key k t of None \<Rightarrow> 1 | Some r \<Rightarrow> po_count r + 1);
          blocked_until = i64_saturating_add now (max (backoff_secs poison_count) 0);
          t2 = update_rows (\<lambda>r. po_key r = k) (\<lambda>r. r\<lparr> po_blocked_until := blocked_until \<rparr>) t1
      in (\<lparr> po_kind = kind, po_id = id', po_action = action, po_reason = reason,
            po_count = poison_count, po_poisoned_at = now, po_blocked_until = blocked_until \<rparr>,
          t2))"

definition release_engine_poison ::
  "string \<Rightarrow> string \<Rightarrow> string \<Rightarrow> poison_row list \<Rightarrow> bool \<times> poison_row list" where
  "release_engine_poison kind id' action t =
     (let p = (\<lambda>r. po_key r = (kind, id', action))
      in (0 < count_rows p t, delete_rows p t))"

definition clear_engine_aggregate_poison ::
  "string \<Rightarrow> string \<Rightarrow> string option \<Rightarrow> poison_row list \<Rightarrow> nat \<times> poison_row list" where
  "clear_engine_aggregate_poison kind id' action t =
     (let p = (\<lambda>r. po_kind r = kind \<and> po_id r = id' \<and>
                   (case action of None \<Rightarrow> True | Some a \<Rightarrow> po_action r = a))
      in (count_rows p t, delete_rows p t))"

definition list_engine_poisons ::
  "(string \<times> string) option \<Rightarrow> int \<Rightarrow> poison_row list \<Rightarrow> engine_poison list" where
  "list_engine_poisons agg limit t =
     map to_engine_poison (sql_limit limit
       (sort_key (\<lambda>r. (po_poisoned_at r, po_kind r, po_id r, po_action r))
         (filter (\<lambda>r. case agg of None \<Rightarrow> True | Some (kind, id') \<Rightarrow> po_kind r = kind \<and> po_id r = id') t)))"

text \<open>
  The sub-query \<^verbatim>\<open>EXISTS (SELECT 1 FROM engine_aggregate_poison p WHERE ... AND p.blocked_until > ?)\<close>
  shared by the selection of runnable events and of claimable jobs.
\<close>

definition poison_blocks ::
  "poison_row list \<Rightarrow> string \<Rightarrow> string \<Rightarrow> string \<Rightarrow> int \<Rightarrow> bool" where
  "poison_blocks t kind id' action now \<longleftrightarrow>
     list_ex (\<lambda>p. po_key p = (kind, id', action) \<and> now < po_blocked_until p) t"

section \<open>Invariants and steps\<close>

definition aggregates_inv :: "engine_aggregate list \<Rightarrow> bool" where
  "aggregates_inv t \<longleftrightarrow> distinct (map ag_key t) \<and> list_all (\<lambda>r. 0 \<le> ag_version r) t"

definition poisons_inv :: "poison_row list \<Rightarrow> bool" where
  "poisons_inv t \<longleftrightarrow> distinct (map po_key t) \<and>
     list_all (\<lambda>r. 1 \<le> po_count r \<and> po_poisoned_at r \<le> po_blocked_until r) t"

inductive aggregate_step :: "engine_aggregate list \<Rightarrow> engine_aggregate list \<Rightarrow> bool" where
  upsert: "aggregate_step t (snd (upsert_engine_aggregate kind id' u now t))"

definition aggregate_le :: "engine_aggregate \<Rightarrow> engine_aggregate \<Rightarrow> bool" where
  "aggregate_le r r' \<longleftrightarrow> ag_key r' = ag_key r \<and> ag_created_at r' = ag_created_at r \<and>
     ag_version r \<le> ag_version r'"

section \<open>Lemmas on aggregates\<close>

lemma ag_key_apply [simp]: "ag_key (apply_aggregate_update u now r) = ag_key r"
  by (simp add: ag_key_def apply_aggregate_update_def)

lemma ag_key_new [simp]: "ag_key (new_engine_aggregate k i now) = (k, i)"
  by (simp add: ag_key_def new_engine_aggregate_def)

lemma find_upsert:
  "find_engine_aggregate k i (snd (upsert_engine_aggregate kind id' u now t)) =
     (if (k, i) = (kind, id')
      then Some (apply_aggregate_update u now
             (case find_engine_aggregate kind id' t of
                None \<Rightarrow> new_engine_aggregate kind id' now | Some r \<Rightarrow> r))
      else find_engine_aggregate k i t)"
proof -
  have "find_row ag_key (k, i) t = Some r \<Longrightarrow> ag_key r = (k, i)" for r
    by (auto dest: find_row_SomeD)
  then show ?thesis
    by (auto simp: upsert_engine_aggregate_def find_engine_aggregate_def Let_def table_simps
        split: option.splits)
qed

lemma upsert_result:
  "fst (upsert_engine_aggregate kind id' u now t) =
     Inr (apply_aggregate_update u now
       (case find_engine_aggregate kind id' t of
          None \<Rightarrow> new_engine_aggregate kind id' now | Some r \<Rightarrow> r))"
  using find_upsert [of kind id' kind id' u now t]
  by (simp add: upsert_engine_aggregate_def Let_def)

lemma aggregates_inv_upsert:
  "aggregates_inv t \<Longrightarrow> aggregates_inv (snd (upsert_engine_aggregate kind id' u now t))"
  unfolding aggregates_inv_def upsert_engine_aggregate_def Let_def snd_conv
proof (intro conjI list_all_update_rows list_all_insert_or_ignore, goal_cases)
  case 1
  then show ?case by (simp add: map_update_rows insert_or_ignore_distinct)
qed (simp_all add: new_engine_aggregate_def apply_aggregate_update_def)

lemma aggregate_le_apply: "aggregate_le r (apply_aggregate_update u now r)"
  by (simp add: aggregate_le_def) (simp add: apply_aggregate_update_def)

interpretation aggregates: row_lifecycle
  "\<lambda>t (k, i). find_engine_aggregate k i t" aggregates_inv aggregate_step aggregate_le
proof (standard, goal_cases)
  case (1 t t')
  then show ?case by (auto elim!: aggregate_step.cases intro: aggregates_inv_upsert)
next
  case (2 t t' k r)
  then show ?case
    by (cases k) (auto elim!: aggregate_step.cases simp: find_upsert aggregate_le_apply,
        auto simp: aggregate_le_def)
qed (auto simp: aggregate_le_def)

section \<open>Lemmas on poisons\<close>

lemma po_key_simps [simp]:
  "po_key (r\<lparr>po_reason := a, po_count := b, po_poisoned_at := c, po_updated_at := d\<rparr>) = po_key r"
  "po_key (r\<lparr>po_blocked_until := e\<rparr>) = po_key r"
  by (simp_all add: po_key_def)

definition poison_count_of :: "string \<Rightarrow> string \<Rightarrow> string \<Rightarrow> poison_row list \<Rightarrow> int" where
  "poison_count_of kind id' action t =
     (case find_row po_key (kind, id', action) t of None \<Rightarrow> 0 | Some r \<Rightarrow> po_count r)"

lemma mark_poisoned_result:
  "fst (mark_engine_aggregate_poisoned kind id' action reason now f t) =
     \<lparr> po_kind = kind, po_id = id', po_action = action, po_reason = reason,
       po_count = poison_count_of kind id' action t + 1, po_poisoned_at = now,
       po_blocked_until =
         i64_saturating_add now (max (f (poison_count_of kind id' action t + 1)) 0) \<rparr>"
  by (simp add: mark_engine_aggregate_poisoned_def Let_def poison_count_of_def split: option.split)

lemma find_mark_poisoned:
  "find_row po_key k (snd (mark_engine_aggregate_poisoned kind id' action reason now f t)) =
     (if k = (kind, id', action)
      then Some \<lparr> po_kind = kind, po_id = id', po_action = action, po_reason = reason,
             po_count = poison_count_of kind id' action t + 1, po_poisoned_at = now,
             po_blocked_until =
               i64_saturating_add now (max (f (poison_count_of kind id' action t + 1)) 0),
             po_updated_at = now \<rparr>
      else find_row po_key k t)"
proof -
  have key: "find_row po_key k t = Some r \<Longrightarrow> po_key r = k" for r
    by (auto dest: find_row_SomeD)
  show ?thesis
  proof (cases "find_row po_key (kind, id', action) t")
    case None
    with key show ?thesis
      by (auto simp: mark_engine_aggregate_poisoned_def Let_def table_simps poison_count_of_def
          po_key_def split: option.split)
  next
    case (Some r)
    then have "po_key r = (kind, id', action)"
      by (auto dest: find_row_SomeD)
    with Some key show ?thesis
      by (cases r; cases "find_row po_key k t"; cases "k = (kind, id', action)")
        (simp_all add: mark_engine_aggregate_poisoned_def Let_def table_simps poison_count_of_def,
          simp_all add: po_key_def)
  qed
qed

lemma distinct_mark_poisoned:
  "distinct (map po_key t) \<Longrightarrow>
   distinct (map po_key (snd (mark_engine_aggregate_poisoned kind id' action reason now f t)))"
  by (auto simp: mark_engine_aggregate_poisoned_def Let_def map_update_rows find_row_None_iff
      po_key_def split: option.split)

lemma poisons_inv_iff_find:
  "poisons_inv t \<longleftrightarrow> distinct (map po_key t) \<and>
     (\<forall>k r. find_row po_key k t = Some r \<longrightarrow> 1 \<le> po_count r \<and> po_poisoned_at r \<le> po_blocked_until r)"
  unfolding poisons_inv_def by (intro conj_cong refl list_all_iff_find_row)

lemma poisons_inv_mark:
  assumes "poisons_inv t" "in_i64 now"
  shows "poisons_inv (snd (mark_engine_aggregate_poisoned kind id' action reason now f t))"
proof -
  have "0 \<le> poison_count_of kind id' action t"
    using assms by (auto simp: poison_count_of_def poisons_inv_iff_find split: option.split)
      (metis zero_le_one order_trans)
  moreover have "now \<le> i64_saturating_add now (max x 0)" for x
    using assms(2) by (simp add: i64_saturating_add_ge)
  ultimately show ?thesis
    using assms(1) unfolding poisons_inv_iff_find
    by (auto simp: find_mark_poisoned distinct_mark_poisoned split: if_splits)
qed

lemma poisons_inv_delete: "poisons_inv t \<Longrightarrow> poisons_inv (delete_rows p t)"
  by (simp add: poisons_inv_def distinct_delete_rows list_all_delete_rows)

lemma poisons_inv_release:
  "poisons_inv t \<Longrightarrow> poisons_inv (snd (release_engine_poison kind id' action t))"
  by (simp add: release_engine_poison_def Let_def poisons_inv_delete)

lemma poisons_inv_clear:
  "poisons_inv t \<Longrightarrow> poisons_inv (snd (clear_engine_aggregate_poison kind id' action t))"
  by (simp add: clear_engine_aggregate_poison_def Let_def poisons_inv_delete)

lemma poison_blocks_iff:
  "distinct (map po_key t) \<Longrightarrow>
   poison_blocks t kind id' action now \<longleftrightarrow>
     (\<exists>r. find_row po_key (kind, id', action) t = Some r \<and> now < po_blocked_until r)"
  by (auto simp: poison_blocks_def list_ex_iff find_row_iff_mem)

lemma release_unblocks:
  "\<not> poison_blocks (snd (release_engine_poison kind id' action t)) kind id' action now"
  by (auto simp: poison_blocks_def release_engine_poison_def Let_def list_ex_iff set_delete_rows)

lemma release_other:
  "(k, i, a) \<noteq> (kind, id', action) \<Longrightarrow>
   poison_blocks (snd (release_engine_poison kind id' action t)) k i a now = poison_blocks t k i a now"
  by (auto simp: poison_blocks_def release_engine_poison_def Let_def list_ex_iff set_delete_rows)

end
