(* ===== verification/EngineInbox.thy ===== *)
theory EngineInbox
  imports EngineAggregates
begin

text \<open>
  The inbox table of the engine's store (\<^verbatim>\<open>src/crates/store/src/engine/mod.rs\<close>, inbox and quota
  sections). Every query is one definition. The \<^verbatim>\<open>state\<close> column is typed by the enum whose
  \<^verbatim>\<open>Display\<close> strings are the only values the queries write, so the parse error of an unknown state
  has no counterpart. \<^verbatim>\<open>seq\<close> is an \<^verbatim>\<open>AUTOINCREMENT\<close> key: larger than every key ever used.

  The lemmas show the invariant of the table (one row per event id, keys in arrival order, payload
  present exactly while the event is not applied, parked rows pending), that each query keeps it,
  that applied and poisoned rows never change again, and that selection is first-in first-out among
  the runnable events of a shard.
\<close>

section \<open>Data\<close>

datatype EngineInboxState = InboxPending | InboxApplied | InboxFailed | InboxPoisoned

record engine_ack_target =
  ack_peer :: string
  ack_delivery_id :: string

record new_engine_inbox_event =
  ne_event_id :: string
  ne_aggregate_kind :: string
  ne_aggregate_id :: string
  ne_kind :: string
  ne_source :: string
  ne_author :: string
  ne_admission_class :: string
  ne_payload :: bytes
  ne_ack :: "engine_ack_target option"

datatype EngineInboxInsert =
    Inserted int
  | Duplicate EngineInboxState bool bool

record engine_inbox_event =
  ie_seq :: int
  ie_event_id :: string
  ie_aggregate_kind :: string
  ie_aggregate_id :: string
  ie_shard_key :: int
  ie_kind :: string
  ie_source :: string
  ie_author :: string
  ie_admission_class :: string
  ie_payload :: "bytes option"
  ie_payload_size :: int
  ie_state :: EngineInboxState
  ie_attempts :: int
  ie_next_at :: int
  ie_waiting_ref :: "string option"
  ie_waiting_detail :: "string option"
  ie_ack_peer :: "string option"
  ie_ack_delivery_id :: "string option"
  ie_last_error :: "string option"
  ie_created_at :: int
  ie_updated_at :: int
  ie_applied_at :: "int option"

record inbox_table =
  it_rows :: "engine_inbox_event list"
  it_last_seq :: int

record engine_waiting_event =
  we_event_id :: string
  we_aggregate_kind :: string
  we_aggregate_id :: string
  we_kind :: string
  we_waiting_ref :: string
  we_waiting_detail :: "string option"
  we_next_at :: int
  we_created_at :: int
  we_updated_at :: int

record inbox_class_usage =
  iu_admission_class :: string
  iu_rows :: int
  iu_bytes :: int
  iu_peer_rows :: int
  iu_peer_bytes :: int

section \<open>Operations\<close>

text \<open>FNV-1a over \<^verbatim>\<open>kind:id\<close>, halved into the non-negative range of \<^verbatim>\<open>i64\<close>.\<close>

definition engine_shard_key :: "string \<Rightarrow> string \<Rightarrow> int" where
  "engine_shard_key kind id' =
     (let h = fold (\<lambda>c h. xor h (of_char c) * 0x100000001b3) (colon_join kind id')
                (0xcbf29ce484222325 :: 64 word)
      in uint (drop_bit 1 h))"

definition ack_target :: "engine_inbox_event \<Rightarrow> engine_ack_target option" where
  "ack_target e =
     (case (ie_ack_peer e, ie_ack_delivery_id e) of
        (Some peer, Some delivery_id) \<Rightarrow> Some \<lparr> ack_peer = peer, ack_delivery_id = delivery_id \<rparr>
      | _ \<Rightarrow> None)"

definition new_inbox_row :: "new_engine_inbox_event \<Rightarrow> int \<Rightarrow> int \<Rightarrow> engine_inbox_event" where
  "new_inbox_row ev now seq = \<lparr>
     ie_seq = seq,
     ie_event_id = ne_event_id ev,
     ie_aggregate_kind = ne_aggregate_kind ev,
     ie_aggregate_id = ne_aggregate_id ev,
     ie_shard_key = engine_shard_key (ne_aggregate_kind ev) (ne_aggregate_id ev),
     ie_kind = ne_kind ev,
     ie_source = ne_source ev,
     ie_author = ne_author ev,
     ie_admission_class = ne_admission_class ev,
     ie_payload = Some (ne_payload ev),
     ie_payload_size = int (length (ne_payload ev)),
     ie_state = InboxPending,
     ie_attempts = 0,
     ie_next_at = now,
     ie_waiting_ref = None,
     ie_waiting_detail = None,
     ie_ack_peer = map_option ack_peer (ne_ack ev),
     ie_ack_delivery_id = map_option ack_delivery_id (ne_ack ev),
     ie_last_error = None,
     ie_created_at = now,
     ie_updated_at = now,
     ie_applied_at = None \<rparr>"

definition update_inbox ::
  "(engine_inbox_event \<Rightarrow> bool) \<Rightarrow> (engine_inbox_event \<Rightarrow> engine_inbox_event) \<Rightarrow>
   inbox_table \<Rightarrow> nat \<times> inbox_table" where
  "update_inbox p f t =
     (count_rows p (it_rows t), t\<lparr> it_rows := update_rows p f (it_rows t) \<rparr>)"

definition find_engine_inbox_event :: "string \<Rightarrow> inbox_table \<Rightarrow> engine_inbox_event option" where
  "find_engine_inbox_event event_id t = find_row ie_event_id event_id (it_rows t)"

definition insert_engine_inbox_event ::
  "new_engine_inbox_event \<Rightarrow> int \<Rightarrow> inbox_table \<Rightarrow> EngineInboxInsert \<times> inbox_table" where
  "insert_engine_inbox_event ev now t =
     (case find_engine_inbox_event (ne_event_id ev) t of
        None \<Rightarrow>
          let seq = it_last_seq t + 1
          in (Inserted seq,
              t\<lparr> it_rows := it_rows t @ [new_inbox_row ev now seq], it_last_seq := seq \<rparr>)
      | Some existing \<Rightarrow>
          let (rearmed, t') =
                (if ie_state existing = InboxFailed
                 then let (n, t') = update_inbox
                        (\<lambda>r. ie_event_id r = ne_event_id ev \<and> ie_state r = InboxFailed)
                        (\<lambda>r. r\<lparr> ie_state := InboxPending, ie_next_at := now, ie_waiting_ref := None,
                               ie_waiting_detail := None, ie_last_error := None,
                               ie_updated_at := now \<rparr>) t
                      in (0 < n, t')
                 else (False, t));
              ack_again =
                (case ie_state existing of
                   InboxApplied \<Rightarrow> True
                 | InboxPending \<Rightarrow> ie_waiting_ref existing \<noteq> None
                 | InboxFailed \<Rightarrow> False
                 | InboxPoisoned \<Rightarrow> False)
          in (Duplicate (ie_state existing) ack_again rearmed, t'))"

definition runnable ::
  "poison_row list \<Rightarrow> int \<Rightarrow> int \<Rightarrow> int \<Rightarrow> engine_inbox_event \<Rightarrow> bool" where
  "runnable poisons shard_count shard now e \<longleftrightarrow>
     ie_state e = InboxPending \<and> ie_next_at e \<le> now \<and>
     sql_mod (ie_shard_key e) shard_count = Some shard \<and>
     \<not> poison_blocks poisons (ie_aggregate_kind e) (ie_aggregate_id e) (ie_kind e) now"

definition next_runnable_engine_inbox_event ::
  "poison_row list \<Rightarrow> int \<Rightarrow> int \<Rightarrow> int \<Rightarrow> inbox_table \<Rightarrow> engine_inbox_event option" where
  "next_runnable_engine_inbox_event poisons shard_count shard now t =
     (case sort_key ie_seq (filter (runnable poisons shard_count shard now) (it_rows t)) of
        [] \<Rightarrow> None
      | e # _ \<Rightarrow> Some e)"

text \<open>\<^verbatim>\<open>WHERE event_id = ? AND state = 'Pending'\<close>\<close>

definition pending_event :: "string \<Rightarrow> engine_inbox_event \<Rightarrow> bool" where
  "pending_event event_id r \<longleftrightarrow> ie_event_id r = event_id \<and> ie_state r = InboxPending"

definition mark_engine_inbox_applied :: "string \<Rightarrow> int \<Rightarrow> inbox_table \<Rightarrow> bool \<times> inbox_table" where
  "mark_engine_inbox_applied event_id now t =
     (let (n, t') = update_inbox (pending_event event_id)
        (\<lambda>r. r\<lparr> ie_state := InboxApplied, ie_payload := None, ie_waiting_ref := None,
               ie_waiting_detail := None, ie_last_error := None, ie_applied_at := Some now,
               ie_updated_at := now \<rparr>) t
      in (0 < n, t'))"

definition mark_engine_inbox_waiting ::
  "string \<Rightarrow> string \<Rightarrow> string \<Rightarrow> int \<Rightarrow> int \<Rightarrow> inbox_table \<Rightarrow> bool \<times> inbox_table" where
  "mark_engine_inbox_waiting event_id waiting_ref waiting_detail next_at now t =
     (let (n, t') = update_inbox (pending_event event_id)
        (\<lambda>r. r\<lparr> ie_waiting_ref := Some waiting_ref, ie_waiting_detail := Some waiting_detail,
               ie_next_at := next_at, ie_updated_at := now \<rparr>) t
      in (0 < n, t'))"

definition mark_engine_inbox_retry ::
  "string \<Rightarrow> string \<Rightarrow> int \<Rightarrow> int \<Rightarrow> inbox_table \<Rightarrow> bool \<times> inbox_table" where
  "mark_engine_inbox_retry event_id error next_at now t =
     (let (n, t') = update_inbox (pending_event event_id)
        (\<lambda>r. r\<lparr> ie_attempts := ie_attempts r + 1, ie_next_at := next_at, ie_last_error := Some error,
               ie_waiting_ref := None, ie_waiting_detail := None, ie_updated_at := now \<rparr>) t
      in (0 < n, t'))"

definition mark_engine_inbox_failed ::
  "string \<Rightarrow> string \<Rightarrow> int \<Rightarrow> inbox_table \<Rightarrow> bool \<times> inbox_table" where
  "mark_engine_inbox_failed event_id reason now t =
     (let (n, t') = update_inbox (pending_event event_id)
        (\<lambda>r. r\<lparr> ie_state := InboxFailed, ie_attempts := ie_attempts r + 1,
               ie_last_error := Some reason, ie_waiting_ref := None, ie_waiting_detail := None,
               ie_updated_at := now \<rparr>) t
      in (0 < n, t'))"

definition mark_engine_inbox_poisoned ::
  "string \<Rightarrow> string \<Rightarrow> int \<Rightarrow> inbox_table \<Rightarrow> bool \<times> inbox_table" where
  "mark_engine_inbox_poisoned event_id reason now t =
     (let (n, t') = update_inbox (pending_event event_id)
        (\<lambda>r. r\<lparr> ie_state := InboxPoisoned, ie_attempts := ie_attempts r + 1,
               ie_last_error := Some reason, ie_waiting_ref := None, ie_waiting_detail := None,
               ie_updated_at := now \<rparr>) t
      in (0 < n, t'))"

text \<open>One round of the wake loop; the leading \<^verbatim>\<open>SELECT COUNT\<close> skips the update when it would change nothing.\<close>

definition wake_one :: "string \<Rightarrow> int \<Rightarrow> inbox_table \<Rightarrow> nat \<times> inbox_table" where
  "wake_one waiting_ref now t =
     (let p = (\<lambda>r. ie_state r = InboxPending \<and> ie_waiting_ref r = Some waiting_ref \<and> now < ie_next_at r)
      in if count_rows p (it_rows t) = 0 then (0, t)
         else update_inbox p (\<lambda>r. r\<lparr> ie_next_at := now, ie_updated_at := now \<rparr>) t)"

primrec wake_engine_inbox_waiting :: "string list \<Rightarrow> int \<Rightarrow> inbox_table \<Rightarrow> nat \<times> inbox_table" where
  "wake_engine_inbox_waiting [] now t = (0, t)"
| "wake_engine_inbox_waiting (w # refs) now t =
     (let (n, t1) = wake_one w now t;
          (m, t2) = wake_engine_inbox_waiting refs now t1
      in (n + m, t2))"

definition rearm_engine_inbox_waiting :: "int \<Rightarrow> inbox_table \<Rightarrow> nat \<times> inbox_table" where
  "rearm_engine_inbox_waiting now t =
     (let p = (\<lambda>r. ie_state r = InboxPending \<and> ie_waiting_ref r \<noteq> None \<and> now < ie_next_at r)
      in if count_rows p (it_rows t) = 0 then (0, t)
         else update_inbox p (\<lambda>r. r\<lparr> ie_next_at := now, ie_updated_at := now \<rparr>) t)"

definition rearm_engine_inbox_pending :: "int \<Rightarrow> inbox_table \<Rightarrow> nat \<times> inbox_table" where
  "rearm_engine_inbox_pending now t =
     update_inbox (\<lambda>r. ie_state r = InboxPending \<and> now < ie_next_at r)
       (\<lambda>r. r\<lparr> ie_next_at := now, ie_updated_at := now \<rparr>) t"

definition list_engine_inbox_events_for_aggregate ::
  "string \<Rightarrow> string \<Rightarrow> int \<Rightarrow> inbox_table \<Rightarrow> engine_inbox_event list" where
  "list_engine_inbox_events_for_aggregate kind id' limit t =
     sql_limit limit (rev (sort_key ie_seq
       (filter (\<lambda>r. ie_aggregate_kind r = kind \<and> ie_aggregate_id r = id') (it_rows t))))"

text \<open>The \<^verbatim>\<open>DELETE\<close> statements on the inbox: the terminal purge and the purge of rejected network events.\<close>

definition delete_inbox :: "(engine_inbox_event \<Rightarrow> bool) \<Rightarrow> inbox_table \<Rightarrow> nat \<times> inbox_table" where
  "delete_inbox p t = (count_rows p (it_rows t), t\<lparr> it_rows := delete_rows p (it_rows t) \<rparr>)"

definition purge_terminal_inbox_rows :: "int \<Rightarrow> inbox_table \<Rightarrow> nat \<times> inbox_table" where
  "purge_terminal_inbox_rows before t =
     delete_inbox (\<lambda>r. ie_state r \<in> {InboxApplied, InboxFailed, InboxPoisoned} \<and> ie_updated_at r < before) t"

definition purge_rejected_network_inbox_rows :: "int \<Rightarrow> inbox_table \<Rightarrow> nat \<times> inbox_table" where
  "purge_rejected_network_inbox_rows before t =
     delete_inbox (\<lambda>r. ie_source r = ''network'' \<and> ie_state r = InboxFailed \<and> ie_updated_at r < before) t"

definition list_engine_inbox_waiting :: "int \<Rightarrow> inbox_table \<Rightarrow> engine_waiting_event list" where
  "list_engine_inbox_waiting limit t =
     map (\<lambda>r. \<lparr> we_event_id = ie_event_id r, we_aggregate_kind = ie_aggregate_kind r,
               we_aggregate_id = ie_aggregate_id r, we_kind = ie_kind r,
               we_waiting_ref = (case ie_waiting_ref r of Some w \<Rightarrow> w | None \<Rightarrow> ''''),
               we_waiting_detail = ie_waiting_detail r, we_next_at = ie_next_at r,
               we_created_at = ie_created_at r, we_updated_at = ie_updated_at r \<rparr>)
       (sql_limit limit (sort_key (\<lambda>r. (ie_updated_at r, ie_seq r))
         (filter (\<lambda>r. ie_state r = InboxPending \<and> ie_waiting_ref r \<noteq> None) (it_rows t))))"

text \<open>\<^verbatim>\<open>source = 'network' AND state IN ('Pending', 'Failed', 'Poisoned')\<close>: the rows a quota charges for.\<close>

definition queued_network :: "engine_inbox_event \<Rightarrow> bool" where
  "queued_network r \<longleftrightarrow> ie_source r = ''network'' \<and> ie_state r \<in> {InboxPending, InboxFailed, InboxPoisoned}"

definition class_usage_rows :: "string \<Rightarrow> engine_inbox_event list \<Rightarrow> int" where
  "class_usage_rows c rs = int (length (filter (\<lambda>r. ie_admission_class r = c) rs))"

definition class_usage_bytes :: "string \<Rightarrow> engine_inbox_event list \<Rightarrow> int" where
  "class_usage_bytes c rs = sum_list (map ie_payload_size (filter (\<lambda>r. ie_admission_class r = c) rs))"

definition engine_inbox_class_totals :: "inbox_table \<Rightarrow> inbox_class_usage list" where
  "engine_inbox_class_totals t =
     (let rs = filter queued_network (it_rows t)
      in map (\<lambda>c. \<lparr> iu_admission_class = c, iu_rows = class_usage_rows c rs,
                   iu_bytes = class_usage_bytes c rs, iu_peer_rows = 0, iu_peer_bytes = 0 \<rparr>)
           (remdups (map ie_admission_class rs)))"

definition engine_inbox_peer_usage :: "string \<Rightarrow> inbox_table \<Rightarrow> inbox_class_usage list" where
  "engine_inbox_peer_usage author t =
     (let rs = filter (\<lambda>r. queued_network r \<and> ie_author r = author) (it_rows t)
      in map (\<lambda>c. \<lparr> iu_admission_class = c, iu_rows = 0, iu_bytes = 0,
                   iu_peer_rows = class_usage_rows c rs, iu_peer_bytes = class_usage_bytes c rs \<rparr>)
           (remdups (map ie_admission_class rs)))"

section \<open>Invariant, steps and the order on rows\<close>

definition inbox_row_ok :: "engine_inbox_event \<Rightarrow> bool" where
  "inbox_row_ok r \<longleftrightarrow>
     ie_shard_key r = engine_shard_key (ie_aggregate_kind r) (ie_aggregate_id r) \<and>
     (ie_payload r = None \<longleftrightarrow> ie_state r = InboxApplied) \<and>
     (ie_applied_at r = None \<longleftrightarrow> ie_state r \<noteq> InboxApplied) \<and>
     (ie_waiting_ref r = None \<or> ie_state r = InboxPending) \<and>
     (case ie_payload r of None \<Rightarrow> True | Some p \<Rightarrow> ie_payload_size r = int (length p)) \<and>
     0 \<le> ie_attempts r \<and> 0 \<le> ie_payload_size r"

definition inbox_inv :: "inbox_table \<Rightarrow> bool" where
  "inbox_inv t \<longleftrightarrow>
     distinct (map ie_event_id (it_rows t)) \<and>
     sorted_wrt (<) (map ie_seq (it_rows t)) \<and>
     list_all (\<lambda>r. ie_seq r \<le> it_last_seq t) (it_rows t) \<and>
     list_all inbox_row_ok (it_rows t)"

definition empty_inbox :: inbox_table where
  "empty_inbox = \<lparr> it_rows = [], it_last_seq = 0 \<rparr>"

inductive inbox_step :: "inbox_table \<Rightarrow> inbox_table \<Rightarrow> bool" where
  insert: "inbox_step t (snd (insert_engine_inbox_event ev now t))"
| applied: "inbox_step t (snd (mark_engine_inbox_applied e now t))"
| waiting: "inbox_step t (snd (mark_engine_inbox_waiting e w d next now t))"
| retry: "inbox_step t (snd (mark_engine_inbox_retry e err next now t))"
| failed: "inbox_step t (snd (mark_engine_inbox_failed e reason now t))"
| poisoned: "inbox_step t (snd (mark_engine_inbox_poisoned e reason now t))"
| wake: "inbox_step t (snd (wake_engine_inbox_waiting refs now t))"
| rearm_waiting: "inbox_step t (snd (rearm_engine_inbox_waiting now t))"
| rearm_pending: "inbox_step t (snd (rearm_engine_inbox_pending now t))"

text \<open>Applied and poisoned events are settled: only the retention purge removes them.\<close>

definition settled :: "engine_inbox_event \<Rightarrow> bool" where
  "settled r \<longleftrightarrow> ie_state r = InboxApplied \<or> ie_state r = InboxPoisoned"

definition same_event :: "engine_inbox_event \<Rightarrow> engine_inbox_event \<Rightarrow> bool" where
  "same_event r r' \<longleftrightarrow>
     ie_seq r' = ie_seq r \<and> ie_event_id r' = ie_event_id r \<and>
     ie_aggregate_kind r' = ie_aggregate_kind r \<and> ie_aggregate_id r' = ie_aggregate_id r \<and>
     ie_shard_key r' = ie_shard_key r \<and> ie_kind r' = ie_kind r \<and> ie_source r' = ie_source r \<and>
     ie_author r' = ie_author r \<and> ie_admission_class r' = ie_admission_class r \<and>
     ie_payload_size r' = ie_payload_size r \<and> ie_ack_peer r' = ie_ack_peer r \<and>
     ie_ack_delivery_id r' = ie_ack_delivery_id r \<and> ie_created_at r' = ie_created_at r"

definition inbox_le :: "engine_inbox_event \<Rightarrow> engine_inbox_event \<Rightarrow> bool" where
  "inbox_le r r' \<longleftrightarrow>
     same_event r r' \<and> ie_attempts r \<le> ie_attempts r' \<and>
     (ie_payload r' = ie_payload r \<or> ie_state r' = InboxApplied) \<and>
     (if settled r then r' = r else True)"

section \<open>Every query keeps the invariant and moves rows along the order\<close>

text \<open>What one \<^verbatim>\<open>UPDATE\<close> may do: it leaves settled rows alone and moves the others along the order.\<close>

definition good_update ::
  "(engine_inbox_event \<Rightarrow> bool) \<Rightarrow> (engine_inbox_event \<Rightarrow> engine_inbox_event) \<Rightarrow> bool" where
  "good_update p f \<longleftrightarrow>
     (\<forall>r. p r \<longrightarrow> inbox_le r (f r) \<and> (inbox_row_ok r \<longrightarrow> inbox_row_ok (f r)))"

definition inbox_evolves :: "inbox_table \<Rightarrow> inbox_table \<Rightarrow> bool" where
  "inbox_evolves t t' \<longleftrightarrow>
     (inbox_inv t \<longrightarrow> inbox_inv t' \<and>
       (\<forall>k r. find_engine_inbox_event k t = Some r \<longrightarrow>
          (\<exists>r'. find_engine_inbox_event k t' = Some r' \<and> inbox_le r r')))"

lemmas inbox_ops =
  insert_engine_inbox_event_def mark_engine_inbox_applied_def mark_engine_inbox_waiting_def
  mark_engine_inbox_retry_def mark_engine_inbox_failed_def mark_engine_inbox_poisoned_def
  wake_one_def rearm_engine_inbox_waiting_def rearm_engine_inbox_pending_def

lemma same_event_refl [simp]: "same_event r r"
  by (simp add: same_event_def)

lemma inbox_le_refl [simp]: "inbox_le r r"
  by (simp add: inbox_le_def)

lemma inbox_le_trans: "inbox_le r1 r2 \<Longrightarrow> inbox_le r2 r3 \<Longrightarrow> inbox_le r1 r3"
  by (auto simp: inbox_le_def same_event_def settled_def split: if_splits)

lemma fst_update_inbox [simp]: "fst (update_inbox p f t) = count_rows p (it_rows t)"
  by (simp add: update_inbox_def)

lemma rows_update_inbox [simp]:
  "it_rows (snd (update_inbox p f t)) = update_rows p f (it_rows t)"
  "it_last_seq (snd (update_inbox p f t)) = it_last_seq t"
  by (simp_all add: update_inbox_def)

lemma find_update_inbox:
  "(\<And>r. p r \<Longrightarrow> ie_event_id (f r) = ie_event_id r) \<Longrightarrow>
   find_engine_inbox_event k (snd (update_inbox p f t)) =
     map_option (\<lambda>r. if p r then f r else r) (find_engine_inbox_event k t)"
  by (simp add: find_engine_inbox_event_def table_simps)

lemma inbox_evolves_refl [simp]: "inbox_evolves t t"
  using inbox_le_refl unfolding inbox_evolves_def by blast

lemma inbox_evolves_trans: "inbox_evolves t u \<Longrightarrow> inbox_evolves u v \<Longrightarrow> inbox_evolves t v"
  unfolding inbox_evolves_def using inbox_le_trans by meson

lemma inbox_evolves_update:
  assumes "good_update p f"
  shows "inbox_evolves t (snd (update_inbox p f t))"
proof -
  have same: "same_event r (f r)" if "p r" for r
    using assms that by (simp add: good_update_def inbox_le_def)
  have keys: "map ie_event_id (update_rows p f (it_rows t)) = map ie_event_id (it_rows t)"
    "map ie_seq (update_rows p f (it_rows t)) = map ie_seq (it_rows t)"
    using same by (auto intro!: map_update_rows simp: same_event_def)
  have ok: "list_all inbox_row_ok (it_rows t) \<Longrightarrow> list_all inbox_row_ok (update_rows p f (it_rows t))"
    using assms by (auto intro!: list_all_update_rows simp: good_update_def)
  have seqs: "list_all (\<lambda>r. ie_seq r \<le> n) (it_rows t) \<Longrightarrow>
      list_all (\<lambda>r. ie_seq r \<le> n) (update_rows p f (it_rows t))" for n
    using same by (auto intro!: list_all_update_rows simp: same_event_def)
  have "find_engine_inbox_event k (snd (update_inbox p f t)) =
      map_option (\<lambda>r. if p r then f r else r) (find_engine_inbox_event k t)" for k
    using same by (intro find_update_inbox) (simp add: same_event_def)
  then show ?thesis
    using assms keys ok seqs
    by (auto simp: inbox_evolves_def inbox_inv_def good_update_def)
qed

lemma inbox_row_ok_new [simp]: "inbox_row_ok (new_inbox_row ev now seq)"
  by (simp add: inbox_row_ok_def new_inbox_row_def)

lemma find_insert_new:
  "find_engine_inbox_event (ne_event_id ev) t = None \<Longrightarrow>
   find_engine_inbox_event k (snd (insert_engine_inbox_event ev now t)) =
     (if k = ne_event_id ev then Some (new_inbox_row ev now (it_last_seq t + 1))
      else find_engine_inbox_event k t)"
  by (auto simp: insert_engine_inbox_event_def find_engine_inbox_event_def Let_def table_simps
      new_inbox_row_def split: option.split)

lemma inbox_inv_insert_new:
  assumes "find_engine_inbox_event (ne_event_id ev) t = None" "inbox_inv t"
  shows "inbox_inv (snd (insert_engine_inbox_event ev now t))"
proof -
  have "\<forall>r \<in> set (it_rows t). ie_seq r < it_last_seq t + 1"
    using assms(2) by (auto simp: inbox_inv_def list_all_iff)
  moreover have "ne_event_id ev \<notin> ie_event_id ` set (it_rows t)"
    using assms(1) by (simp add: find_engine_inbox_event_def find_row_None_iff)
  moreover have "ie_event_id (new_inbox_row ev now s) = ne_event_id ev"
    "ie_seq (new_inbox_row ev now s) = s" for s
    by (simp_all add: new_inbox_row_def)
  ultimately show ?thesis
    using assms
    by (auto simp: inbox_inv_def insert_engine_inbox_event_def Let_def sorted_wrt_append
        list_all_iff)
qed

lemma insert_existing:
  assumes "find_engine_inbox_event (ne_event_id ev) t = Some e"
  shows "insert_engine_inbox_event ev now t =
    (Duplicate (ie_state e)
       (ie_state e = InboxApplied \<or> ie_state e = InboxPending \<and> ie_waiting_ref e \<noteq> None)
       (ie_state e = InboxFailed),
     if ie_state e = InboxFailed
     then snd (update_inbox (\<lambda>r. ie_event_id r = ne_event_id ev \<and> ie_state r = InboxFailed)
        (\<lambda>r. r\<lparr> ie_state := InboxPending, ie_next_at := now, ie_waiting_ref := None,
               ie_waiting_detail := None, ie_last_error := None, ie_updated_at := now \<rparr>) t)
     else t)"
proof -
  have "e \<in> set (it_rows t) \<and> ie_event_id e = ne_event_id ev"
    using assms by (auto simp: find_engine_inbox_event_def dest: find_row_SomeD)
  then have "ie_state e = InboxFailed \<Longrightarrow>
      0 < count_rows (\<lambda>r. ie_event_id r = ne_event_id ev \<and> ie_state r = InboxFailed) (it_rows t)"
    by (auto simp: count_rows_pos)
  with assms show ?thesis
    by (cases "ie_state e")
      (auto simp: insert_engine_inbox_event_def Let_def split: prod.split,
        auto simp: update_inbox_def)
qed

lemma good_rearm_failed:
  "good_update (\<lambda>r. ie_event_id r = e \<and> ie_state r = InboxFailed)
     (\<lambda>r. r\<lparr> ie_state := InboxPending, ie_next_at := now, ie_waiting_ref := None,
            ie_waiting_detail := None, ie_last_error := None, ie_updated_at := now \<rparr>)"
  by (auto simp: good_update_def inbox_le_def same_event_def settled_def inbox_row_ok_def)

lemma inbox_evolves_insert: "inbox_evolves t (snd (insert_engine_inbox_event ev now t))"
proof (cases "find_engine_inbox_event (ne_event_id ev) t")
  case None
  then show ?thesis
    using inbox_inv_insert_new [OF None] inbox_le_refl
    by (auto simp: inbox_evolves_def find_insert_new)
next
  case (Some e)
  then show ?thesis
    by (simp add: insert_existing inbox_evolves_update good_rearm_failed)
qed

lemma snd_mark [simp]:
  "snd (let (n, t') = update_inbox p f t in (0 < n, t')) = snd (update_inbox p f t)"
  "fst (let (n, t') = update_inbox p f t in (0 < n, t')) \<longleftrightarrow> 0 < count_rows p (it_rows t)"
  by (simp_all add: update_inbox_def)

lemma inbox_evolves_mark:
  "inbox_evolves t (snd (mark_engine_inbox_applied e now t))"
  "inbox_evolves t (snd (mark_engine_inbox_waiting e w d next now t))"
  "inbox_evolves t (snd (mark_engine_inbox_retry e err next now t))"
  "inbox_evolves t (snd (mark_engine_inbox_failed e reason now t))"
  "inbox_evolves t (snd (mark_engine_inbox_poisoned e reason now t))"
  unfolding inbox_ops snd_mark
  by (rule inbox_evolves_update;
      auto simp: good_update_def inbox_le_def same_event_def settled_def inbox_row_ok_def
        pending_event_def)+

lemma good_rearm:
  "(\<And>r. p r \<Longrightarrow> ie_state r = InboxPending) \<Longrightarrow>
   good_update p (\<lambda>r. r\<lparr> ie_next_at := now, ie_updated_at := now \<rparr>)"
  by (auto simp: good_update_def inbox_le_def same_event_def settled_def inbox_row_ok_def)

lemma inbox_evolves_wake_one: "inbox_evolves t (snd (wake_one w now t))"
  unfolding wake_one_def Let_def
  by (auto intro!: inbox_evolves_update good_rearm)

lemma inbox_evolves_wake: "inbox_evolves t (snd (wake_engine_inbox_waiting refs now t))"
proof (induction refs arbitrary: t)
  case (Cons w refs)
  show ?case
    using inbox_evolves_trans [OF inbox_evolves_wake_one Cons.IH]
    by (simp add: Let_def split_beta)
qed simp

lemma inbox_evolves_rearm:
  "inbox_evolves t (snd (rearm_engine_inbox_waiting now t))"
  "inbox_evolves t (snd (rearm_engine_inbox_pending now t))"
  unfolding rearm_engine_inbox_waiting_def rearm_engine_inbox_pending_def Let_def
  by (auto intro!: inbox_evolves_update good_rearm)

lemma inbox_step_evolves: "inbox_step t t' \<Longrightarrow> inbox_evolves t t'"
  by (induction rule: inbox_step.induct)
    (rule inbox_evolves_insert inbox_evolves_mark inbox_evolves_wake inbox_evolves_rearm)+

interpretation inbox: row_lifecycle
  "\<lambda>t k. find_engine_inbox_event k t" inbox_inv inbox_step inbox_le
proof (standard, goal_cases)
  case (1 t t')
  then show ?case using inbox_step_evolves unfolding inbox_evolves_def by blast
next
  case (2 t t' k r)
  then show ?case using inbox_step_evolves unfolding inbox_evolves_def by blast
next
  case (4 r1 r2 r3)
  then show ?case by (rule inbox_le_trans)
qed simp

lemma inbox_inv_empty: "inbox_inv empty_inbox"
  by (simp add: inbox_inv_def empty_inbox_def)

lemma inbox_inv_delete: "inbox_inv t \<Longrightarrow> inbox_inv (snd (delete_inbox p t))"
  by (auto simp: inbox_inv_def delete_inbox_def delete_rows_def distinct_map_filter
      sorted_wrt_filter list_all_iff sorted_wrt_map)

lemma inbox_inv_purge:
  "inbox_inv t \<Longrightarrow> inbox_inv (snd (purge_terminal_inbox_rows before t))"
  "inbox_inv t \<Longrightarrow> inbox_inv (snd (purge_rejected_network_inbox_rows before t))"
  by (simp_all add: purge_terminal_inbox_rows_def purge_rejected_network_inbox_rows_def
      inbox_inv_delete)

section \<open>The row an operation leaves\<close>

text \<open>The rows of the table after \<^verbatim>\<open>f\<close> was applied to some of them, looked up by event id.\<close>

lemma find_mark:
  "find_engine_inbox_event k (snd (mark_engine_inbox_applied i now t)) =
     map_option (\<lambda>r. if pending_event i r
       then r\<lparr> ie_state := InboxApplied, ie_payload := None, ie_waiting_ref := None,
              ie_waiting_detail := None, ie_last_error := None, ie_applied_at := Some now,
              ie_updated_at := now \<rparr> else r) (find_engine_inbox_event k t)"
  "find_engine_inbox_event k (snd (mark_engine_inbox_waiting i w d next now t)) =
     map_option (\<lambda>r. if pending_event i r
       then r\<lparr> ie_waiting_ref := Some w, ie_waiting_detail := Some d, ie_next_at := next,
              ie_updated_at := now \<rparr> else r) (find_engine_inbox_event k t)"
  "find_engine_inbox_event k (snd (mark_engine_inbox_retry i err next now t)) =
     map_option (\<lambda>r. if pending_event i r
       then r\<lparr> ie_attempts := ie_attempts r + 1, ie_next_at := next, ie_last_error := Some err,
              ie_waiting_ref := None, ie_waiting_detail := None, ie_updated_at := now \<rparr> else r)
       (find_engine_inbox_event k t)"
  "find_engine_inbox_event k (snd (mark_engine_inbox_failed i reason now t)) =
     map_option (\<lambda>r. if pending_event i r
       then r\<lparr> ie_state := InboxFailed, ie_attempts := ie_attempts r + 1,
              ie_last_error := Some reason, ie_waiting_ref := None, ie_waiting_detail := None,
              ie_updated_at := now \<rparr> else r) (find_engine_inbox_event k t)"
  "find_engine_inbox_event k (snd (mark_engine_inbox_poisoned i reason now t)) =
     map_option (\<lambda>r. if pending_event i r
       then r\<lparr> ie_state := InboxPoisoned, ie_attempts := ie_attempts r + 1,
              ie_last_error := Some reason, ie_waiting_ref := None, ie_waiting_detail := None,
              ie_updated_at := now \<rparr> else r) (find_engine_inbox_event k t)"
  unfolding inbox_ops snd_mark by (rule find_update_inbox; simp)+

lemma find_mark_other:
  assumes "k \<noteq> i"
  shows "find_engine_inbox_event k (snd (mark_engine_inbox_applied i now t)) = find_engine_inbox_event k t"
    and "find_engine_inbox_event k (snd (mark_engine_inbox_waiting i w d next now t)) =
      find_engine_inbox_event k t"
    and "find_engine_inbox_event k (snd (mark_engine_inbox_retry i err next now t)) =
      find_engine_inbox_event k t"
    and "find_engine_inbox_event k (snd (mark_engine_inbox_failed i reason now t)) =
      find_engine_inbox_event k t"
    and "find_engine_inbox_event k (snd (mark_engine_inbox_poisoned i reason now t)) =
      find_engine_inbox_event k t"
proof -
  have "find_engine_inbox_event k t = Some r \<Longrightarrow> \<not> pending_event i r" for r
    using assms by (auto simp: find_engine_inbox_event_def pending_event_def dest!: find_row_SomeD)
  then have "map_option (\<lambda>r. if pending_event i r then f r else r) (find_engine_inbox_event k t) =
      find_engine_inbox_event k t" for f
    by (cases "find_engine_inbox_event k t") auto
  then show "find_engine_inbox_event k (snd (mark_engine_inbox_applied i now t)) = find_engine_inbox_event k t"
    "find_engine_inbox_event k (snd (mark_engine_inbox_waiting i w d next now t)) =
      find_engine_inbox_event k t"
    "find_engine_inbox_event k (snd (mark_engine_inbox_retry i err next now t)) =
      find_engine_inbox_event k t"
    "find_engine_inbox_event k (snd (mark_engine_inbox_failed i reason now t)) =
      find_engine_inbox_event k t"
    "find_engine_inbox_event k (snd (mark_engine_inbox_poisoned i reason now t)) =
      find_engine_inbox_event k t"
    by (simp_all add: find_mark)
qed

definition wakes :: "string list \<Rightarrow> int \<Rightarrow> engine_inbox_event \<Rightarrow> bool" where
  "wakes refs now r \<longleftrightarrow>
     ie_state r = InboxPending \<and> (case ie_waiting_ref r of None \<Rightarrow> False | Some w \<Rightarrow> w \<in> set refs) \<and>
     now < ie_next_at r"

definition wake_row :: "string list \<Rightarrow> int \<Rightarrow> engine_inbox_event \<Rightarrow> engine_inbox_event" where
  "wake_row refs now r =
     (if wakes refs now r then r\<lparr> ie_next_at := now, ie_updated_at := now \<rparr> else r)"

lemma wake_row_Nil: "wake_row [] now r = r"
  by (simp add: wake_row_def wakes_def split: option.split)

lemma wake_row_Cons: "wake_row refs now (wake_row [w] now r) = wake_row (w # refs) now r"
proof (cases "wakes [w] now r")
  case True
  then have "wakes (w # refs) now r" "\<not> wakes refs now (r\<lparr> ie_next_at := now, ie_updated_at := now \<rparr>)"
    by (auto simp: wakes_def split: option.splits)
  with True show ?thesis by (simp add: wake_row_def)
next
  case False
  then have "wakes (w # refs) now r = wakes refs now r"
    by (auto simp: wakes_def split: option.splits)
  with False show ?thesis by (simp add: wake_row_def)
qed

lemma wake_row_due: "ie_next_at r \<le> now \<Longrightarrow> wake_row refs now r = r"
  by (simp add: wake_row_def wakes_def)

lemma find_wake_one:
  "find_engine_inbox_event k (snd (wake_one w now t)) =
     map_option (wake_row [w] now) (find_engine_inbox_event k t)"
proof -
  let ?p = "\<lambda>r. ie_state r = InboxPending \<and> ie_waiting_ref r = Some w \<and> now < ie_next_at r"
  have p: "wakes [w] now r \<longleftrightarrow> ?p r" for r
    by (auto simp: wakes_def split: option.split)
  show ?thesis
  proof (cases "count_rows ?p (it_rows t) = 0")
    case True
    then have "\<not> ?p r" if "find_engine_inbox_event k t = Some r" for r
      using that by (auto simp: count_rows_0 find_engine_inbox_event_def dest!: find_row_SomeD)
    with True show ?thesis
      by (cases "find_engine_inbox_event k t") (auto simp: wake_one_def wake_row_def p)
  next
    case False
    have "find_engine_inbox_event k (snd (update_inbox ?p
        (\<lambda>r. r\<lparr> ie_next_at := now, ie_updated_at := now \<rparr>) t)) =
      map_option (\<lambda>r. if ?p r then r\<lparr> ie_next_at := now, ie_updated_at := now \<rparr> else r)
        (find_engine_inbox_event k t)"
      by (rule find_update_inbox) simp
    with False show ?thesis
      by (simp add: wake_one_def wake_row_def p cong: option.map_cong)
  qed
qed

lemma find_wake:
  "find_engine_inbox_event k (snd (wake_engine_inbox_waiting refs now t)) =
     map_option (wake_row refs now) (find_engine_inbox_event k t)"
proof (induction refs arbitrary: t)
  case Nil
  then show ?case by (simp add: wake_row_Nil [abs_def] option.map_ident)
next
  case (Cons w refs)
  then show ?case
    by (simp add: Let_def split_beta find_wake_one option.map_comp comp_def wake_row_Cons)
qed

text \<open>The pending events: what is left to do.\<close>

definition pending_count :: "inbox_table \<Rightarrow> nat" where
  "pending_count t = count_rows (\<lambda>r. ie_state r = InboxPending) (it_rows t)"

lemma pending_count_wake [simp]:
  "pending_count (snd (wake_engine_inbox_waiting refs now t)) = pending_count t"
proof (induction refs arbitrary: t)
  case (Cons w refs)
  have "pending_count (snd (wake_one w now t)) = pending_count t"
    by (simp add: wake_one_def Let_def pending_count_def count_rows_update_same)
  with Cons show ?case by (simp add: Let_def split_beta)
qed simp

lemma pending_event_wake [simp]:
  "(\<exists>r \<in> set (it_rows (snd (wake_engine_inbox_waiting refs now t))). pending_event i r) \<longleftrightarrow>
   (\<exists>r \<in> set (it_rows t). pending_event i r)"
proof (induction refs arbitrary: t)
  case (Cons w refs)
  have "(\<exists>r \<in> set (it_rows (snd (wake_one w now t))). pending_event i r) \<longleftrightarrow>
      (\<exists>r \<in> set (it_rows t). pending_event i r)"
    by (simp add: wake_one_def Let_def ex_update_rows pending_event_def)
  with Cons show ?case by (simp add: Let_def split_beta)
qed simp

lemma pending_count_mark:
  assumes "\<exists>r \<in> set (it_rows t). pending_event i r"
  shows "pending_count (snd (mark_engine_inbox_applied i now t)) < pending_count t"
    and "pending_count (snd (mark_engine_inbox_failed i reason now t)) < pending_count t"
    and "pending_count (snd (mark_engine_inbox_poisoned i reason now t)) < pending_count t"
  unfolding inbox_ops snd_mark pending_count_def rows_update_inbox
  using assms by (auto intro!: count_rows_update_less simp: pending_event_def)

section \<open>Selection\<close>

lemma next_runnable_Some:
  assumes "next_runnable_engine_inbox_event ps k s now t = Some e"
  shows "e \<in> set (it_rows t)" "runnable ps k s now e"
    and "e' \<in> set (it_rows t) \<Longrightarrow> runnable ps k s now e' \<Longrightarrow> ie_seq e \<le> ie_seq e'"
proof -
  let ?rs = "filter (runnable ps k s now) (it_rows t)"
  obtain rest where sk: "sort_key ie_seq ?rs = e # rest"
    using assms by (auto simp: next_runnable_engine_inbox_event_def split: list.splits)
  have set: "set (e # rest) = set ?rs"
    using sk by (metis set_sort)
  then show "e \<in> set (it_rows t)" "runnable ps k s now e"
    by auto
  have "sorted (map ie_seq (e # rest))"
    using sk by (metis sorted_sort_key)
  then show "ie_seq e \<le> ie_seq e'"
    if "e' \<in> set (it_rows t)" "runnable ps k s now e'"
    using that set by auto
qed

lemma next_runnable_None:
  "next_runnable_engine_inbox_event ps k s now t = None \<longleftrightarrow>
     (\<forall>e \<in> set (it_rows t). \<not> runnable ps k s now e)"
proof -
  let ?rs = "filter (runnable ps k s now) (it_rows t)"
  have "sort_key ie_seq ?rs = [] \<longleftrightarrow> ?rs = []"
    by (simp only: length_0_conv [symmetric] length_sort)
  moreover have "next_runnable_engine_inbox_event ps k s now t = None \<longleftrightarrow> sort_key ie_seq ?rs = []"
    by (simp add: next_runnable_engine_inbox_event_def split: list.split)
  ultimately show ?thesis
    by (simp add: filter_empty_conv)
qed

lemma engine_shard_key_range: "0 \<le> engine_shard_key kind id' \<and> engine_shard_key kind id' < 2 ^ 63"
proof -
  have "uint (drop_bit 1 h) = uint h div 2" for h :: "64 word"
    by (simp add: drop_bit_eq_div uint_div)
  then have "uint (drop_bit 1 h) < 2 ^ 63" for h :: "64 word"
    using uint_bounded [of h] by simp
  then show ?thesis
    by (simp add: engine_shard_key_def Let_def)
qed

lemma shard_unique:
  "inbox_row_ok e \<Longrightarrow> 0 < k \<Longrightarrow>
   sql_mod (ie_shard_key e) k = Some s \<longleftrightarrow>
     s = engine_shard_key (ie_aggregate_kind e) (ie_aggregate_id e) mod k"
  using engine_shard_key_range [of "ie_aggregate_kind e" "ie_aggregate_id e"]
  by (auto simp: inbox_row_ok_def sql_mod_nonneg)

end
