(* ===== verification/EngineOutbox.thy ===== *)
theory EngineOutbox
  imports EngineAggregates
begin

text \<open>
  The outbox table of the engine's store (\<^verbatim>\<open>src/crates/store/src/engine/mod.rs\<close>, outbox section).

  A row is a message to publish until it is closed. A heavy message carries the set of its
  outstanding recipients, a \<^verbatim>\<open>BTreeMap\<close> from peer to delivery id, here the list of its entries. The
  column stores the JSON text of the map; \<^verbatim>\<open>json\<close> is that rendering (serde_json), which only the
  prefilter of the acknowledgement reads.

  The lemmas show the invariant of the table, that a closed row never changes again, that an
  acknowledgement removes exactly the acknowledging recipient of a row that lists it and closes the
  row with the last one, and that a claim takes due rows that nobody leases.
\<close>

section \<open>Data\<close>

datatype EngineOutboxState = OutboxOpen | OutboxClosed

type_synonym ack_map = "(string \<times> string) list"

record new_engine_outbox_message =
  no_outbox_id :: string
  no_aggregate_kind :: string
  no_aggregate_id :: string
  no_phase_ref :: string
  no_kind :: string
  no_topic :: string
  no_payload :: bytes
  no_ack_set :: "ack_map option"
  no_first_at :: int

record engine_outbox_message =
  ob_outbox_id :: string
  ob_aggregate_kind :: string
  ob_aggregate_id :: string
  ob_phase_ref :: string
  ob_kind :: string
  ob_topic :: string
  ob_payload :: bytes
  ob_ack_set :: "ack_map option"
  ob_state :: EngineOutboxState
  ob_close_reason :: "string option"
  ob_publish_count :: int
  ob_next_at :: int
  ob_lease_until :: int
  ob_last_error :: "string option"
  ob_created_at :: int
  ob_updated_at :: int
  ob_closed_at :: "int option"

datatype EngineOutboxCloseTarget =
    CloseRow string
  | ClosePhase string string string
  | CloseAggregate string string

datatype EngineOutboxAck =
    Matched string bool
  | NoMatch

type_synonym outbox_table = "engine_outbox_message list"

section \<open>Operations\<close>

definition insert_engine_outbox_message ::
  "new_engine_outbox_message \<Rightarrow> int \<Rightarrow> outbox_table \<Rightarrow> bool \<times> outbox_table" where
  "insert_engine_outbox_message m now t =
     (let row = \<lparr> ob_outbox_id = no_outbox_id m, ob_aggregate_kind = no_aggregate_kind m,
                  ob_aggregate_id = no_aggregate_id m, ob_phase_ref = no_phase_ref m,
                  ob_kind = no_kind m, ob_topic = no_topic m, ob_payload = no_payload m,
                  ob_ack_set = no_ack_set m, ob_state = OutboxOpen, ob_close_reason = None,
                  ob_publish_count = 0, ob_next_at = no_first_at m, ob_lease_until = 0,
                  ob_last_error = None, ob_created_at = now, ob_updated_at = now,
                  ob_closed_at = None \<rparr>
      in (find_row ob_outbox_id (no_outbox_id m) t = None, insert_or_ignore ob_outbox_id row t))"

definition find_engine_outbox_message :: "string \<Rightarrow> outbox_table \<Rightarrow> engine_outbox_message option" where
  "find_engine_outbox_message outbox_id t = find_row ob_outbox_id outbox_id t"

definition outbox_due :: "int \<Rightarrow> engine_outbox_message \<Rightarrow> bool" where
  "outbox_due now r \<longleftrightarrow> ob_state r = OutboxOpen \<and> ob_next_at r \<le> now \<and> ob_lease_until r \<le> now"

primrec claim_outbox_loop ::
  "int \<Rightarrow> int \<Rightarrow> string list \<Rightarrow> outbox_table \<Rightarrow> engine_outbox_message list \<times> outbox_table" where
  "claim_outbox_loop now lease_until [] t = ([], t)"
| "claim_outbox_loop now lease_until (outbox_id # ids) t =
     (let (returned, t1) = update_returning (\<lambda>r. ob_outbox_id r = outbox_id \<and> outbox_due now r)
            (\<lambda>r. r\<lparr> ob_lease_until := lease_until, ob_updated_at := now \<rparr>) t;
          (claimed, t2) = claim_outbox_loop now lease_until ids t1
      in (case fetch_optional returned of None \<Rightarrow> claimed | Some row \<Rightarrow> row # claimed, t2))"

definition outbox_candidates :: "int \<Rightarrow> int \<Rightarrow> outbox_table \<Rightarrow> string list" where
  "outbox_candidates now limit t =
     map ob_outbox_id (sql_limit limit
       (sort_key (\<lambda>r. (ob_next_at r, ob_created_at r)) (filter (outbox_due now) t)))"

definition claim_due_engine_outbox_messages ::
  "int \<Rightarrow> int \<Rightarrow> int \<Rightarrow> outbox_table \<Rightarrow> engine_outbox_message list \<times> outbox_table" where
  "claim_due_engine_outbox_messages now lease_until limit t =
     claim_outbox_loop now lease_until (outbox_candidates now limit t) t"

text \<open>\<^verbatim>\<open>WHERE outbox_id = ? AND state = 'Open'\<close>\<close>

definition open_message :: "string \<Rightarrow> engine_outbox_message \<Rightarrow> bool" where
  "open_message outbox_id r \<longleftrightarrow> ob_outbox_id r = outbox_id \<and> ob_state r = OutboxOpen"

definition record_engine_outbox_publish ::
  "string \<Rightarrow> int \<Rightarrow> int \<Rightarrow> outbox_table \<Rightarrow> bool \<times> outbox_table" where
  "record_engine_outbox_publish outbox_id next_at now t =
     (0 < count_rows (open_message outbox_id) t,
      update_rows (open_message outbox_id)
        (\<lambda>r. r\<lparr> ob_publish_count := ob_publish_count r + 1, ob_next_at := next_at,
               ob_lease_until := 0, ob_last_error := None, ob_updated_at := now \<rparr>) t)"

definition record_engine_outbox_publish_failure ::
  "string \<Rightarrow> string \<Rightarrow> int \<Rightarrow> int \<Rightarrow> outbox_table \<Rightarrow> bool \<times> outbox_table" where
  "record_engine_outbox_publish_failure outbox_id error next_at now t =
     (0 < count_rows (open_message outbox_id) t,
      update_rows (open_message outbox_id)
        (\<lambda>r. r\<lparr> ob_next_at := next_at, ob_lease_until := 0, ob_last_error := Some error,
               ob_updated_at := now \<rparr>) t)"

fun close_matches :: "EngineOutboxCloseTarget \<Rightarrow> engine_outbox_message \<Rightarrow> bool" where
  "close_matches (CloseRow outbox_id) r \<longleftrightarrow> ob_outbox_id r = outbox_id \<and> ob_state r = OutboxOpen"
| "close_matches (ClosePhase kind id' phase_ref) r \<longleftrightarrow>
     ob_aggregate_kind r = kind \<and> ob_aggregate_id r = id' \<and> ob_phase_ref r = phase_ref \<and>
     ob_state r = OutboxOpen"
| "close_matches (CloseAggregate kind id') r \<longleftrightarrow>
     ob_aggregate_kind r = kind \<and> ob_aggregate_id r = id' \<and> ob_state r = OutboxOpen"

definition close_engine_outbox ::
  "EngineOutboxCloseTarget \<Rightarrow> string \<Rightarrow> int \<Rightarrow> outbox_table \<Rightarrow> nat \<times> outbox_table" where
  "close_engine_outbox target reason now t =
     (count_rows (close_matches target) t,
      update_rows (close_matches target)
        (\<lambda>r. r\<lparr> ob_state := OutboxClosed, ob_payload := [], ob_close_reason := Some reason,
               ob_closed_at := Some now, ob_lease_until := 0, ob_updated_at := now \<rparr>) t)"

text \<open>\<^verbatim>\<open>BTreeMap::remove\<close>\<close>

definition ack_remove :: "string \<Rightarrow> ack_map \<Rightarrow> ack_map" where
  "ack_remove peer m = filter (\<lambda>(p, d). p \<noteq> peer) m"

definition ack_candidate ::
  "(ack_map \<Rightarrow> string) \<Rightarrow> string \<Rightarrow> engine_outbox_message \<Rightarrow> bool" where
  "ack_candidate json delivery_id r \<longleftrightarrow>
     ob_state r = OutboxOpen \<and>
     (case ob_ack_set r of None \<Rightarrow> False | Some m \<Rightarrow> sublist delivery_id (json m))"

primrec acknowledge_loop ::
  "string \<Rightarrow> string \<Rightarrow> int \<Rightarrow> engine_outbox_message list \<Rightarrow> outbox_table \<Rightarrow>
   EngineOutboxAck \<times> outbox_table" where
  "acknowledge_loop peer delivery_id now [] t = (NoMatch, t)"
| "acknowledge_loop peer delivery_id now (message # rows) t =
     (case ob_ack_set message of
        None \<Rightarrow> acknowledge_loop peer delivery_id now rows t
      | Some ack_set \<Rightarrow>
          if map_of ack_set peer \<noteq> Some delivery_id
          then acknowledge_loop peer delivery_id now rows t
          else
            let rest = ack_remove peer ack_set;
                closed = (rest = []);
                p = open_message (ob_outbox_id message);
                t' = (if closed
                      then update_rows p
                        (\<lambda>r. r\<lparr> ob_ack_set := Some [], ob_state := OutboxClosed, ob_payload := [],
                               ob_close_reason := Some ''acked'', ob_closed_at := Some now,
                               ob_lease_until := 0, ob_updated_at := now \<rparr>) t
                      else update_rows p
                        (\<lambda>r. r\<lparr> ob_ack_set := Some rest, ob_updated_at := now \<rparr>) t)
            in if 0 < count_rows p t then (Matched (ob_outbox_id message) closed, t')
               else acknowledge_loop peer delivery_id now rows t')"

definition acknowledge_engine_outbox ::
  "(ack_map \<Rightarrow> string) \<Rightarrow> string \<Rightarrow> string \<Rightarrow> int \<Rightarrow> outbox_table \<Rightarrow> EngineOutboxAck \<times> outbox_table" where
  "acknowledge_engine_outbox json peer delivery_id now t =
     acknowledge_loop peer delivery_id now (filter (ack_candidate json delivery_id) t) t"

definition reset_engine_outbox_leases :: "outbox_table \<Rightarrow> nat \<times> outbox_table" where
  "reset_engine_outbox_leases t =
     (let p = (\<lambda>r. ob_state r = OutboxOpen \<and> 0 < ob_lease_until r)
      in (count_rows p t, update_rows p (\<lambda>r. r\<lparr> ob_lease_until := 0 \<rparr>) t))"

definition purge_closed_outbox_rows :: "int \<Rightarrow> outbox_table \<Rightarrow> nat \<times> outbox_table" where
  "purge_closed_outbox_rows before t =
     (let p = (\<lambda>r. ob_state r = OutboxClosed \<and> ob_updated_at r < before)
      in (count_rows p t, delete_rows p t))"

section \<open>Invariant, steps and the order on rows\<close>

definition outbox_row_ok :: "engine_outbox_message \<Rightarrow> bool" where
  "outbox_row_ok r \<longleftrightarrow>
     0 \<le> ob_publish_count r \<and>
     (case ob_state r of
        OutboxOpen \<Rightarrow> ob_closed_at r = None \<and> ob_close_reason r = None
      | OutboxClosed \<Rightarrow> ob_closed_at r \<noteq> None \<and> ob_close_reason r \<noteq> None \<and>
                        ob_payload r = [] \<and> ob_lease_until r = 0)"

definition outbox_inv :: "outbox_table \<Rightarrow> bool" where
  "outbox_inv t \<longleftrightarrow> distinct (map ob_outbox_id t) \<and> list_all outbox_row_ok t"

inductive outbox_step :: "outbox_table \<Rightarrow> outbox_table \<Rightarrow> bool" where
  insert: "outbox_step t (snd (insert_engine_outbox_message m now t))"
| claim: "outbox_step t (snd (claim_due_engine_outbox_messages now lease limit t))"
| publish: "outbox_step t (snd (record_engine_outbox_publish i next now t))"
| publish_failure: "outbox_step t (snd (record_engine_outbox_publish_failure i err next now t))"
| close: "outbox_step t (snd (close_engine_outbox target reason now t))"
| ack: "outbox_step t (snd (acknowledge_engine_outbox json peer delivery_id now t))"
| reset: "outbox_step t (snd (reset_engine_outbox_leases t))"

fun ack_subset :: "ack_map option \<Rightarrow> ack_map option \<Rightarrow> bool" where
  "ack_subset None None = True"
| "ack_subset (Some m) (Some m') = (set m \<subseteq> set m')"
| "ack_subset _ _ = False"

text \<open>A row keeps its identity, its recipients only acknowledge, and once closed it is never touched again.\<close>

definition outbox_le :: "engine_outbox_message \<Rightarrow> engine_outbox_message \<Rightarrow> bool" where
  "outbox_le r r' \<longleftrightarrow>
     ob_outbox_id r' = ob_outbox_id r \<and> ob_aggregate_kind r' = ob_aggregate_kind r \<and>
     ob_aggregate_id r' = ob_aggregate_id r \<and> ob_phase_ref r' = ob_phase_ref r \<and>
     ob_kind r' = ob_kind r \<and> ob_topic r' = ob_topic r \<and> ob_created_at r' = ob_created_at r \<and>
     ob_publish_count r \<le> ob_publish_count r' \<and> ack_subset (ob_ack_set r') (ob_ack_set r) \<and>
     (ob_payload r' = ob_payload r \<or> ob_state r' = OutboxClosed) \<and>
     (if ob_state r = OutboxClosed then r' = r else True)"

section \<open>Every query keeps the invariant and moves rows along the order\<close>

definition outbox_good ::
  "(engine_outbox_message \<Rightarrow> bool) \<Rightarrow> (engine_outbox_message \<Rightarrow> engine_outbox_message) \<Rightarrow> bool" where
  "outbox_good p f \<longleftrightarrow>
     (\<forall>r. p r \<longrightarrow> outbox_le r (f r) \<and> (outbox_row_ok r \<longrightarrow> outbox_row_ok (f r)))"

definition outbox_evolves :: "outbox_table \<Rightarrow> outbox_table \<Rightarrow> bool" where
  "outbox_evolves t t' \<longleftrightarrow>
     (outbox_inv t \<longrightarrow> outbox_inv t' \<and>
       (\<forall>k r. find_engine_outbox_message k t = Some r \<longrightarrow>
          (\<exists>r'. find_engine_outbox_message k t' = Some r' \<and> outbox_le r r')))"

lemma ack_subset_refl [simp]: "ack_subset m m"
  by (cases m) auto

lemma ack_subset_trans: "ack_subset a b \<Longrightarrow> ack_subset b c \<Longrightarrow> ack_subset a c"
  by (cases a; cases b; cases c) auto

lemma outbox_le_refl [simp]: "outbox_le r r"
  by (simp add: outbox_le_def)

lemma outbox_le_trans: "outbox_le r1 r2 \<Longrightarrow> outbox_le r2 r3 \<Longrightarrow> outbox_le r1 r3"
  by (auto simp: outbox_le_def dest: ack_subset_trans split: if_splits)

lemma outbox_evolves_refl [simp]: "outbox_evolves t t"
  using outbox_le_refl unfolding outbox_evolves_def by blast

lemma outbox_evolves_trans: "outbox_evolves t u \<Longrightarrow> outbox_evolves u v \<Longrightarrow> outbox_evolves t v"
  unfolding outbox_evolves_def using outbox_le_trans by meson

lemma outbox_evolves_update:
  assumes "outbox_good p f"
  shows "outbox_evolves t (update_rows p f t)"
proof -
  have same: "ob_outbox_id (f r) = ob_outbox_id r" if "p r" for r
    using assms that by (simp add: outbox_good_def outbox_le_def)
  have "map ob_outbox_id (update_rows p f t) = map ob_outbox_id t"
    using same by (rule map_update_rows)
  moreover have "list_all outbox_row_ok t \<Longrightarrow> list_all outbox_row_ok (update_rows p f t)"
    using assms by (auto intro!: list_all_update_rows simp: outbox_good_def)
  moreover have "find_row ob_outbox_id k (update_rows p f t) =
      map_option (\<lambda>r. if p r then f r else r) (find_row ob_outbox_id k t)" for k
    using same by (rule find_row_update_rows)
  ultimately show ?thesis
    using assms
    by (auto simp: outbox_evolves_def outbox_inv_def outbox_good_def find_engine_outbox_message_def)
qed

lemmas outbox_good_simps =
  outbox_good_def outbox_le_def outbox_row_ok_def open_message_def outbox_due_def

lemma outbox_evolves_insert: "outbox_evolves t (snd (insert_engine_outbox_message m now t))"
  by (auto simp: outbox_evolves_def outbox_inv_def insert_engine_outbox_message_def Let_def
      insert_or_ignore_distinct list_all_insert_or_ignore find_engine_outbox_message_def
      table_simps outbox_row_ok_def)

lemma outbox_evolves_record:
  "outbox_evolves t (snd (record_engine_outbox_publish i next now t))"
  "outbox_evolves t (snd (record_engine_outbox_publish_failure i err next now t))"
  unfolding record_engine_outbox_publish_def record_engine_outbox_publish_failure_def snd_conv
  by (rule outbox_evolves_update; auto simp: outbox_good_simps)+

lemma close_matches_open: "close_matches target r \<Longrightarrow> ob_state r = OutboxOpen"
  by (cases target) auto

lemma outbox_evolves_close: "outbox_evolves t (snd (close_engine_outbox target reason now t))"
  unfolding close_engine_outbox_def snd_conv
  by (rule outbox_evolves_update) (auto simp: outbox_good_simps dest: close_matches_open)

lemma outbox_evolves_claim_loop: "outbox_evolves t (snd (claim_outbox_loop now lease ids t))"
proof (induction ids arbitrary: t)
  case (Cons i ids)
  let ?p = "\<lambda>r. ob_outbox_id r = i \<and> outbox_due now r"
  let ?f = "\<lambda>r. r\<lparr> ob_lease_until := lease, ob_updated_at := now \<rparr>"
  have "outbox_evolves t (update_rows ?p ?f t)"
    by (rule outbox_evolves_update) (auto simp: outbox_good_simps)
  from outbox_evolves_trans [OF this Cons.IH] show ?case
    by (simp add: Let_def split_beta update_returning_def)
qed simp

lemma outbox_evolves_reset: "outbox_evolves t (snd (reset_engine_outbox_leases t))"
  unfolding reset_engine_outbox_leases_def Let_def snd_conv
  by (rule outbox_evolves_update) (auto simp: outbox_good_simps)

section \<open>Acknowledgements\<close>

text \<open>The row still waits for \<^verbatim>\<open>peer\<close>, under exactly this delivery id.\<close>

definition awaits :: "string \<Rightarrow> string \<Rightarrow> engine_outbox_message \<Rightarrow> bool" where
  "awaits peer delivery_id r \<longleftrightarrow>
     (case ob_ack_set r of None \<Rightarrow> False | Some m \<Rightarrow> map_of m peer = Some delivery_id)"

definition ack_row :: "string \<Rightarrow> int \<Rightarrow> engine_outbox_message \<Rightarrow> engine_outbox_message" where
  "ack_row peer now r =
     (case ob_ack_set r of
        None \<Rightarrow> r
      | Some m \<Rightarrow>
          if ack_remove peer m = []
          then r\<lparr> ob_ack_set := Some [], ob_state := OutboxClosed, ob_payload := [],
                  ob_close_reason := Some ''acked'', ob_closed_at := Some now,
                  ob_lease_until := 0, ob_updated_at := now \<rparr>
          else r\<lparr> ob_ack_set := Some (ack_remove peer m), ob_updated_at := now \<rparr>)"

lemma set_ack_remove: "set (ack_remove peer m) \<subseteq> set m"
  by (auto simp: ack_remove_def)

lemma map_of_ack_remove: "map_of (ack_remove peer m) = (map_of m)(peer := None)"
  by (induction m) (auto simp: ack_remove_def)

lemma open_message_unique:
  assumes "distinct (map ob_outbox_id t)" "m \<in> set t" "ob_state m = OutboxOpen" "r \<in> set t"
  shows "open_message (ob_outbox_id m) r \<longleftrightarrow> r = m"
  using assms by (auto simp: open_message_def distinct_map inj_on_def)

lemma update_open_message:
  assumes "distinct (map ob_outbox_id t)" "m \<in> set t" "ob_state m = OutboxOpen" "f m = g m"
  shows "update_rows (open_message (ob_outbox_id m)) f t = update_rows (\<lambda>r. r = m) g t"
  unfolding update_rows_def using open_message_unique [OF assms(1-3)] assms(4)
  by (intro map_cong) auto

lemma acknowledge_loop_eq:
  assumes "distinct (map ob_outbox_id t)"
    and "\<And>m. m \<in> set rows \<Longrightarrow> m \<in> set t \<and> ob_state m = OutboxOpen"
  shows "acknowledge_loop peer d now rows t =
    (case List.find (awaits peer d) rows of
       None \<Rightarrow> (NoMatch, t)
     | Some m \<Rightarrow> (Matched (ob_outbox_id m) (ob_state (ack_row peer now m) = OutboxClosed),
                  update_rows (\<lambda>r. r = m) (ack_row peer now) t))"
  using assms(2)
proof (induction rows)
  case (Cons m rows)
  then have m: "m \<in> set t" "ob_state m = OutboxOpen"
    by auto
  then have "0 < count_rows (open_message (ob_outbox_id m)) t"
    by (auto simp: count_rows_pos open_message_def)
  then show ?case
    using Cons m
    by (auto simp: awaits_def ack_row_def Let_def split: option.split
        intro!: update_open_message [OF assms(1) m])
qed simp

lemma acknowledge_eq:
  assumes "distinct (map ob_outbox_id t)"
  shows "acknowledge_engine_outbox json peer d now t =
    (case List.find (\<lambda>r. ack_candidate json d r \<and> awaits peer d r) t of
       None \<Rightarrow> (NoMatch, t)
     | Some m \<Rightarrow> (Matched (ob_outbox_id m) (ob_state (ack_row peer now m) = OutboxClosed),
                  update_rows (\<lambda>r. r = m) (ack_row peer now) t))"
proof -
  have "List.find Q (filter P xs) = List.find (\<lambda>r. P r \<and> Q r) xs" for P Q and xs :: outbox_table
    by (induction xs) auto
  then show ?thesis
    unfolding acknowledge_engine_outbox_def
    by (subst acknowledge_loop_eq [OF assms]) (auto simp: ack_candidate_def)
qed

lemma outbox_good_ack:
  "ob_state m = OutboxOpen \<Longrightarrow> outbox_good (\<lambda>r. r = m) (ack_row peer now)"
  using set_ack_remove by (auto simp: outbox_good_simps ack_row_def split: option.splits)

lemma outbox_evolves_ack:
  "outbox_evolves t (snd (acknowledge_engine_outbox json peer d now t))"
proof (cases "distinct (map ob_outbox_id t)")
  case True
  show ?thesis
  proof (cases "List.find (\<lambda>r. ack_candidate json d r \<and> awaits peer d r) t")
    case None
    with True show ?thesis by (simp add: acknowledge_eq)
  next
    case (Some m)
    then have "ob_state m = OutboxOpen"
      by (auto simp: find_Some_iff ack_candidate_def)
    with Some True show ?thesis
      by (simp add: acknowledge_eq outbox_evolves_update outbox_good_ack)
  qed
qed (simp add: outbox_evolves_def outbox_inv_def)

lemma outbox_step_evolves: "outbox_step t t' \<Longrightarrow> outbox_evolves t t'"
  unfolding claim_due_engine_outbox_messages_def [abs_def]
  by (induction rule: outbox_step.induct)
    (simp_all add: outbox_evolves_insert outbox_evolves_record outbox_evolves_close
      outbox_evolves_claim_loop outbox_evolves_ack outbox_evolves_reset
      claim_due_engine_outbox_messages_def)

interpretation outbox: row_lifecycle
  "\<lambda>t k. find_engine_outbox_message k t" outbox_inv outbox_step outbox_le
proof (standard, goal_cases)
  case (1 t t')
  then show ?case using outbox_step_evolves unfolding outbox_evolves_def by blast
next
  case (2 t t' k r)
  then show ?case using outbox_step_evolves unfolding outbox_evolves_def by blast
next
  case (4 r1 r2 r3)
  then show ?case by (rule outbox_le_trans)
qed simp

lemma outbox_inv_empty: "outbox_inv []"
  by (simp add: outbox_inv_def)

lemma outbox_inv_purge: "outbox_inv t \<Longrightarrow> outbox_inv (snd (purge_closed_outbox_rows before t))"
  by (simp add: outbox_inv_def purge_closed_outbox_rows_def Let_def distinct_delete_rows
      list_all_delete_rows)

section \<open>Claims\<close>

lemma claim_loop_member:
  assumes "distinct (map ob_outbox_id t)" "distinct ids"
    and "r \<in> set (fst (claim_outbox_loop now lease ids t))"
  shows "\<exists>r0 \<in> set t. ob_outbox_id r0 \<in> set ids \<and> outbox_due now r0 \<and>
           r = r0\<lparr> ob_lease_until := lease, ob_updated_at := now \<rparr>"
  using assms
proof (induction ids arbitrary: t)
  case (Cons i ids)
  let ?p = "\<lambda>r. ob_outbox_id r = i \<and> outbox_due now r"
  let ?f = "\<lambda>r. r\<lparr> ob_lease_until := lease, ob_updated_at := now \<rparr>"
  let ?t = "update_rows ?p ?f t"
  have dist: "distinct (map ob_outbox_id ?t)"
    using Cons.prems(1) by (subst map_update_rows) auto
  consider "fetch_optional (map ?f (filter ?p t)) = Some r"
    | "r \<in> set (fst (claim_outbox_loop now lease ids ?t))"
    using Cons.prems(3) by (auto simp: Let_def split_beta update_returning_def split: option.splits)
  then show ?case
  proof cases
    case 1
    then have "r \<in> set (map ?f (filter ?p t))"
      by (cases "map ?f (filter ?p t)") auto
    then show ?thesis by auto
  next
    case 2
    then obtain r1 where r1: "r1 \<in> set ?t" "ob_outbox_id r1 \<in> set ids" "outbox_due now r1" "r = ?f r1"
      using Cons.IH [OF dist] Cons.prems(2) by auto
    then have "r1 \<in> set t"
      using Cons.prems(2) by (auto simp: set_update_rows split: if_splits)
    with r1 show ?thesis by auto
  qed
qed simp

lemma outbox_candidates_distinct:
  "distinct (map ob_outbox_id t) \<Longrightarrow> distinct (outbox_candidates now limit t)"
proof -
  assume "distinct (map ob_outbox_id t)"
  then have "distinct (map ob_outbox_id (filter (outbox_due now) t))"
    by (rule distinct_map_filter)
  then have "distinct (map ob_outbox_id
      (sort_key (\<lambda>r. (ob_next_at r, ob_created_at r)) (filter (outbox_due now) t)))"
    by (simp add: distinct_map)
  then show ?thesis
    by (simp add: outbox_candidates_def sql_limit_def take_map [symmetric])
qed

lemma length_claim_loop: "length (fst (claim_outbox_loop now lease ids t)) \<le> length ids"
  by (induction ids arbitrary: t) (auto simp: Let_def split_beta le_SucI split: option.split)

end
