(* ===== verification/EngineJobs.thy ===== *)
theory EngineJobs
  imports EngineAggregates
begin

text \<open>
  The job table of the engine's store (\<^verbatim>\<open>src/crates/store/src/engine/mod.rs\<close>, job section).

  A job is claimed under a lease and a new generation; only the holder of the current generation may
  finish it. The lemmas show the invariant of the table, that a generation is finished at most once
  and a stale holder writes nothing, that a terminal job and a cancelled job are never run again, and
  that the claims keep at most one job of an aggregate under a live lease.
\<close>

section \<open>Data\<close>

datatype EngineJobState =
  JobPending | JobRunning | JobDone | JobFailed | JobCancelled | JobPoisoned

datatype EngineJobInsert =
    JobInserted
  | JobExisting EngineJobState

record new_engine_job =
  nj_job_id :: string
  nj_aggregate_kind :: string
  nj_aggregate_id :: string
  nj_phase :: string
  nj_action :: string
  nj_pool :: string
  nj_params :: bytes
  nj_deadline_at :: "int option"
  nj_first_at :: int

record engine_job =
  jb_job_id :: string
  jb_aggregate_kind :: string
  jb_aggregate_id :: string
  jb_phase :: string
  jb_action :: string
  jb_pool :: string
  jb_params :: "bytes option"
  jb_state :: EngineJobState
  jb_generation :: int
  jb_lease_until :: int
  jb_attempts :: int
  jb_next_at :: int
  jb_deadline_at :: "int option"
  jb_cancel_requested :: bool
  jb_result :: "bytes option"
  jb_last_error :: "string option"
  jb_created_at :: int
  jb_updated_at :: int
  jb_finished_at :: "int option"

datatype EngineJobFinish =
    FinishDone bytes
  | FinishRetry string int
  | FinishFailed string
  | FinishPoisoned string

datatype EngineJobFinishOutcome =
    FinishApplied EngineJobState
  | FinishStale int EngineJobState
  | FinishMissing

type_synonym job_table = "engine_job list"

definition is_inserted :: "EngineJobInsert \<Rightarrow> bool" where
  "is_inserted i \<longleftrightarrow> (case i of JobInserted \<Rightarrow> True | JobExisting _ \<Rightarrow> False)"

section \<open>Operations\<close>

definition find_engine_job :: "string \<Rightarrow> job_table \<Rightarrow> engine_job option" where
  "find_engine_job job_id t = find_row jb_job_id job_id t"

definition new_job_row :: "new_engine_job \<Rightarrow> int \<Rightarrow> engine_job" where
  "new_job_row j now = \<lparr>
     jb_job_id = nj_job_id j, jb_aggregate_kind = nj_aggregate_kind j,
     jb_aggregate_id = nj_aggregate_id j, jb_phase = nj_phase j, jb_action = nj_action j,
     jb_pool = nj_pool j, jb_params = Some (nj_params j), jb_state = JobPending,
     jb_generation = 0, jb_lease_until = 0, jb_attempts = 0, jb_next_at = nj_first_at j,
     jb_deadline_at = nj_deadline_at j, jb_cancel_requested = False, jb_result = None,
     jb_last_error = None, jb_created_at = now, jb_updated_at = now, jb_finished_at = None \<rparr>"

definition insert_engine_job ::
  "new_engine_job \<Rightarrow> int \<Rightarrow> job_table \<Rightarrow> EngineJobInsert \<times> job_table" where
  "insert_engine_job j now t =
     (case find_engine_job (nj_job_id j) t of
        None \<Rightarrow> (JobInserted, t @ [new_job_row j now])
      | Some existing \<Rightarrow> (JobExisting (jb_state existing), t))"

definition job_claimable :: "int \<Rightarrow> engine_job \<Rightarrow> bool" where
  "job_claimable now r \<longleftrightarrow>
     (jb_state r = JobPending \<and> jb_next_at r \<le> now) \<or>
     (jb_state r = JobRunning \<and> jb_lease_until r \<le> now \<and> \<not> jb_cancel_requested r)"

definition same_aggregate :: "engine_job \<Rightarrow> engine_job \<Rightarrow> bool" where
  "same_aggregate r q \<longleftrightarrow>
     jb_aggregate_kind r = jb_aggregate_kind q \<and> jb_aggregate_id r = jb_aggregate_id q"

definition live :: "int \<Rightarrow> engine_job \<Rightarrow> bool" where
  "live now r \<longleftrightarrow> jb_state r = JobRunning \<and> now < jb_lease_until r"

text \<open>The second \<^verbatim>\<open>NOT EXISTS\<close> of the claim: another job of the aggregate runs under a live lease.\<close>

definition other_live :: "job_table \<Rightarrow> int \<Rightarrow> engine_job \<Rightarrow> bool" where
  "other_live t now r \<longleftrightarrow>
     list_ex (\<lambda>q. same_aggregate q r \<and> jb_job_id q \<noteq> jb_job_id r \<and> live now q) t"

definition job_candidates ::
  "poison_row list \<Rightarrow> string \<Rightarrow> int \<Rightarrow> int \<Rightarrow> job_table \<Rightarrow> string list" where
  "job_candidates poisons pool now limit t =
     map jb_job_id (sql_limit limit
       (sort_key (\<lambda>r. (jb_next_at r, jb_created_at r))
         (filter (\<lambda>r. jb_pool r = pool \<and> job_claimable now r \<and>
                      \<not> poison_blocks poisons (jb_aggregate_kind r) (jb_aggregate_id r) (jb_action r) now \<and>
                      \<not> other_live t now r) t)))"

primrec claim_jobs_loop ::
  "int \<Rightarrow> int \<Rightarrow> string list \<Rightarrow> job_table \<Rightarrow> engine_job list \<times> job_table" where
  "claim_jobs_loop now lease_until [] t = ([], t)"
| "claim_jobs_loop now lease_until (job_id # ids) t =
     (let (returned, t1) = update_returning
            (\<lambda>r. jb_job_id r = job_id \<and> job_claimable now r \<and> \<not> other_live t now r)
            (\<lambda>r. r\<lparr> jb_state := JobRunning, jb_generation := jb_generation r + 1,
                   jb_lease_until := lease_until, jb_attempts := jb_attempts r + 1,
                   jb_updated_at := now \<rparr>) t;
          (claimed, t2) = claim_jobs_loop now lease_until ids t1
      in (case fetch_optional returned of None \<Rightarrow> claimed | Some row \<Rightarrow> row # claimed, t2))"

definition claim_due_engine_jobs ::
  "poison_row list \<Rightarrow> string \<Rightarrow> int \<Rightarrow> int \<Rightarrow> int \<Rightarrow> job_table \<Rightarrow> engine_job list \<times> job_table" where
  "claim_due_engine_jobs poisons pool now lease_until limit t =
     claim_jobs_loop now lease_until (job_candidates poisons pool now limit t) t"

definition finish_lapsed_cancelled_engine_jobs :: "int \<Rightarrow> job_table \<Rightarrow> engine_job list \<times> job_table" where
  "finish_lapsed_cancelled_engine_jobs now t =
     update_returning
       (\<lambda>r. jb_state r = JobRunning \<and> jb_lease_until r \<le> now \<and> jb_cancel_requested r)
       (\<lambda>r. r\<lparr> jb_state := JobCancelled, jb_last_error := Some ''cancelled'', jb_lease_until := 0,
              jb_finished_at := Some now, jb_updated_at := now \<rparr>) t"

text \<open>\<^verbatim>\<open>WHERE job_id = ? AND generation = ? AND state = 'Running'\<close>\<close>

definition held_by :: "string \<Rightarrow> int \<Rightarrow> engine_job \<Rightarrow> bool" where
  "held_by job_id generation r \<longleftrightarrow>
     jb_job_id r = job_id \<and> jb_generation r = generation \<and> jb_state r = JobRunning"

definition renew_engine_job_lease ::
  "string \<Rightarrow> int \<Rightarrow> int \<Rightarrow> int \<Rightarrow> job_table \<Rightarrow> bool \<times> job_table" where
  "renew_engine_job_lease job_id generation lease_until now t =
     (0 < count_rows (held_by job_id generation) t,
      update_rows (held_by job_id generation)
        (\<lambda>r. r\<lparr> jb_lease_until := lease_until, jb_updated_at := now \<rparr>) t)"

text \<open>The state, result, error and next run a completion writes.\<close>

definition finish_columns ::
  "EngineJobFinish \<Rightarrow> bool \<Rightarrow> EngineJobState \<times> bytes option \<times> string option \<times> int" where
  "finish_columns finish cancel_requested =
     (case finish of
        FinishDone result \<Rightarrow>
          if cancel_requested then (JobCancelled, Some result, None, 0)
          else (JobDone, Some result, None, 0)
      | FinishRetry error next_at \<Rightarrow>
          if cancel_requested then (JobCancelled, None, Some ''cancelled'', 0)
          else (JobPending, None, Some error, next_at)
      | FinishFailed error \<Rightarrow> (JobFailed, None, Some error, 0)
      | FinishPoisoned error \<Rightarrow> (JobPoisoned, None, Some error, 0))"

definition finish_engine_job ::
  "string \<Rightarrow> int \<Rightarrow> EngineJobFinish \<Rightarrow> int \<Rightarrow> job_table \<Rightarrow> EngineJobFinishOutcome \<times> job_table" where
  "finish_engine_job job_id generation finish now t =
     (case find_engine_job job_id t of
        None \<Rightarrow> (FinishMissing, t)
      | Some current \<Rightarrow>
          if jb_generation current \<noteq> generation \<or> jb_state current \<noteq> JobRunning
          then (FinishStale (jb_generation current) (jb_state current), t)
          else
            let (state, result, error, next_at) = finish_columns finish (jb_cancel_requested current);
                finished_at = (if state = JobPending \<or> state = JobRunning then None else Some now);
                t' = update_rows (held_by job_id generation)
                  (\<lambda>r. r\<lparr> jb_state := state, jb_result := result, jb_last_error := error,
                         jb_next_at := next_at, jb_lease_until := 0, jb_finished_at := finished_at,
                         jb_updated_at := now \<rparr>) t
            in if count_rows (held_by job_id generation) t = 0
               then (FinishStale (jb_generation current) (jb_state current), t')
               else (FinishApplied state, t'))"

text \<open>The two \<^verbatim>\<open>UPDATE\<close>s of a cancellation, restricted to the rows it is about.\<close>

definition cancel_pending :: "(engine_job \<Rightarrow> bool) \<Rightarrow> int \<Rightarrow> job_table \<Rightarrow> nat \<times> job_table" where
  "cancel_pending sel now t =
     (let p = (\<lambda>r. sel r \<and> jb_state r = JobPending)
      in (count_rows p t, update_rows p
           (\<lambda>r. r\<lparr> jb_state := JobCancelled, jb_finished_at := Some now, jb_updated_at := now \<rparr>) t))"

definition request_cancel :: "(engine_job \<Rightarrow> bool) \<Rightarrow> int \<Rightarrow> job_table \<Rightarrow> nat \<times> job_table" where
  "request_cancel sel now t =
     (let p = (\<lambda>r. sel r \<and> jb_state r = JobRunning)
      in (count_rows p t, update_rows p
           (\<lambda>r. r\<lparr> jb_cancel_requested := True, jb_updated_at := now \<rparr>) t))"

definition cancel_engine_job :: "string \<Rightarrow> int \<Rightarrow> job_table \<Rightarrow> bool \<times> job_table" where
  "cancel_engine_job job_id now t =
     (let sel = (\<lambda>r. jb_job_id r = job_id);
          (cancelled, t1) = cancel_pending sel now t
      in if 0 < cancelled then (True, t1)
         else let (n, t2) = request_cancel sel now t1 in (0 < n, t2))"

definition cancel_engine_jobs_for_aggregate ::
  "string \<Rightarrow> string \<Rightarrow> int \<Rightarrow> job_table \<Rightarrow> nat \<times> job_table" where
  "cancel_engine_jobs_for_aggregate kind id' now t =
     (let sel = (\<lambda>r. jb_aggregate_kind r = kind \<and> jb_aggregate_id r = id');
          (pending, t1) = cancel_pending sel now t;
          (running, t2) = request_cancel sel now t1
      in (pending + running, t2))"

definition job_terminal :: "EngineJobState \<Rightarrow> bool" where
  "job_terminal s \<longleftrightarrow> s \<in> {JobDone, JobFailed, JobCancelled, JobPoisoned}"

definition clear_engine_job_result :: "string \<Rightarrow> int \<Rightarrow> job_table \<Rightarrow> bool \<times> job_table" where
  "clear_engine_job_result job_id now t =
     (let p = (\<lambda>r. jb_job_id r = job_id \<and> job_terminal (jb_state r))
      in (0 < count_rows p t, update_rows p
           (\<lambda>r. r\<lparr> jb_result := None, jb_params := None, jb_updated_at := now \<rparr>) t))"

primrec cancel_jobs_loop :: "string list \<Rightarrow> int \<Rightarrow> job_table \<Rightarrow> nat \<times> job_table" where
  "cancel_jobs_loop [] now t = (0, t)"
| "cancel_jobs_loop (job_id # ids) now t =
     (let (done, t1) = cancel_engine_job job_id now t;
          (n, t2) = cancel_jobs_loop ids now t1
      in ((if done then n + 1 else n), t2))"

definition cancel_engine_jobs_for_phase ::
  "string \<Rightarrow> string \<Rightarrow> string \<Rightarrow> int \<Rightarrow> job_table \<Rightarrow> nat \<times> job_table" where
  "cancel_engine_jobs_for_phase kind id' phase now t =
     cancel_jobs_loop (map jb_job_id
       (filter (\<lambda>r. jb_aggregate_kind r = kind \<and> jb_aggregate_id r = id' \<and> jb_phase r = phase \<and>
                    jb_state r \<in> {JobPending, JobRunning}) t)) now t"

definition list_engine_jobs_for_aggregate :: "string \<Rightarrow> string \<Rightarrow> job_table \<Rightarrow> engine_job list" where
  "list_engine_jobs_for_aggregate kind id' t =
     sort_key jb_created_at
       (filter (\<lambda>r. jb_aggregate_kind r = kind \<and> jb_aggregate_id r = id') t)"

definition reset_engine_job_leases :: "job_table \<Rightarrow> nat \<times> job_table" where
  "reset_engine_job_leases t =
     (let p = (\<lambda>r. jb_state r = JobRunning \<and> 0 < jb_lease_until r)
      in (count_rows p t, update_rows p (\<lambda>r. r\<lparr> jb_lease_until := 0 \<rparr>) t))"

definition purge_finished_job_rows :: "int \<Rightarrow> job_table \<Rightarrow> nat \<times> job_table" where
  "purge_finished_job_rows before t =
     (let p = (\<lambda>r. job_terminal (jb_state r) \<and> jb_updated_at r < before)
      in (count_rows p t, delete_rows p t))"

section \<open>Invariant, steps and the order on rows\<close>

definition job_row_ok :: "engine_job \<Rightarrow> bool" where
  "job_row_ok r \<longleftrightarrow>
     0 \<le> jb_generation r \<and> jb_attempts r = jb_generation r \<and>
     (jb_finished_at r = None \<longleftrightarrow> \<not> job_terminal (jb_state r)) \<and>
     (if jb_state r = JobRunning then 1 \<le> jb_generation r else jb_lease_until r = 0) \<and>
     (if jb_state r = JobPending then \<not> jb_cancel_requested r else True) \<and>
     (if jb_params r = None then job_terminal (jb_state r) else True)"

definition jobs_inv :: "job_table \<Rightarrow> bool" where
  "jobs_inv t \<longleftrightarrow> distinct (map jb_job_id t) \<and> list_all job_row_ok t"

inductive job_step :: "job_table \<Rightarrow> job_table \<Rightarrow> bool" where
  insert: "job_step t (snd (insert_engine_job j now t))"
| claim: "job_step t (snd (claim_due_engine_jobs poisons pool now lease limit t))"
| lapsed: "job_step t (snd (finish_lapsed_cancelled_engine_jobs now t))"
| renew: "job_step t (snd (renew_engine_job_lease i g lease now t))"
| finish: "job_step t (snd (finish_engine_job i g fin now t))"
| cancel: "job_step t (snd (cancel_engine_job i now t))"
| cancel_aggregate: "job_step t (snd (cancel_engine_jobs_for_aggregate kind id' now t))"
| cancel_phase: "job_step t (snd (cancel_engine_jobs_for_phase kind id' phase now t))"
| clear: "job_step t (snd (clear_engine_job_result i now t))"
| reset: "job_step t (snd (reset_engine_job_leases t))"

definition same_job :: "engine_job \<Rightarrow> engine_job \<Rightarrow> bool" where
  "same_job r r' \<longleftrightarrow>
     jb_job_id r' = jb_job_id r \<and> jb_aggregate_kind r' = jb_aggregate_kind r \<and>
     jb_aggregate_id r' = jb_aggregate_id r \<and> jb_phase r' = jb_phase r \<and>
     jb_action r' = jb_action r \<and> jb_pool r' = jb_pool r \<and>
     jb_deadline_at r' = jb_deadline_at r \<and> jb_created_at r' = jb_created_at r"

text \<open>Terminal, or flagged for cancellation: the job is never claimed again.\<close>

definition no_more_runs :: "engine_job \<Rightarrow> bool" where
  "no_more_runs r \<longleftrightarrow> job_terminal (jb_state r) \<or> (jb_state r = JobRunning \<and> jb_cancel_requested r)"

text \<open>Generation \<open>g\<close> has had its run: a newer one exists, or it is no longer running.\<close>

definition spent :: "int \<Rightarrow> engine_job \<Rightarrow> bool" where
  "spent g r \<longleftrightarrow> g < jb_generation r \<or> (g = jb_generation r \<and> jb_state r \<noteq> JobRunning)"

definition job_le :: "engine_job \<Rightarrow> engine_job \<Rightarrow> bool" where
  "job_le r r' \<longleftrightarrow>
     same_job r r' \<and> jb_generation r \<le> jb_generation r' \<and>
     (if jb_generation r' = jb_generation r \<and> jb_state r \<noteq> JobRunning
      then jb_state r' \<noteq> JobRunning else True) \<and>
     (if no_more_runs r then no_more_runs r' \<and> jb_generation r' = jb_generation r else True) \<and>
     (if job_terminal (jb_state r)
      then jb_state r' = jb_state r \<and> jb_finished_at r' = jb_finished_at r \<and>
           jb_last_error r' = jb_last_error r
      else True)"

section \<open>Every query keeps the invariant and moves rows along the order\<close>

definition job_good :: "(engine_job \<Rightarrow> bool) \<Rightarrow> (engine_job \<Rightarrow> engine_job) \<Rightarrow> bool" where
  "job_good p f \<longleftrightarrow>
     (\<forall>r. p r \<longrightarrow> job_row_ok r \<longrightarrow> job_le r (f r) \<and> job_row_ok (f r)) \<and>
     (\<forall>r. p r \<longrightarrow> jb_job_id (f r) = jb_job_id r)"

definition job_evolves :: "job_table \<Rightarrow> job_table \<Rightarrow> bool" where
  "job_evolves t t' \<longleftrightarrow>
     (jobs_inv t \<longrightarrow> jobs_inv t' \<and>
       (\<forall>k r. find_engine_job k t = Some r \<longrightarrow>
          (\<exists>r'. find_engine_job k t' = Some r' \<and> job_le r r')))"

lemma job_le_refl [simp]: "job_le r r"
  by (simp add: job_le_def same_job_def)

lemma job_le_trans: "job_le r1 r2 \<Longrightarrow> job_le r2 r3 \<Longrightarrow> job_le r1 r3"
  by (auto simp: job_le_def same_job_def split: if_splits)

lemma job_evolves_refl [simp]: "job_evolves t t"
  using job_le_refl unfolding job_evolves_def by blast

lemma job_evolves_trans: "job_evolves t u \<Longrightarrow> job_evolves u v \<Longrightarrow> job_evolves t v"
  unfolding job_evolves_def using job_le_trans by meson

lemma job_evolves_update:
  assumes "job_good p f"
  shows "job_evolves t (update_rows p f t)"
proof -
  have same: "jb_job_id (f r) = jb_job_id r" if "p r" for r
    using assms that by (simp add: job_good_def)
  have "map jb_job_id (update_rows p f t) = map jb_job_id t"
    using same by (rule map_update_rows)
  moreover have "list_all job_row_ok t \<Longrightarrow> list_all job_row_ok (update_rows p f t)"
    using assms by (auto intro!: list_all_update_rows simp: job_good_def)
  moreover have "find_row jb_job_id k (update_rows p f t) =
      map_option (\<lambda>r. if p r then f r else r) (find_row jb_job_id k t)" for k
    using same by (rule find_row_update_rows)
  moreover have "find_row jb_job_id k t = Some r \<Longrightarrow> list_all job_row_ok t \<Longrightarrow> job_row_ok r" for k r
    by (auto simp: list_all_iff dest: find_row_SomeD)
  ultimately show ?thesis
    using assms by (auto simp: job_evolves_def jobs_inv_def job_good_def find_engine_job_def)
qed

lemmas job_good_simps =
  job_good_def job_le_def same_job_def job_row_ok_def no_more_runs_def job_terminal_def held_by_def

lemma job_row_ok_new [simp]: "job_row_ok (new_job_row j now)"
  by (simp add: job_row_ok_def new_job_row_def job_terminal_def)

lemma job_evolves_insert: "job_evolves t (snd (insert_engine_job j now t))"
proof (cases "find_engine_job (nj_job_id j) t")
  case None
  then have "nj_job_id j \<notin> jb_job_id ` set t"
    by (simp add: find_engine_job_def find_row_None_iff)
  moreover have "jb_job_id (new_job_row j now) = nj_job_id j"
    by (simp add: new_job_row_def)
  ultimately show ?thesis
    using None
    by (auto simp: job_evolves_def jobs_inv_def insert_engine_job_def find_engine_job_def table_simps)
qed (simp add: insert_engine_job_def)

lemma job_good_claim:
  "job_good (\<lambda>r. jb_job_id r = i \<and> job_claimable now r \<and> q r)
     (\<lambda>r. r\<lparr> jb_state := JobRunning, jb_generation := jb_generation r + 1,
            jb_lease_until := lease, jb_attempts := jb_attempts r + 1, jb_updated_at := now \<rparr>)"
  by (auto simp: job_good_simps job_claimable_def)

lemma job_evolves_claim_loop: "job_evolves t (snd (claim_jobs_loop now lease ids t))"
proof (induction ids arbitrary: t)
  case (Cons i ids)
  from job_evolves_trans [OF job_evolves_update [OF job_good_claim] Cons.IH] show ?case
    by (simp add: Let_def split_beta update_returning_def)
qed simp

lemma job_evolves_lapsed: "job_evolves t (snd (finish_lapsed_cancelled_engine_jobs now t))"
  unfolding finish_lapsed_cancelled_engine_jobs_def update_returning_def snd_conv
  by (rule job_evolves_update) (auto simp: job_good_simps)

lemma job_evolves_renew: "job_evolves t (snd (renew_engine_job_lease i g lease now t))"
  unfolding renew_engine_job_lease_def snd_conv
  by (rule job_evolves_update) (auto simp: job_good_simps)

lemma job_evolves_pending: "job_evolves t (snd (cancel_pending sel now t))"
  unfolding cancel_pending_def Let_def snd_conv
  by (rule job_evolves_update) (auto simp: job_good_simps)

lemma job_evolves_request: "job_evolves t (snd (request_cancel sel now t))"
  unfolding request_cancel_def Let_def snd_conv
  by (rule job_evolves_update) (auto simp: job_good_simps)

lemma job_evolves_cancel: "job_evolves t (snd (cancel_engine_job i now t))"
  using job_evolves_pending job_evolves_trans [OF job_evolves_pending job_evolves_request]
  by (simp add: cancel_engine_job_def Let_def split_beta)

lemma job_evolves_cancel_aggregate:
  "job_evolves t (snd (cancel_engine_jobs_for_aggregate kind id' now t))"
  using job_evolves_trans [OF job_evolves_pending job_evolves_request]
  by (simp add: cancel_engine_jobs_for_aggregate_def Let_def split_beta)

lemma job_evolves_cancel_loop: "job_evolves t (snd (cancel_jobs_loop ids now t))"
proof (induction ids arbitrary: t)
  case (Cons i ids)
  from job_evolves_trans [OF job_evolves_cancel Cons.IH] show ?case
    by (simp add: Let_def split_beta)
qed simp

lemma job_evolves_clear: "job_evolves t (snd (clear_engine_job_result i now t))"
  unfolding clear_engine_job_result_def Let_def snd_conv
  by (rule job_evolves_update) (auto simp: job_good_simps)

lemma job_evolves_reset: "job_evolves t (snd (reset_engine_job_leases t))"
  unfolding reset_engine_job_leases_def Let_def snd_conv
  by (rule job_evolves_update) (auto simp: job_good_simps)

section \<open>Completion and fencing\<close>

definition finish_row :: "EngineJobFinish \<Rightarrow> int \<Rightarrow> engine_job \<Rightarrow> engine_job" where
  "finish_row finish now r =
     (let (state, result, error, next_at) = finish_columns finish (jb_cancel_requested r)
      in r\<lparr> jb_state := state, jb_result := result, jb_last_error := error, jb_next_at := next_at,
            jb_lease_until := 0,
            jb_finished_at := (if state = JobPending \<or> state = JobRunning then None else Some now),
            jb_updated_at := now \<rparr>)"

lemma finish_columns_state:
  "fst (finish_columns finish c) \<noteq> JobRunning"
  "c \<Longrightarrow> job_terminal (fst (finish_columns finish c))"
  by (auto simp: finish_columns_def job_terminal_def split: EngineJobFinish.split)

lemma held_by_unique:
  assumes "distinct (map jb_job_id t)" "c \<in> set t" "held_by i g c" "r \<in> set t"
  shows "held_by i g r \<longleftrightarrow> r = c"
  using assms by (auto simp: held_by_def distinct_map inj_on_def)

lemma finish_stale:
  "find_engine_job i t = Some c \<Longrightarrow> \<not> held_by i g c \<Longrightarrow>
   finish_engine_job i g fin now t = (FinishStale (jb_generation c) (jb_state c), t)"
  by (auto simp: finish_engine_job_def held_by_def find_engine_job_def dest: find_row_SomeD)

lemma finish_applied:
  assumes "distinct (map jb_job_id t)" "find_engine_job i t = Some c" "held_by i g c"
  shows "finish_engine_job i g fin now t =
    (FinishApplied (jb_state (finish_row fin now c)), update_rows (\<lambda>r. r = c) (finish_row fin now) t)"
proof -
  have c: "c \<in> set t"
    using assms(2) by (auto simp: find_engine_job_def dest: find_row_SomeD)
  obtain st res err nx where cols: "finish_columns fin (jb_cancel_requested c) = (st, res, err, nx)"
    by (metis prod_cases4)
  let ?f = "\<lambda>r. r\<lparr> jb_state := st, jb_result := res, jb_last_error := err, jb_next_at := nx,
      jb_lease_until := 0,
      jb_finished_at := (if st = JobPending \<or> st = JobRunning then None else Some now),
      jb_updated_at := now \<rparr>"
  have fc: "finish_row fin now c = ?f c"
    using cols by (simp add: finish_row_def)
  have "update_rows (held_by i g) ?f t = update_rows (\<lambda>r. r = c) (finish_row fin now) t"
    unfolding update_rows_def using held_by_unique [OF assms(1) c assms(3)] fc
    by (intro map_cong) auto
  moreover have "count_rows (held_by i g) t \<noteq> 0"
    using c assms(3) by (auto simp: count_rows_0)
  moreover have "jb_state (finish_row fin now c) = st"
    using fc by simp
  moreover have "jb_generation c = g" "jb_state c = JobRunning"
    using assms(3) by (auto simp: held_by_def)
  ultimately show ?thesis
    using assms(2) cols by (simp add: finish_engine_job_def Let_def)
qed

lemma job_good_finish: "jb_state c = JobRunning \<Longrightarrow> job_good (\<lambda>r. r = c) (finish_row fin now)"
  by (auto simp: job_good_simps finish_row_def finish_columns_def Let_def
      split: EngineJobFinish.split)

lemma job_evolves_finish: "job_evolves t (snd (finish_engine_job i g fin now t))"
proof (cases "distinct (map jb_job_id t)")
  case True
  show ?thesis
  proof (cases "find_engine_job i t")
    case None
    then show ?thesis by (simp add: finish_engine_job_def)
  next
    case (Some c)
    then show ?thesis
      using True
      by (cases "held_by i g c")
        (simp_all add: finish_stale finish_applied job_evolves_update job_good_finish held_by_def)
  qed
qed (simp add: job_evolves_def jobs_inv_def)

lemma job_step_evolves: "job_step t t' \<Longrightarrow> job_evolves t t'"
  by (induction rule: job_step.induct)
    (simp_all add: job_evolves_insert job_evolves_claim_loop job_evolves_lapsed job_evolves_renew
      job_evolves_finish job_evolves_cancel job_evolves_cancel_aggregate job_evolves_cancel_loop
      job_evolves_clear job_evolves_reset claim_due_engine_jobs_def cancel_engine_jobs_for_phase_def)

interpretation jobs: row_lifecycle
  "\<lambda>t k. find_engine_job k t" jobs_inv job_step job_le
proof (standard, goal_cases)
  case (1 t t')
  then show ?case using job_step_evolves unfolding job_evolves_def by blast
next
  case (2 t t' k r)
  then show ?case using job_step_evolves unfolding job_evolves_def by blast
next
  case (4 r1 r2 r3)
  then show ?case by (rule job_le_trans)
qed simp

lemma jobs_inv_empty: "jobs_inv []"
  by (simp add: jobs_inv_def)

lemma jobs_inv_purge: "jobs_inv t \<Longrightarrow> jobs_inv (snd (purge_finished_job_rows before t))"
  by (simp add: jobs_inv_def purge_finished_job_rows_def Let_def distinct_delete_rows
      list_all_delete_rows)

lemma spent_le: "spent g r \<Longrightarrow> job_le r r' \<Longrightarrow> spent g r'"
  by (auto simp: spent_def job_le_def split: if_splits)

lemma no_more_runs_le: "no_more_runs r \<Longrightarrow> job_le r r' \<Longrightarrow> no_more_runs r'"
  by (auto simp: job_le_def split: if_splits)

lemma spent_not_held: "spent g r \<Longrightarrow> \<not> held_by i g r"
  by (auto simp: spent_def held_by_def)

lemma finish_spends:
  assumes "jobs_inv t" "find_engine_job i t = Some c"
  shows "find_engine_job i (snd (finish_engine_job i g fin now t)) =
    Some (if held_by i g c then finish_row fin now c else c)"
proof (cases "held_by i g c")
  case True
  have "jb_job_id (finish_row fin now c) = jb_job_id c"
    by (simp add: finish_row_def Let_def split_beta)
  then have "find_row jb_job_id i (update_rows (\<lambda>r. r = c) (finish_row fin now) t) =
      map_option (\<lambda>r. if r = c then finish_row fin now r else r) (find_row jb_job_id i t)"
    by (intro find_row_update_rows) auto
  with True assms show ?thesis
    by (simp add: jobs_inv_def finish_applied find_engine_job_def)
next
  case False
  with assms show ?thesis by (simp add: finish_stale)
qed

lemma spent_finish_row: "jb_generation c = g \<Longrightarrow> spent g (finish_row fin now c)"
  using finish_columns_state(1)
  by (simp add: spent_def finish_row_def Let_def split_beta)

section \<open>One job of an aggregate at a time\<close>

definition jobs_exclusive :: "int \<Rightarrow> job_table \<Rightarrow> bool" where
  "jobs_exclusive now t \<longleftrightarrow>
     list_all (\<lambda>r. list_all (\<lambda>q. same_aggregate r q \<and> live now r \<and> live now q \<longrightarrow>
                                 jb_job_id r = jb_job_id q) t) t"

lemma jobs_exclusive_later: "jobs_exclusive now t \<Longrightarrow> now \<le> now' \<Longrightarrow> jobs_exclusive now' t"
  by (auto simp: jobs_exclusive_def list_all_iff live_def)

lemma jobs_exclusive_map:
  assumes "\<And>r. r \<in> set t \<Longrightarrow> jb_job_id (g r) = jb_job_id r \<and> same_aggregate r (g r)"
  shows "jobs_exclusive now (map g t) \<longleftrightarrow>
    (\<forall>r \<in> set t. \<forall>q \<in> set t. same_aggregate r q \<and> live now (g r) \<and> live now (g q) \<longrightarrow>
       jb_job_id r = jb_job_id q)"
  using assms by (simp add: jobs_exclusive_def list_all_iff same_aggregate_def)

text \<open>An update that starts no lease keeps the exclusion.\<close>

lemma jobs_exclusive_update:
  assumes "jobs_exclusive now t"
    and "\<And>r. r \<in> set t \<Longrightarrow> p r \<Longrightarrow> jb_job_id (f r) = jb_job_id r \<and> same_aggregate r (f r) \<and>
            (live now (f r) \<longrightarrow> live now r)"
  shows "jobs_exclusive now (update_rows p f t)"
proof -
  define g where "g r = (if p r then f r else r)" for r
  have g: "jb_job_id (g r) = jb_job_id r \<and> same_aggregate r (g r)" "live now (g r) \<Longrightarrow> live now r"
    if "r \<in> set t" for r
    using assms(2) [OF that] by (auto simp: g_def same_aggregate_def split: if_splits)
  have "jobs_exclusive now (map g t)"
    using assms(1) g by (subst jobs_exclusive_map) (auto simp: jobs_exclusive_def list_all_iff)
  then show ?thesis by (simp add: update_rows_def g_def [abs_def])
qed

lemma jobs_exclusive_claim_one:
  assumes "jobs_exclusive now t"
    and f: "\<And>r. jb_job_id (f r) = jb_job_id r \<and> same_aggregate r (f r)"
  shows "jobs_exclusive now
    (update_rows (\<lambda>r. jb_job_id r = i \<and> job_claimable now r \<and> \<not> other_live t now r) f t)"
    (is "jobs_exclusive now (update_rows ?p f t)")
proof -
  define g where "g r = (if ?p r then f r else r)" for r
  have same: "jb_job_id (g r) = jb_job_id r \<and> same_aggregate r (g r)" for r
    using f by (simp add: g_def same_aggregate_def)
  have live_g: "?p r \<or> live now r" if "live now (g r)" for r
    using that by (auto simp: g_def split: if_splits)
  have one: "jb_job_id r = jb_job_id q"
    if "r \<in> set t" "q \<in> set t" "same_aggregate r q" "?p r" "?p q \<or> live now q" for r q
    using that by (auto simp: other_live_def list_ex_iff same_aggregate_def)
  have "jb_job_id r = jb_job_id q"
    if "r \<in> set t" "q \<in> set t" "same_aggregate r q" "live now (g r)" "live now (g q)" for r q
  proof (cases "?p r \<or> ?p q")
    case True
    then show ?thesis
      using one [of r q] one [of q r] live_g that by (auto simp: same_aggregate_def)
  next
    case False
    then have "live now r" "live now q" using live_g that by blast+
    with that assms(1) show ?thesis by (auto simp: jobs_exclusive_def list_all_iff)
  qed
  then have "jobs_exclusive now (map g t)"
    using same by (subst jobs_exclusive_map) auto
  then show ?thesis by (simp add: update_rows_def g_def [abs_def])
qed

lemma jobs_exclusive_claim_loop:
  "jobs_exclusive now t \<Longrightarrow> jobs_exclusive now (snd (claim_jobs_loop now lease ids t))"
proof (induction ids arbitrary: t)
  case (Cons i ids)
  have "jobs_exclusive now (snd (claim_jobs_loop now lease ids
      (update_rows (\<lambda>r. jb_job_id r = i \<and> job_claimable now r \<and> \<not> other_live t now r)
         (\<lambda>r. r\<lparr> jb_state := JobRunning, jb_generation := jb_generation r + 1,
                jb_lease_until := lease, jb_attempts := jb_attempts r + 1,
                jb_updated_at := now \<rparr>) t)))"
    by (intro Cons.IH jobs_exclusive_claim_one [OF Cons.prems]) (auto simp: same_aggregate_def)
  then show ?case
    by (simp add: Let_def split_beta update_returning_def)
qed simp

lemma jobs_exclusive_renew:
  "jobs_exclusive now t \<Longrightarrow> (\<And>r. r \<in> set t \<Longrightarrow> held_by i g r \<Longrightarrow> live now r) \<Longrightarrow>
   jobs_exclusive now (snd (renew_engine_job_lease i g lease now t))"
  unfolding renew_engine_job_lease_def snd_conv
  by (rule jobs_exclusive_update) (auto simp: same_aggregate_def)

lemma jobs_exclusive_pending:
  "jobs_exclusive now t \<Longrightarrow> jobs_exclusive now (snd (cancel_pending sel n t))"
  "jobs_exclusive now t \<Longrightarrow> jobs_exclusive now (snd (request_cancel sel n t))"
  unfolding cancel_pending_def request_cancel_def Let_def snd_conv
  by (rule jobs_exclusive_update; auto simp: same_aggregate_def live_def)+

lemma jobs_exclusive_cancel:
  "jobs_exclusive now t \<Longrightarrow> jobs_exclusive now (snd (cancel_engine_job i n t))"
  "jobs_exclusive now t \<Longrightarrow> jobs_exclusive now (snd (cancel_engine_jobs_for_aggregate kind id' n t))"
  by (simp_all add: cancel_engine_job_def cancel_engine_jobs_for_aggregate_def Let_def split_beta
      jobs_exclusive_pending)

lemma jobs_exclusive_cancel_loop:
  "jobs_exclusive now t \<Longrightarrow> jobs_exclusive now (snd (cancel_jobs_loop ids n t))"
  by (induction ids arbitrary: t) (simp_all add: Let_def split_beta jobs_exclusive_cancel)

lemma jobs_exclusive_finish:
  assumes "jobs_exclusive now t"
  shows "jobs_exclusive now (snd (finish_engine_job i g fin n t))"
proof (cases "find_engine_job i t")
  case None
  with assms show ?thesis by (simp add: finish_engine_job_def)
next
  case (Some c)
  show ?thesis
    using assms Some
    by (auto simp: finish_engine_job_def Let_def split_beta
        intro!: jobs_exclusive_update finish_columns_state(1)
        simp: same_aggregate_def live_def finish_columns_state(1))
qed

lemma jobs_exclusive_other:
  "jobs_exclusive now t \<Longrightarrow> jobs_exclusive now (snd (insert_engine_job j n t))"
  "jobs_exclusive now t \<Longrightarrow> jobs_exclusive now (snd (finish_lapsed_cancelled_engine_jobs n t))"
  "jobs_exclusive now t \<Longrightarrow> jobs_exclusive now (snd (clear_engine_job_result i n t))"
  "jobs_exclusive now t \<Longrightarrow> 0 \<le> now \<Longrightarrow> jobs_exclusive now (snd (reset_engine_job_leases t))"
  "jobs_exclusive now t \<Longrightarrow> jobs_exclusive now (snd (purge_finished_job_rows before t))"
proof goal_cases
  case 1
  then show ?case
    by (auto simp: insert_engine_job_def jobs_exclusive_def list_all_iff live_def new_job_row_def
        split: option.split)
next
  case 2
  then show ?case
    unfolding finish_lapsed_cancelled_engine_jobs_def update_returning_def snd_conv
    by (rule jobs_exclusive_update) (auto simp: same_aggregate_def live_def)
next
  case 3
  then show ?case
    unfolding clear_engine_job_result_def Let_def snd_conv
    by (rule jobs_exclusive_update) (auto simp: same_aggregate_def live_def)
next
  case 4
  then show ?case
    unfolding reset_engine_job_leases_def Let_def snd_conv
    by (intro jobs_exclusive_update) (auto simp: same_aggregate_def live_def)
next
  case 5
  then show ?case
    by (auto simp: purge_finished_job_rows_def Let_def jobs_exclusive_def list_all_iff set_delete_rows)
qed

end
