(* ===== verification/EngineEvents.thy ===== *)
theory EngineEvents
  imports EngineInbox EngineOutbox EngineJobs
begin

text \<open>
  The values that travel through the engine: aggregate references, events and job results
  (\<^verbatim>\<open>src/crates/engine/src/event.rs\<close>), the effects of an apply (\<^verbatim>\<open>effects.rs\<close>) and the contract of an
  aggregate handler (\<^verbatim>\<open>aggregate.rs\<close>).

  SHA-256, the hexadecimal rendering and the JSON encoding of a job result come from other crates and
  are arguments of the definitions that use them.
\<close>

section \<open>Aggregate references\<close>

record aggregate_ref =
  ar_kind :: string
  ar_id :: string

definition from_event :: "engine_inbox_event \<Rightarrow> aggregate_ref" where
  "from_event e = \<lparr> ar_kind = ie_aggregate_kind e, ar_id = ie_aggregate_id e \<rparr>"

definition wake_ref :: "aggregate_ref \<Rightarrow> string" where
  "wake_ref a = colon_join (ar_kind a) (ar_id a)"

definition shard_key :: "aggregate_ref \<Rightarrow> int" where
  "shard_key a = engine_shard_key (ar_kind a) (ar_id a)"

text \<open>\<^verbatim>\<open>shard_count.max(1) as i64\<close>; a shard count is far below \<^verbatim>\<open>i64::MAX\<close>, so the cast is exact.\<close>

definition shard :: "aggregate_ref \<Rightarrow> nat \<Rightarrow> nat" where
  "shard a shard_count = nat (shard_key a smod int (max shard_count 1))"

section \<open>Events\<close>

datatype EventSource = SourceNetwork | SourceChain | SourceHeight | SourceJob | SourceLocal

fun source_as_str :: "EventSource \<Rightarrow> string" where
  "source_as_str SourceNetwork = ''network''"
| "source_as_str SourceChain = ''chain''"
| "source_as_str SourceHeight = ''height''"
| "source_as_str SourceJob = ''job''"
| "source_as_str SourceLocal = ''local''"

record new_event =
  ev_event_id :: string
  ev_aggregate :: aggregate_ref
  ev_kind :: string
  ev_source :: EventSource
  ev_author :: string
  ev_admission_class :: string
  ev_payload :: bytes
  ev_ack :: "engine_ack_target option"

definition new_event_new ::
  "string \<Rightarrow> aggregate_ref \<Rightarrow> string \<Rightarrow> EventSource \<Rightarrow> bytes \<Rightarrow> new_event" where
  "new_event_new event_id aggregate kind source payload = \<lparr>
     ev_event_id = event_id, ev_aggregate = aggregate, ev_kind = kind, ev_source = source,
     ev_author = '''', ev_admission_class = '''', ev_payload = payload, ev_ack = None \<rparr>"

definition with_author :: "string \<Rightarrow> new_event \<Rightarrow> new_event" where
  "with_author author e = e\<lparr> ev_author := author \<rparr>"

definition with_admission_class :: "string \<Rightarrow> new_event \<Rightarrow> new_event" where
  "with_admission_class c e = e\<lparr> ev_admission_class := c \<rparr>"

definition with_ack :: "string \<Rightarrow> string \<Rightarrow> new_event \<Rightarrow> new_event" where
  "with_ack peer delivery_id e =
     e\<lparr> ev_ack := Some \<lparr> ack_peer = peer, ack_delivery_id = delivery_id \<rparr> \<rparr>"

definition into_store :: "new_event \<Rightarrow> new_engine_inbox_event" where
  "into_store e = \<lparr>
     ne_event_id = ev_event_id e,
     ne_aggregate_kind = ar_kind (ev_aggregate e),
     ne_aggregate_id = ar_id (ev_aggregate e),
     ne_kind = ev_kind e,
     ne_source = source_as_str (ev_source e),
     ne_author = ev_author e,
     ne_admission_class = ev_admission_class e,
     ne_payload = ev_payload e,
     ne_ack = ev_ack e \<rparr>"

definition JOB_RESULT_KIND :: string where
  "JOB_RESULT_KIND = ''job_result''"

datatype JobResultOutcome =
    ResultDone bytes
  | ResultFailed string
  | ResultCancelled
  | ResultPoisoned string

record job_result_event =
  jr_job_id :: string
  jr_phase :: string
  jr_action :: string
  jr_generation :: int
  jr_stale :: bool
  jr_outcome :: JobResultOutcome

definition job_result_event_id :: "string \<Rightarrow> int \<Rightarrow> string" where
  "job_result_event_id job_id generation = ''job-result:'' @ job_id @ '':'' @ show_int generation"

definition into_new_event ::
  "(job_result_event \<Rightarrow> bytes) \<Rightarrow> job_result_event \<Rightarrow> aggregate_ref \<Rightarrow> new_event" where
  "into_new_event to_vec r aggregate =
     new_event_new (job_result_event_id (jr_job_id r) (jr_generation r)) aggregate
       JOB_RESULT_KIND SourceJob (to_vec r)"

section \<open>Effects of an apply\<close>

datatype JobPool = PoolCpu | PoolPegout | PoolNetwork

fun pool_as_str :: "JobPool \<Rightarrow> string" where
  "pool_as_str PoolCpu = ''cpu''"
| "pool_as_str PoolPegout = ''pegout''"
| "pool_as_str PoolNetwork = ''network''"

definition stable_job_id ::
  "(bytes \<Rightarrow> bytes) \<Rightarrow> (bytes \<Rightarrow> string) \<Rightarrow> aggregate_ref \<Rightarrow> string \<Rightarrow> string \<Rightarrow> bytes \<Rightarrow> string" where
  "stable_job_id sha256 hex_encode aggregate phase action params =
     hex_encode (sha256
       (as_bytes (ar_kind aggregate) @ as_bytes '':'' @ as_bytes (ar_id aggregate) @ as_bytes '':'' @
        as_bytes phase @ as_bytes '':'' @ as_bytes action @ as_bytes '':'' @ sha256 params))"

record outbox_message =
  om_outbox_id :: string
  om_phase_ref :: string
  om_kind :: string
  om_topic :: string
  om_payload :: bytes
  om_ack_set :: "ack_map option"

record job_spec =
  js_job_id :: string
  js_phase :: string
  js_action :: string
  js_pool :: JobPool
  js_params :: bytes
  js_deadline_at :: "int option"
  js_run_after :: "int option"

definition job_spec_new ::
  "(bytes \<Rightarrow> bytes) \<Rightarrow> (bytes \<Rightarrow> string) \<Rightarrow> aggregate_ref \<Rightarrow> string \<Rightarrow> string \<Rightarrow> JobPool \<Rightarrow> bytes \<Rightarrow> job_spec"
where
  "job_spec_new sha256 hex_encode aggregate phase action pool params = \<lparr>
     js_job_id = stable_job_id sha256 hex_encode aggregate phase action params,
     js_phase = phase, js_action = action, js_pool = pool, js_params = params,
     js_deadline_at = None, js_run_after = None \<rparr>"

definition with_deadline :: "int \<Rightarrow> job_spec \<Rightarrow> job_spec" where
  "with_deadline deadline_at j = j\<lparr> js_deadline_at := Some deadline_at \<rparr>"

definition with_run_after :: "int \<Rightarrow> job_spec \<Rightarrow> job_spec" where
  "with_run_after run_after j = j\<lparr> js_run_after := Some run_after \<rparr>"

datatype JobCancel =
    CancelJob string
  | CancelPhase string
  | CancelAggregate string string
  | CancelAggregatePhase string string string

record effects =
  ef_status :: "string option"
  ef_phase :: "string option"
  ef_state :: "string option option"
  ef_outbox :: "outbox_message list"
  ef_outbox_closes :: "(EngineOutboxCloseTarget \<times> string) list"
  ef_jobs :: "job_spec list"
  ef_job_cancels :: "JobCancel list"
  ef_wake_refs :: "string list"
  ef_acks :: "engine_ack_target list"

definition default_effects :: effects where
  "default_effects = \<lparr>
     ef_status = None, ef_phase = None, ef_state = None, ef_outbox = [], ef_outbox_closes = [],
     ef_jobs = [], ef_job_cancels = [], ef_wake_refs = [], ef_acks = [] \<rparr>"

definition set_status :: "string \<Rightarrow> effects \<Rightarrow> effects" where
  "set_status s ef = ef\<lparr> ef_status := Some s \<rparr>"

definition set_phase :: "string \<Rightarrow> effects \<Rightarrow> effects" where
  "set_phase p ef = ef\<lparr> ef_phase := Some p \<rparr>"

definition set_state :: "string option \<Rightarrow> effects \<Rightarrow> effects" where
  "set_state s ef = ef\<lparr> ef_state := Some s \<rparr>"

definition send :: "outbox_message \<Rightarrow> effects \<Rightarrow> effects" where
  "send m ef = ef\<lparr> ef_outbox := ef_outbox ef @ [m] \<rparr>"

definition close_outbox :: "EngineOutboxCloseTarget \<Rightarrow> string \<Rightarrow> effects \<Rightarrow> effects" where
  "close_outbox target reason ef =
     ef\<lparr> ef_outbox_closes := ef_outbox_closes ef @ [(target, reason)] \<rparr>"

definition enqueue_job :: "job_spec \<Rightarrow> effects \<Rightarrow> effects" where
  "enqueue_job j ef = ef\<lparr> ef_jobs := ef_jobs ef @ [j] \<rparr>"

definition push_cancel :: "JobCancel \<Rightarrow> effects \<Rightarrow> effects" where
  "push_cancel c ef = ef\<lparr> ef_job_cancels := ef_job_cancels ef @ [c] \<rparr>"

definition cancel_job :: "string \<Rightarrow> effects \<Rightarrow> effects" where
  "cancel_job job_id = push_cancel (CancelJob job_id)"

definition cancel_phase_jobs :: "string \<Rightarrow> effects \<Rightarrow> effects" where
  "cancel_phase_jobs phase = push_cancel (CancelPhase phase)"

definition cancel_jobs_for_aggregate :: "aggregate_ref \<Rightarrow> effects \<Rightarrow> effects" where
  "cancel_jobs_for_aggregate a = push_cancel (CancelAggregate (ar_kind a) (ar_id a))"

definition cancel_phase_jobs_for_aggregate :: "aggregate_ref \<Rightarrow> string \<Rightarrow> effects \<Rightarrow> effects" where
  "cancel_phase_jobs_for_aggregate a phase =
     push_cancel (CancelAggregatePhase (ar_kind a) (ar_id a) phase)"

definition wake :: "string \<Rightarrow> effects \<Rightarrow> effects" where
  "wake r ef = ef\<lparr> ef_wake_refs := ef_wake_refs ef @ [r] \<rparr>"

definition ack :: "string \<Rightarrow> string \<Rightarrow> effects \<Rightarrow> effects" where
  "ack peer delivery_id ef =
     ef\<lparr> ef_acks := ef_acks ef @ [\<lparr> ack_peer = peer, ack_delivery_id = delivery_id \<rparr>] \<rparr>"

section \<open>The handler contract\<close>

record waiting_for =
  wf_wake_ref :: string
  wf_detail :: string

datatype ApplyOutcome =
    OutcomeApplied
  | OutcomeWaiting waiting_for
  | OutcomeRejected string

text \<open>
  An \<^verbatim>\<open>anyhow::Error\<close> is the chain of its causes' messages; the outermost one is what it prints.
\<close>

type_synonym anyhow_error = "string list"

fun error_to_string :: "anyhow_error \<Rightarrow> string" where
  "error_to_string [] = ''''"
| "error_to_string (m # ms) = m"

datatype ApplyError =
    ErrorTransient anyhow_error
  | ErrorInvariant anyhow_error

section \<open>Lemmas\<close>

lemma shard_range: "0 < n \<Longrightarrow> shard a n < n"
  using engine_shard_key_range [of "ar_kind a" "ar_id a"]
  by (auto simp: shard_def shard_key_def smod_mod_positive nat_less_iff)

text \<open>The worker a producer wakes is the worker whose queries select the event.\<close>

lemma shard_owns_event:
  "inbox_row_ok e \<Longrightarrow> 0 < n \<Longrightarrow>
   sql_mod (ie_shard_key e) (int n) = Some (int s) \<longleftrightarrow> s = shard (from_event e) n"
  using engine_shard_key_range [of "ie_aggregate_kind e" "ie_aggregate_id e"]
  by (auto simp: shard_unique shard_def shard_key_def from_event_def smod_mod_positive)

text \<open>Joining colon-free parts with colons is injective.\<close>

lemma split_at_colon:
  assumes "c \<notin> set a" "c \<notin> set b" "a @ c # x = b @ c # y"
  shows "a = b \<and> x = y"
  using assms
proof (induction a arbitrary: b)
  case Nil
  then show ?case by (cases b) auto
next
  case (Cons h a)
  then show ?case by (cases b) auto
qed

lemma colon_as_bytes: "CHR '':'' \<notin> set a \<Longrightarrow> (of_char CHR '':'' :: 8 word) \<notin> set (as_bytes a)"
  unfolding as_bytes_def set_map using of_char_inj by blast

end
