(* ===== verification/EngineStore.thy ===== *)
theory EngineStore
  imports EngineEvents
begin

text \<open>
  The database of the engine: its five tables and the business tables of the node, which only the
  aggregate handlers read and write (the type parameter). The retention purge and the row counts of
  \<^verbatim>\<open>src/crates/store/src/engine/mod.rs\<close> span the tables. A storage transaction is a pure update of the
  database value: what is not returned never happened, which is the rollback of a dropped
  transaction.

  The invariant of the database is the conjunction of the invariants of the tables, and the order
  \<^verbatim>\<open>db_evolves\<close> lifts the row orders to the database: no row disappears and every row moves along its
  order. The components below show that each of their operations keeps both.
\<close>

section \<open>Definitions\<close>

record 'b engine_db =
  db_inbox :: inbox_table
  db_aggregates :: "engine_aggregate list"
  db_poisons :: "poison_row list"
  db_outbox :: outbox_table
  db_jobs :: job_table
  db_business :: 'b

definition purge_engine_terminal_rows :: "int \<Rightarrow> 'b engine_db \<Rightarrow> nat \<times> 'b engine_db" where
  "purge_engine_terminal_rows before db =
     (let (inbox, i) = purge_terminal_inbox_rows before (db_inbox db);
          (outbox, ob) = purge_closed_outbox_rows before (db_outbox db);
          (jobs, j) = purge_finished_job_rows before (db_jobs db)
      in (inbox + outbox + jobs, db\<lparr> db_inbox := i, db_outbox := ob, db_jobs := j \<rparr>))"

record engine_state_count =
  sc_table :: string
  sc_state :: string
  sc_count :: int

fun inbox_state_str :: "EngineInboxState \<Rightarrow> string" where
  "inbox_state_str InboxPending = ''Pending''"
| "inbox_state_str InboxApplied = ''Applied''"
| "inbox_state_str InboxFailed = ''Failed''"
| "inbox_state_str InboxPoisoned = ''Poisoned''"

fun outbox_state_str :: "EngineOutboxState \<Rightarrow> string" where
  "outbox_state_str OutboxOpen = ''Open''"
| "outbox_state_str OutboxClosed = ''Closed''"

fun job_state_str :: "EngineJobState \<Rightarrow> string" where
  "job_state_str JobPending = ''Pending''"
| "job_state_str JobRunning = ''Running''"
| "job_state_str JobDone = ''Done''"
| "job_state_str JobFailed = ''Failed''"
| "job_state_str JobCancelled = ''Cancelled''"
| "job_state_str JobPoisoned = ''Poisoned''"

text \<open>\<^verbatim>\<open>SELECT 'tbl', state, COUNT(*) ... GROUP BY state\<close>\<close>

definition count_by_state :: "string \<Rightarrow> string list \<Rightarrow> engine_state_count list" where
  "count_by_state tbl states =
     map (\<lambda>s. \<lparr> sc_table = tbl, sc_state = s, sc_count = int (count_list states s) \<rparr>) (remdups states)"

definition waiting_row :: "engine_inbox_event \<Rightarrow> bool" where
  "waiting_row r \<longleftrightarrow> ie_state r = InboxPending \<and> ie_waiting_ref r \<noteq> None"

definition engine_state_counts :: "'b engine_db \<Rightarrow> engine_state_count list" where
  "engine_state_counts db =
     (let inbox = it_rows (db_inbox db); waiting = filter waiting_row inbox in
      count_by_state ''inbox'' (map (inbox_state_str \<circ> ie_state) inbox) @
      [\<lparr> sc_table = ''inbox_waiting'', sc_state = ''Waiting'', sc_count = int (length waiting) \<rparr>] @
      count_by_state ''outbox'' (map (outbox_state_str \<circ> ob_state) (db_outbox db)) @
      count_by_state ''job'' (map (job_state_str \<circ> jb_state) (db_jobs db)) @
      [\<lparr> sc_table = ''aggregate'', sc_state = ''Poisoned'',
         sc_count = int (length (remdups (map (\<lambda>p. colon_join (po_kind p) (po_id p)) (db_poisons db)))) \<rparr>,
       \<lparr> sc_table = ''aggregate'', sc_state = ''Waiting'',
         sc_count = int (length (remdups
           (map (\<lambda>e. colon_join (ie_aggregate_kind e) (ie_aggregate_id e)) waiting))) \<rparr>])"

definition db_inv :: "'b engine_db \<Rightarrow> bool" where
  "db_inv db \<longleftrightarrow>
     inbox_inv (db_inbox db) \<and> aggregates_inv (db_aggregates db) \<and>
     distinct (map po_key (db_poisons db)) \<and> outbox_inv (db_outbox db) \<and> jobs_inv (db_jobs db)"

definition empty_db :: "'b \<Rightarrow> 'b engine_db" where
  "empty_db b = \<lparr> db_inbox = empty_inbox, db_aggregates = [], db_poisons = [], db_outbox = [],
                  db_jobs = [], db_business = b \<rparr>"

definition aggregates_evolve :: "engine_aggregate list \<Rightarrow> engine_aggregate list \<Rightarrow> bool" where
  "aggregates_evolve t t' \<longleftrightarrow>
     (aggregates_inv t \<longrightarrow> aggregates_inv t' \<and>
       (\<forall>k i r. find_engine_aggregate k i t = Some r \<longrightarrow>
          (\<exists>r'. find_engine_aggregate k i t' = Some r' \<and> aggregate_le r r')))"

definition db_evolves :: "'b engine_db \<Rightarrow> 'b engine_db \<Rightarrow> bool" where
  "db_evolves db db' \<longleftrightarrow>
     inbox_evolves (db_inbox db) (db_inbox db') \<and>
     aggregates_evolve (db_aggregates db) (db_aggregates db') \<and>
     (distinct (map po_key (db_poisons db)) \<longrightarrow> distinct (map po_key (db_poisons db'))) \<and>
     outbox_evolves (db_outbox db) (db_outbox db') \<and>
     job_evolves (db_jobs db) (db_jobs db')"

section \<open>Lemmas\<close>

lemma db_inv_empty: "db_inv (empty_db b)"
  by (simp add: db_inv_def empty_db_def inbox_inv_empty outbox_inv_empty jobs_inv_empty
      aggregates_inv_def)

lemma aggregates_evolve_refl [simp]: "aggregates_evolve t t"
  by (auto simp: aggregates_evolve_def aggregate_le_def)

lemma aggregates_evolve_trans:
  "aggregates_evolve t u \<Longrightarrow> aggregates_evolve u v \<Longrightarrow> aggregates_evolve t v"
  unfolding aggregates_evolve_def using aggregates.le_trans by meson

lemma aggregates_evolve_upsert:
  "aggregates_evolve t (snd (upsert_engine_aggregate kind id' u now t))"
  by (auto simp: aggregates_evolve_def aggregates_inv_upsert find_upsert aggregate_le_apply,
      auto simp: aggregate_le_def)

lemma db_evolves_refl [simp]: "db_evolves db db"
  by (simp add: db_evolves_def)

lemma db_evolves_trans: "db_evolves a b \<Longrightarrow> db_evolves b c \<Longrightarrow> db_evolves a c"
  unfolding db_evolves_def
  using inbox_evolves_trans aggregates_evolve_trans outbox_evolves_trans job_evolves_trans by blast

lemma db_evolves_inv: "db_evolves db db' \<Longrightarrow> db_inv db \<Longrightarrow> db_inv db'"
  by (simp add: db_evolves_def db_inv_def inbox_evolves_def aggregates_evolve_def
      outbox_evolves_def job_evolves_def)

lemma db_evolves_inbox: "inbox_evolves (db_inbox db) i \<Longrightarrow> db_evolves db (db\<lparr> db_inbox := i \<rparr>)"
  and db_evolves_outbox: "outbox_evolves (db_outbox db) ob \<Longrightarrow> db_evolves db (db\<lparr> db_outbox := ob \<rparr>)"
  and db_evolves_jobs: "job_evolves (db_jobs db) j \<Longrightarrow> db_evolves db (db\<lparr> db_jobs := j \<rparr>)"
  and db_evolves_aggregates:
    "aggregates_evolve (db_aggregates db) a \<Longrightarrow> db_evolves db (db\<lparr> db_aggregates := a \<rparr>)"
  and db_evolves_poisons:
    "(distinct (map po_key (db_poisons db)) \<Longrightarrow> distinct (map po_key p)) \<Longrightarrow>
     db_evolves db (db\<lparr> db_poisons := p \<rparr>)"
  by (simp_all add: db_evolves_def)

lemma db_inv_purge:
  "db_inv db \<Longrightarrow> db_inv (snd (purge_engine_terminal_rows before db))"
  by (simp add: db_inv_def purge_engine_terminal_rows_def Let_def split_beta inbox_inv_purge
      outbox_inv_purge jobs_inv_purge)

text \<open>The purge removes terminal rows only: open work survives it unchanged.\<close>

lemma purge_keeps_open:
  assumes "db_inv db" and "db' = snd (purge_engine_terminal_rows before db)"
  shows "find_engine_inbox_event k (db_inbox db) = Some e \<Longrightarrow> ie_state e = InboxPending \<Longrightarrow>
           find_engine_inbox_event k (db_inbox db') = Some e"
    and "find_engine_outbox_message k (db_outbox db) = Some m \<Longrightarrow> ob_state m = OutboxOpen \<Longrightarrow>
           find_engine_outbox_message k (db_outbox db') = Some m"
    and "find_engine_job k (db_jobs db) = Some j \<Longrightarrow> \<not> job_terminal (jb_state j) \<Longrightarrow>
           find_engine_job k (db_jobs db') = Some j"
  using assms
  by (auto simp: db_inv_def inbox_inv_def outbox_inv_def jobs_inv_def purge_engine_terminal_rows_def
      Let_def split_beta purge_terminal_inbox_rows_def delete_inbox_def purge_closed_outbox_rows_def
      purge_finished_job_rows_def find_engine_inbox_event_def find_engine_outbox_message_def
      find_engine_job_def table_simps)

lemma purge_removes_only_old:
  assumes "db_inv db" and "db' = snd (purge_engine_terminal_rows before db)"
    and "find_engine_inbox_event k (db_inbox db) = Some e"
    and "find_engine_inbox_event k (db_inbox db') = None"
  shows "ie_state e \<noteq> InboxPending \<and> ie_updated_at e < before"
  using assms
  by (auto simp: db_inv_def inbox_inv_def purge_engine_terminal_rows_def Let_def split_beta
      purge_terminal_inbox_rows_def delete_inbox_def find_engine_inbox_event_def table_simps
      split: if_splits)

end
