(* ===== verification/EngineWorker.thy ===== *)
theory EngineWorker
  imports EngineStore
begin

text \<open>
  The aggregate workers (\<^verbatim>\<open>src/crates/engine/src/worker.rs\<close>) and the return channel of
  acknowledgements (\<^verbatim>\<open>ack.rs\<close>).

  An aggregate handler is a parameter: a function of the time, the aggregate, its bookkeeping row, the
  event and the database inside the apply transaction. It yields the effects it collected, the
  database it wrote and how it ended, panics and timeouts included. Each reading of the clock is an
  argument, so nothing is assumed about how much time passes inside a step. Storage errors of single
  queries are not modelled; a failing transaction leaves the database as it was.
\<close>

section \<open>The return channel\<close>

record ack_channel =
  ch_capacity :: nat
  ch_queue :: "engine_ack_target list"
  ch_closed :: bool

definition ack_sender_channel :: "nat \<Rightarrow> ack_channel" where
  "ack_sender_channel capacity = \<lparr> ch_capacity = max capacity 1, ch_queue = [], ch_closed = False \<rparr>"

definition try_send :: "engine_ack_target \<Rightarrow> ack_channel \<Rightarrow> bool \<times> ack_channel" where
  "try_send request ch =
     (if ch_closed ch \<or> ch_capacity ch \<le> length (ch_queue ch) then (False, ch)
      else (True, ch\<lparr> ch_queue := ch_queue ch @ [request] \<rparr>))"

section \<open>Outcomes\<close>

datatype ProcessOutcome =
  ProcApplied | ProcWaiting | ProcRejected | ProcTransient | ProcTimedOut | ProcPoisoned | ProcNoHandler

fun process_label :: "ProcessOutcome \<Rightarrow> string" where
  "process_label ProcApplied = ''applied''"
| "process_label ProcWaiting = ''waiting''"
| "process_label ProcRejected = ''rejected''"
| "process_label ProcTransient = ''transient''"
| "process_label ProcTimedOut = ''timed_out''"
| "process_label ProcPoisoned = ''poisoned''"
| "process_label ProcNoHandler = ''no_handler''"

text \<open>How the guarded call of a handler ends: with its result, after the timeout, or with a panic.\<close>

datatype handler_result =
    Returned ApplyOutcome
  | Errored ApplyError
  | Elapsed
  | Panicked string

type_synonym 'b handler =
  "int \<Rightarrow> aggregate_ref \<Rightarrow> engine_aggregate option \<Rightarrow> engine_inbox_event \<Rightarrow> 'b engine_db \<Rightarrow>
   handler_result \<times> effects \<times> 'b engine_db"

type_synonym 'b handlers = "string \<Rightarrow> 'b handler option"

section \<open>After the commit\<close>

record post_commit =
  pc_acks :: "engine_ack_target list"
  pc_woke :: bool
  pc_outbox :: bool
  pc_jobs :: bool

definition no_post :: post_commit where
  "no_post = \<lparr> pc_acks = [], pc_woke = False, pc_outbox = False, pc_jobs = False \<rparr>"

text \<open>The acknowledgements of a dispatch enter the channel one by one; the count is of those dropped.\<close>

primrec dispatch_acks :: "engine_ack_target list \<Rightarrow> ack_channel \<Rightarrow> nat \<times> ack_channel" where
  "dispatch_acks [] ch = (0, ch)"
| "dispatch_acks (a # as) ch =
     (let (sent, ch1) = try_send a ch; (dropped, ch2) = dispatch_acks as ch1
      in ((if sent then dropped else dropped + 1), ch2))"

section \<open>Committing an apply\<close>

definition commit_outbox :: "int \<Rightarrow> aggregate_ref \<Rightarrow> outbox_message list \<Rightarrow> outbox_table \<Rightarrow> outbox_table" where
  "commit_outbox now a =
     fold (\<lambda>m t. snd (insert_engine_outbox_message
       \<lparr> no_outbox_id = om_outbox_id m, no_aggregate_kind = ar_kind a, no_aggregate_id = ar_id a,
         no_phase_ref = om_phase_ref m, no_kind = om_kind m, no_topic = om_topic m,
         no_payload = om_payload m, no_ack_set = om_ack_set m, no_first_at = now \<rparr> now t))"

definition commit_closes ::
  "int \<Rightarrow> (EngineOutboxCloseTarget \<times> string) list \<Rightarrow> outbox_table \<Rightarrow> outbox_table" where
  "commit_closes now = fold (\<lambda>(target, reason) t. snd (close_engine_outbox target reason now t))"

text \<open>What is logged about a job that already exists does not change the database.\<close>

definition commit_jobs :: "int \<Rightarrow> aggregate_ref \<Rightarrow> job_spec list \<Rightarrow> job_table \<Rightarrow> job_table" where
  "commit_jobs now a =
     fold (\<lambda>j t. snd (insert_engine_job
       \<lparr> nj_job_id = js_job_id j, nj_aggregate_kind = ar_kind a, nj_aggregate_id = ar_id a,
         nj_phase = js_phase j, nj_action = js_action j, nj_pool = pool_as_str (js_pool j),
         nj_params = js_params j, nj_deadline_at = js_deadline_at j,
         nj_first_at = max (case js_run_after j of None \<Rightarrow> now | Some r \<Rightarrow> r) now \<rparr> now t))"

fun commit_cancel :: "int \<Rightarrow> aggregate_ref \<Rightarrow> JobCancel \<Rightarrow> job_table \<Rightarrow> job_table" where
  "commit_cancel now a (CancelJob job_id) t = snd (cancel_engine_job job_id now t)"
| "commit_cancel now a (CancelPhase phase) t =
     snd (cancel_engine_jobs_for_phase (ar_kind a) (ar_id a) phase now t)"
| "commit_cancel now a (CancelAggregate kind id') t =
     snd (cancel_engine_jobs_for_aggregate kind id' now t)"
| "commit_cancel now a (CancelAggregatePhase kind id' phase) t =
     snd (cancel_engine_jobs_for_phase kind id' phase now t)"

definition commit_apply ::
  "engine_config \<Rightarrow> engine_inbox_event \<Rightarrow> aggregate_ref \<Rightarrow> engine_aggregate option \<Rightarrow> effects \<Rightarrow>
   waiting_for option \<Rightarrow> int \<Rightarrow> 'b engine_db \<Rightarrow> string + post_commit \<times> 'b engine_db" where
  "commit_apply cfg e a current ef waiting now tx =
     (let tx1 = tx\<lparr> db_outbox := commit_closes now (ef_outbox_closes ef)
                                 (commit_outbox now a (ef_outbox ef) (db_outbox tx)) \<rparr>;
          tx2 = tx1\<lparr> db_jobs := fold (commit_cancel now a) (ef_job_cancels ef)
                                 (commit_jobs now a (ef_jobs ef) (db_jobs tx1)) \<rparr>;
          tx3 = tx2\<lparr> db_poisons := snd (release_engine_poison (ar_kind a) (ar_id a) (ie_kind e)
                                 (db_poisons tx2)) \<rparr>;
          update = \<lparr> au_status = ef_status ef, au_phase = ef_phase ef, au_state = ef_state ef,
                     au_last_event_id = Some (ie_event_id e) \<rparr>;
          (result, aggregates) =
            upsert_engine_aggregate (ar_kind a) (ar_id a) update now (db_aggregates tx3)
      in case result of
           Inl err \<Rightarrow> Inl err
         | Inr updated \<Rightarrow>
             let tx4 = tx3\<lparr> db_aggregates := aggregates \<rparr>;
                 changed = (case current of
                              None \<Rightarrow> True
                            | Some c \<Rightarrow> ag_status c \<noteq> ag_status updated \<or> ag_phase c \<noteq> ag_phase updated);
                 wake_refs = ef_wake_refs ef @ (if changed then [wake_ref a] else []);
                 (woke, inbox) = (if wake_refs = [] then (0, db_inbox tx4)
                                  else wake_engine_inbox_waiting wake_refs now (db_inbox tx4));
                 inbox' = (case waiting of
                             None \<Rightarrow> snd (mark_engine_inbox_applied (ie_event_id e) now inbox)
                           | Some w \<Rightarrow> snd (mark_engine_inbox_waiting (ie_event_id e) (wf_wake_ref w)
                               (wf_detail w) (now + waiting_recheck_secs cfg) now inbox))
             in Inr (\<lparr> pc_acks = ef_acks ef @ (case ack_target e of None \<Rightarrow> [] | Some t \<Rightarrow> [t]),
                       pc_woke = (0 < woke), pc_outbox = (ef_outbox ef \<noteq> []),
                       pc_jobs = (ef_jobs ef \<noteq> []) \<rparr>,
                     tx4\<lparr> db_inbox := inbox' \<rparr>))"

section \<open>Retries and poison\<close>

definition schedule_retry_at ::
  "engine_inbox_event \<Rightarrow> string \<Rightarrow> int \<Rightarrow> int \<Rightarrow> 'b engine_db \<Rightarrow> 'b engine_db" where
  "schedule_retry_at e error next_at now db =
     db\<lparr> db_inbox := snd (mark_engine_inbox_retry (ie_event_id e) error next_at now (db_inbox db)) \<rparr>"

definition schedule_retry ::
  "engine_config \<Rightarrow> engine_inbox_event \<Rightarrow> string \<Rightarrow> int \<Rightarrow> int \<Rightarrow> 'b engine_db \<Rightarrow> 'b engine_db" where
  "schedule_retry cfg e error now now' db =
     schedule_retry_at e error (now + delay (inbox_retry_backoff cfg) (ie_attempts e + 1)) now' db"

definition ascii_lower :: "char \<Rightarrow> char" where
  "ascii_lower c = (let n = (of_char c :: nat) in if 65 \<le> n \<and> n \<le> 90 then char_of (n + 32) else c)"

definition is_busy_error :: "anyhow_error \<Rightarrow> bool" where
  "is_busy_error error =
     list_ex (\<lambda>cause. let message = map ascii_lower cause in
       sublist ''database is locked'' message \<or> sublist ''database is busy'' message \<or>
       sublist ''sqlite_busy'' message) error"

definition poison ::
  "engine_config \<Rightarrow> engine_inbox_event \<Rightarrow> aggregate_ref \<Rightarrow> string \<Rightarrow> int \<Rightarrow> 'b engine_db \<Rightarrow> 'b engine_db" where
  "poison cfg e a reason now db =
     (let tx1 = db\<lparr> db_inbox :=
            snd (mark_engine_inbox_poisoned (ie_event_id e) reason now (db_inbox db)) \<rparr>
      in tx1\<lparr> db_poisons := snd (mark_engine_aggregate_poisoned (ar_kind a) (ar_id a) (ie_kind e) reason
                now (delay (poison_backoff cfg)) (db_poisons tx1)) \<rparr>)"

text \<open>\<^verbatim>\<open>Debug\<close> of a \<^verbatim>\<open>Duration\<close>: the largest unit with a non-zero integer part, fraction without trailing zeros.\<close>

fun frac_digits :: "nat \<Rightarrow> nat \<Rightarrow> nat \<Rightarrow> string" where
  "frac_digits 0 n d = ''''"
| "frac_digits (Suc k) n d =
     (if n = 0 then '''' else char_of (48 + n div d) # frac_digits k (n mod d) (d div 10))"

definition fmt_decimal :: "nat \<Rightarrow> nat \<Rightarrow> nat \<Rightarrow> string" where
  "fmt_decimal i n d = show_nat i @ (if n = 0 then '''' else ''.'' @ frac_digits 9 n d)"

definition show_duration :: "duration \<Rightarrow> string" where
  "show_duration d =
     (let secs = d div 1000000000; nanos = d mod 1000000000 in
      if 0 < secs then fmt_decimal secs nanos 100000000 @ ''s''
      else if 1000000 \<le> nanos then fmt_decimal (nanos div 1000000) (nanos mod 1000000) 100000 @ ''ms''
      else if 1000 \<le> nanos
        then fmt_decimal (nanos div 1000) (nanos mod 1000) 100 @ [char_of (194::nat), char_of (181::nat)] @ ''s''
      else show_nat nanos @ ''ns'')"

section \<open>Processing one event\<close>

text \<open>
  \<open>now0\<close> is the clock when the apply starts, \<open>now1\<close> the next reading and \<open>now2\<close> the one the retry
  helper takes. \<^verbatim>\<open>Inl\<close> is an error the code propagates; the transaction is then dropped.
\<close>

definition process_event ::
  "engine_config \<Rightarrow> 'b handlers \<Rightarrow> int \<Rightarrow> int \<Rightarrow> int \<Rightarrow> engine_inbox_event \<Rightarrow> 'b engine_db \<Rightarrow>
   (string + ProcessOutcome \<times> post_commit) \<times> 'b engine_db" where
  "process_event cfg handlers now0 now1 now2 e db =
     (let a = from_event e in
      case handlers (ar_kind a) of
        None \<Rightarrow>
          (Inr (ProcNoHandler, no_post),
           db\<lparr> db_inbox := snd (mark_engine_inbox_failed (ie_event_id e)
                 (''no handler for aggregate kind '' @ ar_kind a) now0 (db_inbox db)) \<rparr>)
      | Some handler \<Rightarrow>
          let current = find_engine_aggregate (ar_kind a) (ar_id a) (db_aggregates db);
              (result, ef, tx) = handler now0 a current e db
          in (case result of
                Returned OutcomeApplied \<Rightarrow>
                  (case commit_apply cfg e a current ef None now0 tx of
                     Inl err \<Rightarrow> (Inl err, db)
                   | Inr (post, db') \<Rightarrow> (Inr (ProcApplied, post), db'))
              | Returned (OutcomeWaiting w) \<Rightarrow>
                  (case commit_apply cfg e a current ef (Some w) now0 tx of
                     Inl err \<Rightarrow> (Inl err, db)
                   | Inr (post, db') \<Rightarrow> (Inr (ProcWaiting, post), db'))
              | Returned (OutcomeRejected reason) \<Rightarrow>
                  let db1 = db\<lparr> db_inbox :=
                        snd (mark_engine_inbox_failed (ie_event_id e) reason now1 (db_inbox db)) \<rparr>;
                      db2 = db1\<lparr> db_poisons := snd (release_engine_poison (ar_kind a) (ar_id a)
                        (ie_kind e) (db_poisons db1)) \<rparr>
                  in (Inr (ProcRejected,
                       no_post\<lparr> pc_acks := (case ack_target e of None \<Rightarrow> [] | Some t \<Rightarrow> [t]) \<rparr>), db2)
              | Errored (ErrorTransient error) \<Rightarrow>
                  (Inr (ProcTransient, no_post),
                   if is_busy_error error
                   then schedule_retry_at e (error_to_string error) (now1 + 1) now2 db
                   else schedule_retry cfg e (error_to_string error) now1 now2 db)
              | Errored (ErrorInvariant error) \<Rightarrow>
                  (Inr (ProcPoisoned, no_post),
                   poison cfg e a (''invariant violated: '' @ error_to_string error) now1 db)
              | Elapsed \<Rightarrow>
                  (Inr (ProcTimedOut, no_post),
                   schedule_retry cfg e
                     (''apply timed out after '' @ show_duration (apply_timeout cfg)) now1 now2 db)
              | Panicked message \<Rightarrow>
                  (Inr (ProcPoisoned, no_post), poison cfg e a (''panic: '' @ message) now1 db)))"

section \<open>Draining a shard\<close>

text \<open>
  \<open>clk i\<close> is the \<open>i\<close>-th reading of the clock and \<open>cancelled i\<close> whether the token is cancelled at
  the start of round \<open>i\<close>. The loop has no bound of its own, since an apply may wake other events, so it
  takes fuel; \<^verbatim>\<open>None\<close> means the fuel ran out. The list collects what each round dispatched; its
  length is the number of processed events the code returns.
\<close>

fun drain_shard ::
  "nat \<Rightarrow> engine_config \<Rightarrow> 'b handlers \<Rightarrow> int \<Rightarrow> int \<Rightarrow> (nat \<Rightarrow> int) \<Rightarrow> (nat \<Rightarrow> bool) \<Rightarrow> nat \<Rightarrow>
   'b engine_db \<Rightarrow> ((string + post_commit list) \<times> 'b engine_db) option" where
  "drain_shard 0 cfg handlers shard_count sh clk cancelled i db = None"
| "drain_shard (Suc fuel) cfg handlers shard_count sh clk cancelled i db =
     (if cancelled i then Some (Inr [], db)
      else case next_runnable_engine_inbox_event (db_poisons db) shard_count sh (clk (4 * i)) (db_inbox db) of
             None \<Rightarrow> Some (Inr [], db)
           | Some e \<Rightarrow>
               (case process_event cfg handlers (clk (4 * i + 1)) (clk (4 * i + 2)) (clk (4 * i + 3)) e db of
                  (Inl err, db') \<Rightarrow> Some (Inl err, db')
                | (Inr (outcome, post), db') \<Rightarrow>
                    (case drain_shard fuel cfg handlers shard_count sh clk cancelled (i + 1) db' of
                       None \<Rightarrow> None
                     | Some (Inl err, db'') \<Rightarrow> Some (Inl err, db'')
                     | Some (Inr posts, db'') \<Rightarrow> Some (Inr (post # posts), db''))))"

section \<open>The contract of a handler\<close>

text \<open>
  A handler writes engine tables only through the store's operations (it records events, clears job
  results), so rows move along their orders; and it leaves the pending row of the event it is applying alone.
\<close>

definition handler_ok :: "'b handler \<Rightarrow> bool" where
  "handler_ok h \<longleftrightarrow>
     (\<forall>now a current e db result ef db'.
        h now a current e db = (result, ef, db') \<longrightarrow>
          db_evolves db db' \<and>
          (\<forall>r. find_engine_inbox_event (ie_event_id e) (db_inbox db) = Some r \<longrightarrow> ie_state r = InboxPending \<longrightarrow>
             find_engine_inbox_event (ie_event_id e) (db_inbox db') = Some r))"

definition handlers_ok :: "'b handlers \<Rightarrow> bool" where
  "handlers_ok hs \<longleftrightarrow> (\<forall>k h. hs k = Some h \<longrightarrow> handler_ok h)"

section \<open>Commits\<close>

lemma outbox_evolves_commit:
  "outbox_evolves t (commit_closes now cs (commit_outbox now a ms t))"
proof -
  have "outbox_evolves t (commit_outbox now a ms t)" for t
    unfolding commit_outbox_def
    by (rule fold_related [of outbox_evolves, OF outbox_evolves_refl outbox_evolves_trans])
      (auto simp: outbox_evolves_insert)
  moreover have "outbox_evolves t (commit_closes now cs t)" for t
    unfolding commit_closes_def
    by (rule fold_related [of outbox_evolves, OF outbox_evolves_refl outbox_evolves_trans])
      (auto simp: outbox_evolves_close split: prod.split)
  ultimately show ?thesis by (rule outbox_evolves_trans)
qed

lemma job_evolves_commit_cancel: "job_evolves t (commit_cancel now a c t)"
  by (cases c) (simp_all add: job_evolves_cancel job_evolves_cancel_aggregate
      job_evolves_cancel_loop cancel_engine_jobs_for_phase_def)

lemma job_evolves_commit:
  "job_evolves t (fold (commit_cancel now a) cs (commit_jobs now a js t))"
proof -
  have "job_evolves t (commit_jobs now a js t)" for t
    unfolding commit_jobs_def
    by (rule fold_related [of job_evolves, OF job_evolves_refl job_evolves_trans])
      (auto simp: job_evolves_insert)
  moreover have "job_evolves t (fold (commit_cancel now a) cs t)" for t
    by (rule fold_related [of job_evolves, OF job_evolves_refl job_evolves_trans])
      (auto simp: job_evolves_commit_cancel)
  ultimately show ?thesis by (rule job_evolves_trans)
qed

lemma distinct_release:
  "distinct (map po_key t) \<Longrightarrow> distinct (map po_key (snd (release_engine_poison k i a t)))"
  by (simp add: release_engine_poison_def Let_def distinct_delete_rows)

definition apply_update :: "engine_inbox_event \<Rightarrow> effects \<Rightarrow> engine_aggregate_update" where
  "apply_update e ef = \<lparr> au_status = ef_status ef, au_phase = ef_phase ef, au_state = ef_state ef,
                        au_last_event_id = Some (ie_event_id e) \<rparr>"

lemma commit_apply_total: "\<exists>post db'. commit_apply cfg e a current ef w now tx = Inr (post, db')"
  by (simp add: commit_apply_def Let_def split_beta upsert_result)

lemma commit_apply_tables:
  assumes "commit_apply cfg e a current ef w now tx = Inr (post, db')"
  shows "db_business db' = db_business tx"
    and "db_outbox db' = commit_closes now (ef_outbox_closes ef)
           (commit_outbox now a (ef_outbox ef) (db_outbox tx))"
    and "db_jobs db' = fold (commit_cancel now a) (ef_job_cancels ef)
           (commit_jobs now a (ef_jobs ef) (db_jobs tx))"
    and "db_poisons db' = snd (release_engine_poison (ar_kind a) (ar_id a) (ie_kind e) (db_poisons tx))"
    and "db_aggregates db' =
           snd (upsert_engine_aggregate (ar_kind a) (ar_id a) (apply_update e ef) now (db_aggregates tx))"
  using assms
  by (auto simp: commit_apply_def Let_def split_beta upsert_result apply_update_def)

lemma commit_apply_inbox:
  assumes "commit_apply cfg e a current ef w now tx = Inr (post, db')"
  shows "\<exists>refs. db_inbox db' =
    (case w of
       None \<Rightarrow> snd (mark_engine_inbox_applied (ie_event_id e) now
                 (snd (wake_engine_inbox_waiting refs now (db_inbox tx))))
     | Some v \<Rightarrow> snd (mark_engine_inbox_waiting (ie_event_id e) (wf_wake_ref v) (wf_detail v)
                 (now + waiting_recheck_secs cfg) now
                 (snd (wake_engine_inbox_waiting refs now (db_inbox tx)))))"
proof -
  let ?changed = "case current of None \<Rightarrow> True
    | Some c \<Rightarrow> let u = apply_aggregate_update (apply_update e ef) now
         (case find_engine_aggregate (ar_kind a) (ar_id a) (db_aggregates tx) of
            None \<Rightarrow> new_engine_aggregate (ar_kind a) (ar_id a) now | Some r \<Rightarrow> r)
       in ag_status c \<noteq> ag_status u \<or> ag_phase c \<noteq> ag_phase u"
  show ?thesis
    using assms
    by (intro exI [of _ "ef_wake_refs ef @ (if ?changed then [wake_ref a] else [])"])
      (auto simp: commit_apply_def Let_def split_beta upsert_result apply_update_def
        split: option.splits)
qed

lemma db_evolves_commit_apply:
  assumes "commit_apply cfg e a current ef w now tx = Inr (post, db')"
  shows "db_evolves tx db'"
proof -
  obtain refs where inbox: "db_inbox db' =
    (case w of
       None \<Rightarrow> snd (mark_engine_inbox_applied (ie_event_id e) now
                 (snd (wake_engine_inbox_waiting refs now (db_inbox tx))))
     | Some v \<Rightarrow> snd (mark_engine_inbox_waiting (ie_event_id e) (wf_wake_ref v) (wf_detail v)
                 (now + waiting_recheck_secs cfg) now
                 (snd (wake_engine_inbox_waiting refs now (db_inbox tx)))))"
    using commit_apply_inbox [OF assms] by blast
  have "inbox_evolves (db_inbox tx) (db_inbox db')"
    unfolding inbox
    by (cases w) (auto intro: inbox_evolves_trans [OF inbox_evolves_wake inbox_evolves_mark(1)]
        inbox_evolves_trans [OF inbox_evolves_wake inbox_evolves_mark(2)])
  then show ?thesis
    by (auto simp: db_evolves_def commit_apply_tables [OF assms] outbox_evolves_commit
        job_evolves_commit aggregates_evolve_upsert distinct_release)
qed

section \<open>One event\<close>

lemma db_evolves_retry_at: "db_evolves db (schedule_retry_at e err next now db)"
  by (simp add: schedule_retry_at_def db_evolves_inbox inbox_evolves_mark)

lemma db_evolves_retry: "db_evolves db (schedule_retry cfg e err now now' db)"
  by (simp add: schedule_retry_def db_evolves_retry_at)

lemma db_evolves_poison: "db_evolves db (poison cfg e a reason now db)"
  by (simp add: poison_def Let_def db_evolves_def inbox_evolves_mark distinct_mark_poisoned)

lemma db_evolves_failed:
  "db_evolves db (db\<lparr> db_inbox := snd (mark_engine_inbox_failed e reason now (db_inbox db)) \<rparr>)"
  by (simp add: db_evolves_inbox inbox_evolves_mark)

lemma db_evolves_rejected:
  "db_evolves db (db\<lparr> db_inbox := snd (mark_engine_inbox_failed e reason now (db_inbox db)),
                      db_poisons := snd (release_engine_poison k i a (db_poisons db)) \<rparr>)"
  by (simp add: db_evolves_def inbox_evolves_mark distinct_release)

lemma db_evolves_process_event:
  assumes "handlers_ok hs"
  shows "db_evolves db (snd (process_event cfg hs now0 now1 now2 e db))"
proof (cases "hs (ar_kind (from_event e))")
  case None
  then show ?thesis by (simp add: process_event_def db_evolves_failed)
next
  case (Some h)
  obtain result ef tx where h:
    "h now0 (from_event e) (find_engine_aggregate (ar_kind (from_event e)) (ar_id (from_event e))
       (db_aggregates db)) e db = (result, ef, tx)"
    by (metis prod_cases3)
  have tx: "db_evolves db tx"
    using assms Some h unfolding handlers_ok_def handler_ok_def by blast
  have commit: "db_evolves db db'"
    if "commit_apply cfg e a c ef w now tx = Inr (post, db')" for a c w now post db'
    using db_evolves_trans [OF tx db_evolves_commit_apply [OF that]] .
  show ?thesis
    using Some h commit
    by (auto simp: process_event_def Let_def db_evolves_retry db_evolves_retry_at db_evolves_poison
        db_evolves_rejected
        split: handler_result.split ApplyOutcome.split ApplyError.split sum.split)
qed

section \<open>What processing leaves of the event\<close>

text \<open>The inbox row \<open>r\<close> that each outcome leaves for the event \<open>e\<close>.\<close>

definition outcome_row ::
  "engine_config \<Rightarrow> ProcessOutcome \<Rightarrow> int \<Rightarrow> int \<Rightarrow> engine_inbox_event \<Rightarrow> engine_inbox_event \<Rightarrow> bool" where
  "outcome_row cfg outcome now0 now1 e r \<longleftrightarrow>
     same_event e r \<and>
     (case outcome of
        ProcApplied \<Rightarrow> ie_state r = InboxApplied \<and> ie_payload r = None \<and> ie_applied_at r = Some now0
      | ProcWaiting \<Rightarrow> ie_state r = InboxPending \<and> ie_payload r = ie_payload e \<and>
          ie_waiting_ref r \<noteq> None \<and> ie_attempts r = ie_attempts e \<and>
          ie_next_at r = now0 + waiting_recheck_secs cfg
      | ProcRejected \<Rightarrow> ie_state r = InboxFailed \<and> ie_payload r = ie_payload e \<and>
          ie_attempts r = ie_attempts e + 1
      | ProcNoHandler \<Rightarrow> ie_state r = InboxFailed \<and> ie_payload r = ie_payload e \<and>
          ie_attempts r = ie_attempts e + 1
      | ProcTransient \<Rightarrow> ie_state r = InboxPending \<and> ie_payload r = ie_payload e \<and>
          ie_attempts r = ie_attempts e + 1 \<and> ie_waiting_ref r = None \<and>
          ie_next_at r \<in> {now1 + 1, now1 + delay (inbox_retry_backoff cfg) (ie_attempts e + 1)}
      | ProcTimedOut \<Rightarrow> ie_state r = InboxPending \<and> ie_payload r = ie_payload e \<and>
          ie_attempts r = ie_attempts e + 1 \<and> ie_waiting_ref r = None \<and>
          ie_next_at r = now1 + delay (inbox_retry_backoff cfg) (ie_attempts e + 1)
      | ProcPoisoned \<Rightarrow> ie_state r = InboxPoisoned \<and> ie_payload r = ie_payload e \<and>
          ie_attempts r = ie_attempts e + 1)"

lemma find_commit_apply:
  assumes "commit_apply cfg e a current ef w now tx = Inr (post, db')"
    and "find_engine_inbox_event (ie_event_id e) (db_inbox tx) = Some e"
    and "ie_state e = InboxPending" "ie_next_at e \<le> now"
  shows "find_engine_inbox_event (ie_event_id e) (db_inbox db') = Some
    (case w of
       None \<Rightarrow> e\<lparr> ie_state := InboxApplied, ie_payload := None, ie_waiting_ref := None,
                  ie_waiting_detail := None, ie_last_error := None, ie_applied_at := Some now,
                  ie_updated_at := now \<rparr>
     | Some v \<Rightarrow> e\<lparr> ie_waiting_ref := Some (wf_wake_ref v), ie_waiting_detail := Some (wf_detail v),
                  ie_next_at := now + waiting_recheck_secs cfg, ie_updated_at := now \<rparr>)"
  using commit_apply_inbox [OF assms(1)] assms(2-)
  by (auto simp: find_mark find_wake wake_row_due pending_event_def split: option.splits)

lemma outcome_row_commit:
  assumes "commit_apply cfg e a current ef w now tx = Inr (post, db')"
    and "find_engine_inbox_event (ie_event_id e) (db_inbox tx) = Some e"
    and "ie_state e = InboxPending" "ie_next_at e \<le> now"
  shows "\<exists>r. find_engine_inbox_event (ie_event_id e) (db_inbox db') = Some r \<and>
    outcome_row cfg (if w = None then ProcApplied else ProcWaiting) now now1 e r"
  using find_commit_apply [OF assms] assms(3)
  by (cases w) (auto simp: outcome_row_def same_event_def)

lemma outcome_row_other:
  assumes "find_engine_inbox_event (ie_event_id e) (db_inbox db) = Some e"
    and "ie_state e = InboxPending"
  shows "\<exists>r. find_engine_inbox_event (ie_event_id e) (snd (mark_engine_inbox_failed (ie_event_id e)
      reason n (db_inbox db))) = Some r \<and> outcome_row cfg ProcRejected now0 now1 e r"
    and "\<exists>r. find_engine_inbox_event (ie_event_id e) (snd (mark_engine_inbox_failed (ie_event_id e)
      reason n (db_inbox db))) = Some r \<and> outcome_row cfg ProcNoHandler now0 now1 e r"
    and "\<exists>r. find_engine_inbox_event (ie_event_id e) (db_inbox (poison cfg' e a reason n db)) = Some r \<and>
      outcome_row cfg ProcPoisoned now0 now1 e r"
    and "\<exists>r. find_engine_inbox_event (ie_event_id e) (db_inbox (schedule_retry cfg e reason now1 n db)) =
      Some r \<and> outcome_row cfg ProcTransient now0 now1 e r"
    and "\<exists>r. find_engine_inbox_event (ie_event_id e) (db_inbox (schedule_retry cfg e reason now1 n db)) =
      Some r \<and> outcome_row cfg ProcTimedOut now0 now1 e r"
    and "\<exists>r. find_engine_inbox_event (ie_event_id e) (db_inbox (schedule_retry_at e reason (now1 + 1) n db)) =
      Some r \<and> outcome_row cfg ProcTransient now0 now1 e r"
  using assms
  by (simp_all add: find_mark outcome_row_def same_event_def pending_event_def poison_def Let_def
      schedule_retry_def schedule_retry_at_def)

text \<open>What a committed apply rests on: the handler's verdict, its effects and its transaction.\<close>

lemma process_event_commit:
  assumes "process_event cfg hs now0 now1 now2 e db = (Inr (outcome, post), db')"
    and "outcome = ProcApplied \<or> outcome = ProcWaiting"
  obtains h res ef tx w where "hs (ar_kind (from_event e)) = Some h"
    and "h now0 (from_event e) (find_engine_aggregate (ar_kind (from_event e)) (ar_id (from_event e))
           (db_aggregates db)) e db = (res, ef, tx)"
    and "res = Returned (case w of None \<Rightarrow> OutcomeApplied | Some v \<Rightarrow> OutcomeWaiting v)"
    and "outcome = (if w = None then ProcApplied else ProcWaiting)"
    and "commit_apply cfg e (from_event e) (find_engine_aggregate (ar_kind (from_event e))
           (ar_id (from_event e)) (db_aggregates db)) ef w now0 tx = Inr (post, db')"
proof (cases "hs (ar_kind (from_event e))")
  case None
  with assms show ?thesis by (auto simp: process_event_def)
next
  case (Some h)
  let ?c = "find_engine_aggregate (ar_kind (from_event e)) (ar_id (from_event e)) (db_aggregates db)"
  obtain res ef tx where h: "h now0 (from_event e) ?c e db = (res, ef, tx)"
    by (metis prod_cases3)
  show ?thesis
  proof (cases "\<exists>v. res = Returned v")
    case False
    with assms Some h show ?thesis
      by (cases res) (auto simp: process_event_def Let_def split: ApplyError.splits)
  next
    case True
    then obtain v where v: "res = Returned v" by blast
    show ?thesis
    proof (cases v)
      case OutcomeApplied
      with assms Some h v show ?thesis
        using that [OF Some h, of None]
        by (auto simp: process_event_def Let_def split: sum.splits)
    next
      case (OutcomeWaiting w)
      with assms Some h v show ?thesis
        using that [OF Some h, of "Some w"]
        by (auto simp: process_event_def Let_def split: sum.splits)
    next
      case (OutcomeRejected r)
      with assms Some h v show ?thesis
        by (auto simp: process_event_def Let_def)
    qed
  qed
qed

lemma process_event_outcome:
  assumes "handlers_ok hs"
    and row: "find_engine_inbox_event (ie_event_id e) (db_inbox db) = Some e"
    and pending: "ie_state e = InboxPending" and due: "ie_next_at e \<le> now0"
    and result: "process_event cfg hs now0 now1 now2 e db = (Inr (outcome, post), db')"
  shows "\<exists>r. find_engine_inbox_event (ie_event_id e) (db_inbox db') = Some r \<and>
    outcome_row cfg outcome now0 now1 e r"
proof (cases "outcome = ProcApplied \<or> outcome = ProcWaiting")
  case True
  obtain h res ef tx w where h: "hs (ar_kind (from_event e)) = Some h"
    "h now0 (from_event e) (find_engine_aggregate (ar_kind (from_event e)) (ar_id (from_event e))
       (db_aggregates db)) e db = (res, ef, tx)"
    "outcome = (if w = None then ProcApplied else ProcWaiting)"
    "commit_apply cfg e (from_event e) (find_engine_aggregate (ar_kind (from_event e))
       (ar_id (from_event e)) (db_aggregates db)) ef w now0 tx = Inr (post, db')"
    using process_event_commit [OF result True] by metis
  have "find_engine_inbox_event (ie_event_id e) (db_inbox tx) = Some e"
    using assms(1) h(1,2) row pending unfolding handlers_ok_def handler_ok_def by metis
  from outcome_row_commit [OF h(4) this pending due] show ?thesis
    unfolding h(3) .
next
  case False
  then show ?thesis
    using result
    by (auto simp: process_event_def Let_def intro: outcome_row_other [OF row pending]
        split: option.splits prod.splits handler_result.splits ApplyOutcome.splits
          ApplyError.splits sum.splits if_splits)
qed

section \<open>Rollback and commit\<close>

lemma process_event_rollback:
  assumes "process_event cfg hs now0 now1 now2 e db = (Inr (outcome, post), db')"
    and "outcome \<notin> {ProcApplied, ProcWaiting}"
  shows "db_business db' = db_business db" "db_aggregates db' = db_aggregates db"
    "db_outbox db' = db_outbox db" "db_jobs db' = db_jobs db"
    and "k \<noteq> ie_event_id e \<Longrightarrow>
      find_engine_inbox_event k (db_inbox db') = find_engine_inbox_event k (db_inbox db)"
  using assms
  by (auto simp: process_event_def Let_def poison_def schedule_retry_def schedule_retry_at_def
      find_mark_other
      split: option.splits prod.splits handler_result.splits ApplyOutcome.splits
        ApplyError.splits sum.splits if_splits)

lemma find_insert_outbox:
  "find_engine_outbox_message (no_outbox_id m) (snd (insert_engine_outbox_message m now t)) \<noteq> None"
  by (simp add: insert_engine_outbox_message_def Let_def find_engine_outbox_message_def table_simps
      split: option.split)

lemma outbox_evolves_keeps:
  "outbox_evolves t t' \<Longrightarrow> outbox_inv t \<Longrightarrow> find_engine_outbox_message k t \<noteq> None \<Longrightarrow>
   find_engine_outbox_message k t' \<noteq> None"
  unfolding outbox_evolves_def by force

lemma job_evolves_keeps:
  "job_evolves t t' \<Longrightarrow> jobs_inv t \<Longrightarrow> find_engine_job k t \<noteq> None \<Longrightarrow> find_engine_job k t' \<noteq> None"
  unfolding job_evolves_def by force

lemma commit_outbox_Cons:
  "commit_outbox now a (m # ms) t = commit_outbox now a ms (snd (insert_engine_outbox_message
     \<lparr> no_outbox_id = om_outbox_id m, no_aggregate_kind = ar_kind a, no_aggregate_id = ar_id a,
       no_phase_ref = om_phase_ref m, no_kind = om_kind m, no_topic = om_topic m,
       no_payload = om_payload m, no_ack_set = om_ack_set m, no_first_at = now \<rparr> now t))"
  by (simp add: commit_outbox_def)

lemma commit_outbox_present:
  "outbox_inv t \<Longrightarrow> m \<in> set ms \<Longrightarrow>
   find_engine_outbox_message (om_outbox_id m) (commit_outbox now a ms t) \<noteq> None"
proof (induction ms arbitrary: t)
  case (Cons m' ms)
  let ?n = "\<lparr> no_outbox_id = om_outbox_id m', no_aggregate_kind = ar_kind a, no_aggregate_id = ar_id a,
       no_phase_ref = om_phase_ref m', no_kind = om_kind m', no_topic = om_topic m',
       no_payload = om_payload m', no_ack_set = om_ack_set m', no_first_at = now \<rparr>"
  let ?t = "snd (insert_engine_outbox_message ?n now t)"
  have inv: "outbox_inv ?t"
    using outbox_evolves_insert Cons.prems(1) unfolding outbox_evolves_def by blast
  have "outbox_evolves ?t (commit_outbox now a ms ?t)"
    using outbox_evolves_commit [of ?t now "[]" a ms] by (simp add: commit_closes_def)
  then have "m = m' \<Longrightarrow> ?case"
    using outbox_evolves_keeps [OF _ inv, of _ "om_outbox_id m'"] find_insert_outbox [of ?n now t]
    by (simp add: commit_outbox_Cons)
  moreover have "m \<in> set ms \<Longrightarrow> ?case"
    using Cons.IH [OF inv] by (simp add: commit_outbox_Cons)
  ultimately show ?case using Cons.prems(2) by auto
qed simp

lemma commit_outbox_again:
  "(\<And>m. m \<in> set ms \<Longrightarrow> find_engine_outbox_message (om_outbox_id m) t \<noteq> None) \<Longrightarrow>
   commit_outbox now a ms t = t"
proof (induction ms)
  case (Cons m ms)
  have "find_engine_outbox_message (om_outbox_id m) t \<noteq> None"
    using Cons.prems by simp
  then have "snd (insert_engine_outbox_message n now t) = t" if "no_outbox_id n = om_outbox_id m" for n
    using that
    by (simp add: insert_engine_outbox_message_def Let_def insert_or_ignore_def
        find_engine_outbox_message_def)
  with Cons show ?case by (simp add: commit_outbox_Cons)
qed (simp add: commit_outbox_def)

lemma find_insert_job:
  "find_engine_job (nj_job_id j) (snd (insert_engine_job j now t)) \<noteq> None"
  by (auto simp: insert_engine_job_def find_engine_job_def table_simps new_job_row_def
      split: option.split)

lemma commit_jobs_Cons:
  "commit_jobs now a (j # js) t = commit_jobs now a js (snd (insert_engine_job
     \<lparr> nj_job_id = js_job_id j, nj_aggregate_kind = ar_kind a, nj_aggregate_id = ar_id a,
       nj_phase = js_phase j, nj_action = js_action j, nj_pool = pool_as_str (js_pool j),
       nj_params = js_params j, nj_deadline_at = js_deadline_at j,
       nj_first_at = max (case js_run_after j of None \<Rightarrow> now | Some r \<Rightarrow> r) now \<rparr> now t))"
  by (simp add: commit_jobs_def)

lemma commit_jobs_present:
  "jobs_inv t \<Longrightarrow> j \<in> set js \<Longrightarrow> find_engine_job (js_job_id j) (commit_jobs now a js t) \<noteq> None"
proof (induction js arbitrary: t)
  case (Cons j' js)
  let ?n = "\<lparr> nj_job_id = js_job_id j', nj_aggregate_kind = ar_kind a, nj_aggregate_id = ar_id a,
       nj_phase = js_phase j', nj_action = js_action j', nj_pool = pool_as_str (js_pool j'),
       nj_params = js_params j', nj_deadline_at = js_deadline_at j',
       nj_first_at = max (case js_run_after j' of None \<Rightarrow> now | Some r \<Rightarrow> r) now \<rparr>"
  let ?t = "snd (insert_engine_job ?n now t)"
  have inv: "jobs_inv ?t"
    using job_evolves_insert Cons.prems(1) unfolding job_evolves_def by blast
  have "job_evolves ?t (commit_jobs now a js ?t)"
    using job_evolves_commit [of ?t now a "[]" js] by simp
  then have "j = j' \<Longrightarrow> ?case"
    using job_evolves_keeps [OF _ inv, of _ "js_job_id j'"] find_insert_job [of ?n now t]
    by (simp add: commit_jobs_Cons)
  moreover have "j \<in> set js \<Longrightarrow> ?case"
    using Cons.IH [OF inv] by (simp add: commit_jobs_Cons)
  ultimately show ?case using Cons.prems(2) by auto
qed simp

lemma commit_jobs_again:
  "(\<And>j. j \<in> set js \<Longrightarrow> find_engine_job (js_job_id j) t \<noteq> None) \<Longrightarrow> commit_jobs now a js t = t"
proof (induction js)
  case (Cons j js)
  have "find_engine_job (js_job_id j) t \<noteq> None"
    using Cons.prems by simp
  then have "snd (insert_engine_job n now t) = t" if "nj_job_id n = js_job_id j" for n
    using that by (auto simp: insert_engine_job_def split: option.split)
  with Cons show ?case by (simp add: commit_jobs_Cons)
qed (simp add: commit_jobs_def)

section \<open>Draining a shard\<close>

lemma drain_shard_SucE:
  assumes "drain_shard (Suc fuel) cfg hs k sh clk cancelled i db = Some (Inr posts, db')"
  obtains (stop) "posts = []" "db' = db"
      "cancelled i \<or>
       next_runnable_engine_inbox_event (db_poisons db) k sh (clk (4 * i)) (db_inbox db) = None"
  | (go) e outcome post db1 posts' where
      "next_runnable_engine_inbox_event (db_poisons db) k sh (clk (4 * i)) (db_inbox db) = Some e"
      "process_event cfg hs (clk (4 * i + 1)) (clk (4 * i + 2)) (clk (4 * i + 3)) e db =
         (Inr (outcome, post), db1)"
      "drain_shard fuel cfg hs k sh clk cancelled (i + 1) db1 = Some (Inr posts', db')"
      "posts = post # posts'"
proof (cases "cancelled i \<or>
    next_runnable_engine_inbox_event (db_poisons db) k sh (clk (4 * i)) (db_inbox db) = None")
  case True
  with assms show ?thesis by (intro stop) (auto split: if_splits)
next
  case False
  then obtain e where e: "\<not> cancelled i"
    "next_runnable_engine_inbox_event (db_poisons db) k sh (clk (4 * i)) (db_inbox db) = Some e"
    by auto
  obtain r db1 where p:
    "process_event cfg hs (clk (4 * i + 1)) (clk (4 * i + 2)) (clk (4 * i + 3)) e db = (r, db1)"
    by (metis surj_pair)
  with assms e show ?thesis
    using go [OF e(2)] by (auto split: sum.splits option.splits prod.splits)
qed

text \<open>A round that ends the loop found the token cancelled or nothing runnable.\<close>

lemma drain_shard_done:
  "drain_shard fuel cfg hs k sh clk cancelled i db = Some (Inr posts, db') \<Longrightarrow>
   cancelled (i + length posts) \<or>
   next_runnable_engine_inbox_event (db_poisons db') k sh (clk (4 * (i + length posts))) (db_inbox db') = None"
proof (induction fuel arbitrary: i db posts)
  case (Suc fuel)
  from Suc.prems show ?case
  proof (cases rule: drain_shard_SucE)
    case stop
    then show ?thesis by simp
  next
    case (go e outcome post db1 posts')
    with Suc.IH [OF go(3)] show ?thesis by simp
  qed
qed simp

lemma drain_shard_evolves:
  assumes "handlers_ok hs"
  shows "drain_shard fuel cfg hs k sh clk cancelled i db = Some (res, db') \<Longrightarrow> db_evolves db db'"
proof (induction fuel arbitrary: i db res)
  case (Suc fuel)
  show ?case
  proof (cases "cancelled i")
    case True
    with Suc.prems show ?thesis by simp
  next
    case False
    show ?thesis
    proof (cases "next_runnable_engine_inbox_event (db_poisons db) k sh (clk (4 * i)) (db_inbox db)")
      case None
      with False Suc.prems show ?thesis by simp
    next
      case (Some e)
      obtain r db1 where p: "process_event cfg hs (clk (4 * i + 1)) (clk (4 * i + 2)) (clk (4 * i + 3)) e db = (r, db1)"
        by (metis surj_pair)
      have "db_evolves db db1"
        using db_evolves_process_event [OF assms] p by (metis snd_conv)
      moreover have "db' = db1 \<or> (\<exists>res'. drain_shard fuel cfg hs k sh clk cancelled (i + 1) db1 = Some (res', db'))"
        using Suc.prems False Some p
        by (auto split: sum.splits option.splits)
      ultimately show ?thesis
        using Suc.IH db_evolves_trans by blast
    qed
  qed
qed simp

text \<open>
  A handler that settles every event (applies it, rejects it, or fails for good) and records no new
  ones. Under such handlers the loop ends: every round settles one pending event.
\<close>

fun settles :: "handler_result \<Rightarrow> bool" where
  "settles (Returned OutcomeApplied) = True"
| "settles (Returned (OutcomeRejected _)) = True"
| "settles (Returned (OutcomeWaiting _)) = False"
| "settles (Errored (ErrorInvariant _)) = True"
| "settles (Errored (ErrorTransient _)) = False"
| "settles Elapsed = False"
| "settles (Panicked _) = True"

definition handlers_settle :: "'b handlers \<Rightarrow> bool" where
  "handlers_settle hs \<longleftrightarrow>
     (\<forall>k h now a current e db result ef db'.
        hs k = Some h \<longrightarrow> h now a current e db = (result, ef, db') \<longrightarrow>
          settles result \<and> db_inbox db' = db_inbox db)"

lemma process_event_settles:
  assumes "handlers_settle hs" and "e \<in> set (it_rows (db_inbox db))" and "ie_state e = InboxPending"
  shows "\<exists>outcome post db'. process_event cfg hs now0 now1 now2 e db = (Inr (outcome, post), db') \<and>
    pending_count (db_inbox db') < pending_count (db_inbox db)"
proof -
  have pending: "\<exists>r \<in> set (it_rows (db_inbox db)). pending_event (ie_event_id e) r"
    using assms(2,3) by (auto simp: pending_event_def)
  note less = pending_count_mark [OF pending]
  show ?thesis
  proof (cases "hs (ar_kind (from_event e))")
    case None
    then show ?thesis using less by (simp add: process_event_def)
  next
    case (Some h)
    let ?c = "find_engine_aggregate (ar_kind (from_event e)) (ar_id (from_event e)) (db_aggregates db)"
    obtain res ef tx where h: "h now0 (from_event e) ?c e db = (res, ef, tx)"
      by (metis prod_cases3)
    have res: "settles res" and tx: "db_inbox tx = db_inbox db"
      using assms(1) Some h unfolding handlers_settle_def by blast+
    obtain post db' where commit: "commit_apply cfg e (from_event e) ?c ef None now0 tx = Inr (post, db')"
      using commit_apply_total by blast
    obtain refs where "db_inbox db' = snd (mark_engine_inbox_applied (ie_event_id e) now0
        (snd (wake_engine_inbox_waiting refs now0 (db_inbox db))))"
      using commit_apply_inbox [OF commit] tx by auto
    then have "pending_count (db_inbox db') < pending_count (db_inbox db)"
      using pending_count_mark(1) [of "snd (wake_engine_inbox_waiting refs now0 (db_inbox db))"] pending
      by simp
    with res Some h commit less show ?thesis
      by (cases res rule: settles.cases)
        (auto simp: process_event_def Let_def poison_def)
  qed
qed

lemma drain_shard_ends:
  assumes "handlers_settle hs"
  shows "pending_count (db_inbox db) < fuel \<Longrightarrow>
    \<exists>posts db'. drain_shard fuel cfg hs k sh clk cancelled i db = Some (Inr posts, db')"
proof (induction fuel arbitrary: i db)
  case (Suc fuel)
  show ?case
  proof (cases "cancelled i \<or>
      next_runnable_engine_inbox_event (db_poisons db) k sh (clk (4 * i)) (db_inbox db) = None")
    case False
    then obtain e where e: "\<not> cancelled i"
      "next_runnable_engine_inbox_event (db_poisons db) k sh (clk (4 * i)) (db_inbox db) = Some e"
      by auto
    have "e \<in> set (it_rows (db_inbox db))" "ie_state e = InboxPending"
      using next_runnable_Some [OF e(2)] by (auto simp: runnable_def)
    from process_event_settles [OF assms this] obtain outcome post db1 where p:
      "process_event cfg hs (clk (4 * i + 1)) (clk (4 * i + 2)) (clk (4 * i + 3)) e db =
         (Inr (outcome, post), db1)" "pending_count (db_inbox db1) < pending_count (db_inbox db)"
      by blast
    with Suc.prems have "pending_count (db_inbox db1) < fuel" by simp
    from Suc.IH [OF this, of "i + 1"] e p(1) show ?thesis by auto
  qed auto
qed simp

end
