(* ===== verification/EngineExecutor.thy ===== *)
theory EngineExecutor
  imports EngineStore
begin

text \<open>
  The job executor (\<^verbatim>\<open>src/crates/engine/src/jobs.rs\<close>): the sweep of lapsed cancelled jobs, the claims,
  the execution of a claimed job, the renewal of its lease and the recording of its completion.

  A job runner is a parameter, a function of the time and the job; it may return an outcome or
  panic. The JSON encoding of a job result (serde) is the parameter \<open>to_vec\<close>. Each reading of the clock
  and of the free slots is an argument.
\<close>

section \<open>Definitions\<close>

datatype JobOutcome =
    RunDone bytes
  | RunTransient string "int option"
  | RunFailed string

datatype run_result =
    Ran JobOutcome
  | RunPanicked string

type_synonym job_runner = "int \<Rightarrow> engine_job \<Rightarrow> run_result"

type_synonym job_registry = "string \<times> string \<Rightarrow> job_runner option"

definition job_aggregate :: "engine_job \<Rightarrow> aggregate_ref" where
  "job_aggregate j = \<lparr> ar_kind = jb_aggregate_kind j, ar_id = jb_aggregate_id j \<rparr>"

definition record_result_event ::
  "(job_result_event \<Rightarrow> bytes) \<Rightarrow> engine_job \<Rightarrow> int \<Rightarrow> bool \<Rightarrow> JobResultOutcome \<Rightarrow> int \<Rightarrow> inbox_table \<Rightarrow>
   EngineInboxInsert \<times> inbox_table" where
  "record_result_event to_vec job generation stale outcome now t =
     insert_engine_inbox_event (into_store (into_new_event to_vec
       \<lparr> jr_job_id = jb_job_id job, jr_phase = jb_phase job, jr_action = jb_action job,
         jr_generation = generation, jr_stale = stale, jr_outcome = outcome \<rparr>
       (job_aggregate job))) now t"

text \<open>The list is of the jobs whose workers are woken.\<close>

definition finish_lapsed_cancelled ::
  "(job_result_event \<Rightarrow> bytes) \<Rightarrow> int \<Rightarrow> 'b engine_db \<Rightarrow> engine_job list \<times> 'b engine_db" where
  "finish_lapsed_cancelled to_vec now db =
     (let (jobs, t) = finish_lapsed_cancelled_engine_jobs now (db_jobs db);
          tx = db\<lparr> db_jobs := t \<rparr>
      in if jobs = [] then ([], tx)
         else (jobs, tx\<lparr> db_inbox := fold (\<lambda>job i. snd (record_result_event to_vec job
                 (jb_generation job) False ResultCancelled now i)) jobs (db_inbox tx) \<rparr>))"

text \<open>
  \<open>available i\<close> is the number of free slots the \<open>i\<close>-th round reads. The loop goes on while a round
  fills every free slot, so it takes fuel.
\<close>

fun claim_and_spawn ::
  "nat \<Rightarrow> engine_config \<Rightarrow> JobPool \<Rightarrow> (nat \<Rightarrow> nat) \<Rightarrow> (nat \<Rightarrow> int) \<Rightarrow> nat \<Rightarrow> 'b engine_db \<Rightarrow>
   (engine_job list \<times> 'b engine_db) option" where
  "claim_and_spawn 0 cfg pool available clk i db = None"
| "claim_and_spawn (Suc fuel) cfg pool available clk i db =
     (if available i = 0 then Some ([], db)
      else
        let (jobs, t) = claim_due_engine_jobs (db_poisons db) (pool_as_str pool) (clk i)
              (clk i + job_lease_secs cfg) (int (available i)) (db_jobs db);
            db' = db\<lparr> db_jobs := t \<rparr>
        in if jobs = [] then Some ([], db')
           else if length jobs < available i then Some (jobs, db')
           else (case claim_and_spawn fuel cfg pool available clk (i + 1) db' of
                   None \<Rightarrow> None
                 | Some (rest, db'') \<Rightarrow> Some (jobs @ rest, db'')))"

text \<open>What \<^verbatim>\<open>execute_job\<close> reports; \<open>now\<close> is read at the start and \<open>now'\<close> when a transient failure is rescheduled.\<close>

definition job_finish :: "engine_config \<Rightarrow> job_registry \<Rightarrow> int \<Rightarrow> int \<Rightarrow> engine_job \<Rightarrow> EngineJobFinish" where
  "job_finish cfg registry now now' job =
     (if (case jb_deadline_at job of None \<Rightarrow> False | Some deadline \<Rightarrow> deadline < now)
      then FinishFailed (''deadline '' @ show_int (case jb_deadline_at job of None \<Rightarrow> 0 | Some d \<Rightarrow> d) @
             '' passed at '' @ show_int now)
      else case registry (jb_aggregate_kind job, jb_action job) of
             None \<Rightarrow> FinishFailed (''no runner registered for '' @
                      colon_join (jb_aggregate_kind job) (jb_action job))
           | Some runner \<Rightarrow>
               (case runner now job of
                  Ran (RunDone result) \<Rightarrow> FinishDone result
                | Ran (RunTransient error retry_after_secs) \<Rightarrow>
                    FinishRetry error (now' + (case retry_after_secs of
                        Some secs \<Rightarrow> secs
                      | None \<Rightarrow> delay (job_retry_backoff cfg) (jb_attempts job)))
                | Ran (RunFailed error) \<Rightarrow> FinishFailed error
                | RunPanicked message \<Rightarrow> FinishPoisoned message))"

text \<open>The result event of a completion: \<^verbatim>\<open>None\<close> when the aggregate hears nothing of it.\<close>

definition completion_report ::
  "EngineJobFinishOutcome \<Rightarrow> EngineJobFinish \<Rightarrow> bool \<times> JobResultOutcome option" where
  "completion_report outcome finish =
     (case outcome of
        FinishApplied state \<Rightarrow>
          (False,
           if state = JobCancelled then Some ResultCancelled
           else case finish of
                  FinishDone result \<Rightarrow> if state = JobDone then Some (ResultDone result) else None
                | FinishFailed error \<Rightarrow> if state = JobFailed then Some (ResultFailed error) else None
                | FinishPoisoned error \<Rightarrow> if state = JobPoisoned then Some (ResultPoisoned error) else None
                | FinishRetry _ _ \<Rightarrow> None)
      | FinishStale _ _ \<Rightarrow>
          (True, case finish of
                   FinishDone result \<Rightarrow> Some (ResultDone result)
                 | FinishFailed error \<Rightarrow> Some (ResultFailed error)
                 | FinishPoisoned error \<Rightarrow> Some (ResultPoisoned error)
                 | FinishRetry _ _ \<Rightarrow> None)
      | FinishMissing \<Rightarrow> (True, None))"

definition completion_poison ::
  "engine_config \<Rightarrow> engine_job \<Rightarrow> EngineJobFinishOutcome \<Rightarrow> EngineJobFinish \<Rightarrow> int \<Rightarrow>
   poison_row list \<Rightarrow> poison_row list" where
  "completion_poison cfg job outcome finish now t =
     (case outcome of
        FinishApplied _ \<Rightarrow>
          (case finish of
             FinishPoisoned reason \<Rightarrow>
               snd (mark_engine_aggregate_poisoned (jb_aggregate_kind job) (jb_aggregate_id job)
                 (jb_action job) reason now (delay (poison_backoff cfg)) t)
           | _ \<Rightarrow> snd (release_engine_poison (jb_aggregate_kind job) (jb_aggregate_id job) (jb_action job) t))
      | _ \<Rightarrow> t)"

text \<open>The Boolean says whether the worker of the aggregate is woken.\<close>

definition record_job_finish ::
  "engine_config \<Rightarrow> (job_result_event \<Rightarrow> bytes) \<Rightarrow> engine_job \<Rightarrow> int \<Rightarrow> EngineJobFinish \<Rightarrow> int \<Rightarrow>
   'b engine_db \<Rightarrow> bool \<times> EngineJobFinishOutcome \<times> 'b engine_db" where
  "record_job_finish cfg to_vec job generation finish now db =
     (let (outcome, jobs) = finish_engine_job (jb_job_id job) generation finish now (db_jobs db);
          (stale, result_outcome) = completion_report outcome finish;
          tx = db\<lparr> db_jobs := jobs,
                   db_poisons := completion_poison cfg job outcome finish now (db_poisons db) \<rparr>
      in case result_outcome of
           None \<Rightarrow> (False, outcome, tx)
         | Some r \<Rightarrow>
             let (inserted, i) = record_result_event to_vec job generation stale r now (db_inbox tx)
             in (case inserted of Inserted _ \<Rightarrow> True | Duplicate _ _ _ \<Rightarrow> False, outcome,
                 tx\<lparr> db_inbox := i \<rparr>))"

text \<open>
  The loop that records a completion. \<open>fails n\<close> says whether the storage fails at attempt \<open>n\<close> and
  \<open>cancelled n\<close> whether the lease is lost by then. The result is whether the completion was recorded
  and how many attempts were made.
\<close>

definition JOB_FINISH_ATTEMPTS_AFTER_LEASE_LOSS :: nat where
  "JOB_FINISH_ATTEMPTS_AFTER_LEASE_LOSS = 2"

fun finish_attempts ::
  "nat \<Rightarrow> (nat \<Rightarrow> bool) \<Rightarrow> (nat \<Rightarrow> bool) \<Rightarrow> nat \<Rightarrow> nat \<Rightarrow> (bool \<times> nat) option" where
  "finish_attempts 0 fails cancelled attempt after_loss = None"
| "finish_attempts (Suc fuel) fails cancelled attempt after_loss =
     (if \<not> fails attempt then Some (True, attempt)
      else
        let attempt' = attempt + 1;
            after_loss' = (if cancelled attempt then after_loss + 1 else after_loss)
        in if JOB_FINISH_ATTEMPTS_AFTER_LEASE_LOSS \<le> after_loss' then Some (False, attempt')
           else finish_attempts fuel fails cancelled attempt' after_loss')"

text \<open>One tick of the lease renewal of a running job.\<close>

datatype renewal = RenewalRenewed | RenewalFinished | RenewalLost

definition renewal_tick ::
  "engine_config \<Rightarrow> string \<Rightarrow> int \<Rightarrow> int \<Rightarrow> 'b engine_db \<Rightarrow> renewal \<times> 'b engine_db" where
  "renewal_tick cfg job_id generation now db =
     (let (renewed, t) = renew_engine_job_lease job_id generation (now + job_lease_secs cfg) now (db_jobs db);
          db' = db\<lparr> db_jobs := t \<rparr>
      in if renewed then (RenewalRenewed, db')
         else (case find_engine_job job_id t of
                 None \<Rightarrow> (RenewalLost, db')
               | Some row \<Rightarrow>
                   if jb_generation row = generation \<and> jb_state row \<noteq> JobRunning
                   then (RenewalFinished, db') else (RenewalLost, db')))"

section \<open>Every step keeps the database in order\<close>

lemma inbox_evolves_record_result:
  "inbox_evolves t (snd (record_result_event to_vec job g stale out now t))"
  by (simp add: record_result_event_def inbox_evolves_insert)

lemma db_evolves_lapsed: "db_evolves db (snd (finish_lapsed_cancelled to_vec now db))"
proof -
  have "inbox_evolves t (fold (\<lambda>job i. snd (record_result_event to_vec job (jb_generation job) False
      ResultCancelled now i)) jobs t)" for jobs t
    by (rule fold_related [of inbox_evolves, OF inbox_evolves_refl inbox_evolves_trans])
      (auto simp: inbox_evolves_record_result)
  then show ?thesis
    using job_evolves_lapsed [of "db_jobs db" now]
    by (simp add: finish_lapsed_cancelled_def Let_def split_beta db_evolves_def)
qed

lemma db_evolves_claim:
  "claim_and_spawn fuel cfg pool available clk i db = Some (jobs, db') \<Longrightarrow> db_evolves db db'"
proof (induction fuel arbitrary: i db jobs)
  case (Suc fuel)
  let ?t = "snd (claim_due_engine_jobs (db_poisons db) (pool_as_str pool) (clk i)
      (clk i + job_lease_secs cfg) (int (available i)) (db_jobs db))"
  have "db_evolves db (db\<lparr> db_jobs := ?t \<rparr>)"
    by (simp add: db_evolves_jobs claim_due_engine_jobs_def job_evolves_claim_loop)
  moreover have "db' = db \<or> db' = db\<lparr> db_jobs := ?t \<rparr> \<or>
      (\<exists>rest. claim_and_spawn fuel cfg pool available clk (i + 1) (db\<lparr> db_jobs := ?t \<rparr>) = Some (rest, db'))"
    using Suc.prems by (auto simp: Let_def split_beta split: if_splits option.splits)
  ultimately show ?case
    using Suc.IH db_evolves_trans db_evolves_refl by blast
qed simp

lemma db_evolves_record_job_finish:
  "db_evolves db (snd (snd (record_job_finish cfg to_vec job g fin now db)))"
proof -
  have "distinct (map po_key t) \<Longrightarrow> distinct (map po_key (completion_poison cfg job outcome fin now t))"
    for outcome t
    by (auto simp: completion_poison_def distinct_mark_poisoned release_engine_poison_def Let_def
        distinct_delete_rows split: EngineJobFinishOutcome.split EngineJobFinish.split)
  then show ?thesis
    by (auto simp: record_job_finish_def Let_def split_beta db_evolves_def job_evolves_finish
        inbox_evolves_record_result split: option.split)
qed

lemma db_evolves_renewal: "db_evolves db (snd (renewal_tick cfg i g now db))"
  by (auto simp: renewal_tick_def Let_def split_beta db_evolves_jobs job_evolves_renew
      split: option.split)

section \<open>Completions\<close>

text \<open>An applied completion reports its result, once: the event id names the job and the generation.\<close>

lemma find_record_result:
  "find_engine_inbox_event (job_result_event_id (jb_job_id job) g)
     (snd (record_result_event to_vec job g stale out now t)) \<noteq> None"
proof -
  let ?ev = "into_store (into_new_event to_vec
       \<lparr> jr_job_id = jb_job_id job, jr_phase = jb_phase job, jr_action = jb_action job,
         jr_generation = g, jr_stale = stale, jr_outcome = out \<rparr> (job_aggregate job))"
  have id: "ne_event_id ?ev = job_result_event_id (jb_job_id job) g"
    by (simp add: into_store_def into_new_event_def new_event_new_def)
  show ?thesis
  proof (cases "find_engine_inbox_event (ne_event_id ?ev) t")
    case None
    then show ?thesis
      by (simp add: record_result_event_def find_insert_new id)
  next
    case (Some r)
    then have "find_engine_inbox_event (ne_event_id ?ev)
        (snd (update_inbox (\<lambda>r. ie_event_id r = ne_event_id ?ev \<and> ie_state r = InboxFailed)
          (\<lambda>r. r\<lparr> ie_state := InboxPending, ie_next_at := now, ie_waiting_ref := None,
               ie_waiting_detail := None, ie_last_error := None, ie_updated_at := now \<rparr>) t)) \<noteq> None"
      by (subst find_update_inbox) auto
    with Some show ?thesis
      by (simp add: record_result_event_def insert_existing id)
  qed
qed

lemma record_job_finish_reports:
  assumes "record_job_finish cfg to_vec job g fin now db = (woken, outcome, db')"
    and "snd (completion_report outcome fin) \<noteq> None"
  shows "find_engine_inbox_event (job_result_event_id (jb_job_id job) g) (db_inbox db') \<noteq> None"
  using assms find_record_result
  by (auto simp: record_job_finish_def Let_def split_beta split: option.splits)

lemma record_job_finish_stale:
  assumes "find_engine_job (jb_job_id job) (db_jobs db) = Some c"
    and "\<not> held_by (jb_job_id job) g c"
    and "record_job_finish cfg to_vec job g fin now db = (woken, outcome, db')"
  shows "db_jobs db' = db_jobs db \<and> db_poisons db' = db_poisons db \<and>
    outcome = FinishStale (jb_generation c) (jb_state c)"
  using assms finish_stale [OF assms(1,2), of fin now]
  by (auto simp: record_job_finish_def Let_def split_beta completion_poison_def split: option.splits)

lemma finish_attempts_bound:
  assumes "\<And>n. n0 \<le> n \<Longrightarrow> cancelled n" and "attempt \<le> n0" and "after \<le> 1"
  shows "\<exists>ok n. finish_attempts (n0 + 3 - attempt) fails cancelled attempt after = Some (ok, n) \<and> n \<le> n0 + 2"
  using assms(2,3)
proof (induction "n0 - attempt" arbitrary: attempt after)
  case 0
  then have "attempt = n0" by simp
  then show ?case
    using assms(1) [of n0] assms(1) [of "n0 + 1"] "0.prems"
    by (auto simp: JOB_FINISH_ATTEMPTS_AFTER_LEASE_LOSS_def Let_def numeral_3_eq_3)
next
  case (Suc x)
  then have fuel: "n0 + 3 - attempt = Suc (n0 + 3 - (attempt + 1))" and le: "attempt + 1 \<le> n0"
    and x: "x = n0 - (attempt + 1)"
    by auto
  have "after = 0 \<or> after = 1" using Suc.prems by auto
  then show ?case
    unfolding fuel
    using Suc.hyps(1) [OF x le, of 0] Suc.hyps(1) [OF x le, of 1] Suc.prems(1)
    by (auto simp: JOB_FINISH_ATTEMPTS_AFTER_LEASE_LOSS_def Let_def)
qed

end
