(* ===== verification/EnginePublisher.thy ===== *)
theory EnginePublisher
  imports EngineStore
begin

text \<open>
  The publisher (\<^verbatim>\<open>src/crates/engine/src/outbox.rs\<close>), the only sender of the engine. The transport is
  a parameter: the outcome of the \<open>n\<close>-th publish, \<^verbatim>\<open>None\<close> for success. The clock readings of the claims
  and of the publishes are arguments.

  The lemmas show that a claim takes exactly its candidates and that, while the clock stands still
  and the backoff is positive, a drain ends and leaves no due row behind.
\<close>

section \<open>Definitions\<close>

type_synonym transport = "nat \<Rightarrow> string \<Rightarrow> bytes \<Rightarrow> anyhow_error option"

text \<open>\<^verbatim>\<open>NullTransport\<close>, used when no network is attached.\<close>

definition null_transport :: transport where
  "null_transport n topic payload = Some [''no transport attached to the engine'']"

definition publish_row ::
  "engine_config \<Rightarrow> transport \<Rightarrow> nat \<Rightarrow> int \<Rightarrow> engine_outbox_message \<Rightarrow> outbox_table \<Rightarrow> bool \<times> outbox_table" where
  "publish_row cfg transport n now row t =
     (case transport n (ob_topic row) (ob_payload row) of
        None \<Rightarrow>
          (True, snd (record_engine_outbox_publish (ob_outbox_id row)
             (now + delay (outbox_backoff cfg) (ob_publish_count row + 1)) now t))
      | Some error \<Rightarrow>
          (False, snd (record_engine_outbox_publish_failure (ob_outbox_id row) (error_to_string error)
             (now + delay (outbox_backoff cfg) 1) now t)))"

text \<open>\<open>n\<close> counts the publishes made so far.\<close>

primrec publish_batch ::
  "engine_config \<Rightarrow> transport \<Rightarrow> (nat \<Rightarrow> int) \<Rightarrow> nat \<Rightarrow> engine_outbox_message list \<Rightarrow> outbox_table \<Rightarrow>
   nat \<times> outbox_table" where
  "publish_batch cfg transport clk n [] t = (0, t)"
| "publish_batch cfg transport clk n (row # rows) t =
     (let (ok, t1) = publish_row cfg transport n (clk n) row t;
          (published, t2) = publish_batch cfg transport clk (n + 1) rows t1
      in ((if ok then published + 1 else published), t2))"

fun drain_outbox ::
  "nat \<Rightarrow> engine_config \<Rightarrow> transport \<Rightarrow> (nat \<Rightarrow> int) \<Rightarrow> (nat \<Rightarrow> int) \<Rightarrow> nat \<Rightarrow> nat \<Rightarrow> outbox_table \<Rightarrow>
   (nat \<times> outbox_table) option" where
  "drain_outbox 0 cfg transport claim_clk clk i n t = None"
| "drain_outbox (Suc fuel) cfg transport claim_clk clk i n t =
     (let (batch, t1) = claim_due_engine_outbox_messages (claim_clk i)
            (claim_clk i + outbox_lease_secs cfg) (outbox_batch cfg) t
      in if batch = [] then Some (0, t1)
         else
           let (published, t2) = publish_batch cfg transport clk n batch t1
           in if int (length batch) < outbox_batch cfg then Some (published, t2)
              else (case drain_outbox fuel cfg transport claim_clk clk (i + 1) (n + length batch) t2 of
                      None \<Rightarrow> None
                    | Some (rest, t3) \<Rightarrow> Some (published + rest, t3)))"

section \<open>Every step keeps the table in order\<close>

lemma outbox_evolves_publish_row: "outbox_evolves t (snd (publish_row cfg tr n now row t))"
  by (simp add: publish_row_def outbox_evolves_record split: option.split)

lemma outbox_evolves_publish_batch: "outbox_evolves t (snd (publish_batch cfg tr clk n rows t))"
proof (induction rows arbitrary: n t)
  case (Cons row rows)
  from outbox_evolves_trans [OF outbox_evolves_publish_row Cons.IH] show ?case
    by (simp add: Let_def split_beta)
qed simp

lemma outbox_evolves_claim: "outbox_evolves t (snd (claim_due_engine_outbox_messages now lease limit t))"
  by (simp add: claim_due_engine_outbox_messages_def outbox_evolves_claim_loop)

lemma outbox_evolves_drain:
  "drain_outbox fuel cfg tr ck clk i n t = Some (k, t') \<Longrightarrow> outbox_evolves t t'"
proof (induction fuel arbitrary: i n t k)
  case (Suc fuel)
  let ?c = "claim_due_engine_outbox_messages (ck i) (ck i + outbox_lease_secs cfg) (outbox_batch cfg) t"
  let ?t2 = "snd (publish_batch cfg tr clk n (fst ?c) (snd ?c))"
  have "outbox_evolves t (snd ?c)" and "outbox_evolves t ?t2"
    using outbox_evolves_claim outbox_evolves_trans [OF outbox_evolves_claim outbox_evolves_publish_batch]
    by auto
  moreover have "t' = snd ?c \<or> t' = ?t2 \<or>
      (\<exists>m. drain_outbox fuel cfg tr ck clk (i + 1) (n + length (fst ?c)) ?t2 = Some (m, t'))"
    using Suc.prems by (auto simp: Let_def split_beta split: if_splits option.splits)
  ultimately show ?case using Suc.IH outbox_evolves_trans by blast
qed simp

section \<open>A claim takes exactly its candidates\<close>

lemma claim_loop_ids:
  assumes "distinct (map ob_outbox_id t)" "distinct ids"
    and "\<And>i. i \<in> set ids \<Longrightarrow> \<exists>r. find_row ob_outbox_id i t = Some r \<and> outbox_due now r"
  shows "map ob_outbox_id (fst (claim_outbox_loop now lease ids t)) = ids"
  using assms
proof (induction ids arbitrary: t)
  case (Cons i ids)
  let ?p = "\<lambda>r. ob_outbox_id r = i \<and> outbox_due now r"
  let ?f = "\<lambda>r. r\<lparr> ob_lease_until := lease, ob_updated_at := now \<rparr>"
  let ?t = "update_rows ?p ?f t"
  have dist: "distinct (map ob_outbox_id ?t)"
    using Cons.prems(1) by (subst map_update_rows) auto
  have "find_row ob_outbox_id j ?t = find_row ob_outbox_id j t" if "j \<in> set ids" for j
  proof -
    have "j \<noteq> i" using that Cons.prems(2) by auto
    then have "\<not> ?p r" if "find_row ob_outbox_id j t = Some r" for r
      using that by (auto dest: find_row_SomeD)
    then show ?thesis
      by (subst find_row_update_rows) (auto intro: map_option_idI)
  qed
  then have rest: "map ob_outbox_id (fst (claim_outbox_loop now lease ids ?t)) = ids"
    using Cons.IH [OF dist] Cons.prems by auto
  obtain r where r: "find_row ob_outbox_id i t = Some r" "outbox_due now r"
    using Cons.prems(3) by auto
  have "fetch_optional (fst (update_returning ?p ?f t)) = Some (?f r)"
    using fetch_optional_update_returning [OF Cons.prems(1), of i "outbox_due now" ?f] r by simp
  moreover have "ob_outbox_id r = i"
    using r(1) by (auto dest: find_row_SomeD)
  ultimately show ?case
    using rest by (simp add: Let_def split_beta) (simp add: update_returning_def)
qed simp

lemma outbox_candidates_due:
  assumes "distinct (map ob_outbox_id t)" "i \<in> set (outbox_candidates now limit t)"
  shows "\<exists>r. find_row ob_outbox_id i t = Some r \<and> outbox_due now r"
proof -
  let ?s = "sort_key (\<lambda>r. (ob_next_at r, ob_created_at r)) (filter (outbox_due now) t)"
  have "set (sql_limit limit ?s) \<subseteq> set (filter (outbox_due now) t)"
    using set_sql_limit [of limit ?s] by simp
  with assms show ?thesis
    by (auto simp: outbox_candidates_def find_row_iff_mem)
qed

lemma claimed_ids:
  assumes "distinct (map ob_outbox_id t)"
  shows "map ob_outbox_id (fst (claim_due_engine_outbox_messages now lease limit t)) =
    outbox_candidates now limit t"
  unfolding claim_due_engine_outbox_messages_def
  using assms outbox_candidates_distinct [OF assms] outbox_candidates_due [OF assms]
  by (intro claim_loop_ids) auto

lemma candidates_all:
  assumes "0 < limit" "int (length (outbox_candidates now limit t)) < limit" "r \<in> set t" "outbox_due now r"
  shows "ob_outbox_id r \<in> set (outbox_candidates now limit t)"
proof -
  let ?s = "sort_key (\<lambda>r. (ob_next_at r, ob_created_at r)) (filter (outbox_due now) t)"
  have lim: "sql_limit limit ?s = take (nat limit) ?s"
    using assms(1) by (simp add: sql_limit_def)
  have "length (take (nat limit) ?s) < nat limit"
    using assms(1,2) by (simp add: outbox_candidates_def lim)
  then have "take (nat limit) ?s = ?s" by simp
  with assms show ?thesis
    by (auto simp: outbox_candidates_def lim)
qed

lemma candidates_empty:
  assumes "0 < limit" "outbox_candidates now limit t = []" "r \<in> set t"
  shows "\<not> outbox_due now r"
  using candidates_all [OF assms(1) _ assms(3), of now] assms(1,2) by auto

section \<open>A drain ends and leaves nothing due\<close>

text \<open>Open and past its publish time, leased or not.\<close>

definition ripe :: "int \<Rightarrow> engine_outbox_message \<Rightarrow> bool" where
  "ripe now r \<longleftrightarrow> ob_state r = OutboxOpen \<and> ob_next_at r \<le> now"

definition positive_backoff :: "Backoff \<Rightarrow> bool" where
  "positive_backoff b \<longleftrightarrow> (\<forall>n. 0 < delay b n)"

lemma publish_row_update:
  "positive_backoff (outbox_backoff cfg) \<Longrightarrow>
   \<exists>f. snd (publish_row cfg tr n now row t) = update_rows (open_message (ob_outbox_id row)) f t \<and>
     (\<forall>r. ob_outbox_id (f r) = ob_outbox_id r \<and> \<not> ripe now (f r))"
  by (auto simp: publish_row_def record_engine_outbox_publish_def
      record_engine_outbox_publish_failure_def positive_backoff_def ripe_def not_le
      split: option.split)

lemma publish_row_ripe_le:
  assumes "positive_backoff (outbox_backoff cfg)"
  shows "count_rows (ripe now) (snd (publish_row cfg tr n now row t)) \<le> count_rows (ripe now) t"
  using publish_row_update [OF assms, of tr n now row t]
  by (auto intro!: count_rows_update_le)

lemma publish_batch_ripe_le:
  assumes "positive_backoff (outbox_backoff cfg)"
  shows "count_rows (ripe now) (snd (publish_batch cfg tr (\<lambda>_. now) n rows t)) \<le> count_rows (ripe now) t"
proof (induction rows arbitrary: n t)
  case (Cons row rows)
  from Cons.IH [of "n + 1" "snd (publish_row cfg tr n now row t)"]
    publish_row_ripe_le [OF assms(1), of now tr n row t]
  show ?case by (simp add: Let_def split_beta)
qed simp

lemma publish_batch_ripe_less:
  assumes "positive_backoff (outbox_backoff cfg)" "r \<in> set t" "ripe now r" "ob_outbox_id row = ob_outbox_id r"
  shows "count_rows (ripe now) (snd (publish_batch cfg tr (\<lambda>_. now) n (row # rows) t)) < count_rows (ripe now) t"
proof -
  obtain f where f: "snd (publish_row cfg tr n now row t) = update_rows (open_message (ob_outbox_id row)) f t"
    "\<And>r. ob_outbox_id (f r) = ob_outbox_id r \<and> \<not> ripe now (f r)"
    using publish_row_update [OF assms(1)] by blast
  let ?p = "\<lambda>q. open_message (ob_outbox_id row) q \<and> ripe now q"
  have split: "count_rows (ripe now) (update_rows (open_message (ob_outbox_id row)) f t) \<le>
      count_rows (ripe now) (update_rows ?p f t)"
    using f(2) by (induction t) (auto simp: count_rows_def)
  have "count_rows (ripe now) (update_rows ?p f t) < count_rows (ripe now) t"
    using f(2) assms(2-4) by (intro count_rows_update_less) (auto simp: open_message_def ripe_def)
  then have "count_rows (ripe now) (snd (publish_row cfg tr n now row t)) < count_rows (ripe now) t"
    using f(1) split by simp
  then show ?thesis
    using publish_batch_ripe_le [OF assms(1), of now tr "n + 1" rows "snd (publish_row cfg tr n now row t)"]
    by (simp add: Let_def split_beta)
qed

lemma publish_batch_not_ripe:
  assumes "positive_backoff (outbox_backoff cfg)" "i \<in> ob_outbox_id ` set rows"
    and "r \<in> set (snd (publish_batch cfg tr (\<lambda>_. now) n rows t))" "ob_outbox_id r = i"
  shows "\<not> ripe now r"
  using assms(2-)
proof (induction rows arbitrary: n t)
  case (Cons row rows)
  let ?t = "snd (publish_row cfg tr n now row t)"
  have r: "r \<in> set (snd (publish_batch cfg tr (\<lambda>_. now) (n + 1) rows ?t))"
    using Cons.prems(2) by (simp add: Let_def split_beta)
  show ?case
  proof (cases "i \<in> ob_outbox_id ` set rows")
    case True
    with Cons.IH [OF _ r] Cons.prems(3) show ?thesis by blast
  next
    case False
    then have i: "ob_outbox_id row = i" using Cons.prems(1) by auto
    have keep: "\<forall>q \<in> set u. ob_outbox_id q = i \<longrightarrow> \<not> ripe now q \<Longrightarrow>
        \<forall>q \<in> set (snd (publish_batch cfg tr (\<lambda>_. now) m rs u)). ob_outbox_id q = i \<longrightarrow> \<not> ripe now q"
      for m rs u
    proof (induction rs arbitrary: m u)
      case (Cons x rs)
      have "\<forall>q \<in> set (snd (publish_row cfg tr m now x u)). ob_outbox_id q = i \<longrightarrow> \<not> ripe now q"
        using publish_row_update [OF assms(1), of tr m now x u] Cons.prems
        by (auto simp: set_update_rows)
      from Cons.IH [OF this] show ?case by (simp add: Let_def split_beta)
    qed simp
    have "\<forall>q \<in> set ?t. ob_outbox_id q = i \<longrightarrow> \<not> ripe now q"
      using publish_row_update [OF assms(1), of tr n now row t] i
      by (auto simp: set_update_rows open_message_def ripe_def split: if_splits)
    from keep [OF this] r Cons.prems(3) show ?thesis by blast
  qed
qed simp

lemma claimed_row_ripe:
  assumes "outbox_inv t" "row \<in> set (fst (claim_due_engine_outbox_messages now lease limit t))"
  shows "\<exists>r \<in> set (snd (claim_due_engine_outbox_messages now lease limit t)).
    ripe now r \<and> ob_outbox_id r = ob_outbox_id row"
proof -
  have dist: "distinct (map ob_outbox_id t)" using assms(1) by (simp add: outbox_inv_def)
  have "ob_outbox_id row \<in> set (outbox_candidates now limit t)"
    using assms(2) claimed_ids [OF dist, of now lease limit] by (metis image_eqI set_map)
  then obtain r where r: "find_row ob_outbox_id (ob_outbox_id row) t = Some r" "outbox_due now r"
    using outbox_candidates_due [OF dist] by blast
  have ripe_loop: "\<exists>r \<in> set (snd (claim_outbox_loop now lease ids u)). ripe now r \<and> ob_outbox_id r = i"
    if "\<exists>r \<in> set u. ripe now r \<and> ob_outbox_id r = i" for ids u i
    using that
  proof (induction ids arbitrary: u)
    case (Cons j ids)
    have "\<exists>r \<in> set (update_rows (\<lambda>r. ob_outbox_id r = j \<and> outbox_due now r)
        (\<lambda>r. r\<lparr> ob_lease_until := lease, ob_updated_at := now \<rparr>) u). ripe now r \<and> ob_outbox_id r = i"
      using Cons.prems by (subst ex_update_rows) (auto simp: ripe_def)
    from Cons.IH [OF this] show ?case
      by (simp add: Let_def split_beta update_returning_def)
  qed simp
  have "r \<in> set t" "ripe now r" "ob_outbox_id r = ob_outbox_id row"
    using r by (auto simp: ripe_def outbox_due_def dest: find_row_SomeD)
  with ripe_loop show ?thesis
    unfolding claim_due_engine_outbox_messages_def by blast
qed

lemma claim_ripe_count:
  "count_rows (ripe now) (snd (claim_outbox_loop now lease ids t)) = count_rows (ripe now) t"
proof (induction ids arbitrary: t)
  case (Cons i ids)
  have "count_rows (ripe now) (update_rows (\<lambda>r. ob_outbox_id r = i \<and> outbox_due now r)
      (\<lambda>r. r\<lparr> ob_lease_until := lease, ob_updated_at := now \<rparr>) t) = count_rows (ripe now) t"
    by (rule count_rows_update_same) (simp add: ripe_def)
  with Cons show ?case by (simp add: Let_def split_beta update_returning_def)
qed simp

lemma claim_loop_other:
  "q \<in> set (snd (claim_outbox_loop now lease ids t)) \<Longrightarrow> ob_outbox_id q \<notin> set ids \<Longrightarrow> q \<in> set t"
proof (induction ids arbitrary: t)
  case (Cons i ids)
  then have "q \<in> set (update_rows (\<lambda>r. ob_outbox_id r = i \<and> outbox_due now r)
      (\<lambda>r. r\<lparr> ob_lease_until := lease, ob_updated_at := now \<rparr>) t)"
    by (simp add: Let_def split_beta update_returning_def)
  with Cons.prems(2) show ?case by (auto simp: set_update_rows split: if_splits)
qed simp

lemma publish_batch_other:
  "q \<in> set (snd (publish_batch cfg tr clk n rows t)) \<Longrightarrow> ob_outbox_id q \<notin> ob_outbox_id ` set rows \<Longrightarrow>
   q \<in> set t"
proof (induction rows arbitrary: n t)
  case (Cons row rows)
  then have "q \<in> set (snd (publish_row cfg tr n (clk n) row t))"
    by (simp add: Let_def split_beta)
  with Cons.prems(2) show ?case
    by (auto simp: publish_row_def record_engine_outbox_publish_def
        record_engine_outbox_publish_failure_def set_update_rows open_message_def
        split: option.splits if_splits)
qed simp

lemma drain_outbox_ends:
  assumes "positive_backoff (outbox_backoff cfg)" "0 < outbox_batch cfg"
  shows "outbox_inv t \<Longrightarrow> count_rows (ripe now) t < fuel \<Longrightarrow>
    \<exists>k t'. drain_outbox fuel cfg tr (\<lambda>_. now) (\<lambda>_. now) i n t = Some (k, t') \<and> (\<forall>r \<in> set t'. \<not> outbox_due now r)"
proof (induction fuel arbitrary: i n t)
  case (Suc fuel)
  let ?c = "claim_due_engine_outbox_messages now (now + outbox_lease_secs cfg) (outbox_batch cfg) t"
  obtain batch t1 where c: "?c = (batch, t1)" by (metis surj_pair)
  have dist: "distinct (map ob_outbox_id t)" using Suc.prems(1) by (simp add: outbox_inv_def)
  have ids: "map ob_outbox_id batch = outbox_candidates now (outbox_batch cfg) t"
    using claimed_ids [OF dist, of now "now + outbox_lease_secs cfg" "outbox_batch cfg"] c by simp
  have t1: "outbox_inv t1"
    using outbox_evolves_claim [of t now] Suc.prems(1) c unfolding outbox_evolves_def by (metis snd_conv)
  obtain p t2 where p: "publish_batch cfg tr (\<lambda>_. now) n batch t1 = (p, t2)" by (metis surj_pair)
  have t2: "outbox_inv t2"
    using outbox_evolves_publish_batch [of t1 cfg tr "\<lambda>_. now" n batch] t1 p
    unfolding outbox_evolves_def by simp
  show ?case
  proof (cases batch)
    case Nil
    then have "outbox_candidates now (outbox_batch cfg) t = []" using ids by simp
    moreover from this have "t1 = t"
      using c by (simp add: claim_due_engine_outbox_messages_def)
    ultimately show ?thesis
      using candidates_empty [OF assms(2)] c Nil by auto
  next
    case (Cons row rows)
    have "row \<in> set (fst ?c)" using c Cons by simp
    then obtain r where r: "r \<in> set t1" "ripe now r" "ob_outbox_id row = ob_outbox_id r"
      using claimed_row_ripe [OF Suc.prems(1), of row now] c by (metis snd_conv)
    have "count_rows (ripe now) t2 < count_rows (ripe now) t1"
      using publish_batch_ripe_less [OF assms(1) r, of tr n rows] p Cons
      by (metis snd_conv)
    moreover have "count_rows (ripe now) t1 = count_rows (ripe now) t"
      using claim_ripe_count c by (metis claim_due_engine_outbox_messages_def snd_conv)
    ultimately have less: "count_rows (ripe now) t2 < fuel" using Suc.prems(2) by simp
    show ?thesis
    proof (cases "int (length batch) < outbox_batch cfg")
      case True
      have "\<not> outbox_due now q" if q: "q \<in> set t2" for q
      proof
        assume due: "outbox_due now q"
        then have "ripe now q" by (simp add: outbox_due_def ripe_def)
        with q have out: "ob_outbox_id q \<notin> ob_outbox_id ` set batch"
          using publish_batch_not_ripe [OF assms(1), of _ batch q tr now n t1] p by auto
        then have "q \<in> set t1"
          using publish_batch_other [of q cfg tr "\<lambda>_. now" n batch t1] q p by auto
        then have "q \<in> set t"
          using claim_loop_other [of q now "now + outbox_lease_secs cfg"
              "outbox_candidates now (outbox_batch cfg) t" t] out ids c
          by (metis claim_due_engine_outbox_messages_def set_map snd_conv)
        moreover have "int (length (outbox_candidates now (outbox_batch cfg) t)) < outbox_batch cfg"
          using True ids by (metis length_map)
        ultimately have "ob_outbox_id q \<in> set (outbox_candidates now (outbox_batch cfg) t)"
          using candidates_all [OF assms(2)] due by blast
        with out ids show False by (metis set_map)
      qed
      with True p c Cons show ?thesis by auto
    next
      case False
      with Suc.IH [OF t2 less, of "i + 1" "n + length batch"] p c Cons show ?thesis
        by auto
    qed
  qed
qed simp

end
