(* ===== verification/EngineRuntime.thy ===== *)
theory EngineRuntime
  imports EngineWorker EngineExecutor EnginePublisher
begin

text \<open>
  The engine as a whole (\<^verbatim>\<open>src/crates/engine/src/runtime.rs\<close>): the producer's handle, the startup
  recovery, the periodic re-check and the housekeeping, and the system they form with the workers,
  the publisher and the executor.

  \<^verbatim>\<open>work_step\<close> is one step of any of the engine's loops or of a caller of its handle, interleaved in any
  order and at any times; \<^verbatim>\<open>engine_step\<close> adds the retention purge. Wake-ups only accelerate the loops, so
  they carry no state here; each operation says whether it wakes anyone.
\<close>

section \<open>The producer's handle\<close>

datatype SubmitOutcome =
    SubmitInserted
  | SubmitDuplicate EngineInboxState bool bool

text \<open>The Boolean says whether the worker of the aggregate is woken.\<close>

definition submit ::
  "new_event \<Rightarrow> int \<Rightarrow> 'b engine_db \<Rightarrow> ack_channel \<Rightarrow> SubmitOutcome \<times> bool \<times> 'b engine_db \<times> ack_channel" where
  "submit ev now db ch =
     (let (inserted, i) = insert_engine_inbox_event (into_store ev) now (db_inbox db);
          db' = db\<lparr> db_inbox := i \<rparr>
      in case inserted of
           Inserted _ \<Rightarrow> (SubmitInserted, True, db', ch)
         | Duplicate state ack_again rearmed \<Rightarrow>
             let (ack_sent, ch') =
                   (case ev_ack ev of
                      None \<Rightarrow> (False, ch)
                    | Some a \<Rightarrow> if ack_again then try_send a ch else (False, ch))
             in (SubmitDuplicate state ack_sent rearmed, rearmed, db', ch'))"

definition submit_in :: "new_event \<Rightarrow> int \<Rightarrow> 'b engine_db \<Rightarrow> SubmitOutcome \<times> 'b engine_db" where
  "submit_in ev now db =
     (let (inserted, i) = insert_engine_inbox_event (into_store ev) now (db_inbox db);
          db' = db\<lparr> db_inbox := i \<rparr>
      in case inserted of
           Inserted _ \<Rightarrow> (SubmitInserted, db')
         | Duplicate state _ rearmed \<Rightarrow> (SubmitDuplicate state False rearmed, db'))"

definition acknowledge ::
  "(ack_map \<Rightarrow> string) \<Rightarrow> string \<Rightarrow> string \<Rightarrow> int \<Rightarrow> 'b engine_db \<Rightarrow> EngineOutboxAck \<times> 'b engine_db" where
  "acknowledge json peer delivery_id now db =
     (let (a, t) = acknowledge_engine_outbox json peer delivery_id now (db_outbox db)
      in (a, db\<lparr> db_outbox := t \<rparr>))"

definition notify :: "string list \<Rightarrow> int \<Rightarrow> 'b engine_db \<Rightarrow> nat \<times> 'b engine_db" where
  "notify refs now db =
     (let (woken, i) = wake_engine_inbox_waiting refs now (db_inbox db) in (woken, db\<lparr> db_inbox := i \<rparr>))"

definition clear_poison :: "aggregate_ref \<Rightarrow> string option \<Rightarrow> 'b engine_db \<Rightarrow> nat \<times> 'b engine_db" where
  "clear_poison a action db =
     (let (cleared, t) = clear_engine_aggregate_poison (ar_kind a) (ar_id a) action (db_poisons db)
      in (cleared, db\<lparr> db_poisons := t \<rparr>))"

definition poisons :: "aggregate_ref \<Rightarrow> 'b engine_db \<Rightarrow> engine_poison list" where
  "poisons a db = list_engine_poisons (Some (ar_kind a, ar_id a)) 256 (db_poisons db)"

definition aggregate :: "aggregate_ref \<Rightarrow> 'b engine_db \<Rightarrow> engine_aggregate option" where
  "aggregate a db = find_engine_aggregate (ar_kind a) (ar_id a) (db_aggregates db)"

record engine_snapshot =
  sn_counts :: "engine_state_count list"
  sn_waiting :: "engine_waiting_event list"
  sn_poisoned :: "engine_poison list"

definition snapshot :: "'b engine_db \<Rightarrow> engine_snapshot" where
  "snapshot db = \<lparr> sn_counts = engine_state_counts db,
                   sn_waiting = list_engine_inbox_waiting 256 (db_inbox db),
                   sn_poisoned = list_engine_poisons None 256 (db_poisons db) \<rparr>"

section \<open>Recovery, re-check and housekeeping\<close>

definition startup_recovery :: "int \<Rightarrow> 'b engine_db \<Rightarrow> 'b engine_db" where
  "startup_recovery now db =
     db\<lparr> db_inbox := snd (rearm_engine_inbox_pending now (db_inbox db)),
         db_outbox := snd (reset_engine_outbox_leases (db_outbox db)),
         db_jobs := snd (reset_engine_job_leases (db_jobs db)) \<rparr>"

definition recheck :: "int \<Rightarrow> 'b engine_db \<Rightarrow> nat \<times> 'b engine_db" where
  "recheck now db =
     (let (rearmed, i) = rearm_engine_inbox_waiting now (db_inbox db) in (rearmed, db\<lparr> db_inbox := i \<rparr>))"

definition housekeeping :: "engine_config \<Rightarrow> int \<Rightarrow> 'b engine_db \<Rightarrow> nat \<times> 'b engine_db" where
  "housekeeping cfg now db = purge_engine_terminal_rows (now - terminal_retention_secs cfg) db"

section \<open>The system\<close>

inductive work_step :: "'b engine_db \<Rightarrow> 'b engine_db \<Rightarrow> bool" where
  submitted: "submit ev now db ch = (res, woken, db', ch') \<Longrightarrow> work_step db db'"
| submitted_in: "work_step db (snd (submit_in ev now db))"
| acknowledged: "work_step db (snd (acknowledge json peer delivery_id now db))"
| notified: "work_step db (snd (notify refs now db))"
| poison_cleared: "work_step db (snd (clear_poison a action db))"
| recovered: "work_step db (startup_recovery now db)"
| rechecked: "work_step db (snd (recheck now db))"
| processed: "handlers_ok hs \<Longrightarrow>
    work_step db (snd (process_event cfg hs now0 now1 now2 e db))"
| swept: "work_step db (snd (finish_lapsed_cancelled to_vec now db))"
| claimed: "work_step db (db\<lparr> db_jobs :=
    snd (claim_due_engine_jobs (db_poisons db) pool now lease limit (db_jobs db)) \<rparr>)"
| renewed: "work_step db (snd (renewal_tick cfg job_id generation now db))"
| finished: "work_step db (snd (snd (record_job_finish cfg to_vec job generation fin now db)))"
| leased: "work_step db (db\<lparr> db_outbox :=
    snd (claim_due_engine_outbox_messages now lease limit (db_outbox db)) \<rparr>)"
| published: "work_step db (db\<lparr> db_outbox := snd (publish_row cfg tr n now row (db_outbox db)) \<rparr>)"

inductive engine_step :: "'b engine_db \<Rightarrow> 'b engine_db \<Rightarrow> bool" where
  work: "work_step db db' \<Longrightarrow> engine_step db db'"
| purged: "engine_step db (snd (housekeeping cfg now db))"
| rejected_purged: "engine_step db (db\<lparr> db_inbox :=
    snd (purge_rejected_network_inbox_rows before (db_inbox db)) \<rparr>)"

definition reachable :: "'b engine_db \<Rightarrow> bool" where
  "reachable db \<longleftrightarrow> (\<exists>b. engine_step\<^sup>*\<^sup>* (empty_db b) db)"

inductive_cases work_stepE: "work_step db db'"
inductive_cases engine_stepE: "engine_step db db'"

section \<open>Every step keeps the database in order\<close>

lemma db_evolves_submit:
  assumes "submit ev now db ch = (res, woken, db', ch')"
  shows "db_evolves db db'"
proof -
  have "db' = db\<lparr> db_inbox := snd (insert_engine_inbox_event (into_store ev) now (db_inbox db)) \<rparr>"
    using assms
    by (auto simp: submit_def Let_def split_beta split: EngineInboxInsert.splits option.splits)
  then show ?thesis by (simp add: db_evolves_inbox inbox_evolves_insert)
qed

lemma db_evolves_submit_in: "db_evolves db (snd (submit_in ev now db))"
  by (auto simp: submit_in_def Let_def split_beta db_evolves_inbox inbox_evolves_insert
      split: EngineInboxInsert.split)

lemma db_evolves_clear_poison: "db_evolves db (snd (clear_poison a action db))"
  by (simp add: clear_poison_def Let_def split_beta db_evolves_poisons distinct_delete_rows
      clear_engine_aggregate_poison_def)

lemma db_evolves_recovery: "db_evolves db (startup_recovery now db)"
  by (simp add: startup_recovery_def db_evolves_def inbox_evolves_rearm outbox_evolves_reset
      job_evolves_reset)

lemma work_step_evolves: "work_step db db' \<Longrightarrow> db_evolves db db'"
proof (induction rule: work_step.induct)
  case (submitted ev now db ch res woken db' ch')
  then show ?case by (rule db_evolves_submit)
next
  case (acknowledged db json peer delivery_id now)
  show ?case
    by (simp add: acknowledge_def Let_def split_beta db_evolves_outbox outbox_evolves_ack)
next
  case (notified db refs now)
  show ?case
    by (simp add: notify_def Let_def split_beta db_evolves_inbox inbox_evolves_wake)
next
  case (rechecked db now)
  show ?case
    by (simp add: recheck_def Let_def split_beta db_evolves_inbox inbox_evolves_rearm)
next
  case (processed hs db cfg now0 now1 now2 e)
  then show ?case by (rule db_evolves_process_event)
next
  case (claimed db pool now lease limit)
  show ?case
    by (simp add: db_evolves_jobs claim_due_engine_jobs_def job_evolves_claim_loop)
next
  case (leased db now lease limit)
  show ?case by (simp add: db_evolves_outbox outbox_evolves_claim)
next
  case (published db cfg tr n now row)
  show ?case by (simp add: db_evolves_outbox outbox_evolves_publish_row)
qed (rule db_evolves_submit_in db_evolves_clear_poison db_evolves_recovery db_evolves_lapsed
    db_evolves_renewal db_evolves_record_job_finish)+

lemma engine_step_inv: "engine_step db db' \<Longrightarrow> db_inv db \<Longrightarrow> db_inv db'"
proof (induction rule: engine_step.induct)
  case (work db db')
  then show ?case using work_step_evolves db_evolves_inv by blast
next
  case (purged db cfg now)
  then show ?case by (simp add: housekeeping_def db_inv_purge)
next
  case (rejected_purged db before)
  then show ?case by (simp add: db_inv_def inbox_inv_purge)
qed

lemma engine_steps_inv: "engine_step\<^sup>*\<^sup>* a db \<Longrightarrow> db_inv a \<Longrightarrow> db_inv db"
  by (induction rule: rtranclp_induct) (auto intro: engine_step_inv)

lemma reachable_inv: "reachable db \<Longrightarrow> db_inv db"
  unfolding reachable_def by (elim exE, erule engine_steps_inv) (rule db_inv_empty)

section \<open>Rows through the whole system\<close>

interpretation engine_events: row_lifecycle
  "\<lambda>db k. find_engine_inbox_event k (db_inbox db)" db_inv work_step inbox_le
proof (standard, goal_cases)
  case (1 t t')
  then show ?case using work_step_evolves db_evolves_inv by blast
next
  case (2 t t' k r)
  then show ?case
    using work_step_evolves unfolding db_evolves_def db_inv_def inbox_evolves_def by blast
next
  case (4 r1 r2 r3)
  then show ?case by (rule inbox_le_trans)
qed simp

interpretation engine_messages: row_lifecycle
  "\<lambda>db k. find_engine_outbox_message k (db_outbox db)" db_inv work_step outbox_le
proof (standard, goal_cases)
  case (1 t t')
  then show ?case using work_step_evolves db_evolves_inv by blast
next
  case (2 t t' k r)
  then show ?case
    using work_step_evolves unfolding db_evolves_def db_inv_def outbox_evolves_def by blast
next
  case (4 r1 r2 r3)
  then show ?case by (rule outbox_le_trans)
qed simp

interpretation engine_jobs: row_lifecycle
  "\<lambda>db k. find_engine_job k (db_jobs db)" db_inv work_step job_le
proof (standard, goal_cases)
  case (1 t t')
  then show ?case using work_step_evolves db_evolves_inv by blast
next
  case (2 t t' k r)
  then show ?case
    using work_step_evolves unfolding db_evolves_def db_inv_def job_evolves_def by blast
next
  case (4 r1 r2 r3)
  then show ?case by (rule job_le_trans)
qed simp

interpretation engine_aggregates: row_lifecycle
  "\<lambda>db (k, i). find_engine_aggregate k i (db_aggregates db)" db_inv work_step aggregate_le
proof (standard, goal_cases)
  case (1 t t')
  then show ?case using work_step_evolves db_evolves_inv by blast
next
  case (2 t t' k r)
  then have "aggregates_evolve (db_aggregates t) (db_aggregates t')" "aggregates_inv (db_aggregates t)"
    using work_step_evolves by (auto simp: db_evolves_def db_inv_def)
  with 2 show ?case
    by (cases k) (auto simp: aggregates_evolve_def)
qed (auto simp: aggregate_le_def)

end
