(* ===== verification/EngineProperties.thy ===== *)
theory EngineProperties
  imports EngineRuntime
begin

text \<open>
  The properties of the execution engine: its store, its shard workers, its job executor and its
  publisher, alone and interleaved by \<^verbatim>\<open>work_step\<close> and \<^verbatim>\<open>engine_step\<close>. The examples at the start are the
  concrete inputs on which the properties with hypotheses are applied.
\<close>

section \<open>Examples\<close>

definition example_event :: new_event where
  "example_event = new_event_new ''e1'' \<lparr> ar_kind = ''graph'', ar_id = ''g1'' \<rparr> ''tick'' SourceJob [7]"

definition example_db :: "unit engine_db" where
  "example_db = snd (submit_in example_event 100 (empty_db ()))"

definition example_row :: engine_inbox_event where
  "example_row = new_inbox_row (into_store example_event) 100 1"

text \<open>A handler that sends one message and enqueues one job, the same on every apply.\<close>

definition example_effects :: effects where
  "example_effects =
     send \<lparr> om_outbox_id = ''m1'', om_phase_ref = ''p'', om_kind = ''k'', om_topic = ''t'',
            om_payload = [1], om_ack_set = None \<rparr>
       (enqueue_job \<lparr> js_job_id = ''j1'', js_phase = ''p'', js_action = ''a'', js_pool = PoolCpu,
            js_params = [2], js_deadline_at = None, js_run_after = None \<rparr> default_effects)"

definition example_handlers :: "unit handlers" where
  "example_handlers kind =
     (if kind = ''graph'' then Some (\<lambda>now a current e db. (Returned OutcomeApplied, example_effects, db)) else None)"

definition failing_handlers :: "unit handlers" where
  "failing_handlers kind =
     (if kind = ''graph''
      then Some (\<lambda>now a current e db. (Panicked ''boom'', default_effects, db)) else None)"

lemma example_handlers_ok: "handlers_ok example_handlers" "handlers_ok failing_handlers"
    "handlers_settle example_handlers"
  by (auto simp: handlers_ok_def handler_ok_def handlers_settle_def example_handlers_def
      failing_handlers_def split: if_splits)

lemma example_db_inv: "db_inv example_db"
  unfolding example_db_def
  by (rule db_evolves_inv [OF db_evolves_submit_in db_inv_empty])

lemma example_find:
  "find_engine_inbox_event ''e1'' (db_inbox example_db) = Some example_row"
  by (simp add: example_db_def submit_in_def Let_def split_beta example_row_def empty_db_def
      empty_inbox_def find_engine_inbox_event_def insert_engine_inbox_event_def table_simps
      example_event_def into_store_def new_event_new_def new_inbox_row_def)

lemma example_row_simps [simp]:
  "ie_event_id example_row = ''e1''" "ie_state example_row = InboxPending" "ie_next_at example_row = 100"
  "ie_aggregate_kind example_row = ''graph''" "ie_aggregate_id example_row = ''g1''"
  "ie_kind example_row = ''tick''"
  by (simp_all add: example_row_def example_event_def into_store_def new_event_new_def new_inbox_row_def)

lemma example_from_event: "from_event example_row = \<lparr> ar_kind = ''graph'', ar_id = ''g1'' \<rparr>"
  by (simp add: from_event_def)

lemma example_reachable: "reachable example_db"
  unfolding reachable_def example_db_def
  by (rule exI [of _ "()"]) (intro r_into_rtranclp engine_step.work work_step.submitted_in)

section \<open>The whole system\<close>

text \<open>
  \<^bold>\<open>C4.\<close> The database stays well formed. In every state the engine can reach from an empty database, by
  any interleaving of producers, workers, executor, publisher, recovery and retention, every table
  satisfies its invariant: event ids, outbox ids, job ids, aggregate keys and poison keys are unique,
  sequence numbers grow with insertion, a payload is absent exactly when its event is applied, a
  waiting reference occurs only on pending events, a job row is terminal exactly when it has a finish
  time, and a closed outbox row has no payload and no lease.
\<close>

theorem reachable_db_inv: "reachable db \<Longrightarrow> db_inv db"
  by (rule reachable_inv)

theorem reachable_db_inv_witness: "reachable example_db \<and> db_inv example_db"
  using reachable_db_inv [OF example_reachable] example_reachable by simp

text \<open>
  \<^bold>\<open>C5.\<close> An event is never lost or altered. Through any sequence of engine steps short of the retention
  purge, the row of an event stays, keeps its sequence number, aggregate, kind, source, author and
  acknowledgement target, its attempts never decrease, its payload is kept until it is applied, and
  once it is applied or poisoned the row never changes again.
\<close>

theorem event_rows_persist:
  assumes "work_step\<^sup>*\<^sup>* db db'" "db_inv db" "find_engine_inbox_event k (db_inbox db) = Some r"
  shows "\<exists>r'. find_engine_inbox_event k (db_inbox db') = Some r' \<and> same_event r r' \<and>
     ie_attempts r \<le> ie_attempts r' \<and> (ie_payload r' = ie_payload r \<or> ie_state r' = InboxApplied) \<and>
     (if settled r then r' = r else True)"
  using engine_events.row_steps [OF assms] unfolding inbox_le_def by blast

lemma example_step:
  "work_step\<^sup>*\<^sup>* example_db (snd (process_event default_engine_config example_handlers 100 101 102 example_row example_db))"
  using work_step.processed [OF example_handlers_ok(1)] by blast

theorem event_rows_persist_witness:
  "\<exists>r'. find_engine_inbox_event ''e1'' (db_inbox (snd (process_event default_engine_config example_handlers
       100 101 102 example_row example_db))) = Some r' \<and> same_event example_row r' \<and>
     ie_attempts example_row \<le> ie_attempts r' \<and>
     (ie_payload r' = ie_payload example_row \<or> ie_state r' = InboxApplied) \<and>
     (if settled example_row then r' = example_row else True)"
  using event_rows_persist [OF example_step example_db_inv example_find] .

section \<open>The inbox\<close>

text \<open>
  Submitting is idempotent on the event id. A new id gets one row, pending and due now, behind
  every earlier row. A known id is reported as a duplicate and inserts nothing: a failed event becomes
  pending again with its identity, payload and attempts kept, and every other row is unchanged.
\<close>

theorem submit_deduplicates:
  "case find_engine_inbox_event (ev_event_id ev) (db_inbox db) of
     None \<Rightarrow>
       submit_in ev now db =
         (SubmitInserted, db\<lparr> db_inbox := \<lparr> it_rows = it_rows (db_inbox db) @
              [new_inbox_row (into_store ev) now (it_last_seq (db_inbox db) + 1)],
            it_last_seq = it_last_seq (db_inbox db) + 1 \<rparr> \<rparr>)
   | Some r \<Rightarrow>
       fst (submit_in ev now db) = SubmitDuplicate (ie_state r) False (ie_state r = InboxFailed) \<and>
       map ie_event_id (it_rows (db_inbox (snd (submit_in ev now db)))) =
         map ie_event_id (it_rows (db_inbox db)) \<and>
       find_engine_inbox_event (ev_event_id ev) (db_inbox (snd (submit_in ev now db))) =
         Some (if ie_state r = InboxFailed
               then r\<lparr> ie_state := InboxPending, ie_next_at := now, ie_waiting_ref := None,
                       ie_waiting_detail := None, ie_last_error := None, ie_updated_at := now \<rparr>
               else r)"
proof (cases "find_engine_inbox_event (ev_event_id ev) (db_inbox db)")
  case None
  then have "find_engine_inbox_event (ne_event_id (into_store ev)) (db_inbox db) = None"
    by (simp add: into_store_def)
  with None show ?thesis
    by (simp add: submit_in_def Let_def split_beta insert_engine_inbox_event_def)
next
  case (Some r)
  then have r: "find_engine_inbox_event (ne_event_id (into_store ev)) (db_inbox db) = Some r"
    by (simp add: into_store_def)
  have id: "ne_event_id (into_store ev) = ev_event_id ev" "ie_event_id r = ev_event_id ev"
    using Some by (auto simp: into_store_def find_engine_inbox_event_def dest: find_row_SomeD)
  show ?thesis
    unfolding Some submit_in_def insert_existing [OF r] id
    using Some id(2) by (simp add: find_update_inbox map_update_rows)
qed

text \<open>
  A worker takes the oldest runnable event of its shard. The selected event is pending, due,
  belongs to the shard of its aggregate, is not held back by a poison of its kind, and no runnable
  event of that shard was recorded before it; nothing is selected exactly when nothing is runnable.
\<close>

theorem next_runnable_is_oldest:
  "case next_runnable_engine_inbox_event ps shard_count sh now t of
     None \<Rightarrow> list_all (\<lambda>e. \<not> runnable ps shard_count sh now e) (it_rows t)
   | Some e \<Rightarrow> e \<in> set (it_rows t) \<and> runnable ps shard_count sh now e \<and>
       list_all (\<lambda>e'. ie_seq e \<le> ie_seq e')
         (filter (runnable ps shard_count sh now) (it_rows t))"
  using next_runnable_Some [of ps shard_count sh now t] next_runnable_None [of ps shard_count sh now t]
  by (auto simp: list_all_iff split: option.split)


lemma example_mem: "example_row \<in> set (it_rows (db_inbox example_db))"
  using example_find by (auto simp: find_engine_inbox_event_def dest: find_row_SomeD)


section \<open>Applying an event\<close>


lemma example_process:
  "\<exists>post db'. process_event default_engine_config failing_handlers 100 101 102 example_row example_db =
     (Inr (ProcPoisoned, post), db')"
  by (simp add: process_event_def example_from_event failing_handlers_def Let_def)


text \<open>
  \<^bold>\<open>C7.\<close> A failed apply leaves no trace. When the outcome is not an apply or a wait, the business
  tables, the aggregates, the outbox and the jobs are exactly as before, whatever the handler did in
  its transaction, and no other event's row has changed.
\<close>

theorem failed_apply_rolls_back:
  assumes "process_event cfg hs now0 now1 now2 e db = (Inr (outcome, post), db')"
    "outcome \<notin> {ProcApplied, ProcWaiting}" "k \<noteq> ie_event_id e"
  shows "db_business db' = db_business db \<and> db_aggregates db' = db_aggregates db \<and>
     db_outbox db' = db_outbox db \<and> db_jobs db' = db_jobs db \<and>
     find_engine_inbox_event k (db_inbox db') = find_engine_inbox_event k (db_inbox db)"
  using process_event_rollback [OF assms(1,2)] assms(3) by simp

theorem failed_apply_rolls_back_witness:
  "\<exists>post db'. process_event default_engine_config failing_handlers 100 101 102 example_row example_db =
     (Inr (ProcPoisoned, post), db') \<and> db_jobs db' = db_jobs example_db \<and> db_outbox db' = db_outbox example_db"
  using example_process failed_apply_rolls_back [where k = "''e2''"] by fastforce

text \<open>
  \<^bold>\<open>C6.\<close> An apply commits all of its effects in one step. When the handler returns applied, the
  business tables are those of its transaction, the aggregate's row exists with its version one
  higher and names the event, every message and every job the handler asked for is in its table, and
  the poison of the event's kind is released.
\<close>

theorem apply_commits_effects:
  assumes "handlers_ok hs" "db_inv db" "a = from_event e" "hs (ar_kind a) = Some h"
    "h now0 a (find_engine_aggregate (ar_kind a) (ar_id a) (db_aggregates db)) e db = (Returned OutcomeApplied, ef, tx)"
  shows "\<exists>post db' row. process_event cfg hs now0 now1 now2 e db = (Inr (ProcApplied, post), db') \<and>
     db_business db' = db_business tx \<and>
     find_engine_aggregate (ar_kind a) (ar_id a) (db_aggregates db') = Some row \<and>
     ag_last_event_id row = Some (ie_event_id e) \<and>
     ag_version row = 1 + (case find_engine_aggregate (ar_kind a) (ar_id a) (db_aggregates tx) of
                             None \<Rightarrow> 0 | Some r \<Rightarrow> ag_version r) \<and>
     list_all (\<lambda>m. find_engine_outbox_message (om_outbox_id m) (db_outbox db') \<noteq> None) (ef_outbox ef) \<and>
     list_all (\<lambda>j. find_engine_job (js_job_id j) (db_jobs db') \<noteq> None) (ef_jobs ef) \<and>
     \<not> poison_blocks (db_poisons db') (ar_kind a) (ar_id a) (ie_kind e) t"
proof -
  let ?c = "find_engine_aggregate (ar_kind a) (ar_id a) (db_aggregates db)"
  have "db_evolves db tx"
    using assms(1,4,5) unfolding handlers_ok_def handler_ok_def by blast
  then have tx: "outbox_inv (db_outbox tx)" "jobs_inv (db_jobs tx)"
    using db_evolves_inv [OF _ assms(2)] by (auto simp: db_inv_def)
  obtain post db' where commit: "commit_apply cfg e a ?c ef None now0 tx = Inr (post, db')"
    using commit_apply_total by blast
  have step: "process_event cfg hs now0 now1 now2 e db = (Inr (ProcApplied, post), db')"
    using assms(4,5) commit by (simp add: process_event_def Let_def assms(3))
  note tables = commit_apply_tables [OF commit]
  have inv1: "outbox_inv (commit_outbox now0 a (ef_outbox ef) (db_outbox tx))"
    using outbox_evolves_commit [of "db_outbox tx" now0 "[]" a "ef_outbox ef"] tx(1)
    by (simp add: commit_closes_def outbox_evolves_def)
  have inv2: "jobs_inv (commit_jobs now0 a (ef_jobs ef) (db_jobs tx))"
    using job_evolves_commit [of "db_jobs tx" now0 a "[]" "ef_jobs ef"] tx(2)
    by (simp add: job_evolves_def)
  have "find_engine_outbox_message (om_outbox_id m) (db_outbox db') \<noteq> None" if "m \<in> set (ef_outbox ef)" for m
    unfolding tables
    using outbox_evolves_keeps [OF outbox_evolves_commit [of _ now0 _ a "[]"] inv1]
      commit_outbox_present [OF tx(1) that]
    by (simp add: commit_outbox_def)
  moreover have "find_engine_job (js_job_id j) (db_jobs db') \<noteq> None" if "j \<in> set (ef_jobs ef)" for j
    unfolding tables
    using job_evolves_keeps [OF job_evolves_commit [of _ now0 a _ "[]"] inv2]
      commit_jobs_present [OF tx(2) that]
    by (simp add: commit_jobs_def)
  moreover have "\<exists>row. find_engine_aggregate (ar_kind a) (ar_id a) (db_aggregates db') = Some row \<and>
      ag_last_event_id row = Some (ie_event_id e) \<and>
      ag_version row = 1 + (case find_engine_aggregate (ar_kind a) (ar_id a) (db_aggregates tx) of
                              None \<Rightarrow> 0 | Some r \<Rightarrow> ag_version r)"
    unfolding tables
    by (auto simp: find_upsert apply_aggregate_update_def apply_update_def new_engine_aggregate_def split: option.split)
  ultimately show ?thesis
    using step tables(1) release_unblocks [of "ar_kind a" "ar_id a" "ie_kind e" "db_poisons tx" t]
    by (auto simp: list_all_iff tables(4))
qed

theorem apply_commits_effects_witness:
  "\<exists>post db'. process_event default_engine_config example_handlers 100 101 102 example_row example_db =
     (Inr (ProcApplied, post), db') \<and>
   find_engine_outbox_message ''m1'' (db_outbox db') \<noteq> None \<and> find_engine_job ''j1'' (db_jobs db') \<noteq> None"
proof -
  have "example_handlers (ar_kind (from_event example_row)) =
      Some (\<lambda>now a current e db. (Returned OutcomeApplied, example_effects, db))"
    by (simp add: example_from_event example_handlers_def)
  from apply_commits_effects [OF example_handlers_ok(1) example_db_inv refl this refl,
      where t = 0 and cfg = default_engine_config and ?now0.0 = 100 and ?now1.0 = 101 and ?now2.0 = 102]
  show ?thesis
    by (auto simp: example_effects_def send_def enqueue_job_def default_effects_def)
qed

text \<open>
  \<^bold>\<open>C9.\<close> Effects are enqueued once. Committing the same messages and the same jobs a second time, at
  any later time and for any aggregate, changes neither the outbox nor the job table: a message that
  was closed is not reopened and a job that ran is not run again.
\<close>

theorem effects_enqueued_once:
  assumes "outbox_inv ot" "jobs_inv jt"
  shows "commit_outbox now' a' ms (commit_outbox now a ms ot) = commit_outbox now a ms ot \<and>
     commit_jobs now' a' js (commit_jobs now a js jt) = commit_jobs now a js jt"
  using commit_outbox_present [OF assms(1)] commit_jobs_present [OF assms(2)]
  by (auto intro!: commit_outbox_again commit_jobs_again)

theorem effects_enqueued_once_witness:
  "outbox_inv [] \<and> jobs_inv [] \<and>
   commit_outbox 20 \<lparr> ar_kind = ''graph'', ar_id = ''g1'' \<rparr> (ef_outbox example_effects)
     (commit_outbox 10 \<lparr> ar_kind = ''graph'', ar_id = ''g1'' \<rparr> (ef_outbox example_effects) []) =
   commit_outbox 10 \<lparr> ar_kind = ''graph'', ar_id = ''g1'' \<rparr> (ef_outbox example_effects) []"
  using effects_enqueued_once [OF outbox_inv_empty jobs_inv_empty] outbox_inv_empty jobs_inv_empty by blast


lemma example_pending: "pending_count (db_inbox example_db) < 2"
  by (simp add: pending_count_def example_db_def submit_in_def Let_def split_beta insert_engine_inbox_event_def
      find_engine_inbox_event_def empty_db_def empty_inbox_def table_simps count_rows_def)




section \<open>Poison\<close>

text \<open>
  A poison holds back one action, longer each time, until it is released. Poisoning an action of
  an aggregate raises its count by one and blocks exactly that action until the configured delay for
  the new count has passed; every other action is blocked as before; releasing it unblocks it and
  starts the count over.
\<close>

theorem poison_holds_one_action:
  assumes "distinct (map po_key t)"
  shows "let n = poison_count_of kind id' action t;
             t' = snd (mark_engine_aggregate_poisoned kind id' action reason now (delay b) t);
             t'' = snd (release_engine_poison kind id' action t')
         in poison_count_of kind id' action t' = n + 1 \<and>
            (poison_blocks t' kind id' action s \<longleftrightarrow> s < i64_saturating_add now (max (delay b (n + 1)) 0)) \<and>
            ((k, i, a) = (kind, id', action) \<or> poison_blocks t' k i a s = poison_blocks t k i a s) \<and>
            poison_count_of kind id' action t'' = 0 \<and> \<not> poison_blocks t'' kind id' action s"
proof -
  have "find_row po_key (kind, id', action) (snd (release_engine_poison kind id' action u)) = None" for u
    by (auto simp: release_engine_poison_def Let_def find_row_None_iff set_delete_rows)
  then show ?thesis
    using assms distinct_mark_poisoned [OF assms] release_unblocks
    by (simp add: Let_def poison_blocks_iff find_mark_poisoned poison_count_of_def)
qed

theorem poison_holds_one_action_witness:
  "let t' = snd (mark_engine_aggregate_poisoned ''graph'' ''g1'' ''a'' ''panic'' 100
         (delay (poison_backoff default_engine_config)) [])
   in poison_count_of ''graph'' ''g1'' ''a'' t' = 0 + 1 \<and>
      (poison_blocks t' ''graph'' ''g1'' ''a'' 99 \<longleftrightarrow>
         99 < i64_saturating_add 100 (max (delay (poison_backoff default_engine_config) (0 + 1)) 0))"
proof -
  have "poison_count_of ''graph'' ''g1'' ''a'' [] = 0" "distinct (map po_key [])"
    by (simp_all add: poison_count_of_def find_row_def)
  with poison_holds_one_action [of "[]" "''graph''" "''g1''" "''a''" "''panic''" 100 "poison_backoff default_engine_config" 99]
  show ?thesis by (simp add: Let_def)
qed

section \<open>The outbox\<close>

text \<open>
  \<^bold>\<open>C13.\<close> An acknowledgement counts for exactly the listed recipient. It is matched to an open message
  that still waits for this peer under this delivery id, if there is one; the peer is struck from that
  message's list, the message is closed exactly when no other recipient is left, and no other message
  changes. Without such a message nothing changes. (The search by substring relies on the JSON of the
  list containing the delivery id verbatim.)
\<close>

theorem acknowledge_exact:
  assumes "outbox_inv t" "\<And>m p. (p, d) \<in> set m \<Longrightarrow> sublist d (json m)"
  shows "case acknowledge_engine_outbox json peer d now t of
     (NoMatch, t') \<Rightarrow> t' = t \<and> list_all (\<lambda>r. \<not> (ob_state r = OutboxOpen \<and> awaits peer d r)) t
   | (Matched outbox_id closed, t') \<Rightarrow>
       \<exists>r m. find_engine_outbox_message outbox_id t = Some r \<and> ob_state r = OutboxOpen \<and>
         ob_ack_set r = Some m \<and> map_of m peer = Some d \<and>
         find_engine_outbox_message outbox_id t' = Some (ack_row peer now r) \<and>
         (closed \<longleftrightarrow> list_all (\<lambda>(p, _). p = peer) m) \<and>
         (k = outbox_id \<or> find_engine_outbox_message k t' = find_engine_outbox_message k t)"
proof -
  have dist: "distinct (map ob_outbox_id t)"
    using assms(1) by (simp add: outbox_inv_def)
  let ?p = "\<lambda>r. ack_candidate json d r \<and> awaits peer d r"
  have cand: "?p r \<longleftrightarrow> ob_state r = OutboxOpen \<and> awaits peer d r" for r
    using assms(2) by (auto simp: ack_candidate_def awaits_def dest: map_of_SomeD split: option.splits)
  show ?thesis
  proof (cases "List.find ?p t")
    case None
    then have "list_all (\<lambda>r. \<not> (ob_state r = OutboxOpen \<and> awaits peer d r)) t"
      unfolding cand by (auto simp: find_None_iff list_all_iff)
    with None show ?thesis
      by (simp add: acknowledge_eq [OF dist])
  next
    case (Some r)
    then have r: "r \<in> set t" "ob_state r = OutboxOpen" "awaits peer d r"
      unfolding cand by (auto simp: find_Some_iff)
    then obtain m where m: "ob_ack_set r = Some m" "map_of m peer = Some d"
      by (auto simp: awaits_def split: option.splits)
    have find: "find_engine_outbox_message (ob_outbox_id r) t = Some r"
      using r(1) dist by (simp add: find_engine_outbox_message_def find_row_iff_mem)
    have upd: "find_engine_outbox_message j (update_rows (\<lambda>q. q = r) (ack_row peer now) t) =
        map_option (\<lambda>q. if q = r then ack_row peer now q else q) (find_engine_outbox_message j t)" for j
      unfolding find_engine_outbox_message_def
      by (rule find_row_update_rows) (auto simp: ack_row_def split: option.split)
    have other: "j = ob_outbox_id r \<or>
        find_engine_outbox_message j (update_rows (\<lambda>q. q = r) (ack_row peer now) t) = find_engine_outbox_message j t" for j
      unfolding upd
      by (cases "find_engine_outbox_message j t") (auto simp: find_engine_outbox_message_def dest: find_row_SomeD)
    have "ob_state (ack_row peer now r) = OutboxClosed \<longleftrightarrow> list_all (\<lambda>(p, _). p = peer) m"
      using m r(2) by (auto simp: ack_row_def ack_remove_def filter_empty_conv list_all_iff)
    with Some find r(2) m other [of k] show ?thesis
      by (simp add: acknowledge_eq [OF dist] upd)
  qed
qed

text \<open>A message with two recipients, and an encoding of the list that writes ids verbatim.\<close>

definition example_outbox :: outbox_table where
  "example_outbox = snd (insert_engine_outbox_message
     \<lparr> no_outbox_id = ''m1'', no_aggregate_kind = ''graph'', no_aggregate_id = ''g1'', no_phase_ref = ''p'',
       no_kind = ''k'', no_topic = ''t'', no_payload = [1], no_ack_set = Some [(''A'', ''d1''), (''B'', ''d2'')],
       no_first_at = 100 \<rparr> 100 [])"

definition example_json :: "ack_map \<Rightarrow> string" where
  "example_json m = concat (map (\<lambda>(p, d). p @ d) m)"

lemma example_json_verbatim: "(p, d) \<in> set m \<Longrightarrow> sublist d (example_json m)"
proof (induction m)
  case (Cons x m)
  have "sublist d (a @ b @ l)" if "sublist d l" for a b l
    using that unfolding sublist_def by (metis append.assoc)
  with Cons show ?case
    by (cases x) (auto simp: example_json_def)
qed simp

lemma example_outbox_inv: "outbox_inv example_outbox"
  using outbox_evolves_insert outbox_inv_empty unfolding example_outbox_def outbox_evolves_def by blast

theorem acknowledge_exact_witness:
  "case acknowledge_engine_outbox example_json ''A'' ''d1'' 200 example_outbox of
     (NoMatch, t') \<Rightarrow> t' = example_outbox \<and>
       list_all (\<lambda>r. \<not> (ob_state r = OutboxOpen \<and> awaits ''A'' ''d1'' r)) example_outbox
   | (Matched outbox_id closed, t') \<Rightarrow>
       \<exists>r m. find_engine_outbox_message outbox_id example_outbox = Some r \<and> ob_state r = OutboxOpen \<and>
         ob_ack_set r = Some m \<and> map_of m ''A'' = Some ''d1'' \<and>
         find_engine_outbox_message outbox_id t' = Some (ack_row ''A'' 200 r) \<and>
         (closed \<longleftrightarrow> list_all (\<lambda>(p, _). p = ''A'') m) \<and>
         (''m1'' = outbox_id \<or>
          find_engine_outbox_message ''m1'' t' = find_engine_outbox_message ''m1'' example_outbox)"
  using acknowledge_exact [OF example_outbox_inv example_json_verbatim] .

text \<open>
  \<^bold>\<open>C14.\<close> A closed message stays closed. Through any sequence of engine steps short of the retention
  purge, a message whose row is closed is never changed again: it is not published, not reopened by a
  later apply, and keeps its reason.
\<close>

theorem closed_messages_final:
  assumes "work_step\<^sup>*\<^sup>* db db'" "db_inv db"
    "find_engine_outbox_message k (db_outbox db) = Some r" "ob_state r = OutboxClosed"
  shows "find_engine_outbox_message k (db_outbox db') = Some r"
  using engine_messages.row_steps [OF assms(1-3)] assms(4) by (auto simp: outbox_le_def)

definition closed_db :: "unit engine_db" where
  "closed_db = (empty_db ())\<lparr> db_outbox := snd (close_engine_outbox (CloseRow ''m1'') ''done'' 150 example_outbox) \<rparr>"

lemma closed_db_inv: "db_inv closed_db"
  using outbox_evolves_close [of example_outbox] example_outbox_inv db_inv_empty [of "()"]
  by (simp add: closed_db_def db_inv_def outbox_evolves_def empty_db_def)

theorem closed_messages_final_witness:
  "\<exists>r. find_engine_outbox_message ''m1'' (db_outbox closed_db) = Some r \<and>
     find_engine_outbox_message ''m1''
       (db_outbox (snd (acknowledge example_json ''A'' ''d1'' 200 closed_db))) = Some r"
proof -
  obtain r where r: "find_engine_outbox_message ''m1'' (db_outbox closed_db) = Some r" "ob_state r = OutboxClosed"
    by (simp add: closed_db_def example_outbox_def insert_engine_outbox_message_def Let_def insert_or_ignore_def
        close_engine_outbox_def find_engine_outbox_message_def)
  have "work_step\<^sup>*\<^sup>* closed_db (snd (acknowledge example_json ''A'' ''d1'' 200 closed_db))"
    by (intro r_into_rtranclp work_step.acknowledged)
  from closed_messages_final [OF this closed_db_inv r] r(1) show ?thesis by blast
qed

text \<open>
  The publisher empties what is due. While the clock stands still, with a positive backoff and
  batch size, the publishing loop returns within one round more than there are open messages past
  their time, whether the transport succeeds or fails, and leaves no message due.
\<close>

theorem drain_outbox_empties:
  assumes "positive_backoff (outbox_backoff cfg)" "0 < outbox_batch cfg" "outbox_inv t"
    "count_rows (ripe now) t < fuel"
  shows "\<exists>k t'. drain_outbox fuel cfg tr (\<lambda>_. now) (\<lambda>_. now) i n t = Some (k, t') \<and>
     list_all (\<lambda>r. \<not> outbox_due now r) t'"
  using drain_outbox_ends [OF assms(1,2,3,4)] by (auto simp: list_all_iff)

lemma default_outbox_backoff_positive: "positive_backoff (outbox_backoff default_engine_config)"
  unfolding positive_backoff_def
proof
  fix n
  have "delay (outbox_backoff default_engine_config) 1 \<le> delay (outbox_backoff default_engine_config) (max n 1)"
    by (rule outbox_retry.mono) simp
  moreover have "delay (outbox_backoff default_engine_config) (max n 1) = delay (outbox_backoff default_engine_config) n"
    by (simp add: default_engine_config_def delay_Doubling)
  moreover have "delay (outbox_backoff default_engine_config) 1 = 30"
    by (simp add: default_engine_config_def delay_Doubling i64_defs)
  ultimately show "0 < delay (outbox_backoff default_engine_config) n" by simp
qed

theorem drain_outbox_empties_witness:
  "\<exists>k t'. drain_outbox 2 default_engine_config null_transport (\<lambda>_. 100) (\<lambda>_. 100) 0 0 example_outbox = Some (k, t') \<and>
     list_all (\<lambda>r. \<not> outbox_due 100 r) t'"
proof (rule drain_outbox_empties [OF default_outbox_backoff_positive _ example_outbox_inv])
  show "0 < outbox_batch default_engine_config" "count_rows (ripe 100) example_outbox < 2"
    by (simp_all add: default_engine_config_def example_outbox_def insert_engine_outbox_message_def Let_def
        insert_or_ignore_def count_rows_def)
qed

section \<open>Jobs\<close>

text \<open>Two jobs of one aggregate on different pools; the first is claimed at time 0 until 10.\<close>

definition example_new_job :: "string \<Rightarrow> string \<Rightarrow> new_engine_job" where
  "example_new_job i pool =
     \<lparr> nj_job_id = i, nj_aggregate_kind = ''graph'', nj_aggregate_id = ''g1'', nj_phase = ''p'', nj_action = ''a'',
       nj_pool = pool, nj_params = [2], nj_deadline_at = None, nj_first_at = 0 \<rparr>"

definition example_jobs :: job_table where
  "example_jobs = snd (claim_due_engine_jobs [] ''cpu'' 0 10 1
     (snd (insert_engine_job (example_new_job ''j2'' ''network'') 0
       (snd (insert_engine_job (example_new_job ''j1'' ''cpu'') 0 [])))))"

definition example_job :: engine_job where
  "example_job = (new_job_row (example_new_job ''j1'' ''cpu'') 0)
     \<lparr> jb_state := JobRunning, jb_generation := 1, jb_lease_until := 10, jb_attempts := 1 \<rparr>"

lemma example_jobs_eq: "example_jobs = [example_job, new_job_row (example_new_job ''j2'' ''network'') 0]"
  by code_simp

definition jobs_db :: "unit engine_db" where
  "jobs_db = (empty_db ())\<lparr> db_jobs := example_jobs \<rparr>"

lemma jobs_db_inv: "db_inv jobs_db"
  using db_inv_empty [of "()"]
  by (simp add: db_inv_def jobs_db_def empty_db_def example_jobs_eq jobs_inv_def job_row_ok_def example_job_def
      new_job_row_def example_new_job_def job_terminal_def)

lemma jobs_db_find: "find_engine_job ''j1'' (db_jobs jobs_db) = Some example_job"
  by (simp add: jobs_db_def example_jobs_eq find_engine_job_def example_job_def new_job_row_def example_new_job_def)

lemma example_job_simps [simp]:
  "jb_job_id example_job = ''j1''" "jb_generation example_job = 1" "jb_state example_job = JobRunning"
  by (simp_all add: example_job_def new_job_row_def example_new_job_def)



text \<open>
  \<^bold>\<open>C16.\<close> A finished or cancelled job never runs again. Through any engine steps short of the retention
  purge, a job that is terminal, or running with its cancellation requested, is never claimed: its
  generation stays the same, no claim can take it at any time, and a terminal job keeps its state,
  finish time and error.
\<close>

theorem finished_jobs_final:
  assumes "work_step\<^sup>*\<^sup>* db db'" "db_inv db" "find_engine_job k (db_jobs db) = Some r" "no_more_runs r"
  shows "\<exists>r'. find_engine_job k (db_jobs db') = Some r' \<and> jb_generation r' = jb_generation r \<and>
     \<not> job_claimable now r' \<and>
     (if job_terminal (jb_state r)
      then jb_state r' = jb_state r \<and> jb_finished_at r' = jb_finished_at r \<and> jb_last_error r' = jb_last_error r
      else True)"
proof -
  obtain r' where r': "find_engine_job k (db_jobs db') = Some r'" "job_le r r'"
    using engine_jobs.row_steps [OF assms(1-3)] by blast
  moreover have "no_more_runs r'" using no_more_runs_le [OF assms(4) r'(2)] .
  then have "\<not> job_claimable now r'"
    by (auto simp: no_more_runs_def job_claimable_def job_terminal_def)
  ultimately show ?thesis
    using assms(4) by (auto simp: job_le_def)
qed

definition cancelled_db :: "unit engine_db" where
  "cancelled_db = jobs_db\<lparr> db_jobs := snd (cancel_engine_job ''j1'' 5 (db_jobs jobs_db)) \<rparr>"

lemma cancelled_db_inv: "db_inv cancelled_db"
  using db_evolves_inv [OF db_evolves_jobs [OF job_evolves_cancel] jobs_db_inv] by (simp add: cancelled_db_def)

lemma cancelled_db_find:
  "find_engine_job ''j1'' (db_jobs cancelled_db) = Some (example_job\<lparr> jb_cancel_requested := True, jb_updated_at := 5 \<rparr>)"
  by (simp add: cancelled_db_def jobs_db_def example_jobs_eq find_engine_job_def cancel_engine_job_def Let_def
      cancel_pending_def request_cancel_def count_rows_def new_job_row_def example_new_job_def)

theorem finished_jobs_final_witness:
  "no_more_runs (example_job\<lparr> jb_cancel_requested := True, jb_updated_at := 5 \<rparr>) \<and>
   (\<exists>r'. find_engine_job ''j1'' (db_jobs (startup_recovery 50 cancelled_db)) = Some r' \<and>
      jb_generation r' = 1 \<and> \<not> job_claimable 100 r')"
proof -
  have n: "no_more_runs (example_job\<lparr> jb_cancel_requested := True, jb_updated_at := 5 \<rparr>)"
    by (simp add: no_more_runs_def)
  have "work_step\<^sup>*\<^sup>* cancelled_db (startup_recovery 50 cancelled_db)"
    by (intro r_into_rtranclp work_step.recovered)
  from finished_jobs_final [OF this cancelled_db_inv cancelled_db_find n, of 100] n show ?thesis by auto
qed

text \<open>
  The histories of a job table under a clock that does not run backwards, in which a lease is renewed
  only while it is still live.
\<close>

inductive timely :: "int \<Rightarrow> job_table \<Rightarrow> bool" where
  start: "0 \<le> now \<Longrightarrow> timely now []"
| later: "timely now t \<Longrightarrow> now \<le> now' \<Longrightarrow> timely now' t"
| insert: "timely now t \<Longrightarrow> timely now (snd (insert_engine_job j now t))"
| claim: "timely now t \<Longrightarrow> timely now (snd (claim_due_engine_jobs ps pool now lease limit t))"
| lapsed: "timely now t \<Longrightarrow> timely now (snd (finish_lapsed_cancelled_engine_jobs now t))"
| renew: "timely now t \<Longrightarrow> list_all (\<lambda>r. if held_by i g r then live now r else True) t \<Longrightarrow>
    timely now (snd (renew_engine_job_lease i g lease now t))"
| finish: "timely now t \<Longrightarrow> timely now (snd (finish_engine_job i g fin now t))"
| cancel: "timely now t \<Longrightarrow> timely now (snd (cancel_engine_job i now t))"
| cancel_aggregate: "timely now t \<Longrightarrow> timely now (snd (cancel_engine_jobs_for_aggregate kind id' now t))"
| cancel_phase: "timely now t \<Longrightarrow> timely now (snd (cancel_engine_jobs_for_phase kind id' phase now t))"
| clear: "timely now t \<Longrightarrow> timely now (snd (clear_engine_job_result i now t))"
| reset: "timely now t \<Longrightarrow> timely now (snd (reset_engine_job_leases t))"
| purge: "timely now t \<Longrightarrow> timely now (snd (purge_finished_job_rows before t))"

lemma timely_exclusive: "timely now t \<Longrightarrow> 0 \<le> now \<and> jobs_exclusive now t"
proof (induction rule: timely.induct)
  case (start now)
  then show ?case by (simp add: jobs_exclusive_def)
next
  case (later now t now')
  then show ?case using jobs_exclusive_later by auto
next
  case (renew now t i g lease)
  then show ?case by (auto intro!: jobs_exclusive_renew simp: list_all_iff split: if_splits)
qed (simp_all add: jobs_exclusive_other jobs_exclusive_finish jobs_exclusive_cancel jobs_exclusive_cancel_loop
    jobs_exclusive_claim_loop claim_due_engine_jobs_def cancel_engine_jobs_for_phase_def)

text \<open>
  \<^bold>\<open>C17.\<close> One job of an aggregate runs at a time. In every history of the job table in which leases are
  renewed before they lapse, two jobs of the same aggregate never hold live leases at the same time.
\<close>

theorem one_live_job_per_aggregate: "timely now t \<Longrightarrow> jobs_exclusive now t"
  using timely_exclusive by blast

lemma example_timely: "timely 0 example_jobs"
  unfolding example_jobs_def by (intro timely.claim timely.insert timely.start) simp

theorem one_live_job_per_aggregate_witness: "timely 0 example_jobs \<and> jobs_exclusive 0 example_jobs"
  using one_live_job_per_aggregate [OF example_timely] example_timely by simp




lemma find_record_other:
  assumes "find_engine_inbox_event k t = Some r" "ie_state r \<noteq> InboxFailed"
  shows "find_engine_inbox_event k (snd (record_result_event to_vec job g stale out now t)) = Some r"
proof -
  let ?ev = "into_store (into_new_event to_vec
       \<lparr> jr_job_id = jb_job_id job, jr_phase = jb_phase job, jr_action = jb_action job,
         jr_generation = g, jr_stale = stale, jr_outcome = out \<rparr> (job_aggregate job))"
  show ?thesis
  proof (cases "find_engine_inbox_event (ne_event_id ?ev) t")
    case None
    with assms show ?thesis by (auto simp: record_result_event_def find_insert_new)
  next
    case (Some q)
    have "r = q \<or> k \<noteq> ne_event_id ?ev" using assms(1) Some by auto
    moreover have "ie_event_id r = k" using assms(1) by (auto simp: find_engine_inbox_event_def dest: find_row_SomeD)
    ultimately show ?thesis
      using assms by (auto simp: record_result_event_def insert_existing [OF Some] find_update_inbox)
  qed
qed

lemma find_record_new:
  assumes "find_engine_inbox_event (job_result_event_id (jb_job_id job) g) t = None"
  shows "\<exists>r. find_engine_inbox_event (job_result_event_id (jb_job_id job) g)
      (snd (record_result_event to_vec job g stale out now t)) = Some r \<and> ie_state r = InboxPending"
  using assms
  by (simp add: record_result_event_def find_insert_new into_store_def into_new_event_def new_event_new_def
      new_inbox_row_def)

lemma find_record_fold:
  assumes "job \<in> set jobs" "find_engine_inbox_event (job_result_event_id (jb_job_id job) (jb_generation job)) t = None \<or>
     (\<exists>r. find_engine_inbox_event (job_result_event_id (jb_job_id job) (jb_generation job)) t = Some r \<and> ie_state r = InboxPending)"
  shows "\<exists>r. find_engine_inbox_event (job_result_event_id (jb_job_id job) (jb_generation job))
     (fold (\<lambda>job i. snd (record_result_event to_vec job (jb_generation job) False ResultCancelled now i)) jobs t) = Some r \<and>
     ie_state r = InboxPending"
proof -
  let ?id = "job_result_event_id (jb_job_id job) (jb_generation job)"
  let ?f = "\<lambda>job i. snd (record_result_event to_vec job (jb_generation job) False ResultCancelled now i)"
  have keep: "find_engine_inbox_event ?id (fold ?f js u) = Some r"
    if "find_engine_inbox_event ?id u = Some r" "ie_state r = InboxPending" for js u r
    using that by (induction js arbitrary: u) (simp_all add: find_record_other)
  have new: "\<exists>r. find_engine_inbox_event ?id (?f j u) = Some r \<and> ie_state r = InboxPending"
    if "find_engine_inbox_event ?id u = None" "job_result_event_id (jb_job_id j) (jb_generation j) = ?id" for j u
    using find_record_new [of j "jb_generation j" u] that by simp
  have other: "find_engine_inbox_event ?id (?f j u) = None"
    if "find_engine_inbox_event ?id u = None" "job_result_event_id (jb_job_id j) (jb_generation j) \<noteq> ?id" for j u
  proof -
    have "ne_event_id (into_store (into_new_event to_vec r a)) = job_result_event_id (jr_job_id r) (jr_generation r)" for r a
      by (simp add: into_store_def into_new_event_def new_event_new_def)
    then show ?thesis
      using that
      by (cases "find_engine_inbox_event (job_result_event_id (jb_job_id j) (jb_generation j)) u")
        (auto simp: record_result_event_def find_insert_new insert_existing find_update_inbox)
  qed
  show ?thesis
    using assms
  proof (induction jobs arbitrary: t)
    case (Cons j js)
    show ?case
    proof (cases "find_engine_inbox_event ?id t")
      case (Some r)
      with Cons.prems(2) keep [of t r "j # js"] show ?thesis by auto
    next
      case None
      show ?thesis
      proof (cases "job_result_event_id (jb_job_id j) (jb_generation j) = ?id")
        case True
        with new [OF None True] keep [of "?f j t" _ js] show ?thesis by auto
      next
        case False
        then have "job \<in> set js" using Cons.prems(1) by auto
        from Cons.IH [OF this, of "?f j t"] other [OF None False] show ?thesis by simp
      qed
    qed
  qed simp
qed

text \<open>
  \<^bold>\<open>C20.\<close> The result of a cancelled job whose lease lapsed is lost. The sweep of lapsed cancelled jobs
  records its report under the holder's own generation; when that holder completes later, its result
  has the same event id, is a duplicate of the pending report, wakes nobody and changes nothing in the
  inbox.
\<close>

theorem lapsed_cancelled_result_lost:
  assumes "db_inv db" "find_engine_job (jb_job_id job) (db_jobs db) = Some job"
    "jb_state job = JobRunning" "jb_cancel_requested job" "jb_lease_until job \<le> now"
    "find_engine_inbox_event (job_result_event_id (jb_job_id job) (jb_generation job)) (db_inbox db) = None"
    "finish_lapsed_cancelled to_vec now db = (jobs, db1)"
    "record_job_finish cfg to_vec job (jb_generation job) (FinishDone res) now' db1 = (woken, outcome, db2)"
  shows "\<not> woken \<and> db_inbox db2 = db_inbox db1"
proof -
  let ?f = "\<lambda>r. r\<lparr> jb_state := JobCancelled, jb_last_error := Some ''cancelled'', jb_lease_until := 0,
              jb_finished_at := Some now, jb_updated_at := now \<rparr>"
  let ?p = "\<lambda>r. jb_state r = JobRunning \<and> jb_lease_until r \<le> now \<and> jb_cancel_requested r"
  let ?id = "job_result_event_id (jb_job_id job) (jb_generation job)"
  have p: "?p job" using assms(3-5) by simp
  have jobs: "db_jobs db1 = update_rows ?p ?f (db_jobs db)"
      "jobs = map ?f (filter ?p (db_jobs db))"
    using assms(7)
    by (auto simp: finish_lapsed_cancelled_def finish_lapsed_cancelled_engine_jobs_def update_returning_def Let_def
        split: if_splits)
  have mem: "?f job \<in> set jobs"
    unfolding jobs(2) using assms(2) p by (auto simp: find_engine_job_def dest: find_row_SomeD)
  then have "db_inbox db1 = fold (\<lambda>job i. snd (record_result_event to_vec job (jb_generation job) False
      ResultCancelled now i)) jobs (db_inbox db)"
    using assms(7)
    by (auto simp: finish_lapsed_cancelled_def Let_def split_beta split: if_splits)
  then obtain r where r: "find_engine_inbox_event ?id (db_inbox db1) = Some r" "ie_state r = InboxPending"
    using find_record_fold [OF mem, of "db_inbox db" to_vec now] assms(6) by auto
  have "find_engine_job (jb_job_id job) (db_jobs db1) = Some (?f job)"
    unfolding jobs find_engine_job_def
    by (subst find_row_update_rows) (use assms(2) p in \<open>auto simp: find_engine_job_def\<close>)
  then have "fst (finish_engine_job (jb_job_id job) (jb_generation job) (FinishDone res) now' (db_jobs db1)) =
      FinishStale (jb_generation job) JobCancelled"
    by (simp add: finish_engine_job_def)
  moreover have "ne_event_id (into_store (into_new_event to_vec ev a)) = job_result_event_id (jr_job_id ev) (jr_generation ev)" for ev a
    by (simp add: into_store_def into_new_event_def new_event_new_def)
  ultimately show ?thesis
    using assms(8) r
    by (auto simp: record_job_finish_def Let_def split_beta completion_report_def record_result_event_def insert_existing)
qed

theorem lapsed_cancelled_result_lost_witness:
  "let job = example_job\<lparr> jb_cancel_requested := True, jb_updated_at := 5 \<rparr>;
       db1 = snd (finish_lapsed_cancelled (\<lambda>_. []) 20 cancelled_db);
       (woken, outcome, db2) = record_job_finish default_engine_config (\<lambda>_. []) job 1 (FinishDone [9]) 30 db1
   in \<not> woken \<and> db_inbox db2 = db_inbox db1"
proof -
  let ?job = "example_job\<lparr> jb_cancel_requested := True, jb_updated_at := 5 \<rparr>"
  have f: "find_engine_job (jb_job_id ?job) (db_jobs cancelled_db) = Some ?job"
    using cancelled_db_find by simp
  have l: "jb_lease_until ?job \<le> 20" by (simp add: example_job_def)
  have i: "find_engine_inbox_event (job_result_event_id (jb_job_id ?job) (jb_generation ?job)) (db_inbox cancelled_db) = None"
    by (simp add: cancelled_db_def jobs_db_def empty_db_def empty_inbox_def find_engine_inbox_event_def)
  obtain jobs db1 where 1: "finish_lapsed_cancelled (\<lambda>_. []) 20 cancelled_db = (jobs, db1)"
    by (metis surj_pair)
  obtain woken outcome db2 where 2: "record_job_finish default_engine_config (\<lambda>_. []) ?job (jb_generation ?job)
      (FinishDone [9]) 30 db1 = (woken, outcome, db2)"
    by (metis prod_cases3)
  from lapsed_cancelled_result_lost [OF cancelled_db_inv f _ _ l i 1 2] show ?thesis
    using 2 by (simp add: 1)
qed

text \<open>
  Recording a completion gives up in bounded time once the lease is lost. If the lease is lost
  from attempt \<open>n0\<close> on, the loop that records the completion ends, with success or without, after at
  most two attempts more, however often the storage fails.
\<close>

theorem finish_attempts_bounded:
  assumes "\<And>n. n0 \<le> n \<Longrightarrow> cancelled n"
  shows "\<exists>ok n. finish_attempts (n0 + 3) fails cancelled 0 0 = Some (ok, n) \<and> n \<le> n0 + 2"
  using finish_attempts_bound [of n0 cancelled 0 0 fails] assms by simp

theorem finish_attempts_bounded_witness:
  "\<exists>ok n. finish_attempts (4 + 3) (\<lambda>_. True) (\<lambda>n. 4 \<le> n) 0 0 = Some (ok, n) \<and> n \<le> 4 + 2"
  by (rule finish_attempts_bounded) simp

section \<open>Retention\<close>

text \<open>
  Retention never removes open work. The housekeeping purge keeps every pending event, every
  open message and every job that is not terminal exactly as it is, and an event it removes was
  settled or failed and had not been touched since the retention limit.
\<close>

theorem housekeeping_keeps_open_work:
  assumes "db_inv db"
  shows "let db' = snd (housekeeping cfg now db) in
     (case find_engine_inbox_event k (db_inbox db) of
        None \<Rightarrow> find_engine_inbox_event k (db_inbox db') = None
      | Some e \<Rightarrow> find_engine_inbox_event k (db_inbox db') =
          (if ie_state e \<noteq> InboxPending \<and> ie_updated_at e < now - terminal_retention_secs cfg then None else Some e)) \<and>
     (case find_engine_outbox_message k (db_outbox db) of
        None \<Rightarrow> find_engine_outbox_message k (db_outbox db') = None
      | Some m \<Rightarrow> find_engine_outbox_message k (db_outbox db') =
          (if ob_state m = OutboxClosed \<and> ob_updated_at m < now - terminal_retention_secs cfg then None else Some m)) \<and>
     (case find_engine_job k (db_jobs db) of
        None \<Rightarrow> find_engine_job k (db_jobs db') = None
      | Some j \<Rightarrow> find_engine_job k (db_jobs db') =
          (if job_terminal (jb_state j) \<and> jb_updated_at j < now - terminal_retention_secs cfg then None else Some j))"
proof -
  have state: "(ie_state e = InboxApplied \<or> ie_state e = InboxFailed \<or> ie_state e = InboxPoisoned) \<longleftrightarrow>
      ie_state e \<noteq> InboxPending" for e
    by (cases "ie_state e") auto
  show ?thesis
    using assms
    by (simp add: db_inv_def inbox_inv_def outbox_inv_def jobs_inv_def housekeeping_def purge_engine_terminal_rows_def
        Let_def split_beta purge_terminal_inbox_rows_def delete_inbox_def purge_closed_outbox_rows_def
        purge_finished_job_rows_def find_engine_inbox_event_def find_engine_outbox_message_def
        find_engine_job_def table_simps state split: option.split)
qed

theorem housekeeping_keeps_open_work_witness:
  "db_inv example_db \<and>
   find_engine_inbox_event ''e1'' (db_inbox (snd (housekeeping default_engine_config 10000000 example_db))) = Some example_row"
  using housekeeping_keeps_open_work [OF example_db_inv, of default_engine_config 10000000 "''e1''"] example_db_inv example_find
  by (simp add: Let_def)

section \<open>Job identity and schedules\<close>

definition job_preimage :: "(bytes \<Rightarrow> bytes) \<Rightarrow> aggregate_ref \<Rightarrow> string \<Rightarrow> string \<Rightarrow> bytes \<Rightarrow> bytes" where
  "job_preimage sha256 a phase action params =
     as_bytes (ar_kind a) @ as_bytes '':'' @ as_bytes (ar_id a) @ as_bytes '':'' @
     as_bytes phase @ as_bytes '':'' @ as_bytes action @ as_bytes '':'' @ sha256 params"

lemma split_as_bytes:
  assumes "CHR '':'' \<notin> set x" "CHR '':'' \<notin> set y" "as_bytes x @ as_bytes '':'' @ r = as_bytes y @ as_bytes '':'' @ q"
  shows "x = y \<and> r = q"
  using split_at_colon [OF colon_as_bytes [OF assms(1)] colon_as_bytes [OF assms(2)], of r q] assms(3) as_bytes_inj
  by (auto simp: as_bytes_def [of "'':''"])

text \<open>
  A job id determines the job. With an injective hex encoding and parts that contain no colon,
  two jobs with the same id have the same aggregate, phase, action and parameters, or the two hashed
  texts, or the two parameters, are a collision of SHA-256.
\<close>

theorem stable_job_id_injective:
  assumes "inj hex_encode" "stable_job_id sha256 hex_encode a p x u = stable_job_id sha256 hex_encode b q y v"
    "CHR '':'' \<notin> set (ar_kind a @ ar_id a @ p @ x)" "CHR '':'' \<notin> set (ar_kind b @ ar_id b @ q @ y)"
  shows "(a, p, x, u) = (b, q, y, v) \<or>
     (job_preimage sha256 a p x u \<noteq> job_preimage sha256 b q y v \<and>
      sha256 (job_preimage sha256 a p x u) = sha256 (job_preimage sha256 b q y v)) \<or>
     (u \<noteq> v \<and> sha256 u = sha256 v)"
proof -
  have "sha256 (job_preimage sha256 a p x u) = sha256 (job_preimage sha256 b q y v)"
    using assms(1,2) by (auto simp: stable_job_id_def job_preimage_def dest: injD)
  moreover have "a = b \<and> p = q \<and> x = y \<and> sha256 u = sha256 v"
    if eq: "job_preimage sha256 a p x u = job_preimage sha256 b q y v"
  proof -
    have free: "CHR '':'' \<notin> set (ar_kind a)" "CHR '':'' \<notin> set (ar_id a)" "CHR '':'' \<notin> set p" "CHR '':'' \<notin> set x"
        "CHR '':'' \<notin> set (ar_kind b)" "CHR '':'' \<notin> set (ar_id b)" "CHR '':'' \<notin> set q" "CHR '':'' \<notin> set y"
      using assms(3,4) by auto
    note 1 = split_as_bytes [OF free(1,5) eq [unfolded job_preimage_def]]
    note 2 = split_as_bytes [OF free(2,6) 1 [THEN conjunct2]]
    note 3 = split_as_bytes [OF free(3,7) 2 [THEN conjunct2]]
    note 4 = split_as_bytes [OF free(4,8) 3 [THEN conjunct2]]
    show ?thesis using 1 2 3 4 by simp
  qed
  ultimately show ?thesis by auto
qed

definition example_hex :: "bytes \<Rightarrow> string" where
  "example_hex = map (\<lambda>w. char_of (unat w))"

lemma example_hex_inj: "inj example_hex"
proof -
  have "inj (\<lambda>w :: 8 word. char_of (unat w) :: char)"
  proof (rule injI)
    fix v w :: "8 word"
    assume "(char_of (unat v) :: char) = char_of (unat w)"
    then have "unat v mod 256 = unat w mod 256"
      by (metis of_char_of)
    then show "v = w"
      using unsigned_less [of v, where ?'a = nat] unsigned_less [of w, where ?'a = nat] by (simp add: word_unat_eq_iff)
  qed
  then show ?thesis
    unfolding example_hex_def by (rule inj_mapI)
qed

theorem stable_job_id_injective_witness:
  "let a = \<lparr> ar_kind = ''graph'', ar_id = ''g1'' \<rparr> in
   stable_job_id id example_hex a ''p'' ''x'' [1] \<noteq> stable_job_id id example_hex a ''p'' ''x'' [2]"
proof -
  let ?a = "\<lparr> ar_kind = ''graph'', ar_id = ''g1'' \<rparr>"
  have "CHR '':'' \<notin> set (ar_kind ?a @ ar_id ?a @ ''p'' @ ''x'')" by simp
  from stable_job_id_injective [OF example_hex_inj _ this this, of id "[1]" "[2]"] show ?thesis
    by (auto simp: Let_def)
qed

text \<open>
  Retries back off within bounds. For a schedule of non-negative, non-shrinking steps, or a
  doubling one, the delay before a retry is never negative, never exceeds the last step or the cap,
  and never shrinks with the number of attempts; the four default schedules are of this kind.
\<close>

theorem backoff_bounded:
  "(backoff_ok b \<and> m \<le> n \<longrightarrow> 0 \<le> delay b m \<and> delay b m \<le> delay b n \<and> delay b n \<le> backoff_cap b) \<and>
   list_all backoff_ok (map (\<lambda>f. f default_engine_config)
     [inbox_retry_backoff, outbox_backoff, job_retry_backoff, poison_backoff])"
  by (auto intro: delay_nonneg delay_mono delay_le_cap simp: default_engine_config_def)

theorem backoff_bounded_witness:
  "0 \<le> delay (outbox_backoff default_engine_config) 3 \<and>
   delay (outbox_backoff default_engine_config) 3 \<le> delay (outbox_backoff default_engine_config) 9 \<and>
   delay (outbox_backoff default_engine_config) 9 \<le> 600"
  using backoff_bounded [of "outbox_backoff default_engine_config" 3 9] by (simp add: default_engine_config_def)

end
