(* ===== verification/Mmr.thy ===== *)
theory Mmr
  imports Prelude
begin

unbundle bit_operations_syntax

text \<open>
  The Merkle mountain range of block hashes (\<^verbatim>\<open>src/circuits/crates/header-chain/src/mmr.rs\<close>): the host
  structure that keeps every level and generates proofs, the guest structure that keeps the peaks
  only, and the inclusion proofs both verify.

  The hash of two nodes is the parameter \<open>H\<close> (\<^verbatim>\<open>hash_pair\<close>, SHA-256 over the two 32-byte arrays).
  A panic is \<^verbatim>\<open>None\<close>. \<^verbatim>\<open>u32\<close> values are 32-bit words; lengths are natural numbers.

  \<^verbatim>\<open>mmr_levels\<close> is the abstract structure over the list of leaves. The lemmas show that the host keeps
  exactly these levels and the guest exactly their peaks, that a generated proof verifies, and that a
  verifying proof is for the leaf at its index, unless the proof and the genuine one exhibit a collision of
  \<open>H\<close> (\<^verbatim>\<open>path_collision\<close> names the colliding pairs; some collision of a compressing hash always exists).
\<close>

section \<open>The host structure\<close>

record 'h mmr_host =
  nodes :: "'h list list"

definition mmr_host_new :: "'h mmr_host" where
  "mmr_host_new = \<lparr> nodes = [[]] \<rparr>"

primrec recalculate_levels :: "('h \<Rightarrow> 'h \<Rightarrow> 'h) \<Rightarrow> nat list \<Rightarrow> 'h list list \<Rightarrow> 'h list list" where
  "recalculate_levels H [] ns = ns"
| "recalculate_levels H (level # levels) ns =
     (let l = ns ! level in
      if length l mod 2 = 1 then ns
      else recalculate_levels H levels
        (ns[level + 1 := ns ! (level + 1) @ [H (l ! (length l - 2)) (l ! (length l - 1))]]))"

definition recalculate_peaks :: "('h \<Rightarrow> 'h \<Rightarrow> 'h) \<Rightarrow> 'h list list \<Rightarrow> 'h list list" where
  "recalculate_peaks H ns =
     (let depth = length ns;
          ns' = recalculate_levels H [0..<depth - 1] ns;
          top = ns' ! (depth - 1)
      in if 1 < length top then ns' @ [[H (top ! 0) (top ! 1)]] else ns')"

definition host_append :: "('h \<Rightarrow> 'h \<Rightarrow> 'h) \<Rightarrow> 'h \<Rightarrow> 'h mmr_host \<Rightarrow> 'h mmr_host" where
  "host_append H leaf m = m\<lparr> nodes := recalculate_peaks H ((nodes m)[0 := nodes m ! 0 @ [leaf]]) \<rparr>"

definition get_subroots :: "'h mmr_host \<Rightarrow> 'h list" where
  "get_subroots m = rev (map (\<lambda>l. l ! (length l - 1)) (filter (\<lambda>l. length l mod 2 = 1) (nodes m)))"

section \<open>Inclusion proofs\<close>

record 'h mmr_inclusion_proof =
  leaf_index :: "32 word"
  inclusion_proof :: "'h list"

definition leading_zeros :: "32 word \<Rightarrow> nat" where
  "leading_zeros w = length (takeWhile (\<lambda>j. \<not> bit w (31 - j)) [0..<32])"

definition count_ones :: "32 word \<Rightarrow> nat" where
  "count_ones w = length (filter (bit w) [0..<32])"

definition checked_shr :: "32 word \<Rightarrow> nat \<Rightarrow> 32 word option" where
  "checked_shr w n = (if n < 32 then Some (drop_bit n w) else None)"

text \<open>The index of the peak, the index inside its tree and the length of the path.\<close>

definition position :: "'h mmr_inclusion_proof \<Rightarrow> 32 word \<Rightarrow> (nat \<times> 32 word \<times> nat) option" where
  "position p mmr_size =
     (if mmr_size = 0 \<or> mmr_size \<le> leaf_index p then None
      else
        let peak_level = 31 - leading_zeros (mmr_size XOR leaf_index p);
            internal_mask = push_bit peak_level 1 - 1;
            internal_index = leaf_index p AND internal_mask;
            subroot_idx = count_ones (case checked_shr mmr_size (peak_level + 1) of None \<Rightarrow> 0 | Some w \<Rightarrow> w)
        in Some (subroot_idx, internal_index, peak_level))"

primrec fold_path :: "('h \<Rightarrow> 'h \<Rightarrow> 'h) \<Rightarrow> 32 word \<Rightarrow> nat \<Rightarrow> 'h list \<Rightarrow> 'h \<Rightarrow> 'h" where
  "fold_path H internal_index i [] current = current"
| "fold_path H internal_index i (sibling # siblings) current =
     fold_path H internal_index (i + 1) siblings
       (if internal_index AND push_bit i 1 = 0 then H current sibling else H sibling current)"

definition get_subroot ::
  "('h \<Rightarrow> 'h \<Rightarrow> 'h) \<Rightarrow> 'h mmr_inclusion_proof \<Rightarrow> 32 word \<Rightarrow> 'h \<Rightarrow> (nat \<times> 'h) option" where
  "get_subroot H p mmr_size leaf =
     (case position p mmr_size of
        None \<Rightarrow> None
      | Some (subroot_idx, internal_index, expected_path_len) \<Rightarrow>
          if length (inclusion_proof p) \<noteq> expected_path_len then None
          else Some (subroot_idx, fold_path H internal_index 0 (inclusion_proof p) leaf))"

text \<open>\<^verbatim>\<open>sub_roots.get(idx) == Some(&root)\<close>\<close>

definition nth_is :: "'h list \<Rightarrow> nat \<Rightarrow> 'h \<Rightarrow> bool" where
  "nth_is xs i x \<longleftrightarrow> i < length xs \<and> xs ! i = x"

text \<open>
  The loop of \<^verbatim>\<open>generate_proof\<close>, over the levels from the current one up; running past the last level
  or past the end of a level is the panic of an index out of bounds.
\<close>

fun proof_path :: "nat \<Rightarrow> 'h list list \<Rightarrow> 'h list option" where
  "proof_path current_index [] = None"
| "proof_path current_index (l # ls) =
     (if current_index = length l - 1 \<and> length l mod 2 = 1 then Some []
      else
        let sibling_index = (if current_index mod 2 = 0 then current_index + 1 else current_index - 1)
        in if sibling_index < length l
           then map_option (\<lambda>path. l ! sibling_index # path) (proof_path (current_index div 2) ls)
           else None)"

definition generate_proof :: "32 word \<Rightarrow> 'h mmr_host \<Rightarrow> ('h \<times> 'h mmr_inclusion_proof) option" where
  "generate_proof index m =
     (if nodes m ! 0 = [] then None
      else if length (nodes m ! 0) \<le> unat index then None
      else map_option
        (\<lambda>path. (nodes m ! 0 ! unat index, \<lparr> leaf_index = index, inclusion_proof = path \<rparr>))
        (proof_path (unat index) (nodes m)))"

definition host_verify_proof ::
  "('h \<Rightarrow> 'h \<Rightarrow> 'h) \<Rightarrow> 'h mmr_host \<Rightarrow> 'h \<Rightarrow> 'h mmr_inclusion_proof \<Rightarrow> bool" where
  "host_verify_proof H m leaf p =
     (case get_subroot H p (of_nat (length (nodes m ! 0))) leaf of
        None \<Rightarrow> False
      | Some (subroot_idx, sub_root) \<Rightarrow> nth_is (get_subroots m) subroot_idx sub_root)"

section \<open>The guest structure\<close>

record 'h mmr_guest =
  subroots :: "'h list"
  mmr_size :: "32 word"

definition mmr_guest_new :: "'h mmr_guest" where
  "mmr_guest_new = \<lparr> subroots = [], mmr_size = 0 \<rparr>"

text \<open>The loop of \<^verbatim>\<open>append\<close>; popping from an empty list of peaks is a panic.\<close>

function merge_peaks :: "('h \<Rightarrow> 'h \<Rightarrow> 'h) \<Rightarrow> nat \<Rightarrow> 'h \<Rightarrow> 'h list \<Rightarrow> ('h \<times> 'h list) option" where
  "merge_peaks H sz current roots =
     (if sz mod 2 = 1
      then (if roots = [] then None
            else merge_peaks H (sz div 2) (H (last roots) current) (butlast roots))
      else Some (current, roots))"
  by auto

termination merge_peaks
proof (relation "measure (\<lambda>(H, sz, current, roots). sz)")
  fix H :: "'h \<Rightarrow> 'h \<Rightarrow> 'h" and sz :: nat and current :: 'h and roots :: "'h list"
  assume "sz mod 2 = 1"
  then have "0 < sz" by (cases sz) auto
  then have "sz div 2 < sz" by simp
  then show "((H, sz div 2, H (last roots) current, butlast roots), H, sz, current, roots)
      \<in> measure (\<lambda>(H, sz, current, roots). sz)"
    by simp
qed simp

definition guest_append :: "('h \<Rightarrow> 'h \<Rightarrow> 'h) \<Rightarrow> 'h \<Rightarrow> 'h mmr_guest \<Rightarrow> 'h mmr_guest option" where
  "guest_append H leaf g =
     (case merge_peaks H (unat (mmr_size g)) leaf (subroots g) of
        None \<Rightarrow> None
      | Some (current, roots) \<Rightarrow>
          Some (g\<lparr> subroots := roots @ [current], mmr_size := mmr_size g + 1 \<rparr>))"

definition guest_verify_proof ::
  "('h \<Rightarrow> 'h \<Rightarrow> 'h) \<Rightarrow> 'h mmr_guest \<Rightarrow> 'h \<Rightarrow> 'h mmr_inclusion_proof \<Rightarrow> bool" where
  "guest_verify_proof H g leaf p =
     (case get_subroot H p (mmr_size g) leaf of
        None \<Rightarrow> False
      | Some (subroot_idx, subroot) \<Rightarrow> nth_is (subroots g) subroot_idx subroot)"

section \<open>The abstract structure\<close>

fun pair_up :: "('h \<Rightarrow> 'h \<Rightarrow> 'h) \<Rightarrow> 'h list \<Rightarrow> 'h list" where
  "pair_up H (a # b # l) = H a b # pair_up H l"
| "pair_up H l = []"

lemma length_pair_up [simp]: "length (pair_up H l) = length l div 2"
  by (induction H l rule: pair_up.induct) auto

function mmr_levels :: "('h \<Rightarrow> 'h \<Rightarrow> 'h) \<Rightarrow> 'h list \<Rightarrow> 'h list list" where
  "mmr_levels H l = l # (if length l \<le> 1 then [] else mmr_levels H (pair_up H l))"
  by auto

termination mmr_levels
  by (relation "measure (\<lambda>(H, l). length l)") auto

function peaks_up :: "('h \<Rightarrow> 'h \<Rightarrow> 'h) \<Rightarrow> 'h list \<Rightarrow> 'h list" where
  "peaks_up H l =
     (if odd (length l) then [last l] else []) @ (if length l \<le> 1 then [] else peaks_up H (pair_up H l))"
  by auto

termination peaks_up
  by (relation "measure (\<lambda>(H, l). length l)") auto

definition host_ok :: "('h \<Rightarrow> 'h \<Rightarrow> 'h) \<Rightarrow> 'h mmr_host \<Rightarrow> 'h list \<Rightarrow> bool" where
  "host_ok H m leaves \<longleftrightarrow> nodes m = mmr_levels H leaves"

definition guest_ok :: "('h \<Rightarrow> 'h \<Rightarrow> 'h) \<Rightarrow> 'h mmr_guest \<Rightarrow> 'h list \<Rightarrow> bool" where
  "guest_ok H g leaves \<longleftrightarrow>
     length leaves < 2 ^ 32 \<and> mmr_size g = of_nat (length leaves) \<and> subroots g = rev (peaks_up H leaves)"

declare mmr_levels.simps [simp del] peaks_up.simps [simp del] merge_peaks.simps [simp del]

section \<open>Appending\<close>

lemma nth_pair_up:
  "j < length l div 2 \<Longrightarrow> pair_up H l ! j = H (l ! (2 * j)) (l ! (2 * j + 1))"
proof (induction H l arbitrary: j rule: pair_up.induct)
  case (1 H a b l)
  then show ?case by (cases j) auto
qed auto

lemma pair_up_append:
  "pair_up H (l @ [x]) = pair_up H l @ (if odd (length l) then [H (last l) x] else [])"
proof (induction H l rule: pair_up.induct)
  case (1 H a b l)
  then show ?case by (cases l) auto
qed auto

lemma peaks_up_Nil [simp]: "peaks_up H [] = []"
  by (simp add: peaks_up.simps)

lemma peaks_up_unfold:
  "l \<noteq> [] \<Longrightarrow> peaks_up H l = (if odd (length l) then [last l] else []) @ peaks_up H (pair_up H l)"
proof (cases "length l \<le> 1")
  case True
  assume "l \<noteq> []"
  with True have "length l = 1" by (cases l) auto
  moreover from this have "pair_up H l = []" by (simp flip: length_0_conv)
  ultimately show ?thesis by (simp add: peaks_up.simps)
next
  case False
  then show ?thesis by (simp add: peaks_up.simps [of H l])
qed

lemma peaks_up_append_even:
  "even (length l) \<Longrightarrow> peaks_up H (l @ [x]) = x # peaks_up H l"
  by (cases "l = []") (simp_all add: peaks_up_unfold pair_up_append)

lemma peaks_up_append_odd:
  "odd (length l) \<Longrightarrow>
   peaks_up H (l @ [x]) = peaks_up H (pair_up H l @ [H (last l) x]) \<and>
   peaks_up H l = last l # peaks_up H (pair_up H l)"
  by (cases "l = []") (simp_all add: peaks_up_unfold pair_up_append)

lemma merge_peaks_ok:
  "\<exists>current roots. merge_peaks H (length l) x (rev (peaks_up H l)) = Some (current, roots) \<and>
     roots @ [current] = rev (peaks_up H (l @ [x]))"
proof (induction l arbitrary: x rule: length_induct)
  case (1 l)
  show ?case
  proof (cases "odd (length l)")
    case False
    then show ?thesis
      by (subst merge_peaks.simps) (auto simp: peaks_up_append_even odd_iff_mod_2_eq_one)
  next
    case True
    then have "l \<noteq> []" by auto
    then have less: "length (pair_up H l) < length l" by simp
    have m: "length l mod 2 = 1" using True by (simp add: odd_iff_mod_2_eq_one)
    from "1.IH" [rule_format, OF less, of "H (last l) x"] show ?thesis
      using peaks_up_append_odd [OF True, of H x] m
      by (subst merge_peaks.simps) simp
  qed
qed

lemma unat_of_nat_32 [simp]: "n < 2 ^ 32 \<Longrightarrow> unat (of_nat n :: 32 word) = n"
  by (simp add: unat_of_nat take_bit_nat_eq_self)

lemma guest_append_ok:
  assumes "guest_ok H g leaves" "length leaves + 1 < 2 ^ 32"
  shows "\<exists>g'. guest_append H x g = Some g' \<and> guest_ok H g' (leaves @ [x])"
proof -
  have "unat (mmr_size g) = length leaves"
    using assms by (simp add: guest_ok_def)
  with merge_peaks_ok [of H leaves x] assms show ?thesis
    by (auto simp: guest_append_def guest_ok_def)
qed

text \<open>The host's carry, as a recursion over the levels.\<close>

primrec carry :: "('h \<Rightarrow> 'h \<Rightarrow> 'h) \<Rightarrow> 'h \<Rightarrow> 'h list list \<Rightarrow> 'h list list" where
  "carry H x [] = [[x]]"
| "carry H x (l # ls) =
     (if even (length l) then (l @ [x]) # ls else (l @ [x]) # carry H (H (last l) x) ls)"

lemma mmr_levels_unfold:
  "1 < length l \<Longrightarrow> mmr_levels H l = l # mmr_levels H (pair_up H l)"
  "length l \<le> 1 \<Longrightarrow> mmr_levels H l = [l]"
  by (simp_all add: mmr_levels.simps [of H l])

lemma mmr_levels_carry: "carry H x (mmr_levels H l) = mmr_levels H (l @ [x])"
proof (induction l arbitrary: x rule: length_induct)
  case (1 l)
  show ?case
  proof (cases "length l \<le> 1")
    case True
    then consider "l = []" | a where "l = [a]"
      by (cases l) auto
    then show ?thesis
      by cases (simp_all add: mmr_levels.simps)
  next
    case False
    then have "length (pair_up H l) < length l" by (cases l) auto
    with 1 have "carry H y (mmr_levels H (pair_up H l)) = mmr_levels H (pair_up H l @ [y])" for y
      by blast
    moreover have "mmr_levels H l = l # mmr_levels H (pair_up H l)"
        "mmr_levels H (l @ [x]) = (l @ [x]) # mmr_levels H (pair_up H (l @ [x]))"
      using False by (auto simp: mmr_levels.simps [of H l] mmr_levels.simps [of H "l @ [x]"])
    ultimately show ?thesis
      by (simp add: pair_up_append)
  qed
qed

lemma length_last_mmr_levels: "length (last (mmr_levels H l)) \<le> 1 \<and> mmr_levels H l \<noteq> []"
proof (induction H l rule: mmr_levels.induct)
  case (1 H l)
  then show ?case
    by (cases "length l \<le> 1") (auto simp: mmr_levels.simps [of H l])
qed

lemma recalculate_levels_carry:
  assumes "length (last (l # ls)) \<le> 1"
  shows "(let ns' = recalculate_levels H [length pre..<length pre + length ls] (pre @ (l @ [x]) # ls);
              top = ns' ! (length pre + length ls)
          in if 1 < length top then ns' @ [[H (top ! 0) (top ! 1)]] else ns') =
         pre @ carry H x (l # ls)"
  using assms
proof (induction ls arbitrary: pre l x)
  case Nil
  then consider "l = []" | a where "l = [a]"
    by (cases l) auto
  then show ?case by cases simp_all
next
  case (Cons k ls)
  show ?case
  proof (cases "even (length l)")
    case True
    then have odd: "length (l @ [x]) mod 2 = 1" by (simp add: even_iff_mod_2_eq_zero mod_Suc)
    have upt: "[length pre..<length pre + length (k # ls)] =
        length pre # [Suc (length pre)..<length pre + length (k # ls)]"
      by (subst upt_conv_Cons) simp_all
    have nth: "(pre @ (l @ [x]) # k # ls) ! length pre = l @ [x]"
      by simp
    have stop: "recalculate_levels H [length pre..<length pre + length (k # ls)] (pre @ (l @ [x]) # k # ls) =
        pre @ (l @ [x]) # k # ls"
      unfolding upt recalculate_levels.simps nth Let_def odd by simp
    have top: "(pre @ (l @ [x]) # k # ls) ! (length pre + length (k # ls)) = last (k # ls)"
      by (simp add: nth_append last_conv_nth)
    show ?thesis
      unfolding stop Let_def top using True Cons.prems by simp
  next
    case False
    then have "l \<noteq> []" by auto
    then have "length l - Suc 0 < length l" by simp
    then have last: "(l @ [x]) ! (length l - Suc 0) = last l"
      using \<open>l \<noteq> []\<close> by (simp add: nth_append last_conv_nth)
    have upt: "[length pre..<length pre + length (k # ls)] =
        length pre # [length (pre @ [l @ [x]])..<length (pre @ [l @ [x]]) + length ls]"
      by (subst upt_conv_Cons) simp_all
    have even: "length (l @ [x]) mod 2 \<noteq> 1" using False by (simp add: odd_iff_mod_2_eq_one mod_Suc)
    have nth: "(pre @ (l @ [x]) # k # ls) ! length pre = l @ [x]"
        "(pre @ (l @ [x]) # k # ls) ! (length pre + 1) = k"
      by (simp_all add: nth_append)
    have hash: "(l @ [x]) ! (length (l @ [x]) - 2) = last l" "(l @ [x]) ! (length (l @ [x]) - 1) = x"
      using last by (simp_all add: numeral_2_eq_2)
    have step: "recalculate_levels H [length pre..<length pre + length (k # ls)] (pre @ (l @ [x]) # k # ls) =
        recalculate_levels H [length (pre @ [l @ [x]])..<length (pre @ [l @ [x]]) + length ls]
          ((pre @ [l @ [x]]) @ (k @ [H (last l) x]) # ls)"
      unfolding upt recalculate_levels.simps Let_def nth hash if_not_P [OF even]
      by (simp add: list_update_append)
    have len: "length pre + length (k # ls) = length (pre @ [l @ [x]]) + length ls"
      by simp
    show ?thesis
      unfolding step using Cons.IH [of k "pre @ [l @ [x]]" "H (last l) x"] Cons.prems False
      unfolding len by simp
  qed
qed

lemma host_append_ok:
  assumes "host_ok H m leaves"
  shows "host_ok H (host_append H x m) (leaves @ [x])"
proof -
  obtain ls where ls: "mmr_levels H leaves = leaves # ls"
    by (simp add: mmr_levels.simps)
  have "length (last (leaves # ls)) \<le> 1"
    using length_last_mmr_levels [of H leaves] unfolding ls by simp
  from recalculate_levels_carry [OF this, of H "[]" x]
  have "recalculate_peaks H ((leaves @ [x]) # ls) = carry H x (leaves # ls)"
    by (simp add: recalculate_peaks_def)
  also have "\<dots> = mmr_levels H (leaves @ [x])"
    using mmr_levels_carry [of H x leaves] by (simp add: ls)
  finally show ?thesis
    using assms by (simp add: host_ok_def host_append_def ls)
qed

lemma last_eq_nth: "length l mod 2 = 1 \<Longrightarrow> l ! (length l - 1) = last l"
  by (cases l) (simp_all add: last_conv_nth)

lemma get_subroots_ok:
  assumes "host_ok H m leaves"
  shows "get_subroots m = rev (peaks_up H leaves)"
proof -
  have "map (\<lambda>l. l ! (length l - 1)) (filter (\<lambda>l. length l mod 2 = 1) (mmr_levels H leaves)) = peaks_up H leaves"
  proof (induction H leaves rule: mmr_levels.induct)
    case (1 H l)
    have "odd (length l) \<longleftrightarrow> length l mod 2 = 1" by (simp add: odd_iff_mod_2_eq_one)
    with 1 last_eq_nth [of l] show ?case
      by (cases "length l \<le> 1") (auto simp: mmr_levels.simps [of H l] peaks_up.simps [of H l])
  qed
  with assms show ?thesis by (simp add: get_subroots_def host_ok_def)
qed

section \<open>Positions\<close>

text \<open>The level of the peak above a leaf, as a recursion over the levels.\<close>

function peak_of :: "nat \<Rightarrow> nat \<Rightarrow> nat" where
  "peak_of n i = (if n \<le> i \<or> (i = n - 1 \<and> odd n) then 0 else Suc (peak_of (n div 2) (i div 2)))"
  by auto

termination peak_of
  by (relation "measure fst") auto

declare peak_of.simps [simp del]

function popcount :: "nat \<Rightarrow> nat" where
  "popcount n = (if n = 0 then 0 else n mod 2 + popcount (n div 2))"
  by auto

termination popcount
  by (relation "measure id") auto

declare popcount.simps [simp del]

lemma popcount_0 [simp]: "popcount 0 = 0"
  by (simp add: popcount.simps)

lemma popcount_rec: "popcount n = n mod 2 + popcount (n div 2)"
  by (cases "n = 0") (simp_all add: popcount.simps [of n])

lemma peak_of_stop: "i < n \<Longrightarrow> i = n - 1 \<Longrightarrow> odd n \<Longrightarrow> peak_of n i = 0"
  by (simp add: peak_of.simps)

lemma peak_of_step:
  assumes "i < n" "\<not> (i = n - 1 \<and> odd n)"
  shows "peak_of n i = Suc (peak_of (n div 2) (i div 2))" "i div 2 < n div 2"
proof -
  show "peak_of n i = Suc (peak_of (n div 2) (i div 2))"
    using assms by (subst peak_of.simps) simp
  show "i div 2 < n div 2"
    using assms by presburger
qed

text \<open>Induction along the levels above a leaf.\<close>

lemma peak_induct [consumes 1, case_names stop step]:
  fixes n i :: nat
  assumes "i < n"
    and stop: "\<And>n i. i < n \<Longrightarrow> i = n - 1 \<Longrightarrow> odd n \<Longrightarrow> P n i"
    and step: "\<And>n i. i < n \<Longrightarrow> \<not> (i = n - 1 \<and> odd n) \<Longrightarrow> i div 2 < n div 2 \<Longrightarrow>
      P (n div 2) (i div 2) \<Longrightarrow> P n i"
  shows "P n i"
  using assms(1)
proof (induction n i rule: peak_of.induct)
  case (1 n i)
  then show ?case
    using stop [of i n] step [of i n] peak_of_step(2) [of i n] by auto
qed

lemma popcount_bits: "(n :: nat) < 2 ^ m \<Longrightarrow> length (filter (bit n) [0..<m]) = popcount n"
proof (induction m arbitrary: n)
  case (Suc m)
  have "filter (bit n) [0..<Suc m] = (if odd n then [0] else []) @ map Suc (filter (bit (n div 2)) [0..<m])"
    by (simp only: upt_conv_Cons [of 0 "Suc m"] zero_less_Suc map_Suc_upt [symmetric] filter.simps filter_map comp_def)
      (simp add: bit_0 bit_Suc)
  moreover have "length (filter (bit (n div 2)) [0..<m]) = popcount (n div 2)"
    using Suc by simp
  ultimately show ?case
    by (subst popcount_rec) (simp add: odd_iff_mod_2_eq_one)
qed simp

lemma bit_unat: "bit (w :: 32 word) k \<longleftrightarrow> bit (unat w) k"
  by transfer (simp add: bit_nat_iff bit_take_bit_iff)

lemma unat_less_32: "unat (w :: 32 word) < 2 ^ 32"
  using unsigned_less [of w] by simp

lemma count_ones_popcount: "count_ones w = popcount (unat w)"
proof -
  have "bit w = bit (unat w)" by (simp add: fun_eq_iff bit_unat)
  then show ?thesis
    unfolding count_ones_def using popcount_bits [OF unat_less_32] by simp
qed

lemma peak_of_bits:
  assumes "i < n"
  shows "bit (n XOR i) (peak_of n i) \<and> (\<forall>k > peak_of n i. \<not> bit (n XOR i) k) \<and> bit n (peak_of n i)"
  using assms
proof (induction n i rule: peak_induct)
  case (stop n i)
  then have "n div 2 = i div 2" "even i" by presburger+
  then have "bit n (Suc k) = bit i (Suc k)" for k by (simp add: bit_Suc)
  then have "bit (n XOR i) k \<longleftrightarrow> k = 0" for k
    unfolding bit_xor_iff using \<open>odd n\<close> \<open>even i\<close> by (cases k) (simp_all add: bit_0)
  moreover have "bit n 0" "peak_of n i = 0" using stop by (simp_all add: peak_of_stop bit_0)
  ultimately show ?case
    by auto
next
  case (step n i)
  have "bit (n XOR i) (Suc k) = bit (n div 2 XOR i div 2) k" for k
    unfolding bit_xor_iff by (simp add: bit_Suc)
  moreover have "(\<forall>k > Suc p. \<not> Q k) \<longleftrightarrow> (\<forall>k > p. \<not> Q (Suc k))" for p and Q :: "nat \<Rightarrow> bool"
    by (auto simp: Suc_less_eq2)
  ultimately show ?case
    using step.IH by (simp only: peak_of_step [OF step.hyps(1,2)] bit_Suc [of n]) blast
qed

lemma takeWhile_upt:
  assumes "k < n" "P k" "\<And>j. j < k \<Longrightarrow> \<not> P j"
  shows "length (takeWhile (\<lambda>j. \<not> P j) [0..<n]) = k"
proof -
  have "[0..<n] = [0..<k] @ k # [Suc k..<n]"
    using assms(1) by (metis upt_add_eq_append upt_conv_Cons le_add_diff_inverse less_imp_le_nat zero_le)
  then have "takeWhile (\<lambda>j. \<not> P j) [0..<n] = [0..<k]"
    using assms(2,3) by (simp only:) (subst takeWhile_append2, auto)
  then show ?thesis by simp
qed

lemma leading_zeros_top:
  assumes "bit w p" "\<And>k. p < k \<Longrightarrow> \<not> bit w k" "p < 32"
  shows "31 - leading_zeros w = p"
proof -
  have "leading_zeros w = 31 - p"
    unfolding leading_zeros_def
    using takeWhile_upt [of "31 - p" 32 "\<lambda>j. bit w (31 - j)"] assms by auto
  with assms(3) show ?thesis by simp
qed

lemma peak_level:
  fixes n i :: "32 word"
  assumes "i < n"
  shows "31 - leading_zeros (n XOR i) = peak_of (unat n) (unat i)" "peak_of (unat n) (unat i) < 32"
proof -
  define p where "p = peak_of (unat n) (unat i)"
  have "unat i < unat n" using assms by (simp add: word_less_nat_alt)
  from peak_of_bits [OF this]
  have p: "bit (n XOR i) p" "\<And>k. p < k \<Longrightarrow> \<not> bit (n XOR i) k"
    by (auto simp: p_def bit_xor_iff bit_unat [symmetric])
  from p(1) have "p < 32" using bit_imp_le_length [of "n XOR i" p] by simp
  with leading_zeros_top [OF p] show "31 - leading_zeros (n XOR i) = peak_of (unat n) (unat i)"
      "peak_of (unat n) (unat i) < 32"
    by (simp_all add: p_def)
qed

lemma unat_shift: "unat (drop_bit k (w :: 32 word)) = unat w div 2 ^ k"
  using unat_less_32 [of w]
  by (simp add: unsigned_drop_bit_eq drop_bit_eq_div [symmetric] take_bit_nat_eq_self)

text \<open>The position of an inclusion proof, over natural numbers.\<close>

lemma position_in_range:
  assumes "leaf_index p < sz"
  shows "position p sz =
    (let k = peak_of (unat sz) (unat (leaf_index p))
     in Some (popcount (unat sz div 2 ^ Suc k), take_bit k (leaf_index p), k))"
proof -
  define k where "k = peak_of (unat sz) (unat (leaf_index p))"
  have "k < 32" "31 - leading_zeros (sz XOR leaf_index p) = k"
    using peak_level [OF assms] by (simp_all add: k_def)
  moreover have "count_ones (case checked_shr sz (k + 1) of None \<Rightarrow> 0 | Some w \<Rightarrow> w) = popcount (unat sz div 2 ^ Suc k)"
  proof (cases "k + 1 < 32")
    case True
    then show ?thesis
      by (simp only: checked_shr_def count_ones_popcount if_True option.case unat_shift add_Suc_right add_0_right One_nat_def)
  next
    case False
    with \<open>k < 32\<close> have "Suc k = 32" by simp
    then have "unat sz div 2 ^ Suc k = 0" using unat_less_32 [of sz] by simp
    with False show ?thesis by (simp add: checked_shr_def count_ones_popcount)
  qed
  moreover have "leaf_index p AND (push_bit k 1 - 1) = take_bit k (leaf_index p)"
    by (simp add: take_bit_eq_mask mask_eq_exp_minus_1 push_bit_eq_mult)
  moreover have "\<not> (sz = 0 \<or> sz \<le> leaf_index p)"
    using assms by auto
  ultimately show ?thesis
    by (simp add: position_def k_def [symmetric] Let_def)
qed

lemma position_out_of_range: "sz \<le> leaf_index p \<Longrightarrow> position p sz = None"
  by (simp add: position_def)

section \<open>Paths\<close>

primrec climb :: "('h \<Rightarrow> 'h \<Rightarrow> 'h) \<Rightarrow> nat \<Rightarrow> 'h list \<Rightarrow> 'h \<Rightarrow> 'h" where
  "climb H i [] current = current"
| "climb H i (s # ss) current = climb H (i div 2) ss (if even i then H current s else H s current)"

lemma word_and_bit_0:
  assumes "i < 32"
  shows "(w :: 32 word) AND push_bit i 1 = 0 \<longleftrightarrow> \<not> bit w i"
proof
  assume "w AND push_bit i 1 = 0"
  then have "\<not> bit (w AND push_bit i 1) i" by simp
  with assms show "\<not> bit w i" by (simp add: bit_and_iff bit_exp_iff push_bit_eq_mult)
next
  assume "\<not> bit w i"
  then show "w AND push_bit i 1 = 0"
    by (intro bit_eqI) (auto simp: bit_and_iff bit_exp_iff push_bit_eq_mult)
qed

lemma fold_path_climb:
  "i + length path \<le> 32 \<Longrightarrow> fold_path H w i path current = climb H (unat w div 2 ^ i) path current"
proof (induction path arbitrary: i current)
  case (Cons s path)
  have "w AND push_bit i 1 = 0 \<longleftrightarrow> even (unat w div 2 ^ i)"
  proof -
    have "w AND push_bit i 1 = 0 \<longleftrightarrow> \<not> bit w i"
      by (rule word_and_bit_0) (use Cons.prems in simp)
    then show ?thesis
      by (simp add: bit_unat bit_iff_odd)
  qed
  moreover have "unat w div 2 ^ i div 2 = unat w div 2 ^ (i + 1)"
    by (simp add: div_mult2_eq [symmetric] mult.commute)
  ultimately show ?case
    using Cons by simp
qed simp

lemma climb_mod: "climb H (i mod 2 ^ length path) path current = climb H i path current"
proof (induction path arbitrary: i current)
  case (Cons s path)
  have "i mod 2 ^ length (s # path) div 2 = i div 2 mod 2 ^ length path"
    by (simp add: mod_mult2_eq)
  moreover have "even (i mod 2 ^ length (s # path)) \<longleftrightarrow> even i"
    by (simp add: dvd_mod_iff)
  ultimately show ?case
    using Cons [of "i div 2"] by simp
qed simp

lemma unat_take: "k < 32 \<Longrightarrow> unat (take_bit k (w :: 32 word)) = unat w mod 2 ^ k"
  by (simp only: unsigned_take_bit_eq take_bit_nat_def)

lemma get_subroot_in_range:
  assumes "leaf_index p < sz"
  shows "get_subroot H p sz leaf =
    (let k = peak_of (unat sz) (unat (leaf_index p))
     in if length (inclusion_proof p) = k
        then Some (popcount (unat sz div 2 ^ Suc k), climb H (unat (leaf_index p)) (inclusion_proof p) leaf)
        else None)"
proof -
  have "fold_path H (take_bit k i) 0 path leaf = climb H (unat i) path leaf"
    if "length path = k" "k < 32" for k i path
    using that climb_mod [of H "unat i" path leaf]
    by (simp add: fold_path_climb unat_take)
  with peak_level(2) [OF assms] show ?thesis
    by (simp add: get_subroot_def position_in_range [OF assms] Let_def)
qed

section \<open>Completeness and soundness of inclusion proofs\<close>

lemma length_peaks_up [simp]: "length (peaks_up H l) = popcount (length l)"
proof (induction H l rule: peaks_up.induct)
  case (1 H l)
  show ?case
  proof (cases "length l \<le> 1")
    case True
    then consider "length l = 0" | "length l = 1" by linarith
    then show ?thesis by cases (simp_all add: peaks_up.simps [of H l] popcount.simps)
  next
    case False
    with 1 show ?thesis
      by (subst popcount_rec) (auto simp: peaks_up.simps [of H l] odd_iff_mod_2_eq_one)
  qed
qed

definition peak_index :: "nat \<Rightarrow> nat \<Rightarrow> nat" where
  "peak_index n i = popcount (n div 2 ^ Suc (peak_of n i))"

lemma peak_index_step:
  "i < n \<Longrightarrow> \<not> (i = n - 1 \<and> odd n) \<Longrightarrow> peak_index n i = peak_index (n div 2) (i div 2)"
  by (simp add: peak_index_def peak_of_step(1) div_mult2_eq [symmetric])

text \<open>
  Every leaf has a path to a peak: the loop of \<^verbatim>\<open>generate_proof\<close> ends within the levels, and the path
  it collects hashes to the peak that \<^verbatim>\<open>position\<close> names.
\<close>

lemma proof_path_ok:
  assumes "i < length l"
  shows "\<exists>path. proof_path i (mmr_levels H l) = Some path \<and> length path = peak_of (length l) i \<and>
    peak_index (length l) i < length (peaks_up H l) \<and>
    climb H i path (l ! i) = rev (peaks_up H l) ! peak_index (length l) i"
proof -
  have "\<exists>path. proof_path i (mmr_levels H l) = Some path \<and> length path = peak_of n i \<and>
    peak_index n i < length (peaks_up H l) \<and>
    climb H i path (l ! i) = rev (peaks_up H l) ! peak_index n i" if "i < n" "length l = n" for n
    using that
  proof (induction n i arbitrary: l rule: peak_induct)
    case (stop n i)
    then have l: "l \<noteq> []" by auto
    have "peaks_up H l = last l # peaks_up H (pair_up H l)"
      using stop l by (simp add: peaks_up_unfold)
    moreover have "peak_index n i = length (peaks_up H (pair_up H l))"
      using stop by (simp add: peak_index_def peak_of_stop)
    moreover have "proof_path i (mmr_levels H l) = Some []"
      using stop by (simp add: mmr_levels.simps [of H l] odd_iff_mod_2_eq_one)
    ultimately show ?case
      using stop l by (simp add: peak_of_stop last_conv_nth nth_append)
  next
    case (step n i)
    note len = peak_of_step [OF step.hyps(1,2)]
    have big: "\<not> length l \<le> 1" and l: "l \<noteq> []"
      using len(2) step.prems by auto
    obtain path where path: "proof_path (i div 2) (mmr_levels H (pair_up H l)) = Some path"
        "length path = peak_of (n div 2) (i div 2)"
        "peak_index (n div 2) (i div 2) < length (peaks_up H (pair_up H l))"
        "climb H (i div 2) path (pair_up H l ! (i div 2)) =
           rev (peaks_up H (pair_up H l)) ! peak_index (n div 2) (i div 2)"
      using step.IH [of "pair_up H l"] step.prems by auto
    define s where "s = (if i mod 2 = 0 then i + 1 else i - 1)"
    have s: "s < length l"
      using step.hyps step.prems unfolding s_def by presburger
    have "proof_path i (mmr_levels H l) = Some (l ! s # path)"
      using step.hyps step.prems big path(1) s
      by (simp add: mmr_levels.simps [of H l] s_def [symmetric] odd_iff_mod_2_eq_one)
    moreover have "(if even i then H (l ! i) (l ! s) else H (l ! s) (l ! i)) = pair_up H l ! (i div 2)"
      using len(2) step.prems by (subst nth_pair_up) (auto simp: s_def elim: evenE oddE)
    ultimately show ?case
      using path len peak_index_step [OF step.hyps(1,2)] l
      by (auto simp: peaks_up_unfold [OF l] nth_append)
  qed
  from this [OF assms refl] show ?thesis .
qed

lemma get_subroot_index:
  assumes "length leaves < 2 ^ 32" "get_subroot H p (of_nat (length leaves)) leaf = Some (j, r)"
  shows "unat (leaf_index p) < length leaves" "j = peak_index (length leaves) (unat (leaf_index p))"
    "length (inclusion_proof p) = peak_of (length leaves) (unat (leaf_index p))"
    "r = climb H (unat (leaf_index p)) (inclusion_proof p) leaf"
proof -
  have less: "leaf_index p < of_nat (length leaves)"
    using assms(2) position_out_of_range [of "of_nat (length leaves)" p]
    by (force simp: get_subroot_def)
  then show "unat (leaf_index p) < length leaves"
    using assms(1) by (simp add: word_less_nat_alt)
  show "j = peak_index (length leaves) (unat (leaf_index p))"
    "length (inclusion_proof p) = peak_of (length leaves) (unat (leaf_index p))"
    "r = climb H (unat (leaf_index p)) (inclusion_proof p) leaf"
    using assms by (auto simp: get_subroot_in_range [OF less] Let_def peak_index_def split: if_splits)
qed

text \<open>
  The pairs hashed along a path, and a collision among the pairs hashed along two paths of the same
  index: two different pairs at the same level with the same hash.
\<close>

primrec climb_pairs :: "('h \<Rightarrow> 'h \<Rightarrow> 'h) \<Rightarrow> nat \<Rightarrow> 'h list \<Rightarrow> 'h \<Rightarrow> ('h \<times> 'h) list" where
  "climb_pairs H i [] current = []"
| "climb_pairs H i (s # ss) current =
     (let (l, r) = (if even i then (current, s) else (s, current))
      in (l, r) # climb_pairs H (i div 2) ss (H l r))"

definition path_collision :: "('h \<Rightarrow> 'h \<Rightarrow> 'h) \<Rightarrow> nat \<Rightarrow> 'h list \<Rightarrow> 'h \<Rightarrow> 'h list \<Rightarrow> 'h \<Rightarrow> bool" where
  "path_collision H i path1 leaf1 path2 leaf2 \<longleftrightarrow>
     list_ex (\<lambda>((a, b), (c, d)). (a, b) \<noteq> (c, d) \<and> H a b = H c d)
       (zip (climb_pairs H i path1 leaf1) (climb_pairs H i path2 leaf2))"

lemma path_collision_Cons:
  "path_collision H i (a # p1) x (b # p2) y \<longleftrightarrow>
     (x, a) \<noteq> (y, b) \<and> (if even i then H x a = H y b else H a x = H b y) \<or>
     path_collision H (i div 2) p1 (if even i then H x a else H a x) p2 (if even i then H y b else H b y)"
  by (auto simp: path_collision_def)

lemma climb_inj:
  assumes "climb H i p1 x = climb H i p2 y" "length p1 = length p2"
  shows "x = y \<and> p1 = p2 \<or> path_collision H i p1 x p2 y"
  using assms(2,1)
proof (induction p1 p2 arbitrary: i x y rule: list_induct2)
  case (Cons a p1 b p2)
  from Cons.IH [OF Cons.prems [unfolded climb.simps]] show ?case
    unfolding path_collision_Cons by (cases "even i") auto
qed simp

lemma verify_iff:
  assumes "length leaves < 2 ^ 32"
  shows "(case get_subroot H p (of_nat (length leaves)) leaf of
        None \<Rightarrow> False | Some (j, r) \<Rightarrow> nth_is (rev (peaks_up H leaves)) j r) \<longleftrightarrow>
     unat (leaf_index p) < length leaves \<and>
     length (inclusion_proof p) = peak_of (length leaves) (unat (leaf_index p)) \<and>
     climb H (unat (leaf_index p)) (inclusion_proof p) leaf =
       rev (peaks_up H leaves) ! peak_index (length leaves) (unat (leaf_index p))"
    (is "?v \<longleftrightarrow> ?c")
proof
  assume ?v
  then obtain j r where "get_subroot H p (of_nat (length leaves)) leaf = Some (j, r)"
      "nth_is (rev (peaks_up H leaves)) j r"
    by (auto split: option.splits)
  with get_subroot_index [OF assms this(1)] show ?c
    by (simp add: nth_is_def)
next
  assume c: ?c
  then have "leaf_index p < of_nat (length leaves)"
    using assms by (simp add: word_less_nat_alt)
  moreover obtain path where "peak_index (length leaves) (unat (leaf_index p)) < length (peaks_up H leaves)"
    using proof_path_ok c by blast
  ultimately show ?v
    using c assms by (simp add: get_subroot_in_range Let_def nth_is_def peak_index_def)
qed

lemma host_verify_iff:
  assumes "host_ok H m leaves" "length leaves < 2 ^ 32"
  shows "host_verify_proof H m leaf p \<longleftrightarrow>
     unat (leaf_index p) < length leaves \<and>
     length (inclusion_proof p) = peak_of (length leaves) (unat (leaf_index p)) \<and>
     climb H (unat (leaf_index p)) (inclusion_proof p) leaf =
       rev (peaks_up H leaves) ! peak_index (length leaves) (unat (leaf_index p))"
proof -
  have "nodes m ! 0 = leaves"
    using assms(1) by (simp add: host_ok_def mmr_levels.simps)
  then show ?thesis
    unfolding host_verify_proof_def get_subroots_ok [OF assms(1)] by (simp only: verify_iff [OF assms(2)])
qed

lemma guest_verify_iff:
  assumes "guest_ok H g leaves"
  shows "guest_verify_proof H g leaf p \<longleftrightarrow>
     unat (leaf_index p) < length leaves \<and>
     length (inclusion_proof p) = peak_of (length leaves) (unat (leaf_index p)) \<and>
     climb H (unat (leaf_index p)) (inclusion_proof p) leaf =
       rev (peaks_up H leaves) ! peak_index (length leaves) (unat (leaf_index p))"
proof -
  have "length leaves < 2 ^ 32" "mmr_size g = of_nat (length leaves)" "subroots g = rev (peaks_up H leaves)"
    using assms by (simp_all add: guest_ok_def)
  then show ?thesis
    unfolding guest_verify_proof_def by (simp only: verify_iff)
qed

lemma generate_proof_ok:
  assumes "host_ok H m leaves" "unat i < length leaves"
  shows "\<exists>path. generate_proof i m = Some (leaves ! unat i, \<lparr> leaf_index = i, inclusion_proof = path \<rparr>) \<and>
     length path = peak_of (length leaves) (unat i) \<and>
     climb H (unat i) path (leaves ! unat i) = rev (peaks_up H leaves) ! peak_index (length leaves) (unat i)"
proof -
  have leaves: "nodes m ! 0 = leaves"
    using assms(1) by (simp add: host_ok_def mmr_levels.simps)
  obtain path where path: "proof_path (unat i) (nodes m) = Some path"
      "length path = peak_of (length leaves) (unat i)"
      "climb H (unat i) path (leaves ! unat i) = rev (peaks_up H leaves) ! peak_index (length leaves) (unat i)"
    using proof_path_ok [OF assms(2), of H] assms(1) unfolding host_ok_def by metis
  have "leaves \<noteq> []" "\<not> length leaves \<le> unat i" using assms(2) by auto
  then have "generate_proof i m = Some (leaves ! unat i, \<lparr> leaf_index = i, inclusion_proof = path \<rparr>)"
    unfolding generate_proof_def leaves path(1) by simp
  with path(2,3) show ?thesis by (intro exI [of _ path] conjI)
qed

lemma guest_verify_sound:
  assumes "guest_ok H g leaves" "guest_verify_proof H g leaf p"
    "host_ok H m leaves" "generate_proof (leaf_index p) m = Some (leaf', p')"
  shows "unat (leaf_index p) < length leaves" "leaf' = leaves ! unat (leaf_index p)"
    "leaf = leaf' \<and> p = p' \<or>
     path_collision H (unat (leaf_index p)) (inclusion_proof p) leaf (inclusion_proof p') leaf'"
proof -
  let ?i = "unat (leaf_index p)"
  have v: "?i < length leaves" "length (inclusion_proof p) = peak_of (length leaves) ?i"
      "climb H ?i (inclusion_proof p) leaf = rev (peaks_up H leaves) ! peak_index (length leaves) ?i"
    using assms(2) unfolding guest_verify_iff [OF assms(1)] by simp_all
  show "unat (leaf_index p) < length leaves" by (fact v)
  obtain path where path: "leaf' = leaves ! ?i" "p' = \<lparr> leaf_index = leaf_index p, inclusion_proof = path \<rparr>"
      "length path = peak_of (length leaves) ?i"
      "climb H ?i path (leaves ! ?i) = rev (peaks_up H leaves) ! peak_index (length leaves) ?i"
    using generate_proof_ok [OF assms(3) v(1)] assms(4) by auto
  show "leaf' = leaves ! unat (leaf_index p)" by (fact path)
  show "leaf = leaf' \<and> p = p' \<or>
      path_collision H (unat (leaf_index p)) (inclusion_proof p) leaf (inclusion_proof p') leaf'"
    using climb_inj [of H ?i "inclusion_proof p" leaf path "leaves ! ?i"] v path by auto
qed

text \<open>The pairs hashed when the levels are built; those hashed along a genuine path are among them.\<close>

definition level_pairs :: "'h list \<Rightarrow> ('h \<times> 'h) list" where
  "level_pairs l = map (\<lambda>j. (l ! (2 * j), l ! (2 * j + 1))) [0..<length l div 2]"

definition mmr_pairs :: "('h \<Rightarrow> 'h \<Rightarrow> 'h) \<Rightarrow> 'h list \<Rightarrow> ('h \<times> 'h) list" where
  "mmr_pairs H l = concat (map level_pairs (mmr_levels H l))"

lemma climb_pairs_levels:
  assumes "i < length l" "proof_path i (mmr_levels H l) = Some path"
  shows "set (climb_pairs H i path (l ! i)) \<subseteq> set (mmr_pairs H l)"
  using assms
proof (induction H l arbitrary: i path rule: mmr_levels.induct)
  case (1 H l)
  show ?case
  proof (cases "i = length l - 1 \<and> length l mod 2 = 1")
    case True
    with "1.prems" have "path = []" by (auto simp: mmr_levels.simps [of H l])
    then show ?thesis by simp
  next
    case False
    define s where "s = (if i mod 2 = 0 then i + 1 else i - 1)"
    have big: "\<not> length l \<le> 1" using False "1.prems"(1) by (cases "length l = 1") auto
    note levels = mmr_levels.simps [of H l]
    from "1.prems"(2) False big obtain p where p: "s < length l" "path = l ! s # p"
        "proof_path (i div 2) (mmr_levels H (pair_up H l)) = Some p"
      by (auto simp: levels s_def [symmetric] Let_def split: if_splits)
    have half: "i div 2 < length l div 2"
      using "1.prems"(1) False by presburger
    have pair: "(if even i then (l ! i, l ! s) else (l ! s, l ! i)) = (l ! (2 * (i div 2)), l ! (2 * (i div 2) + 1))"
      by (auto simp: s_def elim: evenE oddE)
    have "set (climb_pairs H (i div 2) p (pair_up H l ! (i div 2))) \<subseteq> set (mmr_pairs H (pair_up H l))"
      using "1.IH" [OF big _ p(3)] half by simp
    moreover have "(l ! (2 * (i div 2)), l ! (2 * (i div 2) + 1)) \<in> set (level_pairs l)"
      using half by (auto simp: level_pairs_def)
    moreover have "set (mmr_pairs H l) = set (level_pairs l) \<union> set (mmr_pairs H (pair_up H l))"
      using big by (simp add: mmr_pairs_def levels)
    moreover have "climb_pairs H i path (l ! i) =
        (l ! (2 * (i div 2)), l ! (2 * (i div 2) + 1)) # climb_pairs H (i div 2) p (pair_up H l ! (i div 2))"
      using half by (simp add: p(2) pair nth_pair_up del: One_nat_def)
    ultimately show ?thesis by auto
  qed
qed

section \<open>The interface of the two structures\<close>

primrec append_all :: "('h \<Rightarrow> 's \<Rightarrow> 's option) \<Rightarrow> 'h list \<Rightarrow> 's \<Rightarrow> 's option" where
  "append_all app [] s = Some s"
| "append_all app (x # xs) s = (case app x s of None \<Rightarrow> None | Some s' \<Rightarrow> append_all app xs s')"

text \<open>
  An accumulator of leaves: a state represents a list of leaves, and appending a leaf, while there is
  room, succeeds and represents the longer list.
\<close>

locale accumulator =
  fixes represents :: "'s \<Rightarrow> 'h list \<Rightarrow> bool"
    and append_leaf :: "'h \<Rightarrow> 's \<Rightarrow> 's option"
    and empty :: 's
    and capacity :: nat
  assumes represents_empty: "represents empty []"
    and represents_append:
      "represents s xs \<Longrightarrow> length xs + 1 < capacity \<Longrightarrow>
       \<exists>s'. append_leaf x s = Some s' \<and> represents s' (xs @ [x])"
begin

lemma append_all_represents:
  "represents s xs \<Longrightarrow> length xs + length ys < capacity \<Longrightarrow>
   \<exists>s'. append_all append_leaf ys s = Some s' \<and> represents s' (xs @ ys)"
proof (induction ys arbitrary: s xs)
  case (Cons y ys)
  then obtain s1 where "append_leaf y s = Some s1" "represents s1 (xs @ [y])"
    using represents_append [of s xs y] by auto
  with Cons.IH [of s1 "xs @ [y]"] Cons.prems(2) show ?case by auto
qed simp

lemma append_all_empty:
  "length ys < capacity \<Longrightarrow> \<exists>s'. append_all append_leaf ys empty = Some s' \<and> represents s' ys"
  using append_all_represents [OF represents_empty, of ys] by simp

end

lemma host_ok_new: "host_ok H mmr_host_new []"
  by (simp add: host_ok_def mmr_host_new_def mmr_levels.simps)

lemma guest_ok_new: "guest_ok H mmr_guest_new []"
  by (simp add: guest_ok_def mmr_guest_new_def)

interpretation host_mmr: accumulator "host_ok H" "\<lambda>x m. Some (host_append H x m)" mmr_host_new "2 ^ 32"
  for H :: "'h \<Rightarrow> 'h \<Rightarrow> 'h"
  by unfold_locales (auto intro: host_ok_new host_append_ok)

interpretation guest_mmr: accumulator "guest_ok H" "guest_append H" mmr_guest_new "2 ^ 32"
  for H :: "'h \<Rightarrow> 'h \<Rightarrow> 'h"
  by unfold_locales (auto intro: guest_ok_new guest_append_ok)

section \<open>Properties\<close>

text \<open>Three leaves under a pair hash that writes its arguments side by side, for the examples below.\<close>

definition example_host :: "nat mmr_host" where
  "example_host = \<lparr> nodes = [[1, 2, 3], [12]] \<rparr>"

definition example_guest :: "nat mmr_guest" where
  "example_guest = \<lparr> subroots = [12, 3], mmr_size = 3 \<rparr>"

lemma example_appends:
  "append_all (\<lambda>x m. Some (host_append (\<lambda>a b. 10 * a + b) x m)) [1, 2, 3] mmr_host_new = Some example_host"
  "append_all (guest_append (\<lambda>a b. 10 * a + b)) [1, 2, 3] mmr_guest_new = Some example_guest"
  by code_simp+

text \<open>
  The guest follows the host. After appending the same leaves, fewer than 2^32 of them, to a new
  host structure and to a new guest structure, no append has panicked, the guest's size is the number
  of leaves and its peaks are exactly the host's.
\<close>

theorem guest_follows_host:
  assumes "length leaves < 2 ^ 32"
  shows "\<exists>m g. append_all (\<lambda>x m. Some (host_append H x m)) leaves mmr_host_new = Some m \<and>
     append_all (guest_append H) leaves mmr_guest_new = Some g \<and>
     mmr_size g = of_nat (length leaves) \<and> subroots g = get_subroots m"
proof -
  obtain m g where "append_all (\<lambda>x m. Some (host_append H x m)) leaves mmr_host_new = Some m" "host_ok H m leaves"
      "append_all (guest_append H) leaves mmr_guest_new = Some g" "guest_ok H g leaves"
    using host_mmr.append_all_empty [OF assms] guest_mmr.append_all_empty [OF assms] by blast
  then show ?thesis
    by (intro exI conjI) (auto simp: guest_ok_def get_subroots_ok)
qed

theorem guest_follows_host_witness:
  "length [1, 2, 3 :: nat] < 2 ^ 32 \<and>
   (\<exists>m g. append_all (\<lambda>x m. Some (host_append (\<lambda>a b. 10 * a + b) x m)) [1, 2, 3 :: nat] mmr_host_new = Some m \<and>
     append_all (guest_append (\<lambda>a b. 10 * a + b)) [1, 2, 3] mmr_guest_new = Some g \<and>
     mmr_size g = of_nat (length [1, 2, 3 :: nat]) \<and> subroots g = get_subroots m)"
  using guest_follows_host [of "[1, 2, 3 :: nat]" "\<lambda>a b. 10 * a + b"] by simp

text \<open>
  Every leaf can be proved. After the same appends, \<^verbatim>\<open>generate_proof\<close> of the host does not panic
  for any index in range, returns the leaf at that index, and the proof it returns verifies both on
  the host and on the guest.
\<close>

theorem generated_proofs_verify:
  assumes "length leaves < 2 ^ 32" "i < length leaves"
    "append_all (\<lambda>x m. Some (host_append H x m)) leaves mmr_host_new = Some m"
    "append_all (guest_append H) leaves mmr_guest_new = Some g"
  shows "\<exists>p. generate_proof (of_nat i) m = Some (leaves ! i, p) \<and>
     host_verify_proof H m (leaves ! i) p \<and> guest_verify_proof H g (leaves ! i) p"
proof -
  have m: "host_ok H m leaves" and g: "guest_ok H g leaves"
    using host_mmr.append_all_empty [OF assms(1), of H] guest_mmr.append_all_empty [OF assms(1), of H] assms(3,4)
    by auto
  have i: "unat (of_nat i :: 32 word) = i"
    using assms(1,2) by simp
  obtain path where "generate_proof (of_nat i) m = Some (leaves ! i, \<lparr> leaf_index = of_nat i, inclusion_proof = path \<rparr>)"
      "length path = peak_of (length leaves) i"
      "climb H i path (leaves ! i) = rev (peaks_up H leaves) ! peak_index (length leaves) i"
    using generate_proof_ok [OF m, of "of_nat i"] assms(2) unfolding i by blast
  with assms(2) i show ?thesis
    by (auto simp: host_verify_iff [OF m assms(1)] guest_verify_iff [OF g])
qed

theorem generated_proofs_verify_witness:
  "length [1, 2, 3 :: nat] < 2 ^ 32 \<and> 1 < length [1, 2, 3 :: nat] \<and>
   (\<exists>p. generate_proof (of_nat 1) example_host = Some ([1, 2, 3] ! 1, p) \<and>
     host_verify_proof (\<lambda>a b. 10 * a + b) example_host ([1, 2, 3] ! 1) p \<and>
     guest_verify_proof (\<lambda>a b. 10 * a + b) example_guest ([1, 2, 3] ! 1) p)"
  using generated_proofs_verify [OF _ _ example_appends, of 1] by simp

text \<open>
  Only the leaf at its index can be proved. If a proof verifies on the guest for some leaf, its
  index is in range, and either the leaf and the whole proof are the genuine ones that the host
  generates for that index, or hashing along the two proofs exhibits a collision of the pair hash.
\<close>

theorem verified_proofs_genuine:
  assumes "length leaves < 2 ^ 32"
    "append_all (\<lambda>x m. Some (host_append H x m)) leaves mmr_host_new = Some m"
    "append_all (guest_append H) leaves mmr_guest_new = Some g"
    "guest_verify_proof H g leaf p"
  shows "unat (leaf_index p) < length leaves \<and>
     (\<exists>p'. generate_proof (leaf_index p) m = Some (leaves ! unat (leaf_index p), p') \<and>
        (leaf = leaves ! unat (leaf_index p) \<and> p = p' \<or>
         path_collision H (unat (leaf_index p)) (inclusion_proof p) leaf
           (inclusion_proof p') (leaves ! unat (leaf_index p))))"
proof -
  have m: "host_ok H m leaves" and g: "guest_ok H g leaves"
    using host_mmr.append_all_empty [OF assms(1), of H] guest_mmr.append_all_empty [OF assms(1), of H] assms(2,3)
    by auto
  have i: "unat (leaf_index p) < length leaves"
    using assms(4) unfolding guest_verify_iff [OF g] by simp
  obtain p' where p': "generate_proof (leaf_index p) m = Some (leaves ! unat (leaf_index p), p')"
    using generate_proof_ok [OF m i] by blast
  from guest_verify_sound(3) [OF g assms(4) m p'] i p' show ?thesis by blast
qed

theorem verified_proofs_genuine_witness:
  "guest_verify_proof (\<lambda>a b. 10 * a + b) example_guest 2 \<lparr> leaf_index = 1, inclusion_proof = [1] \<rparr> \<and>
   (\<exists>p'. generate_proof 1 example_host = Some ([1, 2, 3] ! 1, p') \<and>
      (2 = [1, 2, 3 :: nat] ! 1 \<and> \<lparr> leaf_index = 1, inclusion_proof = [1] \<rparr> = p' \<or>
       path_collision (\<lambda>a b. 10 * a + b) 1 [1] 2 (inclusion_proof p') ([1, 2, 3] ! 1)))"
proof -
  have v: "guest_verify_proof (\<lambda>a b. 10 * a + b) example_guest (2 :: nat) \<lparr> leaf_index = 1, inclusion_proof = [1] \<rparr>"
    by code_simp
  show ?thesis
    using v verified_proofs_genuine [OF _ example_appends v] by simp
qed

end
