(* ===== verification/MerkleTree.thy ===== *)
theory MerkleTree
  imports Mmr
begin

text \<open>
  The Merkle tree of the transactions of a Bitcoin block
  (\<^verbatim>\<open>src/circuits/crates/header-chain/src/merkle_tree.rs\<close>), in which the last node of an odd level is
  paired with itself. The hash of two nodes is the parameter \<open>H\<close> (\<^verbatim>\<open>calculate_double_sha256\<close> of the
  64-byte concatenation). A panic is \<^verbatim>\<open>None\<close>.

  The lemmas show that a generated proof leads to the root, and that a proof of the tree's depth that
  leads to the root is the genuine one for its index, up to a collision among the hashed pairs.
\<close>

section \<open>Definitions\<close>

record 'h bitcoin_merkle_tree =
  tree_nodes :: "'h list list"

text \<open>One round of the loop of \<^verbatim>\<open>new\<close>: the level above \<open>prev\<close>.\<close>

definition next_level :: "('h \<Rightarrow> 'h \<Rightarrow> 'h) \<Rightarrow> 'h list \<Rightarrow> 'h list" where
  "next_level H prev =
     map (\<lambda>i. H (prev ! (i * 2)) (prev ! (i * 2 + 1))) [0..<length prev div 2] @
     (if length prev mod 2 = 1 then [H (prev ! (length prev - 1)) (prev ! (length prev - 1))] else [])"

lemma length_next_level [simp]: "length (next_level H prev) = (length prev + 1) div 2"
proof -
  have "(n + 1) div 2 = n div 2 + n mod 2" for n :: nat by presburger
  then show ?thesis by (simp add: next_level_def)
qed

text \<open>The levels pushed after \<open>prev\<close>; the loop runs while the previous level has more than one node.\<close>

function upper_levels :: "('h \<Rightarrow> 'h \<Rightarrow> 'h) \<Rightarrow> 'h list \<Rightarrow> 'h list list" where
  "upper_levels H prev =
     (if 1 < length prev then let l = next_level H prev in l # upper_levels H l else [])"
  by auto

termination upper_levels
  by (relation "measure (\<lambda>(H, prev). length prev)") auto

declare upper_levels.simps [simp del]

definition bitcoin_merkle_tree_new :: "('h \<Rightarrow> 'h \<Rightarrow> 'h) \<Rightarrow> 'h list \<Rightarrow> 'h bitcoin_merkle_tree" where
  "bitcoin_merkle_tree_new H transactions =
     (if length transactions = 1 then \<lparr> tree_nodes = [transactions] \<rparr>
      else \<lparr> tree_nodes = transactions # upper_levels H transactions \<rparr>)"

definition root :: "'h bitcoin_merkle_tree \<Rightarrow> 'h option" where
  "root t = (let top = tree_nodes t ! (length (tree_nodes t) - 1) in if top = [] then None else Some (top ! 0))"

text \<open>The loop of \<^verbatim>\<open>get_idx_path\<close>, over the levels from the current one up; the last one is not visited.\<close>

fun idx_path :: "nat \<Rightarrow> 'h list list \<Rightarrow> 'h list option" where
  "idx_path i (l # m # ls) =
     (let s = (if i mod 2 = 1 then i - 1 else if length l - 1 = i then i else i + 1)
      in if s < length l then map_option (\<lambda>path. l ! s # path) (idx_path (i div 2) (m # ls)) else None)"
| "idx_path i _ = Some []"

definition get_idx_path :: "'h bitcoin_merkle_tree \<Rightarrow> 32 word \<Rightarrow> 'h list option" where
  "get_idx_path t index =
     (if index < of_nat (length (tree_nodes t ! 0)) then idx_path (unat index) (tree_nodes t) else None)"

record 'h block_inclusion_proof =
  idx :: "32 word"
  merkle_proof :: "'h list"

definition merkle_generate_proof :: "'h bitcoin_merkle_tree \<Rightarrow> 32 word \<Rightarrow> 'h block_inclusion_proof option" where
  "merkle_generate_proof t i = map_option (\<lambda>path. \<lparr> idx = i, merkle_proof = path \<rparr>) (get_idx_path t i)"

primrec root_loop :: "('h \<Rightarrow> 'h \<Rightarrow> 'h) \<Rightarrow> 32 word \<Rightarrow> 'h list \<Rightarrow> 'h \<Rightarrow> 'h" where
  "root_loop H index [] combined_hash = combined_hash"
| "root_loop H index (s # ss) combined_hash =
     root_loop H (index div 2) ss
       (if index mod 2 = 0 then H combined_hash s else H s combined_hash)"

definition get_root :: "('h \<Rightarrow> 'h \<Rightarrow> 'h) \<Rightarrow> 'h block_inclusion_proof \<Rightarrow> 'h \<Rightarrow> 'h" where
  "get_root H p txid = root_loop H (idx p) (merkle_proof p) txid"

definition calculate_root_with_merkle_proof ::
  "('h \<Rightarrow> 'h \<Rightarrow> 'h) \<Rightarrow> 'h \<Rightarrow> 'h block_inclusion_proof \<Rightarrow> 'h" where
  "calculate_root_with_merkle_proof H txid p = get_root H p txid"

definition verify_merkle_proof :: "('h \<Rightarrow> 'h \<Rightarrow> 'h) \<Rightarrow> 'h \<Rightarrow> 'h block_inclusion_proof \<Rightarrow> 'h \<Rightarrow> bool" where
  "verify_merkle_proof H txid p r \<longleftrightarrow> get_root H p txid = r"

section \<open>Lemmas\<close>

lemma nth_next_level:
  assumes "j < length (next_level H l)"
  shows "next_level H l ! j = H (l ! (2 * j)) (if 2 * j + 1 < length l then l ! (2 * j + 1) else l ! (2 * j))"
proof (cases "j < length l div 2")
  case True
  then have "2 * j + 1 < length l" by linarith
  with True show ?thesis by (simp add: next_level_def nth_append mult.commute)
next
  case False
  with assms have "length l mod 2 = 1" "j = length l div 2" by (simp_all add: next_level_def split: if_splits)
  moreover from this have "2 * j = length l - 1" "\<not> 2 * j + 1 < length l" by presburger+
  ultimately show ?thesis unfolding next_level_def by (simp add: nth_append)
qed

lemma root_loop_climb: "root_loop H index path c = climb H (unat index) path c"
proof (induction path arbitrary: index c)
  case (Cons s path)
  have "unat (index div 2) = unat index div 2"
    by (simp add: unat_div_distrib)
  moreover have "index mod 2 = 0 \<longleftrightarrow> even (unat index)"
    by (simp add: even_iff_mod_2_eq_zero unat_mod_distrib flip: unat_eq_zero)
  ultimately show ?case using Cons by simp
qed simp

text \<open>The top of the tree over \<open>l\<close> is one node, and every node has a path to it.\<close>

lemma upper_levels_path:
  assumes "i < length l"
  shows "\<exists>path. idx_path i (l # upper_levels H l) = Some path \<and> length path = length (upper_levels H l) \<and>
     last (l # upper_levels H l) = [climb H i path (l ! i)]"
  using assms
proof (induction H l arbitrary: i rule: upper_levels.induct)
  case (1 H l)
  show ?case
  proof (cases "1 < length l")
    case False
    with "1.prems" have "l = [l ! 0]" "i = 0"
      by (cases l; simp)+
    with False show ?thesis by (simp add: upper_levels.simps [of H l])
  next
    case True
    let ?n = "next_level H l"
    have less: "i div 2 < length ?n" using "1.prems" by simp
    from "1.IH" [OF True refl less] obtain path where path:
      "idx_path (i div 2) (?n # upper_levels H ?n) = Some path" "length path = length (upper_levels H ?n)"
      "last (?n # upper_levels H ?n) = [climb H (i div 2) path (?n ! (i div 2))]"
      by blast
    define s where "s = (if i mod 2 = 1 then i - 1 else if length l - 1 = i then i else i + 1)"
    have s: "s < length l"
      using "1.prems" unfolding s_def by presburger
    have up: "upper_levels H l = ?n # upper_levels H ?n"
      using True by (simp add: upper_levels.simps [of H l] Let_def)
    have idx: "idx_path i (l # upper_levels H l) = Some (l ! s # path)"
      unfolding up idx_path.simps s_def [symmetric] Let_def using s path(1) by simp
    have "(if even i then H (l ! i) (l ! s) else H (l ! s) (l ! i)) = ?n ! (i div 2)"
    proof (cases "even i")
      case True
      then have "2 * (i div 2) = i" by simp
      moreover from True have "s = (if length l - 1 = i then i else i + 1)" by (simp add: s_def)
      ultimately show ?thesis
        using True "1.prems" nth_next_level [OF less] by auto
    next
      case False
      then have "2 * (i div 2) = i - 1" "s = i - 1" "2 * (i div 2) + 1 = i"
        by (auto simp: s_def elim: oddE)
      then show ?thesis
        using False "1.prems" nth_next_level [OF less] by simp
    qed
    then have "climb H i (l ! s # path) (l ! i) = climb H (i div 2) path (?n ! (i div 2))"
      by simp
    with idx path(2,3) show ?thesis
      by (intro exI [of _ "l ! s # path"]) (simp add: up)
  qed
qed

lemma tree_nodes_new: "tree_nodes (bitcoin_merkle_tree_new H txs) = txs # upper_levels H txs"
  by (simp add: bitcoin_merkle_tree_new_def upper_levels.simps)

lemma merkle_path:
  assumes "unat i < length txs" "length txs < 2 ^ 32"
  shows "\<exists>path. merkle_generate_proof (bitcoin_merkle_tree_new H txs) i = Some \<lparr> idx = i, merkle_proof = path \<rparr> \<and>
     length path = length (upper_levels H txs) \<and>
     root (bitcoin_merkle_tree_new H txs) = Some (climb H (unat i) path (txs ! unat i))"
proof -
  obtain path where path: "idx_path (unat i) (txs # upper_levels H txs) = Some path"
      "length path = length (upper_levels H txs)"
      "last (txs # upper_levels H txs) = [climb H (unat i) path (txs ! unat i)]"
    using upper_levels_path [OF assms(1)] by blast
  have "i < of_nat (length txs)"
    using assms by (simp add: word_less_nat_alt)
  moreover have "(txs # upper_levels H txs) ! (length (txs # upper_levels H txs) - 1) =
      [climb H (unat i) path (txs ! unat i)]"
    using path(3) last_conv_nth [of "txs # upper_levels H txs"] by simp
  ultimately show ?thesis
    using path(1,2) by (simp add: merkle_generate_proof_def get_idx_path_def tree_nodes_new root_def)
qed

text \<open>The pairs hashed when the tree is built; those hashed along a genuine path are among them.\<close>

definition tree_level_pairs :: "'h list \<Rightarrow> ('h \<times> 'h) list" where
  "tree_level_pairs l =
     map (\<lambda>j. (l ! (2 * j), if 2 * j + 1 < length l then l ! (2 * j + 1) else l ! (2 * j))) [0..<(length l + 1) div 2]"

definition tree_pairs :: "('h \<Rightarrow> 'h \<Rightarrow> 'h) \<Rightarrow> 'h list \<Rightarrow> ('h \<times> 'h) list" where
  "tree_pairs H txs = concat (map tree_level_pairs (butlast (txs # upper_levels H txs)))"

lemma climb_pairs_tree:
  assumes "i < length l" "idx_path i (l # upper_levels H l) = Some path"
  shows "set (climb_pairs H i path (l ! i)) \<subseteq> set (tree_pairs H l)"
  using assms
proof (induction H l arbitrary: i path rule: upper_levels.induct)
  case (1 H l)
  show ?case
  proof (cases "1 < length l")
    case False
    with "1.prems" show ?thesis by (simp add: upper_levels.simps [of H l])
  next
    case True
    let ?n = "next_level H l"
    define s where "s = (if i mod 2 = 1 then i - 1 else if length l - 1 = i then i else i + 1)"
    have up: "upper_levels H l = ?n # upper_levels H ?n"
      using True by (simp add: upper_levels.simps [of H l] Let_def)
    from "1.prems"(2) obtain p where p: "s < length l" "path = l ! s # p"
        "idx_path (i div 2) (?n # upper_levels H ?n) = Some p"
      unfolding up idx_path.simps s_def [symmetric] Let_def by (auto split: if_splits)
    have half: "i div 2 < length ?n" "i div 2 < (length l + 1) div 2" using "1.prems"(1) by simp_all
    let ?pair = "(l ! (2 * (i div 2)), if 2 * (i div 2) + 1 < length l then l ! (2 * (i div 2) + 1) else l ! (2 * (i div 2)))"
    have pair: "(if even i then (l ! i, l ! s) else (l ! s, l ! i)) = ?pair"
    proof (cases "even i")
      case True
      then have "2 * (i div 2) = i" by simp
      with True "1.prems"(1) show ?thesis by (auto simp: s_def)
    next
      case False
      then have "2 * (i div 2) = i - 1" "2 * (i div 2) + 1 = i" "s = i - 1" by (auto simp: s_def elim: oddE)
      with False "1.prems"(1) show ?thesis by simp
    qed
    have "set (climb_pairs H (i div 2) p (?n ! (i div 2))) \<subseteq> set (tree_pairs H ?n)"
      using "1.IH" [OF True refl half(1) p(3)] .
    moreover have "?pair \<in> set (tree_level_pairs l)"
      unfolding tree_level_pairs_def set_map using half(2) by (intro image_eqI [of _ _ "i div 2"]) simp_all
    moreover have "set (tree_pairs H l) = set (tree_level_pairs l) \<union> set (tree_pairs H ?n)"
      by (simp add: tree_pairs_def up)
    moreover have "climb_pairs H i path (l ! i) = ?pair # climb_pairs H (i div 2) p (?n ! (i div 2))"
      unfolding p(2) climb_pairs.simps pair nth_next_level [OF half(1)] by simp
    ultimately show ?thesis by auto
  qed
qed

text \<open>
  A path with as many steps as the tree has levels above the transactions, whatever its index, ends at one
  of the transactions if the pair hash is injective on the pairs hashed.
\<close>

lemma climb_to_root_member:
  assumes "l \<noteq> []" "last (l # upper_levels H l) = [climb H i path x]" "length path = length (upper_levels H l)"
    and "\<And>p q. p \<in> set (climb_pairs H i path x) \<Longrightarrow> q \<in> set (tree_pairs H l) \<Longrightarrow>
      H (fst p) (snd p) = H (fst q) (snd q) \<Longrightarrow> p = q"
  shows "x \<in> set l"
  using assms
proof (induction H l arbitrary: i path x rule: upper_levels.induct)
  case (1 H l)
  show ?case
  proof (cases "1 < length l")
    case False
    then have "upper_levels H l = []" by (simp add: upper_levels.simps [of H l])
    with "1.prems" show ?thesis by simp
  next
    case True
    let ?n = "next_level H l"
    have up: "upper_levels H l = ?n # upper_levels H ?n"
      using True by (simp add: upper_levels.simps [of H l] Let_def)
    obtain s p where path: "path = s # p" using "1.prems"(3) by (cases path) (auto simp: up)
    define ab where "ab = (if even i then (x, s) else (s, x))"
    have pairs: "climb_pairs H i path x = ab # climb_pairs H (i div 2) p (H (fst ab) (snd ab))"
      by (simp add: path ab_def Let_def)
    have "length ?n \<noteq> 0" using True by simp
    then have ne: "?n \<noteq> []" by (metis list.size(3))
    have sub: "set (tree_pairs H l) = set (tree_level_pairs l) \<union> set (tree_pairs H ?n)"
      by (simp add: tree_pairs_def up)
    have "H (fst ab) (snd ab) \<in> set ?n"
    proof (rule "1.IH" [OF True refl ne])
      show "last (?n # upper_levels H ?n) = [climb H (i div 2) p (H (fst ab) (snd ab))]"
        using "1.prems"(2) by (simp add: up path ab_def)
      show "length p = length (upper_levels H ?n)" using "1.prems"(3) by (simp add: up path)
      show "p1 = q" if "p1 \<in> set (climb_pairs H (i div 2) p (H (fst ab) (snd ab)))" "q \<in> set (tree_pairs H ?n)"
        "H (fst p1) (snd p1) = H (fst q) (snd q)" for p1 q
        using that by (intro "1.prems"(4)) (auto simp: pairs sub)
    qed
    then obtain j where j: "j < length ?n" "H (fst ab) (snd ab) = ?n ! j" by (auto simp: in_set_conv_nth)
    define q where "q = (l ! (2 * j), if 2 * j + 1 < length l then l ! (2 * j + 1) else l ! (2 * j))"
    have j2: "2 * j < length l" using j(1) by simp
    have "q \<in> set (tree_level_pairs l)"
      unfolding tree_level_pairs_def set_map q_def using j(1) by (intro image_eqI [of _ _ j]) simp_all
    moreover have "H (fst ab) (snd ab) = H (fst q) (snd q)"
      unfolding j(2) nth_next_level [OF j(1)] q_def by simp
    ultimately have "ab = q" by (intro "1.prems"(4)) (auto simp: pairs sub)
    moreover have "fst q \<in> set l" "snd q \<in> set l" using j2 by (auto simp: q_def)
    ultimately show ?thesis by (auto simp: ab_def split: if_splits)
  qed
qed

section \<open>Properties\<close>

text \<open>
  A Merkle proof leads to the root and only the genuine one does. For a tree over fewer than 2^32
  transactions and an index in range, the generated proof does not panic and verifies against the root
  for the transaction at that index; and any proof of that index with as many steps as the tree has
  levels above the transactions that verifies against the root is for the same transaction with the
  same siblings, unless hashing along the two exhibits a collision.
\<close>

theorem merkle_proof_exact:
  assumes "unat i < length txs" "length txs < 2 ^ 32"
  shows "\<exists>p r. merkle_generate_proof (bitcoin_merkle_tree_new H txs) i = Some p \<and>
     root (bitcoin_merkle_tree_new H txs) = Some r \<and> verify_merkle_proof H (txs ! unat i) p r \<and>
     (verify_merkle_proof H txid \<lparr> idx = i, merkle_proof = path \<rparr> r \<and> length path = length (merkle_proof p) \<longrightarrow>
        txid = txs ! unat i \<and> path = merkle_proof p \<or>
        path_collision H (unat i) path txid (merkle_proof p) (txs ! unat i))"
proof -
  obtain path0 where p: "merkle_generate_proof (bitcoin_merkle_tree_new H txs) i = Some \<lparr> idx = i, merkle_proof = path0 \<rparr>"
      "root (bitcoin_merkle_tree_new H txs) = Some (climb H (unat i) path0 (txs ! unat i))"
    using merkle_path [OF assms] by blast
  then show ?thesis
    using climb_inj [of H "unat i" path txid path0 "txs ! unat i"]
    by (auto simp: verify_merkle_proof_def get_root_def root_loop_climb)
qed

theorem merkle_proof_exact_witness:
  "\<exists>p r. merkle_generate_proof (bitcoin_merkle_tree_new (\<lambda>a b. 10 * a + b) [1, 2, 3 :: nat]) 2 = Some p \<and>
     root (bitcoin_merkle_tree_new (\<lambda>a b. 10 * a + b) [1, 2, 3 :: nat]) = Some r \<and>
     verify_merkle_proof (\<lambda>a b. 10 * a + b) 3 p r"
  using merkle_proof_exact [of 2 "[1, 2, 3 :: nat]" "\<lambda>a b. 10 * a + b" 3 "[3, 12]"] by auto

end
