(* ===== verification/Hashing.thy ===== *)
theory Hashing
  imports MerkleTree
begin

text \<open>
  Fixed-size byte arrays and the hashes of the circuits
  (\<^verbatim>\<open>src/circuits/crates/header-chain/src/utils.rs\<close>). An array \<^verbatim>\<open>[u8; 32]\<close> is the 256-bit word whose
  big-endian bytes it is, so that arrays are compared and hashed by value and conversions between
  \<^verbatim>\<open>[u8; 32]\<close> and \<^verbatim>\<open>U256\<close> in big-endian order are the identity; \<^verbatim>\<open>array_bytes\<close> lists its bytes. SHA-256 is
  the parameter \<open>sha256\<close> from byte strings to such arrays.

  The lemmas show that the byte lists determine the words, so that a collision of a hash of arrays is
  a collision of SHA-256 on different byte strings.
\<close>

section \<open>Definitions\<close>

type_synonym hash32 = "256 word"

definition word_byte :: "'a::len word \<Rightarrow> nat \<Rightarrow> 8 word" where
  "word_byte w i = ucast (drop_bit (8 * i) w)"

text \<open>The bytes of an array \<^verbatim>\<open>[u8; 32]\<close> in order.\<close>

definition array_bytes :: "hash32 \<Rightarrow> bytes" where
  "array_bytes w = map (\<lambda>i. word_byte w (31 - i)) [0..<32]"

definition to_le_bytes :: "nat \<Rightarrow> 'a::len word \<Rightarrow> bytes" where
  "to_le_bytes n w = map (word_byte w) [0..<n]"

definition to_be_bytes :: "nat \<Rightarrow> 'a::len word \<Rightarrow> bytes" where
  "to_be_bytes n w = rev (to_le_bytes n w)"

definition from_le_bytes :: "bytes \<Rightarrow> 'a::len word" where
  "from_le_bytes bs = foldr (\<lambda>b w. push_bit 8 w OR ucast b) bs 0"

definition from_be_bytes :: "bytes \<Rightarrow> 'a::len word" where
  "from_be_bytes bs = from_le_bytes (rev bs)"

definition calculate_double_sha256 :: "(bytes \<Rightarrow> hash32) \<Rightarrow> bytes \<Rightarrow> hash32" where
  "calculate_double_sha256 sha256 input = sha256 (array_bytes (sha256 input))"

definition hash_pair :: "(bytes \<Rightarrow> hash32) \<Rightarrow> hash32 \<Rightarrow> hash32 \<Rightarrow> hash32" where
  "hash_pair sha256 left right = sha256 (array_bytes left @ array_bytes right)"

text \<open>The pair hash of the Merkle tree: the double hash of the 64-byte preimage.\<close>

definition merkle_pair :: "(bytes \<Rightarrow> hash32) \<Rightarrow> hash32 \<Rightarrow> hash32 \<Rightarrow> hash32" where
  "merkle_pair sha256 left right = calculate_double_sha256 sha256 (array_bytes left @ array_bytes right)"

section \<open>Bytes determine words\<close>

lemma bit_word_byte: "bit (word_byte w i) k \<longleftrightarrow> k < 8 \<and> bit w (8 * i + k)"
  by (auto simp: word_byte_def bit_ucast_iff bit_drop_bit_eq)

lemma word_eqI_bytes:
  assumes "LENGTH('a::len) = 8 * n" "\<And>i. i < n \<Longrightarrow> word_byte v i = word_byte w i"
  shows "(v :: 'a word) = w"
proof (rule bit_word_eqI)
  fix k
  assume "k < LENGTH('a)"
  then have i: "k div 8 < n" using assms(1) by simp
  have "8 * (k div 8) + k mod 8 = k" by simp
  with assms(2) [OF i] show "bit v k = bit w k"
    using bit_word_byte [of v "k div 8" "k mod 8"] bit_word_byte [of w "k div 8" "k mod 8"] by simp
qed

lemma length_to_le_bytes [simp]: "length (to_le_bytes n w) = n"
  by (simp add: to_le_bytes_def)

lemma length_to_be_bytes [simp]: "length (to_be_bytes n w) = n"
  by (simp add: to_be_bytes_def)

lemma to_le_bytes_inj: "LENGTH('a::len) = 8 * n \<Longrightarrow> to_le_bytes n (v :: 'a word) = to_le_bytes n w \<longleftrightarrow> v = w"
  by (auto simp: to_le_bytes_def intro: word_eqI_bytes)

lemma to_be_bytes_inj: "LENGTH('a::len) = 8 * n \<Longrightarrow> to_be_bytes n (v :: 'a word) = to_be_bytes n w \<longleftrightarrow> v = w"
  by (simp add: to_be_bytes_def to_le_bytes_inj)

lemma array_bytes_be: "array_bytes w = to_be_bytes 32 w"
  by (rule nth_equalityI) (simp_all add: array_bytes_def to_be_bytes_def to_le_bytes_def rev_nth)

lemma length_array_bytes [simp]: "length (array_bytes w) = 32"
  by (simp add: array_bytes_def)

lemma array_bytes_inj [simp]: "array_bytes v = array_bytes w \<longleftrightarrow> v = w"
  by (simp add: array_bytes_be to_be_bytes_inj)

lemma from_to_le_bytes:
  "LENGTH('a::len) = 8 * n \<Longrightarrow> from_le_bytes (to_le_bytes n (w :: 'a word)) = w"
proof -
  assume len: "LENGTH('a) = 8 * n"
  have "bit (from_le_bytes (map (word_byte w) [i..<i + m]) :: 'a word) k \<longleftrightarrow> k < 8 * m \<and> bit w (8 * i + k) \<and> k < LENGTH('a)" for i m k
  proof (induction m arbitrary: i k)
    case 0
    then show ?case by (simp add: from_le_bytes_def)
  next
    case (Suc m)
    have "[i..<i + Suc m] = i # [Suc i..<Suc i + m]" by (simp add: upt_rec)
    then have "bit (from_le_bytes (map (word_byte w) [i..<i + Suc m]) :: 'a word) k \<longleftrightarrow>
        bit (push_bit 8 (from_le_bytes (map (word_byte w) [Suc i..<Suc i + m]) :: 'a word) OR ucast (word_byte w i)) k"
      by (simp add: from_le_bytes_def)
    also have "\<dots> \<longleftrightarrow> k < 8 * Suc m \<and> bit w (8 * i + k) \<and> k < LENGTH('a)"
      unfolding bit_or_iff bit_push_bit_iff bit_ucast_iff bit_word_byte Suc.IH
      by (cases "k < 8") (auto simp: algebra_simps)
    finally show ?case .
  qed
  from this [of 0 n] show ?thesis
    unfolding to_le_bytes_def by (intro bit_word_eqI) (auto simp: len)
qed

lemma from_to_be_bytes:
  "LENGTH('a::len) = 8 * n \<Longrightarrow> from_be_bytes (to_be_bytes n (w :: 'a word)) = w"
  by (simp add: from_be_bytes_def to_be_bytes_def from_to_le_bytes)

text \<open>The numbers that byte strings denote.\<close>

definition le_nat :: "bytes \<Rightarrow> nat" where
  "le_nat bs = foldr (\<lambda>b a. unat b + 256 * a) bs 0"

definition be_nat :: "bytes \<Rightarrow> nat" where
  "be_nat bs = le_nat (rev bs)"

lemma unat_word_byte: "unat (word_byte w i) = unat w div 2 ^ (8 * i) mod 256"
proof -
  have "unat (word_byte w i) = take_bit 8 (unat (drop_bit (8 * i) w))"
    unfolding word_byte_def by (simp add: unsigned_ucast_eq)
  also have "unat (drop_bit (8 * i) w) = unat w div 2 ^ (8 * i)"
    by (simp add: unsigned_drop_bit_eq drop_bit_eq_div [where ?'a = nat] take_bit_nat_eq_self del: drop_bit_eq_div)
  finally show ?thesis by (simp add: take_bit_eq_mod)
qed

lemma le_nat_to_le_bytes:
  assumes "LENGTH('a::len) = 8 * n"
  shows "le_nat (to_le_bytes n (w :: 'a word)) = unat w"
proof -
  have "le_nat (map (word_byte w) [i..<i + m]) = unat w div 2 ^ (8 * i) mod 2 ^ (8 * m)" for i m
  proof (induction m arbitrary: i)
    case 0
    then show ?case by (simp add: le_nat_def)
  next
    case (Suc m)
    define u where "u = unat w div 2 ^ (8 * i)"
    have "[i..<i + Suc m] = i # [Suc i..<Suc i + m]" by (simp add: upt_rec)
    then have "le_nat (map (word_byte w) [i..<i + Suc m]) = unat (word_byte w i) + 256 * le_nat (map (word_byte w) [Suc i..<Suc i + m])"
      by (simp add: le_nat_def)
    also have "\<dots> = u mod 256 + 256 * (u div 256 mod 2 ^ (8 * m))"
    proof -
      have "(2 :: nat) ^ (8 * Suc i) = 2 ^ (8 * i) * 256" by (simp add: power_add)
      then show ?thesis unfolding Suc.IH unat_word_byte u_def by (simp only: div_mult2_eq)
    qed
    also have "\<dots> = u mod (256 * 2 ^ (8 * m))" by (simp add: mod_mult2_eq)
    finally show ?case unfolding u_def by (simp add: power_add)
  qed
  from this [of 0 n] unsigned_less [of w, where ?'a = nat] assms show ?thesis
    by (simp add: to_le_bytes_def)
qed

lemma be_nat_array_bytes [simp]: "be_nat (array_bytes w) = unat w"
  by (simp add: be_nat_def array_bytes_be to_be_bytes_def le_nat_to_le_bytes)

lemma be_nat_Cons: "be_nat (b # bs) = unat b * 256 ^ length bs + be_nat bs"
proof -
  have "le_nat (xs @ [b]) = le_nat xs + unat b * 256 ^ length xs" for xs
    by (induction xs) (simp_all add: le_nat_def algebra_simps)
  then show ?thesis by (simp add: be_nat_def)
qed

lemma be_nat_less: "be_nat bs < 256 ^ length bs"
proof (induction bs)
  case (Cons b bs)
  have "unat b + 1 \<le> 256" using unsigned_less [of b, where ?'a = nat] by simp
  then have "(unat b + 1) * 256 ^ length bs \<le> 256 * (256 ^ length bs :: nat)" by (rule mult_le_mono1)
  then have "unat b * 256 ^ length bs + 256 ^ length bs \<le> 256 * (256 ^ length bs :: nat)"
    by (simp only: distrib_right mult_1)
  with Cons have "unat b * 256 ^ length bs + be_nat bs < 256 * 256 ^ length bs" by linarith
  then show ?case by (simp add: be_nat_Cons)
qed (simp add: be_nat_def le_nat_def)

lemma append_array_bytes_inj [simp]:
  "array_bytes a @ x = array_bytes b @ y \<longleftrightarrow> a = b \<and> x = y"
  by (simp add: append_eq_append_conv)

section \<open>Collisions\<close>

text \<open>The two byte strings are different and have the same hash.\<close>

definition collides :: "(bytes \<Rightarrow> hash32) \<Rightarrow> bytes \<Rightarrow> bytes \<Rightarrow> bool" where
  "collides sha256 x y \<longleftrightarrow> x \<noteq> y \<and> sha256 x = sha256 y"

lemma hash_pair_collides:
  "hash_pair sha256 a b = hash_pair sha256 c d \<Longrightarrow> (a, b) \<noteq> (c, d) \<Longrightarrow>
   collides sha256 (array_bytes a @ array_bytes b) (array_bytes c @ array_bytes d)"
  by (auto simp: hash_pair_def collides_def)

text \<open>A double hash that agrees on different inputs collides at the outer or at the inner hash.\<close>

lemma double_sha256_collides:
  "calculate_double_sha256 sha256 x = calculate_double_sha256 sha256 y \<Longrightarrow> x \<noteq> y \<Longrightarrow>
   collides sha256 x y \<or> collides sha256 (array_bytes (sha256 x)) (array_bytes (sha256 y))"
  by (auto simp: calculate_double_sha256_def collides_def)

end
