(* ===== verification/ProgramHistory.thy ===== *)
theory ProgramHistory
  imports Hashing
begin

text \<open>
  The identities of the proving programs (\<^verbatim>\<open>src/circuits/crates/verifier/src/lib.rs\<close>): the identity derived
  from a verifying key, the hash chain that records which programs took part in a recursive proof, the
  checkpoints taken at an upgrade, and the verification of a Groth16 proof.

  The verifier of \<^verbatim>\<open>zkm_verifier\<close> (the bundled keys, the decoding of a key hash, the pairing check) is the
  parameter \<^verbatim>\<open>zkm_verifier\<close>. Errors are values of a sum type.

  The lemmas show that a finalised history determines the list of programs, provided SHA-256 is
  injective on the finitely many strings hashed.
\<close>

section \<open>Definitions\<close>

type_synonym program_id = hash32

datatype ProgramType = Header | State

definition program_type_byte :: "ProgramType \<Rightarrow> 8 word" where
  "program_type_byte t = (case t of Header \<Rightarrow> 1 | State \<Rightarrow> 2)"

definition tagged_hash :: "(bytes \<Rightarrow> hash32) \<Rightarrow> bytes \<Rightarrow> bytes list \<Rightarrow> hash32" where
  "tagged_hash sha256 tag parts = sha256 (tag @ concat parts)"

text \<open>What the program calls of \<^verbatim>\<open>zkm_verifier\<close>.\<close>

record zkm_verifier =
  try_get_part_stark_vk :: "string \<Rightarrow> bytes option"
  decode_zkm_vkey_hash :: "string \<Rightarrow> hash32 option"
  imm_groth16_vk_bytes :: bytes
  verify_by_imm_groth16_vk :: "bytes \<Rightarrow> bytes \<Rightarrow> string \<Rightarrow> bytes \<Rightarrow> bytes \<Rightarrow> bool"

datatype verifier_error = NotUtf8 | NoPartStarkVk string | BadVkeyHash | BadGroth16Proof

definition bundled_part_stark_vk :: "zkm_verifier \<Rightarrow> string \<Rightarrow> verifier_error + bytes" where
  "bundled_part_stark_vk z zkm_version =
     (case try_get_part_stark_vk z zkm_version of None \<Rightarrow> Inl (NoPartStarkVk zkm_version) | Some vk \<Rightarrow> Inr vk)"

definition program_id_with_part_vk ::
  "(bytes \<Rightarrow> hash32) \<Rightarrow> zkm_verifier \<Rightarrow> string \<Rightarrow> bytes \<Rightarrow> verifier_error + program_id" where
  "program_id_with_part_vk sha256 z zkm_vk_hash part_stark_vk =
     (case decode_zkm_vkey_hash z zkm_vk_hash of
        None \<Rightarrow> Inl BadVkeyHash
      | Some vk_hash \<Rightarrow>
          Inr (tagged_hash sha256 (as_bytes ''bitvm/program-id/v1'')
                [array_bytes vk_hash, array_bytes (sha256 part_stark_vk)]))"

text \<open>
  \<^verbatim>\<open>String::from_utf8\<close>: the well-formed byte sequences of the Unicode standard; the string keeps the bytes.
\<close>

definition utf8_cont :: "8 word \<Rightarrow> bool" where
  "utf8_cont b \<longleftrightarrow> 0x80 \<le> b \<and> b \<le> 0xBF"

fun utf8_valid :: "bytes \<Rightarrow> bool" where
  "utf8_valid [] = True"
| "utf8_valid (a # bs) =
     (if a < 0x80 then utf8_valid bs
      else case bs of
        b # bs1 \<Rightarrow>
          (if 0xC2 \<le> a \<and> a \<le> 0xDF then utf8_cont b \<and> utf8_valid bs1
           else (case bs1 of
             c # bs2 \<Rightarrow>
               (if 0xE0 \<le> a \<and> a \<le> 0xEF
                then utf8_cont b \<and> utf8_cont c \<and> (a = 0xE0 \<longrightarrow> 0xA0 \<le> b) \<and> (a = 0xED \<longrightarrow> b \<le> 0x9F) \<and> utf8_valid bs2
                else (case bs2 of
                  d # bs3 \<Rightarrow>
                    0xF0 \<le> a \<and> a \<le> 0xF4 \<and> utf8_cont b \<and> utf8_cont c \<and> utf8_cont d \<and>
                    (a = 0xF0 \<longrightarrow> 0x90 \<le> b) \<and> (a = 0xF4 \<longrightarrow> b \<le> 0x8F) \<and> utf8_valid bs3
                | [] \<Rightarrow> False))
           | [] \<Rightarrow> False))
      | [] \<Rightarrow> False)"

definition from_utf8 :: "bytes \<Rightarrow> string option" where
  "from_utf8 bs = (if utf8_valid bs then Some (map (\<lambda>b. char_of (unat b)) bs) else None)"

definition program_id ::
  "(bytes \<Rightarrow> hash32) \<Rightarrow> zkm_verifier \<Rightarrow> bytes \<Rightarrow> string \<Rightarrow> verifier_error + program_id" where
  "program_id sha256 z zkm_vk_hash zkm_version =
     (case from_utf8 zkm_vk_hash of
        None \<Rightarrow> Inl NotUtf8
      | Some vk \<Rightarrow>
          (case bundled_part_stark_vk z zkm_version of
             Inl e \<Rightarrow> Inl e
           | Inr part_vk \<Rightarrow> program_id_with_part_vk sha256 z vk part_vk))"

definition initial_history :: "(bytes \<Rightarrow> hash32) \<Rightarrow> ProgramType \<Rightarrow> hash32" where
  "initial_history sha256 program_type =
     tagged_hash sha256 (as_bytes ''bitvm/vk-history-seed/v1'') [[program_type_byte program_type]]"

definition next_history ::
  "(bytes \<Rightarrow> hash32) \<Rightarrow> ProgramType \<Rightarrow> hash32 \<Rightarrow> program_id \<Rightarrow> program_id \<Rightarrow> hash32" where
  "next_history sha256 program_type previous_history previous_program_id current_program_id =
     (if previous_program_id = current_program_id then previous_history
      else tagged_hash sha256 (as_bytes ''bitvm/vk-history-step/v1'')
        [[program_type_byte program_type], array_bytes previous_history, array_bytes previous_program_id])"

definition finalize_history :: "(bytes \<Rightarrow> hash32) \<Rightarrow> ProgramType \<Rightarrow> hash32 \<Rightarrow> program_id \<Rightarrow> hash32" where
  "finalize_history sha256 program_type history current_program_id =
     tagged_hash sha256 (as_bytes ''bitvm/vk-history-final/v1'')
       [[program_type_byte program_type], array_bytes history, array_bytes current_program_id]"

definition program_history_root :: "(bytes \<Rightarrow> hash32) \<Rightarrow> hash32 \<Rightarrow> hash32 \<Rightarrow> hash32" where
  "program_history_root sha256 header_history state_history =
     tagged_hash sha256 (as_bytes ''bitvm/program-history/v1'') [array_bytes header_history, array_bytes state_history]"

definition proof_checkpoint ::
  "(bytes \<Rightarrow> hash32) \<Rightarrow> ProgramType \<Rightarrow> hash32 \<Rightarrow> program_id \<Rightarrow> program_id \<Rightarrow> bytes \<Rightarrow> hash32" where
  "proof_checkpoint sha256 program_type previous_checkpoint previous_program_id current_program_id
     previous_public_values =
     tagged_hash sha256 (as_bytes ''bitvm/proof-upgrade/v1'')
       [[program_type_byte program_type], array_bytes previous_checkpoint, array_bytes previous_program_id,
        array_bytes current_program_id, array_bytes (sha256 previous_public_values)]"

definition proof_checkpoint_root :: "(bytes \<Rightarrow> hash32) \<Rightarrow> hash32 \<Rightarrow> hash32 \<Rightarrow> hash32" where
  "proof_checkpoint_root sha256 header_checkpoint state_checkpoint =
     tagged_hash sha256 (as_bytes ''bitvm/proof-checkpoint-root/v1'')
       [array_bytes header_checkpoint, array_bytes state_checkpoint]"

definition verify_groth16_proof ::
  "(bytes \<Rightarrow> hash32) \<Rightarrow> zkm_verifier \<Rightarrow> bytes \<Rightarrow> bytes \<Rightarrow> bytes \<Rightarrow> string \<Rightarrow> verifier_error + program_id" where
  "verify_groth16_proof sha256 z prf zkm_public_values zkm_vk_hash zkm_version =
     (case from_utf8 zkm_vk_hash of
        None \<Rightarrow> Inl NotUtf8
      | Some vk \<Rightarrow>
          (case bundled_part_stark_vk z zkm_version of
             Inl e \<Rightarrow> Inl e
           | Inr part_vk \<Rightarrow>
               if verify_by_imm_groth16_vk z prf zkm_public_values vk (imm_groth16_vk_bytes z) part_vk
               then program_id_with_part_vk sha256 z vk part_vk
               else Inl BadGroth16Proof))"

section \<open>Histories\<close>

text \<open>
  The strings hashed for a history, and the history of a list of programs, the latest first: each
  program that differs from its predecessor adds a step.
\<close>

definition seed_preimage :: "ProgramType \<Rightarrow> bytes" where
  "seed_preimage t = as_bytes ''bitvm/vk-history-seed/v1'' @ [program_type_byte t]"

definition step_preimage :: "ProgramType \<Rightarrow> hash32 \<Rightarrow> program_id \<Rightarrow> bytes" where
  "step_preimage t h p = as_bytes ''bitvm/vk-history-step/v1'' @ [program_type_byte t] @ array_bytes h @ array_bytes p"

definition final_preimage :: "ProgramType \<Rightarrow> hash32 \<Rightarrow> program_id \<Rightarrow> bytes" where
  "final_preimage t h p = as_bytes ''bitvm/vk-history-final/v1'' @ [program_type_byte t] @ array_bytes h @ array_bytes p"

fun history_of :: "(bytes \<Rightarrow> hash32) \<Rightarrow> ProgramType \<Rightarrow> program_id list \<Rightarrow> hash32" where
  "history_of sha256 t (q # p # ps) = next_history sha256 t (history_of sha256 t (p # ps)) p q"
| "history_of sha256 t ps = initial_history sha256 t"

fun history_strings :: "(bytes \<Rightarrow> hash32) \<Rightarrow> ProgramType \<Rightarrow> program_id list \<Rightarrow> bytes set" where
  "history_strings sha256 t (q # p # ps) =
     insert (step_preimage t (history_of sha256 t (p # ps)) p) (history_strings sha256 t (p # ps))"
| "history_strings sha256 t ps = {seed_preimage t}"

lemma finite_history_strings: "finite (history_strings sha256 t ps)"
  by (induction sha256 t ps rule: history_strings.induct) auto

lemma initial_history_alt: "initial_history sha256 t = sha256 (seed_preimage t)"
  by (simp add: initial_history_def tagged_hash_def seed_preimage_def)

lemma next_history_alt:
  "next_history sha256 t h p q = (if p = q then h else sha256 (step_preimage t h p))"
  by (simp add: next_history_def tagged_hash_def step_preimage_def)

lemma finalize_history_alt: "finalize_history sha256 t h p = sha256 (final_preimage t h p)"
  by (simp add: finalize_history_def tagged_hash_def final_preimage_def)

lemma array_bytes_pair_inj:
  "array_bytes a @ array_bytes b = array_bytes c @ array_bytes d \<longleftrightarrow> a = c \<and> b = d"
  by simp

lemma step_preimage_inj [simp]: "step_preimage t h p = step_preimage t h' p' \<longleftrightarrow> h = h' \<and> p = p'"
  by (simp add: step_preimage_def)

lemma final_preimage_inj [simp]: "final_preimage t h p = final_preimage t h' p' \<longleftrightarrow> h = h' \<and> p = p'"
  by (simp add: final_preimage_def)

lemma seed_not_step [simp]: "seed_preimage t \<noteq> step_preimage t h p" "step_preimage t h p \<noteq> seed_preimage t"
proof -
  have "length (seed_preimage t) < length (step_preimage t h p)"
    by (simp add: seed_preimage_def step_preimage_def as_bytes_def)
  then show "seed_preimage t \<noteq> step_preimage t h p" "step_preimage t h p \<noteq> seed_preimage t" by auto
qed

text \<open>
  A history value that some computation reached: the history after the programs \<open>ps\<close>, given that SHA-256
  is injective on the strings hashed, is reached in one way only.
\<close>

lemma history_of_cases:
  assumes "distinct_adj (p # ps)"
  shows "ps = [] \<and> history_of sha256 t (p # ps) = sha256 (seed_preimage t) \<or>
    (\<exists>q qs. ps = q # qs \<and>
       history_of sha256 t (p # ps) = sha256 (step_preimage t (history_of sha256 t (q # qs)) q))"
  using assms by (cases ps) (auto simp: initial_history_alt next_history_alt)

lemma history_of_inj:
  assumes "distinct_adj (p # ps)" "distinct_adj (p # qs)"
    and "inj_on sha256 S" "history_strings sha256 t (p # ps) \<subseteq> S" "history_strings sha256 t (p # qs) \<subseteq> S"
    and "history_of sha256 t (p # ps) = history_of sha256 t (p # qs)"
  shows "ps = qs"
  using assms
proof (induction ps arbitrary: p qs)
  case Nil
  show ?case
  proof (cases qs)
    case (Cons q qs')
    with Nil have "sha256 (seed_preimage t) = sha256 (step_preimage t (history_of sha256 t qs) q)"
      by (simp add: initial_history_alt next_history_alt split: if_splits)
    with Nil Cons have "seed_preimage t = step_preimage t (history_of sha256 t qs) q"
      by (auto dest: inj_onD)
    then show ?thesis by simp
  qed simp
next
  case (Cons r ps)
  show ?case
  proof (cases qs)
    case Nil
    with Cons.prems have "sha256 (seed_preimage t) = sha256 (step_preimage t (history_of sha256 t (r # ps)) r)"
      by (simp add: initial_history_alt next_history_alt split: if_splits)
    with Cons.prems Nil have "seed_preimage t = step_preimage t (history_of sha256 t (r # ps)) r"
      by (auto dest: inj_onD)
    then show ?thesis by simp
  next
    case (Cons q qs')
    with Cons.prems have
      "sha256 (step_preimage t (history_of sha256 t (r # ps)) r) =
       sha256 (step_preimage t (history_of sha256 t (q # qs')) q)"
      by (simp add: next_history_alt split: if_splits)
    with Cons.prems Cons have "step_preimage t (history_of sha256 t (r # ps)) r = step_preimage t (history_of sha256 t (q # qs')) q"
      by (auto dest: inj_onD)
    then have "r = q" "history_of sha256 t (r # ps) = history_of sha256 t (r # qs')" by auto
    moreover have "ps = qs'"
      using Cons.prems Cons \<open>r = q\<close> \<open>history_of sha256 t (r # ps) = history_of sha256 t (r # qs')\<close>
      by (intro Cons.IH [of r qs']) (auto split: if_splits)
    ultimately show ?thesis using Cons by simp
  qed
qed

section \<open>Recursive proofs\<close>

text \<open>
  What recursive proving can produce when the proof system is sound: an output of a genuine program (an
  identity in \<open>G\<close>) comes from a first run or from a run on an output proved before, and a foreign program
  outputs what it likes. \<open>S\<close> contains the strings that the genuine runs hash for the history.
\<close>

inductive recursively_proved ::
  "ProgramType \<Rightarrow> ('o \<Rightarrow> hash32) \<Rightarrow> (program_id \<Rightarrow> 'o \<Rightarrow> bool) \<Rightarrow> (program_id \<Rightarrow> 'o \<Rightarrow> program_id \<Rightarrow> 'o \<Rightarrow> bool) \<Rightarrow>
   program_id set \<Rightarrow> bytes set \<Rightarrow> program_id \<Rightarrow> 'o \<Rightarrow> bool"
  for t history first_run next_run G S where
  foreign: "pid \<notin> G \<Longrightarrow> recursively_proved t history first_run next_run G S pid out"
| from_genesis:
    "first_run pid out \<Longrightarrow> seed_preimage t \<in> S \<Longrightarrow> recursively_proved t history first_run next_run G S pid out"
| from_previous:
    "next_run pid prev self out \<Longrightarrow> recursively_proved t history first_run next_run G S pid prev \<Longrightarrow>
     step_preimage t (history prev) pid \<in> S \<Longrightarrow> recursively_proved t history first_run next_run G S self out"

text \<open>
  The contract of a recursive circuit: it keeps the history as the verifier library prescribes, and
  \<open>good\<close> outputs come from good ones.
\<close>

locale recursive_program =
  fixes sha256 :: "bytes \<Rightarrow> hash32"
    and t :: ProgramType
    and history :: "'o \<Rightarrow> hash32"
    and first_run :: "program_id \<Rightarrow> 'o \<Rightarrow> bool"
    and next_run :: "program_id \<Rightarrow> 'o \<Rightarrow> program_id \<Rightarrow> 'o \<Rightarrow> bool"
    and good :: "'o \<Rightarrow> bool"
  assumes first_history: "first_run pid out \<Longrightarrow> history out = initial_history sha256 t"
    and first_good: "first_run pid out \<Longrightarrow> good out"
    and next_step: "next_run pid prev self out \<Longrightarrow> history out = next_history sha256 t (history prev) pid self"
    and next_good: "next_run pid prev self out \<Longrightarrow> good prev \<Longrightarrow> good out"
begin

text \<open>A proof whose history is that of genuine programs has a good output.\<close>

lemma proved_good:
  assumes "recursively_proved t history first_run next_run G S pid out" "inj_on sha256 S"
    "set (pid # ps) \<subseteq> G" "distinct_adj (pid # ps)" "history_strings sha256 t (pid # ps) \<subseteq> S"
    "history out = history_of sha256 t (pid # ps)"
  shows "good out"
  using assms
proof (induction arbitrary: ps rule: recursively_proved.induct)
  case (from_genesis pid out)
  then show ?case using first_good by blast
next
  case (from_previous pid prev self out)
  have "good prev"
  proof (cases "pid = self")
    case True
    then show ?thesis
      using next_step [OF from_previous.hyps(1)] from_previous.prems from_previous.IH [of ps] by (simp add: next_history_alt)
  next
    case False
    have hash: "sha256 (step_preimage t (history prev) pid) = history_of sha256 t (self # ps)"
      using next_step [OF from_previous.hyps(1)] from_previous.prems False by (simp add: next_history_alt)
    show ?thesis
    proof (cases ps)
      case Nil
      with hash have "sha256 (step_preimage t (history prev) pid) = sha256 (seed_preimage t)"
        by (simp add: initial_history_alt)
      then have "step_preimage t (history prev) pid = seed_preimage t"
        using from_previous.prems Nil from_previous.hyps(3) by (auto dest: inj_onD)
      then show ?thesis by simp
    next
      case (Cons q qs)
      with hash from_previous.prems have
        "sha256 (step_preimage t (history prev) pid) = sha256 (step_preimage t (history_of sha256 t (q # qs)) q)"
        by (simp add: next_history_alt split: if_splits)
      then have "step_preimage t (history prev) pid = step_preimage t (history_of sha256 t (q # qs)) q"
        using from_previous.prems Cons from_previous.hyps(3) by (auto dest: inj_onD)
      then have "pid = q" "history prev = history_of sha256 t (pid # qs)" by simp_all
      with from_previous.prems Cons show ?thesis
        by (intro from_previous.IH [of qs]) auto
    qed
  qed
  then show ?case using next_good [OF from_previous.hyps(1)] by blast
qed auto

text \<open>The same for the finalised history, which is what a commitment carries.\<close>

lemma finalized_good:
  assumes "recursively_proved t history first_run next_run G S pid out" "inj_on sha256 S"
    and "set (p # ps) \<subseteq> G" "distinct_adj (p # ps)" "history_strings sha256 t (p # ps) \<subseteq> S"
    and "final_preimage t (history out) pid \<in> S" "final_preimage t (history_of sha256 t (p # ps)) p \<in> S"
    and "finalize_history sha256 t (history out) pid = finalize_history sha256 t (history_of sha256 t (p # ps)) p"
  shows "good out"
proof -
  have "final_preimage t (history out) pid = final_preimage t (history_of sha256 t (p # ps)) p"
    using assms(2,6,7,8) by (simp only: finalize_history_alt inj_on_eq_iff)
  then show ?thesis using proved_good [OF assms(1,2), of ps] assms(3,4,5) by simp
qed

end

end
