(* ===== verification/Timelocks.thy ===== *)
theory Timelocks
  imports Prelude
begin

unbundle bit_operations_syntax

text \<open>
  The protocol timelocks (\<^verbatim>\<open>src/crates/bitvm-gc/src/timelocks.rs\<close>): the shipped configurations, the
  timing budget of each network and the validation every node applies to a graph's timelocks before
  it accepts them. \<^verbatim>\<open>Network\<close> and \<^verbatim>\<open>TimelockConfig\<close> are the types of the \<^verbatim>\<open>bitcoin\<close> and \<^verbatim>\<open>goat\<close> crates;
  their constructors and fields are the ones the source names. A rejected configuration is an error
  value that names the check and the numbers its message prints.

  The lemmas turn the validation into inequalities over the natural numbers.
\<close>

section \<open>Definitions\<close>

datatype Network = Bitcoin | Testnet | Testnet4 | Signet | Regtest

record timelock_config =
  connector_z :: "32 word"
  connector_a :: "32 word"
  prover_connector :: "32 word"
  connector_d :: "32 word"
  watchtower_challenge :: "32 word"
  operator_ack :: "32 word"
  operator_commit :: "32 word"
  connector_f :: "32 word"

definition NODE_BITCOIN_TIMELOCK_CONFIG :: timelock_config where
  "NODE_BITCOIN_TIMELOCK_CONFIG = \<lparr>
     connector_z = 144, connector_a = 144, prover_connector = 144, connector_d = 432,
     watchtower_challenge = 144, operator_ack = 288, operator_commit = 432, connector_f = 576 \<rparr>"

definition NODE_TESTNET_TIMELOCK_CONFIG :: timelock_config where
  "NODE_TESTNET_TIMELOCK_CONFIG = \<lparr>
     connector_z = 100, connector_a = 6, prover_connector = 16, connector_d = 32,
     watchtower_challenge = 20, operator_ack = 28, operator_commit = 42, connector_f = 56 \<rparr>"

definition NODE_SIGNET_TIMELOCK_CONFIG :: timelock_config where
  "NODE_SIGNET_TIMELOCK_CONFIG = \<lparr>
     connector_z = 6, connector_a = 6, prover_connector = 6, connector_d = 18,
     watchtower_challenge = 6, operator_ack = 12, operator_commit = 18, connector_f = 24 \<rparr>"

definition NODE_REGTEST_TIMELOCK_CONFIG :: timelock_config where
  "NODE_REGTEST_TIMELOCK_CONFIG = \<lparr>
     connector_z = 60, connector_a = 2, prover_connector = 1, connector_d = 3,
     watchtower_challenge = 1, operator_ack = 2, operator_commit = 3, connector_f = 4 \<rparr>"

definition default_timelock_config :: "Network \<Rightarrow> timelock_config" where
  "default_timelock_config network =
     (case network of
        Bitcoin \<Rightarrow> NODE_BITCOIN_TIMELOCK_CONFIG
      | Testnet \<Rightarrow> NODE_TESTNET_TIMELOCK_CONFIG
      | Testnet4 \<Rightarrow> NODE_TESTNET_TIMELOCK_CONFIG
      | Signet \<Rightarrow> NODE_SIGNET_TIMELOCK_CONFIG
      | Regtest \<Rightarrow> NODE_REGTEST_TIMELOCK_CONFIG)"

definition estimated_block_interval_secs :: "Network \<Rightarrow> int" where
  "estimated_block_interval_secs network =
     (case network of Bitcoin \<Rightarrow> 600 | Testnet \<Rightarrow> 300 | Testnet4 \<Rightarrow> 300 | Signet \<Rightarrow> 60 | Regtest \<Rightarrow> 60)"

record protocol_timing_budget =
  evidence_confirmations :: "32 word"
  reaction_blocks :: "32 word"
  watchtower_proof_blocks :: "32 word"
  inclusion_blocks :: "32 word"
  safety_blocks :: "32 word"

definition action_window :: "protocol_timing_budget \<Rightarrow> 32 word" where
  "action_window b =
     saturating_add (saturating_add (reaction_blocks b) (inclusion_blocks b)) (safety_blocks b)"

definition watchtower_proof_window :: "protocol_timing_budget \<Rightarrow> 32 word" where
  "watchtower_proof_window b = saturating_add (action_window b) (watchtower_proof_blocks b)"

definition confirmed_action_window :: "protocol_timing_budget \<Rightarrow> 32 word" where
  "confirmed_action_window b =
     saturating_add (saturating_add (evidence_confirmations b) (inclusion_blocks b)) (safety_blocks b)"

definition BITCOIN_TIMING_BUDGET :: protocol_timing_budget where
  "BITCOIN_TIMING_BUDGET = \<lparr> evidence_confirmations = 6, reaction_blocks = 6,
     watchtower_proof_blocks = 24, inclusion_blocks = 6, safety_blocks = 6 \<rparr>"

definition TESTNET_TIMING_BUDGET :: protocol_timing_budget where
  "TESTNET_TIMING_BUDGET = \<lparr> evidence_confirmations = 10, reaction_blocks = 2,
     watchtower_proof_blocks = 12, inclusion_blocks = 2, safety_blocks = 2 \<rparr>"

definition SIGNET_TIMING_BUDGET :: protocol_timing_budget where
  "SIGNET_TIMING_BUDGET = \<lparr> evidence_confirmations = 1, reaction_blocks = 1,
     watchtower_proof_blocks = 2, inclusion_blocks = 1, safety_blocks = 1 \<rparr>"

definition REGTEST_TIMING_BUDGET :: protocol_timing_budget where
  "REGTEST_TIMING_BUDGET = \<lparr> evidence_confirmations = 0, reaction_blocks = 1,
     watchtower_proof_blocks = 0, inclusion_blocks = 0, safety_blocks = 0 \<rparr>"

definition timing_budget :: "Network \<Rightarrow> protocol_timing_budget" where
  "timing_budget network =
     (case network of
        Bitcoin \<Rightarrow> BITCOIN_TIMING_BUDGET
      | Testnet \<Rightarrow> TESTNET_TIMING_BUDGET
      | Testnet4 \<Rightarrow> TESTNET_TIMING_BUDGET
      | Signet \<Rightarrow> SIGNET_TIMING_BUDGET
      | Regtest \<Rightarrow> REGTEST_TIMING_BUDGET)"

definition NODE_REGTEST_PEGIN_ABANDON_BUFFER_BLOCKS :: "32 word" where
  "NODE_REGTEST_PEGIN_ABANDON_BUFFER_BLOCKS = 6"

definition default_pegin_abandon_buffer_blocks :: "Network \<Rightarrow> 32 word" where
  "default_pegin_abandon_buffer_blocks network =
     (case network of
        Regtest \<Rightarrow> NODE_REGTEST_PEGIN_ABANDON_BUFFER_BLOCKS
      | _ \<Rightarrow> confirmed_action_window (timing_budget network))"

section \<open>Validation\<close>

datatype timelock_error =
    NotHeightBased string "32 word"
  | BelowReaction string "32 word" "32 word"
  | ConnectorZFixed "32 word"
  | GapTooSmall string string "32 word" "32 word"
  | BelowMinimum string "32 word" "32 word"

definition BIP68_BLOCKS_MASK :: "32 word" where
  "BIP68_BLOCKS_MASK = 0x0000ffff"

definition ensure_bip68_height_based_sequence :: "string \<Rightarrow> 32 word \<Rightarrow> timelock_error + unit" where
  "ensure_bip68_height_based_sequence name val =
     (if val AND NOT BIP68_BLOCKS_MASK \<noteq> 0 then Inl (NotHeightBased name val) else Inr ())"

definition ensure_gap_at_least ::
  "string \<Rightarrow> 32 word \<Rightarrow> string \<Rightarrow> 32 word \<Rightarrow> 32 word \<Rightarrow> timelock_error + unit" where
  "ensure_gap_at_least left_name left right_name right required_blocks =
     (let actual_blocks = saturating_sub right left
      in if actual_blocks < required_blocks
         then Inl (GapTooSmall right_name left_name required_blocks actual_blocks) else Inr ())"

definition ensure_at_least :: "string \<Rightarrow> 32 word \<Rightarrow> 32 word \<Rightarrow> timelock_error + unit" where
  "ensure_at_least name val required_blocks =
     (if val < required_blocks then Inl (BelowMinimum name required_blocks val) else Inr ())"

text \<open>The question-mark operator: the checks run in order and the first error is the result.\<close>

primrec check_all :: "(timelock_error + unit) list \<Rightarrow> timelock_error + unit" where
  "check_all [] = Inr ()"
| "check_all (c # cs) = (case c of Inl e \<Rightarrow> Inl e | Inr _ \<Rightarrow> check_all cs)"

definition check_field :: "protocol_timing_budget \<Rightarrow> string \<times> 32 word \<Rightarrow> timelock_error + unit" where
  "check_field budget field =
     (case field of (name, val) \<Rightarrow>
        check_all
          [ensure_bip68_height_based_sequence name val,
           if val < reaction_blocks budget then Inl (BelowReaction name (reaction_blocks budget) val)
           else Inr ()])"

definition config_fields :: "timelock_config \<Rightarrow> (string \<times> 32 word) list" where
  "config_fields c =
     [(''connector_z'', connector_z c), (''connector_a'', connector_a c),
      (''prover_connector'', prover_connector c), (''connector_d'', connector_d c),
      (''watchtower_challenge'', watchtower_challenge c), (''operator_ack'', operator_ack c),
      (''operator_commit'', operator_commit c), (''connector_f'', connector_f c)]"

definition validate_timelock_config :: "Network \<Rightarrow> timelock_config \<Rightarrow> timelock_error + unit" where
  "validate_timelock_config network c =
     (let budget = timing_budget network;
          default_connector_z = connector_z (default_timelock_config network);
          window = action_window budget
      in check_all (map (check_field budget) (config_fields c) @
           [if connector_z c \<noteq> default_connector_z then Inl (ConnectorZFixed default_connector_z)
            else Inr (),
            ensure_at_least ''connector_a'' (connector_a c) window,
            ensure_at_least ''watchtower_challenge'' (watchtower_challenge c)
              (watchtower_proof_window budget),
            ensure_gap_at_least ''watchtower_challenge'' (watchtower_challenge c) ''operator_ack''
              (operator_ack c) window,
            ensure_gap_at_least ''max(watchtower_challenge, operator_ack)''
              (max (watchtower_challenge c) (operator_ack c)) ''operator_commit''
              (operator_commit c) (confirmed_action_window budget),
            ensure_at_least ''prover_connector'' (prover_connector c) window,
            ensure_gap_at_least ''prover_connector'' (prover_connector c) ''connector_d''
              (connector_d c) window,
            ensure_gap_at_least ''operator_commit'' (operator_commit c) ''connector_f''
              (connector_f c) (confirmed_action_window budget)]))"

section \<open>Accessors\<close>

definition timelock_blocks :: "Network \<Rightarrow> 32 word \<Rightarrow> 32 word" where
  "timelock_blocks network blocks = blocks"

definition connector_z_timelock_blocks :: "Network \<Rightarrow> timelock_config \<Rightarrow> 32 word" where
  "connector_z_timelock_blocks network c = timelock_blocks network (connector_z c)"

definition default_connector_z_timelock_blocks :: "Network \<Rightarrow> 32 word" where
  "default_connector_z_timelock_blocks network =
     connector_z_timelock_blocks network (default_timelock_config network)"

definition take1_timelock_blocks :: "Network \<Rightarrow> timelock_config \<Rightarrow> 32 word" where
  "take1_timelock_blocks network c = timelock_blocks network (connector_a c)"

definition take2_timelock_blocks :: "Network \<Rightarrow> timelock_config \<Rightarrow> 32 word" where
  "take2_timelock_blocks network c = timelock_blocks network (connector_d c)"

definition connector_f_timelock_blocks :: "Network \<Rightarrow> timelock_config \<Rightarrow> 32 word" where
  "connector_f_timelock_blocks network c = timelock_blocks network (connector_f c)"

definition disprove_timelock_blocks :: "Network \<Rightarrow> timelock_config \<Rightarrow> 32 word" where
  "disprove_timelock_blocks network c = timelock_blocks network (prover_connector c)"

definition watchtower_challenge_timelock_blocks :: "Network \<Rightarrow> timelock_config \<Rightarrow> 32 word" where
  "watchtower_challenge_timelock_blocks network c = timelock_blocks network (watchtower_challenge c)"

definition operator_ack_timelock_blocks :: "Network \<Rightarrow> timelock_config \<Rightarrow> 32 word" where
  "operator_ack_timelock_blocks network c = timelock_blocks network (operator_ack c)"

definition operator_commit_timelock_blocks :: "Network \<Rightarrow> timelock_config \<Rightarrow> 32 word" where
  "operator_commit_timelock_blocks network c = timelock_blocks network (operator_commit c)"

section \<open>Lemmas\<close>

lemma check_all_ok: "check_all cs = Inr () \<longleftrightarrow> list_all (\<lambda>c. c = Inr ()) cs"
  by (induction cs) (auto split: sum.split)

declare check_all.simps [simp del]

lemma high_bits_zero: "(v :: 32 word) AND NOT 0xffff = 0 \<longleftrightarrow> unat v < 2 ^ 16"
proof -
  have "v AND NOT (mask 16) = 0 \<longleftrightarrow> take_bit 16 v = v"
    unfolding bit_eq_iff by (auto simp: bit_simps)
  also have "\<dots> \<longleftrightarrow> unat v < 2 ^ 16"
    by (metis take_bit_nat_eq_self_iff unsigned_take_bit_eq word_unat_eq_iff)
  finally show ?thesis by (simp add: mask_eq_exp_minus_1)
qed

lemma ensure_ok:
  "ensure_bip68_height_based_sequence name v = Inr () \<longleftrightarrow> unat v < 2 ^ 16"
  "ensure_at_least name v req = Inr () \<longleftrightarrow> unat req \<le> unat v"
  "ensure_gap_at_least n1 l n2 r req = Inr () \<longleftrightarrow> unat req \<le> unat r - unat l"
proof -
  show "ensure_bip68_height_based_sequence name v = Inr () \<longleftrightarrow> unat v < 2 ^ 16"
    by (simp only: ensure_bip68_height_based_sequence_def BIP68_BLOCKS_MASK_def high_bits_zero [symmetric]) simp
  show "ensure_at_least name v req = Inr () \<longleftrightarrow> unat req \<le> unat v"
    by (simp add: ensure_at_least_def word_less_nat_alt not_less)
  have "unat (saturating_sub r l) = unat r - unat l"
    by (auto simp: saturating_sub_def unat_sub word_le_nat_alt)
  then show "ensure_gap_at_least n1 l n2 r req = Inr () \<longleftrightarrow> unat req \<le> unat r - unat l"
    by (simp add: ensure_gap_at_least_def Let_def word_less_nat_alt not_less)
qed

lemma unat_windows:
  "unat (action_window (timing_budget n)) =
     unat (reaction_blocks (timing_budget n)) + unat (inclusion_blocks (timing_budget n)) +
     unat (safety_blocks (timing_budget n))"
  "unat (watchtower_proof_window (timing_budget n)) =
     unat (reaction_blocks (timing_budget n)) + unat (inclusion_blocks (timing_budget n)) +
     unat (safety_blocks (timing_budget n)) + unat (watchtower_proof_blocks (timing_budget n))"
  "unat (confirmed_action_window (timing_budget n)) =
     unat (evidence_confirmations (timing_budget n)) + unat (inclusion_blocks (timing_budget n)) +
     unat (safety_blocks (timing_budget n))"
  by (cases n;
      simp add: action_window_def watchtower_proof_window_def confirmed_action_window_def
        timing_budget_def saturating_add_def BITCOIN_TIMING_BUDGET_def TESTNET_TIMING_BUDGET_def
        SIGNET_TIMING_BUDGET_def REGTEST_TIMING_BUDGET_def)+

lemma check_field_ok:
  "check_field b (name, v) = Inr () \<longleftrightarrow> unat (reaction_blocks b) \<le> unat v \<and> unat v < 2 ^ 16"
  by (auto simp: check_field_def check_all_ok ensure_ok word_less_nat_alt)

section \<open>Properties\<close>

text \<open>
  \<^bold>\<open>C21.\<close> The validation accepts exactly the configurations whose timelocks are height-based
  sequence numbers of at least the reaction time, keep the network's connector-z, leave an action
  window before the first take and before a disprove, a proof window for the watchtowers, an action
  window between a watchtower challenge and its acknowledgement and between disprove and take2, and a
  confirmed action window before the operator's commitment and before connector-f.
\<close>

theorem validate_timelock_config_iff:
  "validate_timelock_config n c = Inr () \<longleftrightarrow>
     (let b = timing_budget n;
          react = unat (reaction_blocks b);
          act = react + unat (inclusion_blocks b) + unat (safety_blocks b);
          conf = unat (evidence_confirmations b) + unat (inclusion_blocks b) + unat (safety_blocks b)
      in list_all (\<lambda>v. react \<le> unat v \<and> unat v < 2 ^ 16)
           [connector_z c, connector_a c, prover_connector c, connector_d c,
            watchtower_challenge c, operator_ack c, operator_commit c, connector_f c] \<and>
         connector_z c = connector_z (default_timelock_config n) \<and>
         act \<le> unat (connector_a c) \<and>
         act + unat (watchtower_proof_blocks b) \<le> unat (watchtower_challenge c) \<and>
         act \<le> unat (operator_ack c) - unat (watchtower_challenge c) \<and>
         conf \<le> unat (operator_commit c) -
           max (unat (watchtower_challenge c)) (unat (operator_ack c)) \<and>
         act \<le> unat (prover_connector c) \<and>
         act \<le> unat (connector_d c) - unat (prover_connector c) \<and>
         conf \<le> unat (connector_f c) - unat (operator_commit c))"
proof -
  have "unat (max a b) = max (unat a) (unat b)" for a b :: "32 word"
    by (simp add: max_def word_le_nat_alt)
  then show ?thesis
    by (auto simp: validate_timelock_config_def Let_def check_all_ok config_fields_def
        check_field_ok ensure_ok unat_windows)
qed

text \<open>
  The configuration shipped for every network passes its own validation, and the peg-in abandon
  buffer of every network is positive and at most half of its connector-z.
\<close>

theorem default_timelock_config_valid:
  "validate_timelock_config n (default_timelock_config n) = Inr () \<and>
   0 < default_pegin_abandon_buffer_blocks n \<and>
   2 * unat (default_pegin_abandon_buffer_blocks n) \<le> unat (default_connector_z_timelock_blocks n)"
  by (cases n;
      simp add: validate_timelock_config_def Let_def check_all_ok config_fields_def check_field_ok
        ensure_ok timing_budget_def default_timelock_config_def action_window_def
        watchtower_proof_window_def
        BITCOIN_TIMING_BUDGET_def TESTNET_TIMING_BUDGET_def SIGNET_TIMING_BUDGET_def
        REGTEST_TIMING_BUDGET_def NODE_BITCOIN_TIMELOCK_CONFIG_def NODE_TESTNET_TIMELOCK_CONFIG_def
        NODE_SIGNET_TIMELOCK_CONFIG_def NODE_REGTEST_TIMELOCK_CONFIG_def
        default_pegin_abandon_buffer_blocks_def NODE_REGTEST_PEGIN_ABANDON_BUFFER_BLOCKS_def
        default_connector_z_timelock_blocks_def connector_z_timelock_blocks_def timelock_blocks_def
        confirmed_action_window_def saturating_add_def)



end
