(* ===== verification/HeaderChain.thy ===== *)
theory HeaderChain
  imports ProgramHistory Timelocks "HOL-Library.Multiset"
begin

text \<open>
  The Bitcoin header chain (\<^verbatim>\<open>src/circuits/crates/header-chain/src/header_chain.rs\<close>): block headers and their
  hashes, the chain state, and the rules a batch of headers must satisfy: linkage, difficulty, proof of
  work and median time.

  The network is the compile-time constant \<^verbatim>\<open>NETWORK\<close> and the parameter \<open>net\<close> here; SHA-256 is the
  parameter \<open>sha256\<close> and \<^verbatim>\<open>CompactTarget::from_next_work_required\<close> of the \<^verbatim>\<open>bitcoin\<close> crate the parameter
  \<open>next_work\<close>. A failed assertion and a panic are \<^verbatim>\<open>None\<close>. Additions of \<^verbatim>\<open>u32\<close> wrap around, as in the
  release build of the guest.

  The reference definitions \<^verbatim>\<open>block_ok\<close> and \<^verbatim>\<open>state_of\<close> state the rules over the whole list of headers
  from the first block on, with no ring buffer, no running epoch start and no running target; the lemmas
  show that the incremental code accepts exactly the headers the rules accept and reaches exactly the
  state they describe.
\<close>

section \<open>Definitions\<close>

record network_constants =
  max_bits :: "32 word"
  max_target :: hash32
  max_target_bytes :: bytes

definition NETWORK_TYPE :: "string option \<Rightarrow> string option" where
  "NETWORK_TYPE env =
     (case env of
        Some network \<Rightarrow>
          if network = ''mainnet'' then Some ''mainnet''
          else if network = ''testnet4'' then Some ''testnet4''
          else if network = ''signet'' then Some ''signet''
          else if network = ''regtest'' then Some ''regtest''
          else None
      | None \<Rightarrow> Some ''mainnet'')"

definition NETWORK :: "string \<Rightarrow> Network option" where
  "NETWORK network_type =
     (if network_type = ''mainnet'' then Some Bitcoin
      else if network_type = ''testnet4'' then Some Testnet4
      else if network_type = ''signet'' then Some Signet
      else if network_type = ''regtest'' then Some Regtest
      else None)"

definition IS_REGTEST :: "Network \<Rightarrow> bool" where
  "IS_REGTEST net \<longleftrightarrow> net = Regtest"

definition IS_TESTNET4 :: "Network \<Rightarrow> bool" where
  "IS_TESTNET4 net \<longleftrightarrow> net = Testnet4"

definition MINIMUM_WORK_TESTNET :: hash32 where
  "MINIMUM_WORK_TESTNET = 0x100010001"

definition mainnet_constants :: network_constants where
  "mainnet_constants = \<lparr>
     max_bits = 0x1D00FFFF,
     max_target = 0x00000000FFFF0000000000000000000000000000000000000000000000000000,
     max_target_bytes = [0, 0, 0, 0, 255, 255] @ replicate 26 0 \<rparr>"

definition NETWORK_CONSTANTS :: "Network \<Rightarrow> network_constants" where
  "NETWORK_CONSTANTS net =
     (case net of
        Signet \<Rightarrow> \<lparr>
          max_bits = 0x1E0377AE,
          max_target = 0x00000377AE000000000000000000000000000000000000000000000000000000,
          max_target_bytes = [0, 0, 3, 119, 174] @ replicate 27 0 \<rparr>
      | Regtest \<Rightarrow> \<lparr>
          max_bits = 0x207FFFFF,
          max_target = 0x7FFFFF0000000000000000000000000000000000000000000000000000000000,
          max_target_bytes = [127, 255, 255] @ replicate 29 0 \<rparr>
      | _ \<Rightarrow> mainnet_constants)"

definition BLOCKS_PER_EPOCH :: nat where
  "BLOCKS_PER_EPOCH = 2016"

record circuit_block_header =
  bh_version :: "32 word"
  bh_prev_block_hash :: hash32
  bh_merkle_root :: hash32
  bh_time :: "32 word"
  bh_bits :: "32 word"
  bh_nonce :: "32 word"

definition header_bytes :: "circuit_block_header \<Rightarrow> bytes" where
  "header_bytes h =
     to_le_bytes 4 (bh_version h) @ array_bytes (bh_prev_block_hash h) @ array_bytes (bh_merkle_root h) @
     to_le_bytes 4 (bh_time h) @ to_le_bytes 4 (bh_bits h) @ to_le_bytes 4 (bh_nonce h)"

definition compute_block_hash :: "(bytes \<Rightarrow> hash32) \<Rightarrow> circuit_block_header \<Rightarrow> hash32" where
  "compute_block_hash sha256 h = (let first_hash_result = sha256 (header_bytes h) in sha256 (array_bytes first_hash_result))"

record chain_state =
  block_height :: "32 word"
  total_work :: hash32
  best_block_hash :: hash32
  current_target_bits :: "32 word"
  epoch_start_time :: "32 word"
  prev_11_timestamps :: "32 word list"
  block_hashes_mmr :: "hash32 mmr_guest"

definition chain_state_new :: "Network \<Rightarrow> chain_state" where
  "chain_state_new net = \<lparr>
     block_height = - 1,
     total_work = 0,
     best_block_hash = 0,
     current_target_bits = max_bits (NETWORK_CONSTANTS net),
     epoch_start_time = 0,
     prev_11_timestamps = replicate 11 0,
     block_hashes_mmr = mmr_guest_new \<rparr>"

definition median :: "32 word list \<Rightarrow> 32 word" where
  "median arr = sort arr ! 5"

definition validate_timestamp :: "32 word \<Rightarrow> 32 word list \<Rightarrow> bool" where
  "validate_timestamp block_time ts \<longleftrightarrow> median ts < block_time"

definition bits_to_target :: "32 word \<Rightarrow> hash32" where
  "bits_to_target bits =
     (let sz = unat (drop_bit 24 bits);
          mantissa = bits AND 0x00ffffff
      in if sz \<le> 3 then ucast (drop_bit (8 * (3 - sz)) mantissa)
         else push_bit (8 * (sz - 3)) (ucast mantissa))"

definition calculate_new_difficulty ::
  "(Network \<Rightarrow> 32 word \<Rightarrow> 64 word \<Rightarrow> 32 word) \<Rightarrow> Network \<Rightarrow> 32 word \<Rightarrow> 32 word \<Rightarrow> 32 word \<Rightarrow> 32 word" where
  "calculate_new_difficulty next_work net epoch_start last_timestamp current_target =
     (let actual_timespan = saturating_sub last_timestamp epoch_start
      in next_work net current_target (ucast actual_timespan))"

text \<open>The loop of \<^verbatim>\<open>check_hash_valid\<close>, over \<^verbatim>\<open>hash[31 - i]\<close> and \<^verbatim>\<open>target_bytes[i]\<close>; \<^verbatim>\<open>False\<close> is the panic.\<close>

fun check_bytes :: "bytes \<Rightarrow> bytes \<Rightarrow> bool" where
  "check_bytes (h # hs) (t # ts) = (if h < t then True else if t < h then False else check_bytes hs ts)"
| "check_bytes _ _ = True"

definition check_hash_valid :: "hash32 \<Rightarrow> bytes \<Rightarrow> bool" where
  "check_hash_valid hash target_bytes = check_bytes (rev (array_bytes hash)) target_bytes"

definition calculate_work :: "bytes \<Rightarrow> hash32" where
  "calculate_work target_bytes =
     (let target = from_be_bytes target_bytes;
          target_plus_one = saturating_add target 1
      in (- 1) div target_plus_one)"

text \<open>The state and the local variables of the loop of \<^verbatim>\<open>apply_blocks\<close>.\<close>

record apply_vars =
  av_state :: chain_state
  current_target_bytes :: bytes
  current_work :: hash32
  last_block_time :: "32 word"

definition target_for :: "Network \<Rightarrow> circuit_block_header \<Rightarrow> apply_vars \<Rightarrow> bytes \<times> 32 word \<times> hash32" where
  "target_for net h v =
     (let real = (current_target_bytes v, current_target_bits (av_state v), calculate_work (current_target_bytes v))
      in if IS_TESTNET4 net then
           (if last_block_time v + 1200 < bh_time h then
              (if unat (block_height (av_state v)) mod BLOCKS_PER_EPOCH = 0 then real
               else (max_target_bytes (NETWORK_CONSTANTS net), max_bits (NETWORK_CONSTANTS net), MINIMUM_WORK_TESTNET))
            else real)
         else real)"

text \<open>The loop body: one header.\<close>

definition apply_block ::
  "(bytes \<Rightarrow> hash32) \<Rightarrow> (Network \<Rightarrow> 32 word \<Rightarrow> 64 word \<Rightarrow> 32 word) \<Rightarrow> Network \<Rightarrow>
   circuit_block_header \<Rightarrow> apply_vars \<Rightarrow> apply_vars option" where
  "apply_block sha256 next_work net h v0 =
     (let height = block_height (av_state v0) + 1;
          v = v0\<lparr> av_state := (av_state v0)\<lparr> block_height := height \<rparr> \<rparr>;
          s = av_state v;
          (target_to_use, expected_bits, work_to_add) = target_for net h v;
          new_block_hash = compute_block_hash sha256 h
      in if bh_prev_block_hash h \<noteq> best_block_hash s then None
         else if bh_bits h \<noteq> (if IS_REGTEST net then max_bits (NETWORK_CONSTANTS net) else expected_bits) then None
         else if \<not> check_hash_valid new_block_hash target_to_use then None
         else if \<not> validate_timestamp (bh_time h) (prev_11_timestamps s) then None
         else case guest_append (hash_pair sha256) new_block_hash (block_hashes_mmr s) of
           None \<Rightarrow> None
         | Some mmr \<Rightarrow>
             (let s1 = s\<lparr> block_hashes_mmr := mmr, best_block_hash := new_block_hash \<rparr>;
                  work = current_work v + work_to_add;
                  s2 = (if \<not> IS_REGTEST net \<and> unat height mod BLOCKS_PER_EPOCH = 0
                        then s1\<lparr> epoch_start_time := bh_time h \<rparr> else s1);
                  s3 = s2\<lparr> prev_11_timestamps := (prev_11_timestamps s2)[unat height mod 11 := bh_time h] \<rparr>;
                  lbt = (if IS_TESTNET4 net then bh_time h else last_block_time v)
              in if \<not> IS_REGTEST net \<and> unat height mod BLOCKS_PER_EPOCH = BLOCKS_PER_EPOCH - 1
                 then let bits = calculate_new_difficulty next_work net (epoch_start_time s3) (bh_time h) (current_target_bits s3)
                      in Some \<lparr> av_state = s3\<lparr> current_target_bits := bits \<rparr>,
                                current_target_bytes = array_bytes (bits_to_target bits),
                                current_work = work, last_block_time = lbt \<rparr>
                 else Some \<lparr> av_state = s3, current_target_bytes = current_target_bytes v,
                             current_work = work, last_block_time = lbt \<rparr>))"

primrec apply_block_loop ::
  "(bytes \<Rightarrow> hash32) \<Rightarrow> (Network \<Rightarrow> 32 word \<Rightarrow> 64 word \<Rightarrow> 32 word) \<Rightarrow> Network \<Rightarrow>
   circuit_block_header list \<Rightarrow> apply_vars \<Rightarrow> apply_vars option" where
  "apply_block_loop sha256 next_work net [] v = Some v"
| "apply_block_loop sha256 next_work net (h # hs) v =
     Option.bind (apply_block sha256 next_work net h v) (apply_block_loop sha256 next_work net hs)"

definition apply_vars_of :: "Network \<Rightarrow> chain_state \<Rightarrow> apply_vars" where
  "apply_vars_of net s = \<lparr>
     av_state = s,
     current_target_bytes =
       (if IS_REGTEST net then array_bytes (max_target (NETWORK_CONSTANTS net))
        else array_bytes (bits_to_target (current_target_bits s))),
     current_work = total_work s,
     last_block_time =
       (if IS_TESTNET4 net
        then (if block_height s = - 1 then 0 else prev_11_timestamps s ! (unat (block_height s) mod 11))
        else 0) \<rparr>"

definition apply_blocks ::
  "(bytes \<Rightarrow> hash32) \<Rightarrow> (Network \<Rightarrow> 32 word \<Rightarrow> 64 word \<Rightarrow> 32 word) \<Rightarrow> Network \<Rightarrow>
   circuit_block_header list \<Rightarrow> chain_state \<Rightarrow> chain_state option" where
  "apply_blocks sha256 next_work net block_headers s =
     (case apply_block_loop sha256 next_work net block_headers (apply_vars_of net s) of
        None \<Rightarrow> None
      | Some v \<Rightarrow>
          (let s' = (av_state v)\<lparr> total_work := current_work v \<rparr>
           in if block_height s' = - 1 then None
              else if mmr_size (block_hashes_mmr s') = block_height s' + 1 then Some s' else None))"

section \<open>Reference definitions\<close>

text \<open>The value compared with the target: the bytes of the hash as a little-endian number.\<close>

definition hash_value :: "hash32 \<Rightarrow> nat" where
  "hash_value hash = le_nat (array_bytes hash)"

text \<open>The compact target in force for the block at height \<open>i\<close>, before the exception of testnet.\<close>

primrec epoch_bits ::
  "(Network \<Rightarrow> 32 word \<Rightarrow> 64 word \<Rightarrow> 32 word) \<Rightarrow> Network \<Rightarrow> circuit_block_header list \<Rightarrow> nat \<Rightarrow> 32 word" where
  "epoch_bits next_work net hs 0 = max_bits (NETWORK_CONSTANTS net)"
| "epoch_bits next_work net hs (Suc i) =
     (if net \<noteq> Regtest \<and> Suc i mod 2016 = 0
      then calculate_new_difficulty next_work net (bh_time (hs ! (Suc i - 2016))) (bh_time (hs ! i))
             (epoch_bits next_work net hs i)
      else epoch_bits next_work net hs i)"

text \<open>The exception of testnet4: 20 minutes after the previous block any block but an epoch's first is easy.\<close>

definition easy_block :: "Network \<Rightarrow> circuit_block_header list \<Rightarrow> circuit_block_header \<Rightarrow> bool" where
  "easy_block net hs h \<longleftrightarrow>
     net = Testnet4 \<and> length hs mod 2016 \<noteq> 0 \<and> (if hs = [] then 0 else bh_time (last hs)) + 1200 < bh_time h"

definition required_bits ::
  "(Network \<Rightarrow> 32 word \<Rightarrow> 64 word \<Rightarrow> 32 word) \<Rightarrow> Network \<Rightarrow> circuit_block_header list \<Rightarrow> circuit_block_header \<Rightarrow> 32 word" where
  "required_bits next_work net hs h =
     (if easy_block net hs h then max_bits (NETWORK_CONSTANTS net) else epoch_bits next_work net hs (length hs))"

definition block_work ::
  "(Network \<Rightarrow> 32 word \<Rightarrow> 64 word \<Rightarrow> 32 word) \<Rightarrow> Network \<Rightarrow> circuit_block_header list \<Rightarrow> circuit_block_header \<Rightarrow> hash32" where
  "block_work next_work net hs h =
     (if easy_block net hs h then MINIMUM_WORK_TESTNET
      else (- 1) div saturating_add (bits_to_target (epoch_bits next_work net hs (length hs))) 1)"

text \<open>The times of the last eleven blocks, filled up with zeros.\<close>

definition last_times :: "circuit_block_header list \<Rightarrow> 32 word list" where
  "last_times hs = drop (length hs) (replicate 11 0 @ map bh_time hs)"

text \<open>The header \<open>h\<close> may follow the headers \<open>hs\<close>.\<close>

definition block_ok ::
  "(bytes \<Rightarrow> hash32) \<Rightarrow> (Network \<Rightarrow> 32 word \<Rightarrow> 64 word \<Rightarrow> 32 word) \<Rightarrow> Network \<Rightarrow>
   circuit_block_header list \<Rightarrow> circuit_block_header \<Rightarrow> bool" where
  "block_ok sha256 next_work net hs h \<longleftrightarrow>
     bh_prev_block_hash h = (if hs = [] then 0 else compute_block_hash sha256 (last hs)) \<and>
     bh_bits h = required_bits next_work net hs h \<and>
     hash_value (compute_block_hash sha256 h) \<le> unat (bits_to_target (bh_bits h)) \<and>
     sort (last_times hs) ! 5 < bh_time h"

fun blocks_ok ::
  "(bytes \<Rightarrow> hash32) \<Rightarrow> (Network \<Rightarrow> 32 word \<Rightarrow> 64 word \<Rightarrow> 32 word) \<Rightarrow> Network \<Rightarrow>
   circuit_block_header list \<Rightarrow> circuit_block_header list \<Rightarrow> bool" where
  "blocks_ok sha256 next_work net hs [] = True"
| "blocks_ok sha256 next_work net hs (b # bs) =
     (block_ok sha256 next_work net hs b \<and> blocks_ok sha256 next_work net (hs @ [b]) bs)"

definition valid_headers ::
  "(bytes \<Rightarrow> hash32) \<Rightarrow> (Network \<Rightarrow> 32 word \<Rightarrow> 64 word \<Rightarrow> 32 word) \<Rightarrow> Network \<Rightarrow> circuit_block_header list \<Rightarrow> bool" where
  "valid_headers sha256 next_work net hs \<longleftrightarrow> blocks_ok sha256 next_work net [] hs"

definition epoch_start :: "Network \<Rightarrow> circuit_block_header list \<Rightarrow> 32 word" where
  "epoch_start net hs =
     (if net = Regtest \<or> hs = [] then 0 else bh_time (hs ! (length hs - 1 - (length hs - 1) mod 2016)))"

text \<open>The state after the headers \<open>hs\<close> from the first block on.\<close>

definition timestamp_ring :: "circuit_block_header list \<Rightarrow> 32 word list" where
  "timestamp_ring hs = rotate (11 - length hs mod 11) (last_times hs)"

definition guest_of :: "(bytes \<Rightarrow> hash32) \<Rightarrow> circuit_block_header list \<Rightarrow> hash32 mmr_guest" where
  "guest_of sha256 hs = \<lparr>
     subroots = rev (peaks_up (hash_pair sha256) (map (compute_block_hash sha256) hs)),
     mmr_size = of_nat (length hs) \<rparr>"

fun work_of ::
  "(Network \<Rightarrow> 32 word \<Rightarrow> 64 word \<Rightarrow> 32 word) \<Rightarrow> Network \<Rightarrow> circuit_block_header list \<Rightarrow> circuit_block_header list \<Rightarrow> hash32" where
  "work_of next_work net hs [] = 0"
| "work_of next_work net hs (b # bs) = block_work next_work net hs b + work_of next_work net (hs @ [b]) bs"

definition state_of ::
  "(bytes \<Rightarrow> hash32) \<Rightarrow> (Network \<Rightarrow> 32 word \<Rightarrow> 64 word \<Rightarrow> 32 word) \<Rightarrow> Network \<Rightarrow> circuit_block_header list \<Rightarrow> chain_state" where
  "state_of sha256 next_work net hs = \<lparr>
     block_height = of_nat (length hs) - 1,
     total_work = work_of next_work net [] hs,
     best_block_hash = (if hs = [] then 0 else compute_block_hash sha256 (last hs)),
     current_target_bits = epoch_bits next_work net hs (length hs),
     epoch_start_time = epoch_start net hs,
     prev_11_timestamps = timestamp_ring hs,
     block_hashes_mmr = guest_of sha256 hs \<rparr>"

section \<open>The target and the hash\<close>

lemma from_be_bytes_array [simp]: "from_be_bytes (array_bytes w) = w"
  by (simp add: array_bytes_be from_to_be_bytes)

lemma check_bytes_iff: "length hs = length ts \<Longrightarrow> check_bytes hs ts \<longleftrightarrow> be_nat hs \<le> be_nat ts"
proof (induction hs ts rule: list_induct2)
  case (Cons h hs t ts)
  have less: "unat a * n + x < unat b * n + y" if "a < b" "x < n" for a b :: "8 word" and x y n :: nat
  proof -
    from that have "(unat a + 1) * n \<le> unat b * n" by (intro mult_le_mono1) (simp add: word_less_nat_alt)
    with that show ?thesis by simp
  qed
  show ?case
    using Cons less [of h t "be_nat hs" "256 ^ length hs" "be_nat ts"] less [of t h "be_nat ts" "256 ^ length hs" "be_nat hs"]
      be_nat_less [of hs] be_nat_less [of ts]
    by (cases h t rule: linorder_cases) (simp_all add: be_nat_Cons)
qed simp

lemma be_nat_inj:
  assumes "length xs = length ys" "be_nat xs = be_nat ys"
  shows "xs = ys"
  using assms
proof (induction xs ys rule: list_induct2)
  case (Cons x xs y ys)
  from Cons have "check_bytes (x # xs) (y # ys)" "check_bytes (y # ys) (x # xs)"
    by (simp_all add: check_bytes_iff del: check_bytes.simps)
  then have "x = y" by (auto split: if_splits)
  with Cons show ?case by (simp add: be_nat_Cons)
qed simp

lemma be_nat_zeros: "be_nat (replicate n 0) = 0"
  by (induction n) (simp_all add: be_nat_Cons, simp add: be_nat_def le_nat_def)

lemma target_constants:
  "bits_to_target (max_bits (NETWORK_CONSTANTS net)) = max_target (NETWORK_CONSTANTS net)"
  "max_target_bytes (NETWORK_CONSTANTS net) = array_bytes (max_target (NETWORK_CONSTANTS net))"
proof -
  show "bits_to_target (max_bits (NETWORK_CONSTANTS net)) = max_target (NETWORK_CONSTANTS net)"
    by (cases net; simp add: NETWORK_CONSTANTS_def mainnet_constants_def bits_to_target_def Let_def
      push_bit_eq_mult drop_bit_eq_div ucast_eq)
  show "max_target_bytes (NETWORK_CONSTANTS net) = array_bytes (max_target (NETWORK_CONSTANTS net))"
    by (rule be_nat_inj)
      (cases net; simp add: NETWORK_CONSTANTS_def mainnet_constants_def be_nat_Cons be_nat_zeros)+
qed

lemma check_hash_valid_iff:
  "check_hash_valid hash (array_bytes target) \<longleftrightarrow> hash_value hash \<le> unat target"
  by (simp add: check_hash_valid_def check_bytes_iff hash_value_def) (simp add: be_nat_def)

lemma calculate_work_array: "calculate_work (array_bytes target) = (- 1) div saturating_add target 1"
  by (simp add: calculate_work_def)

section \<open>The ring of timestamps\<close>

lemma length_last_times [simp]: "length (last_times hs) = 11"
  by (simp add: last_times_def)

lemma length_timestamp_ring [simp]: "length (timestamp_ring hs) = 11"
  by (simp add: timestamp_ring_def)

lemma last_times_snoc: "last_times (hs @ [h]) = tl (last_times hs) @ [bh_time h]"
proof -
  define ys where "ys = replicate 11 0 @ map bh_time hs"
  have "drop (Suc (length hs)) (ys @ [bh_time h]) = tl (drop (length hs) ys) @ [bh_time h]"
  proof -
    have "Suc (length hs) \<le> length ys" by (simp add: ys_def)
    then have "drop (Suc (length hs)) (ys @ [bh_time h]) = drop (Suc (length hs)) ys @ [bh_time h]" by simp
    then show ?thesis by (simp only: drop_Suc tl_drop)
  qed
  then show ?thesis by (simp add: last_times_def ys_def del: drop_append drop_Suc_Cons)
qed

lemma timestamp_ring_nth:
  "k < 11 \<Longrightarrow> timestamp_ring hs ! k = last_times hs ! ((k + (11 - length hs mod 11)) mod 11)"
  by (simp add: timestamp_ring_def nth_rotate add.commute)

lemma timestamp_ring_snoc:
  "timestamp_ring (hs @ [h]) = (timestamp_ring hs)[length hs mod 11 := bh_time h]"
proof (rule nth_equalityI)
  fix k
  assume "k < length (timestamp_ring (hs @ [h]))"
  then have k: "k < 11" by simp
  define n where "n = length hs mod 11"
  have n: "n < 11" "Suc (length hs) mod 11 = Suc n mod 11" by (simp_all add: n_def mod_Suc_eq)
  let ?j = "(k + (11 - Suc n mod 11)) mod 11"
  have "timestamp_ring (hs @ [h]) ! k = (tl (last_times hs) @ [bh_time h]) ! ?j"
    using k n by (simp add: timestamp_ring_nth last_times_snoc)
  also have "\<dots> = (timestamp_ring hs)[n := bh_time h] ! k"
  proof (cases "k = n")
    case True
    with n have "?j = 10" by (cases "n = 10") auto
    with True n show ?thesis by (simp add: nth_append)
  next
    case False
    then have "?j < 10 \<and> Suc ?j = (k + (11 - n)) mod 11" using k n(1) by (cases "n = 10"; cases "k < n") (auto simp: mod_if)
    with False k show ?thesis by (simp add: nth_append nth_tl timestamp_ring_nth n_def [symmetric])
  qed
  finally show "timestamp_ring (hs @ [h]) ! k = (timestamp_ring hs)[length hs mod 11 := bh_time h] ! k"
    by (simp add: n_def)
qed simp

lemma sort_timestamp_ring: "sort (timestamp_ring hs) = sort (last_times hs)"
proof -
  have "mset (rotate n xs) = mset xs" for n and xs :: "32 word list"
  proof (induction n)
    case (Suc n)
    then show ?case by (cases "rotate n xs") simp_all
  qed simp
  then show ?thesis by (intro properties_for_sort) (simp_all add: timestamp_ring_def)
qed

lemma timestamp_ring_last:
  assumes "hs \<noteq> []"
  shows "timestamp_ring hs ! ((length hs - 1) mod 11) = bh_time (last hs)"
proof -
  obtain gs g where "hs = gs @ [g]" using assms by (cases hs rule: rev_cases) auto
  then show ?thesis by (simp add: timestamp_ring_snoc)
qed

section \<open>The step\<close>

lemma epoch_bits_append: "i \<le> length hs \<Longrightarrow> epoch_bits next_work net (hs @ bs) i = epoch_bits next_work net hs i"
  by (induction i) (auto simp: nth_append)

lemma work_of_append:
  "work_of next_work net gs (hs @ bs) = work_of next_work net gs hs + work_of next_work net (gs @ hs) bs"
  by (induction hs arbitrary: gs) (simp_all add: algebra_simps)

lemma guest_of_append:
  assumes "Suc (length hs) < 2 ^ 32"
  shows "guest_append (hash_pair sha256) (compute_block_hash sha256 h) (guest_of sha256 hs) =
    Some (guest_of sha256 (hs @ [h]))"
proof -
  have "guest_ok (hash_pair sha256) (guest_of sha256 hs) (map (compute_block_hash sha256) hs)"
    using assms by (simp add: guest_ok_def guest_of_def)
  from guest_append_ok [OF this, of "compute_block_hash sha256 h"] assms show ?thesis
    by (auto simp: guest_ok_def guest_of_def)
qed

text \<open>The variables of the loop after the headers \<open>hs\<close>.\<close>

definition vars_after ::
  "(bytes \<Rightarrow> hash32) \<Rightarrow> (Network \<Rightarrow> 32 word \<Rightarrow> 64 word \<Rightarrow> 32 word) \<Rightarrow> Network \<Rightarrow> hash32 \<Rightarrow>
   circuit_block_header list \<Rightarrow> apply_vars" where
  "vars_after sha256 next_work net work0 hs = \<lparr>
     av_state = (state_of sha256 next_work net hs)\<lparr> total_work := work0 \<rparr>,
     current_target_bytes = array_bytes (bits_to_target (epoch_bits next_work net hs (length hs))),
     current_work = work_of next_work net [] hs,
     last_block_time = (if net = Testnet4 \<and> hs \<noteq> [] then bh_time (last hs) else 0) \<rparr>"

lemma height_succ: "n < 2 ^ 32 \<Longrightarrow> unat ((of_nat n - 1 :: 32 word) + 1) = n"
  by simp

lemma epoch_bits_regtest: "epoch_bits next_work Regtest hs i = max_bits (NETWORK_CONSTANTS Regtest)"
  by (induction i) simp_all

lemma target_for_after:
  assumes "Suc (length hs) < 2 ^ 32" "v = vars_after sha256 next_work net w hs"
  shows "target_for net h (v\<lparr> av_state := (av_state v)\<lparr> block_height := block_height (av_state v) + 1 \<rparr> \<rparr>) =
    (array_bytes (bits_to_target (required_bits next_work net hs h)), required_bits next_work net hs h,
     block_work next_work net hs h)"
  using assms(1) unfolding assms(2)
  by (auto simp: target_for_def vars_after_def state_of_def IS_TESTNET4_def BLOCKS_PER_EPOCH_def easy_block_def
    required_bits_def block_work_def target_constants calculate_work_array Let_def)

lemma epoch_start_snoc:
  "epoch_start net (hs @ [h]) = (if net \<noteq> Regtest \<and> length hs mod 2016 = 0 then bh_time h else epoch_start net hs)"
proof (cases "net = Regtest \<or> hs = [] \<or> length hs mod 2016 = 0")
  case False
  define k where "k = length hs - 1"
  have "length hs = Suc k" using False by (simp add: k_def)
  with False have "Suc k mod 2016 = Suc (k mod 2016)" by (auto simp: mod_Suc split: if_splits)
  then have "length hs - length hs mod 2016 = length hs - 1 - (length hs - 1) mod 2016" "length hs - length hs mod 2016 < length hs"
    using False by (auto simp: \<open>length hs = Suc k\<close>)
  with False show ?thesis by (simp add: epoch_start_def nth_append)
qed (auto simp: epoch_start_def)

lemma epoch_bits_snoc:
  "epoch_bits next_work net (hs @ [h]) (Suc (length hs)) =
   (if net \<noteq> Regtest \<and> length hs mod 2016 = 2015
    then calculate_new_difficulty next_work net (epoch_start net (hs @ [h])) (bh_time h) (epoch_bits next_work net hs (length hs))
    else epoch_bits next_work net hs (length hs))"
proof -
  have "Suc (length hs) mod 2016 = 0 \<longleftrightarrow> length hs mod 2016 = 2015" by (simp add: mod_Suc)
  moreover have "epoch_start net (hs @ [h]) = bh_time ((hs @ [h]) ! (Suc (length hs) - 2016))"
    if "net \<noteq> Regtest" "length hs mod 2016 = 2015"
    using that by (simp add: epoch_start_def)
  ultimately show ?thesis by (simp add: epoch_bits_append)
qed

lemma apply_block_after:
  assumes "Suc (length hs) < 2 ^ 32"
  shows "apply_block sha256 next_work net h (vars_after sha256 next_work net w hs) =
    (if block_ok sha256 next_work net hs h then Some (vars_after sha256 next_work net w (hs @ [h])) else None)"
proof -
  let ?v = "vars_after sha256 next_work net w hs"
  let ?s = "state_of sha256 next_work net hs"
  let ?c = "bh_prev_block_hash h = best_block_hash ?s \<and>
    bh_bits h = (if IS_REGTEST net then max_bits (NETWORK_CONSTANTS net) else required_bits next_work net hs h) \<and>
    check_hash_valid (compute_block_hash sha256 h) (array_bytes (bits_to_target (required_bits next_work net hs h))) \<and>
    validate_timestamp (bh_time h) (prev_11_timestamps ?s)"
  have len: "unat (word_of_nat (length hs) :: 32 word) = length hs" using assms by simp
  have regtest: "IS_REGTEST net \<Longrightarrow> required_bits next_work net hs h = max_bits (NETWORK_CONSTANTS net)"
    by (simp add: IS_REGTEST_def required_bits_def easy_block_def epoch_bits_regtest)
  have c: "?c \<longleftrightarrow> block_ok sha256 next_work net hs h"
    using regtest by (auto simp: block_ok_def state_of_def check_hash_valid_iff validate_timestamp_def median_def
      sort_timestamp_ring)
  have "apply_block sha256 next_work net h ?v = (if ?c then Some (vars_after sha256 next_work net w (hs @ [h])) else None)"
    unfolding apply_block_def Let_def target_for_after [OF assms refl]
    by (simp add: vars_after_def state_of_def guest_of_append [OF assms] len timestamp_ring_snoc epoch_start_snoc
      epoch_bits_snoc work_of_append IS_REGTEST_def IS_TESTNET4_def BLOCKS_PER_EPOCH_def del: epoch_bits.simps)
  then show ?thesis unfolding c .
qed

section \<open>Batches\<close>

lemma apply_block_loop_after:
  "length (hs @ bs) < 2 ^ 32 \<Longrightarrow>
   apply_block_loop sha256 next_work net bs (vars_after sha256 next_work net w hs) =
   (if blocks_ok sha256 next_work net hs bs then Some (vars_after sha256 next_work net w (hs @ bs)) else None)"
proof (induction bs arbitrary: hs)
  case (Cons b bs)
  from Cons.prems have "Suc (length hs) < 2 ^ 32" "length ((hs @ [b]) @ bs) < 2 ^ 32" by simp_all
  from apply_block_after [OF this(1)] Cons.IH [OF this(2)] show ?case by simp
qed simp

lemma height_of_state:
  assumes "length hs < 2 ^ 32"
  shows "block_height (state_of sha256 next_work net hs) = - 1 \<longleftrightarrow> hs = []"
    "hs \<noteq> [] \<Longrightarrow> unat (block_height (state_of sha256 next_work net hs)) = length hs - 1"
proof -
  have "(of_nat (length hs) :: 32 word) = 0 \<longleftrightarrow> hs = []"
    unfolding unat_eq_zero [symmetric] unat_of_nat_32 [OF assms] by simp
  then show "block_height (state_of sha256 next_work net hs) = - 1 \<longleftrightarrow> hs = []" by (simp add: state_of_def)
  assume "hs \<noteq> []"
  then have "(of_nat (length hs) - 1 :: 32 word) = of_nat (length hs - 1)" by (simp add: of_nat_diff Suc_le_eq)
  moreover have "length hs - 1 < 2 ^ 32" using assms by linarith
  ultimately show "unat (block_height (state_of sha256 next_work net hs)) = length hs - 1"
    by (simp only: state_of_def chain_state.simps unat_of_nat_32)
qed

lemma apply_vars_of_state:
  assumes "length hs < 2 ^ 32"
  shows "apply_vars_of net (state_of sha256 next_work net hs) =
    vars_after sha256 next_work net (work_of next_work net [] hs) hs"
  using height_of_state [OF assms, of sha256 next_work net] timestamp_ring_last [of hs]
  by (auto simp: apply_vars_of_def vars_after_def IS_REGTEST_def IS_TESTNET4_def epoch_bits_regtest target_constants
    state_of_def)

lemma state_of_Nil: "state_of sha256 next_work net [] = chain_state_new net"
  by (simp add: state_of_def chain_state_new_def epoch_start_def timestamp_ring_def last_times_def guest_of_def
    mmr_guest_new_def)

lemma apply_blocks_state:
  assumes "length (hs @ bs) < 2 ^ 32"
  shows "apply_blocks sha256 next_work net bs (state_of sha256 next_work net hs) =
    (if hs @ bs \<noteq> [] \<and> blocks_ok sha256 next_work net hs bs
     then Some (state_of sha256 next_work net (hs @ bs)) else None)"
proof -
  have "length hs < 2 ^ 32" using assms by simp
  note run = apply_vars_of_state [OF this] apply_block_loop_after [OF assms]
  let ?s = "state_of sha256 next_work net (hs @ bs)"
  have final: "(av_state (vars_after sha256 next_work net w (hs @ bs)))\<lparr> total_work := current_work (vars_after sha256 next_work net w (hs @ bs)) \<rparr> = ?s" for w
    by (simp add: vars_after_def state_of_def)
  have "mmr_size (block_hashes_mmr ?s) = block_height ?s + 1" by (simp add: state_of_def guest_of_def)
  with height_of_state(1) [OF assms, of sha256 next_work net] show ?thesis
    unfolding apply_blocks_def run by (simp only: final Let_def option.case if_split_eq1 split: if_split) auto
qed

section \<open>Hashes and headers\<close>

lemma header_bytes_inj: "header_bytes g = header_bytes h \<longleftrightarrow> g = h"
proof
  assume eq: "header_bytes g = header_bytes h"
  have append: "to_le_bytes 4 v @ x = to_le_bytes 4 w @ y \<longleftrightarrow> v = w \<and> x = y" for v w :: "32 word" and x y
    by (simp add: append_eq_append_conv to_le_bytes_inj)
  have "to_le_bytes 4 v = to_le_bytes 4 w \<longleftrightarrow> v = w" for v w :: "32 word" by (simp add: to_le_bytes_inj)
  with eq show "g = h" by (simp add: header_bytes_def append)
qed simp

text \<open>The strings that SHA-256 is applied to when the headers are hashed.\<close>

definition header_strings :: "(bytes \<Rightarrow> hash32) \<Rightarrow> circuit_block_header list \<Rightarrow> bytes set" where
  "header_strings sha256 hs =
     header_bytes ` set hs \<union> (\<lambda>h. array_bytes (sha256 (header_bytes h))) ` set hs"

lemma compute_block_hash_inj:
  assumes "inj_on sha256 S" "header_strings sha256 [g] \<subseteq> S" "header_strings sha256 [h] \<subseteq> S"
    "compute_block_hash sha256 g = compute_block_hash sha256 h"
  shows "g = h"
proof -
  have "array_bytes (sha256 (header_bytes g)) = array_bytes (sha256 (header_bytes h))"
    using assms by (intro inj_onD [OF assms(1)]) (simp_all add: compute_block_hash_def header_strings_def)
  then have "sha256 (header_bytes g) = sha256 (header_bytes h)" by simp
  with assms have "header_bytes g = header_bytes h"
    by (intro inj_onD [OF assms(1)]) (simp_all add: header_strings_def)
  then show ?thesis by (simp add: header_bytes_inj)
qed

lemma blocks_ok_append:
  "blocks_ok sha256 next_work net gs (hs @ bs) \<longleftrightarrow>
   blocks_ok sha256 next_work net gs hs \<and> blocks_ok sha256 next_work net (gs @ hs) bs"
  by (induction hs arbitrary: gs) simp_all

lemma linked_headers_inj:
  assumes "length gs = length hs" "valid_headers sha256 next_work net gs" "valid_headers sha256 next_work net hs"
    "inj_on sha256 S" "header_strings sha256 gs \<subseteq> S" "header_strings sha256 hs \<subseteq> S"
    "gs \<noteq> [] \<Longrightarrow> compute_block_hash sha256 (last gs) = compute_block_hash sha256 (last hs)"
  shows "gs = hs"
  using assms
proof (induction gs arbitrary: hs rule: rev_induct)
  case (snoc g gs)
  from snoc.prems(1) obtain h hs' where hs: "hs = hs' @ [h]" by (cases hs rule: rev_cases) auto
  with snoc.prems have gh: "g = h"
    by (intro compute_block_hash_inj [OF snoc.prems(4)]) (auto simp: header_strings_def)
  moreover have "gs = hs'"
  proof (rule snoc.IH)
    show "valid_headers sha256 next_work net gs" "valid_headers sha256 next_work net hs'"
      using snoc.prems(2,3) by (simp_all add: hs valid_headers_def blocks_ok_append)
    show "header_strings sha256 gs \<subseteq> S" "header_strings sha256 hs' \<subseteq> S"
      using snoc.prems(5,6) by (auto simp: hs header_strings_def)
    assume "gs \<noteq> []"
    then have "hs' \<noteq> []" using snoc.prems(1) by (auto simp: hs)
    have "bh_prev_block_hash g = compute_block_hash sha256 (last gs)" "bh_prev_block_hash h = compute_block_hash sha256 (last hs')"
      using snoc.prems(2,3) \<open>gs \<noteq> []\<close> \<open>hs' \<noteq> []\<close> by (simp_all add: hs valid_headers_def blocks_ok_append block_ok_def)
    then show "compute_block_hash sha256 (last gs) = compute_block_hash sha256 (last hs')" using gh by simp
  qed (use snoc.prems(1,4) hs in simp_all)
  ultimately show ?case by (simp add: hs)
qed simp

section \<open>Properties\<close>

definition example_header :: circuit_block_header where
  "example_header = \<lparr> bh_version = 1, bh_prev_block_hash = 0, bh_merkle_root = 7, bh_time = 1231006505,
     bh_bits = 0x207FFFFF, bh_nonce = 2 \<rparr>"

definition example_sha256 :: "bytes \<Rightarrow> hash32" where
  "example_sha256 bs = (if length bs = 80 then 1 else 0)"

lemma hash_value_0: "hash_value 0 = 0"
proof -
  have "array_bytes 0 = replicate 32 0"
    by (rule nth_equalityI) (simp_all add: array_bytes_def word_byte_def)
  then show ?thesis using be_nat_zeros [of 32] by (simp add: hash_value_def be_nat_def del: replicate.simps)
qed

lemma example_header_ok: "blocks_ok example_sha256 (\<lambda>_ bits _. bits) Regtest [] [example_header]"
  using hash_value_0
  by (simp add: block_ok_def example_header_def required_bits_def easy_block_def NETWORK_CONSTANTS_def
    compute_block_hash_def last_times_def example_sha256_def)

text \<open>
  \<^bold>\<open>C23.\<close> \<^verbatim>\<open>apply_blocks\<close> is exactly the Bitcoin rules over the whole chain. From the state after the headers
  \<open>hs\<close> since the first block, a batch \<open>bs\<close> is accepted if and only if every header of it links to its
  predecessor, has the difficulty the retargeting of the past epochs gives (or the easy one that testnet4
  allows), meets its target as a 256-bit number and is later than the median of the last eleven blocks;
  the result is the state after \<open>hs @ bs\<close>, however the headers were batched, and the chain starts from
  \<^verbatim>\<open>ChainState::new\<close>. The only bound is that heights fit into 32 bits.
\<close>

theorem header_batches_exact:
  assumes "length (hs @ bs) < 2 ^ 32"
  shows "apply_blocks sha256 next_work net bs (state_of sha256 next_work net hs) =
      (if hs @ bs \<noteq> [] \<and> blocks_ok sha256 next_work net hs bs
       then Some (state_of sha256 next_work net (hs @ bs)) else None) \<and>
    chain_state_new net = state_of sha256 next_work net []"
  using apply_blocks_state [OF assms] state_of_Nil by simp

theorem header_batches_exact_witness:
  "apply_blocks example_sha256 (\<lambda>_ bits _. bits) Regtest [example_header] (chain_state_new Regtest) =
     Some (state_of example_sha256 (\<lambda>_ bits _. bits) Regtest [example_header])"
  using header_batches_exact [of "[]" "[example_header]" example_sha256 "\<lambda>_ bits _. bits" Regtest] example_header_ok
  by simp

text \<open>
  The best block hash and the height commit to the whole header chain: two chains that the rules
  accept and that reach states with the same height and the same best block hash consist of the same
  headers, provided SHA-256 is injective on the strings hashed for the two chains.
\<close>

theorem best_hash_commits:
  assumes "length gs < 2 ^ 32" "length hs < 2 ^ 32" "gs \<noteq> []" "hs \<noteq> []"
    and "valid_headers sha256 next_work net gs" "valid_headers sha256 next_work net hs"
    and "block_height (state_of sha256 next_work net gs) = block_height (state_of sha256 next_work net hs)"
    and "best_block_hash (state_of sha256 next_work net gs) = best_block_hash (state_of sha256 next_work net hs)"
    and "inj_on sha256 (header_strings sha256 gs \<union> header_strings sha256 hs)"
  shows "gs = hs"
proof (rule linked_headers_inj [OF _ assms(5,6,9)])
  show "length gs = length hs"
    using height_of_state(2) [OF assms(1,3), of sha256 next_work net] height_of_state(2) [OF assms(2,4), of sha256 next_work net]
      assms(3,4,7) by (simp add: eq_diff_iff Suc_le_eq)
  show "compute_block_hash sha256 (last gs) = compute_block_hash sha256 (last hs)"
    using assms(3,4,8) by (simp add: state_of_def)
qed simp_all

theorem best_hash_commits_witness:
  "valid_headers example_sha256 (\<lambda>_ bits _. bits) Regtest [example_header] \<and>
   inj_on example_sha256 (header_strings example_sha256 [example_header]) \<and>
   [example_header\<lparr> bh_nonce := 2 \<rparr>] = [example_header]"
proof -
  have ok: "valid_headers example_sha256 (\<lambda>_ bits _. bits) Regtest [example_header]"
    using example_header_ok by (simp add: valid_headers_def)
  have inj: "inj_on example_sha256 (header_strings example_sha256 [example_header])"
    by (simp add: header_strings_def example_sha256_def inj_on_def header_bytes_def)
  have same: "example_header\<lparr> bh_nonce := 2 \<rparr> = example_header" by (simp add: example_header_def)
  have "[example_header\<lparr> bh_nonce := 2 \<rparr>] = [example_header]"
    by (rule best_hash_commits [of _ _ example_sha256 "\<lambda>_ bits _. bits" Regtest]) (simp_all add: ok inj same)
  with ok inj show ?thesis by blast
qed

end
