(* ===== verification/Transactions.thy ===== *)
theory Transactions
  imports Hashing "HOL-Library.Monad_Syntax"
begin

text \<open>
  Transactions inside the circuits (\<^verbatim>\<open>src/circuits/crates/header-chain/src/transaction.rs\<close>): the transaction id
  and the Borsh encoding of \<^verbatim>\<open>CircuitTransaction\<close>.

  \<^verbatim>\<open>Transaction\<close>, \<^verbatim>\<open>TxIn\<close>, \<^verbatim>\<open>TxOut\<close> and \<^verbatim>\<open>OutPoint\<close> are the types of the \<^verbatim>\<open>bitcoin\<close> crate with the fields the source
  reads and writes. The consensus encodings of the four parts of a transaction (\<^verbatim>\<open>consensus_encode\<close>) and the
  Borsh codecs of integers, arrays and byte vectors are code of other crates: the parameters
  \<^verbatim>\<open>consensus\<close> and \<^verbatim>\<open>borsh\<close>. A writer yields the bytes written and a reader the value and the bytes left;
  \<^verbatim>\<open>None\<close> is an error of either.

  The lemmas show that codecs compose, so that reading a written transaction gives it back whenever the
  primitive codecs do.
\<close>

section \<open>Definitions\<close>

record outpoint =
  op_txid :: hash32
  op_vout :: "32 word"

record txin =
  previous_output :: outpoint
  script_sig :: bytes
  tx_sequence :: "32 word"
  tx_witness :: "bytes list"

record txout =
  tx_value :: "64 word"
  script_pubkey :: bytes

record transaction =
  tx_version :: "32 word"
  tx_lock_time :: "32 word"
  tx_input :: "txin list"
  tx_output :: "txout list"

record consensus =
  encode_version :: "32 word \<Rightarrow> bytes"
  encode_inputs :: "txin list \<Rightarrow> bytes"
  encode_outputs :: "txout list \<Rightarrow> bytes"
  encode_lock_time :: "32 word \<Rightarrow> bytes"

definition txid_preimage :: "consensus \<Rightarrow> transaction \<Rightarrow> bytes" where
  "txid_preimage c tx =
     encode_version c (tx_version tx) @ encode_inputs c (tx_input tx) @ encode_outputs c (tx_output tx) @
     encode_lock_time c (tx_lock_time tx)"

definition txid :: "(bytes \<Rightarrow> hash32) \<Rightarrow> consensus \<Rightarrow> transaction \<Rightarrow> hash32" where
  "txid sha256 c tx = calculate_double_sha256 sha256 (txid_preimage c tx)"

type_synonym 'a writer = "'a \<Rightarrow> bytes option"
type_synonym 'a reader = "bytes \<Rightarrow> ('a \<times> bytes) option"

record borsh =
  put_i32 :: "32 word writer"
  get_i32 :: "32 word reader"
  put_u32 :: "32 word writer"
  get_u32 :: "32 word reader"
  put_u64 :: "64 word writer"
  get_u64 :: "64 word reader"
  put_usize :: "nat writer"
  get_usize :: "nat reader"
  put_array32 :: "hash32 writer"
  get_array32 :: "hash32 reader"
  put_vec :: "bytes writer"
  get_vec :: "bytes reader"
  put_vecs :: "bytes list writer"
  get_vecs :: "bytes list reader"

text \<open>Writing one value after another, and the \<^verbatim>\<open>for\<close> loops over the inputs and the outputs.\<close>

definition write_both :: "bytes option \<Rightarrow> bytes option \<Rightarrow> bytes option" where
  "write_both a b = do { x \<leftarrow> a; y \<leftarrow> b; Some (x @ y) }"

fun write_all :: "'a writer \<Rightarrow> 'a list writer" where
  "write_all put [] = Some []"
| "write_all put (x # xs) = write_both (put x) (write_all put xs)"

primrec read_n :: "'a reader \<Rightarrow> nat \<Rightarrow> 'a list reader" where
  "read_n get 0 bs = Some ([], bs)"
| "read_n get (Suc n) bs =
     do { (x, bs') \<leftarrow> get bs; (xs, bs'') \<leftarrow> read_n get n bs'; Some (x # xs, bs'') }"

definition serialize_txin :: "borsh \<Rightarrow> txin writer" where
  "serialize_txin b i =
     write_both (put_array32 b (op_txid (previous_output i)))
       (write_both (put_u32 b (op_vout (previous_output i)))
         (write_both (put_vec b (script_sig i))
           (write_both (put_u32 b (tx_sequence i)) (put_vecs b (tx_witness i)))))"

definition deserialize_txin :: "borsh \<Rightarrow> txin reader" where
  "deserialize_txin b bs =
     do { (t, bs) \<leftarrow> get_array32 b bs;
          (v, bs) \<leftarrow> get_u32 b bs;
          (s, bs) \<leftarrow> get_vec b bs;
          (q, bs) \<leftarrow> get_u32 b bs;
          (w, bs) \<leftarrow> get_vecs b bs;
          Some (\<lparr> previous_output = \<lparr> op_txid = t, op_vout = v \<rparr>, script_sig = s, tx_sequence = q, tx_witness = w \<rparr>, bs) }"

definition serialize_txout :: "borsh \<Rightarrow> txout writer" where
  "serialize_txout b out = write_both (put_u64 b (tx_value out)) (put_vec b (script_pubkey out))"

definition deserialize_txout :: "borsh \<Rightarrow> txout reader" where
  "deserialize_txout b bs =
     do { (v, bs) \<leftarrow> get_u64 b bs;
          (s, bs) \<leftarrow> get_vec b bs;
          Some (\<lparr> tx_value = v, script_pubkey = s \<rparr>, bs) }"

definition serialize :: "borsh \<Rightarrow> transaction writer" where
  "serialize b tx =
     write_both (put_i32 b (tx_version tx))
       (write_both (put_u32 b (tx_lock_time tx))
         (write_both (put_usize b (length (tx_input tx)))
           (write_both (write_all (serialize_txin b) (tx_input tx))
             (write_both (put_usize b (length (tx_output tx)))
               (write_all (serialize_txout b) (tx_output tx))))))"

definition deserialize_reader :: "borsh \<Rightarrow> transaction reader" where
  "deserialize_reader b bs =
     do { (ver, bs) \<leftarrow> get_i32 b bs;
          (lock, bs) \<leftarrow> get_u32 b bs;
          (input_len, bs) \<leftarrow> get_usize b bs;
          (ins, bs) \<leftarrow> read_n (deserialize_txin b) input_len bs;
          (output_len, bs) \<leftarrow> get_usize b bs;
          (outs, bs) \<leftarrow> read_n (deserialize_txout b) output_len bs;
          Some (\<lparr> tx_version = ver, tx_lock_time = lock, tx_input = ins, tx_output = outs \<rparr>, bs) }"

section \<open>Codecs\<close>

text \<open>A reader undoes a writer: whatever follows the written bytes, it reads the value and leaves the rest.\<close>

definition codec :: "'a writer \<Rightarrow> 'a reader \<Rightarrow> bool" where
  "codec put get \<longleftrightarrow> (\<forall>x bs rest. put x = Some bs \<longrightarrow> get (bs @ rest) = Some (x, rest))"

definition borsh_codecs :: "borsh \<Rightarrow> bool" where
  "borsh_codecs b \<longleftrightarrow>
     codec (put_i32 b) (get_i32 b) \<and> codec (put_u32 b) (get_u32 b) \<and> codec (put_u64 b) (get_u64 b) \<and> codec (put_usize b) (get_usize b) \<and>
     codec (put_array32 b) (get_array32 b) \<and> codec (put_vec b) (get_vec b) \<and> codec (put_vecs b) (get_vecs b)"

lemma write_both_Some: "write_both a b = Some bs \<longleftrightarrow> (\<exists>x y. a = Some x \<and> b = Some y \<and> bs = x @ y)"
  by (auto simp: write_both_def bind_eq_Some_conv)

lemma codecD: "codec put get \<Longrightarrow> put x = Some bs \<Longrightarrow> get (bs @ rest) = Some (x, rest)"
  by (simp add: codec_def)

lemma read_n_write_all:
  assumes "codec put get"
  shows "write_all put xs = Some bs \<Longrightarrow> read_n get (length xs) (bs @ rest) = Some (xs, rest)"
proof (induction xs arbitrary: bs)
  case (Cons x xs)
  then obtain p q where "put x = Some p" "write_all put xs = Some q" "bs = p @ q" by (auto simp: write_both_Some)
  with Cons.IH [of q] codecD [OF assms, of x p "q @ rest"] show ?case by simp
qed simp

lemma codec_txin: "borsh_codecs b \<Longrightarrow> codec (serialize_txin b) (deserialize_txin b)"
  by (auto simp: codec_def [of "serialize_txin b"] borsh_codecs_def serialize_txin_def deserialize_txin_def write_both_Some
    codecD)

lemma codec_txout: "borsh_codecs b \<Longrightarrow> codec (serialize_txout b) (deserialize_txout b)"
  by (auto simp: codec_def [of "serialize_txout b"] borsh_codecs_def serialize_txout_def deserialize_txout_def write_both_Some
    codecD)

lemma codec_transaction:
  assumes "borsh_codecs b"
  shows "codec (serialize b) (deserialize_reader b)"
  using assms
  by (auto simp: codec_def [of "serialize b"] borsh_codecs_def serialize_def deserialize_reader_def write_both_Some
    codecD read_n_write_all [OF codec_txin [OF assms]] read_n_write_all [OF codec_txout [OF assms]])

text \<open>Little-endian codecs with length prefixes satisfy the laws.\<close>

definition put_le :: "nat \<Rightarrow> 'a::len word writer" where
  "put_le n w = Some (to_le_bytes n w)"

definition get_le :: "nat \<Rightarrow> 'a::len word reader" where
  "get_le n bs = (if length bs < n then None else Some (from_le_bytes (take n bs), drop n bs))"

definition le_borsh :: borsh where
  "le_borsh = \<lparr>
     put_i32 = put_le 4, get_i32 = get_le 4, put_u32 = put_le 4, get_u32 = get_le 4, put_u64 = put_le 8, get_u64 = get_le 8,
     put_usize = (\<lambda>n. if n < 2 ^ 64 then put_le 8 (of_nat n :: 64 word) else None),
     get_usize = (\<lambda>bs. map_option (map_prod (unat :: 64 word \<Rightarrow> nat) id) (get_le 8 bs)),
     put_array32 = put_le 32, get_array32 = get_le 32,
     put_vec = (\<lambda>v. if length v < 2 ^ 32 then write_both (put_le 4 (of_nat (length v) :: 32 word)) (Some v) else None),
     get_vec = (\<lambda>bs. do { (n, bs) \<leftarrow> get_le 4 bs; let k = unat (n :: 32 word); if length bs < k then None else Some (take k bs, drop k bs) }),
     put_vecs = (\<lambda>vs. if length vs < 2 ^ 32
       then write_both (put_le 4 (of_nat (length vs) :: 32 word))
         (write_all (\<lambda>v. if length v < 2 ^ 32 then write_both (put_le 4 (of_nat (length v) :: 32 word)) (Some v) else None) vs)
       else None),
     get_vecs = (\<lambda>bs. do { (n, bs) \<leftarrow> get_le 4 bs;
       read_n (\<lambda>bs. do { (n, bs) \<leftarrow> get_le 4 bs; let k = unat (n :: 32 word); if length bs < k then None else Some (take k bs, drop k bs) })
         (unat (n :: 32 word)) bs }) \<rparr>"

lemma codec_le: "LENGTH('a::len) = 8 * n \<Longrightarrow> codec (put_le n :: 'a word writer) (get_le n)"
  by (auto simp: codec_def put_le_def get_le_def from_to_le_bytes)

lemma get_le_to_le: "LENGTH('a::len) = 8 * n \<Longrightarrow> get_le n (to_le_bytes n (w :: 'a word) @ rest) = Some (w, rest)"
  by (simp add: get_le_def from_to_le_bytes)

lemma le_borsh_codecs: "borsh_codecs le_borsh"
proof -
  have vec: "codec (put_vec le_borsh) (get_vec le_borsh)"
    by (auto simp: le_borsh_def codec_def write_both_Some put_le_def get_le_to_le split: if_splits)
  have "codec (put_vecs le_borsh) (get_vecs le_borsh)"
  proof -
    have "get_vecs le_borsh (bs @ rest) = Some (vs, rest)" if put: "put_vecs le_borsh vs = Some bs" for vs bs rest
    proof -
      from put obtain q where len: "length vs < 2 ^ 32" and q: "write_all (put_vec le_borsh) vs = Some q"
        and bs: "bs = to_le_bytes 4 (of_nat (length vs) :: 32 word) @ q"
        by (auto simp: le_borsh_def write_both_Some put_le_def split: if_splits)
      have "get_vecs le_borsh (bs @ rest) = read_n (get_vec le_borsh) (unat (of_nat (length vs) :: 32 word)) (q @ rest)"
        by (simp add: le_borsh_def bs get_le_to_le)
      also have "\<dots> = Some (vs, rest)"
        unfolding unat_of_nat_32 [OF len] by (rule read_n_write_all [OF vec q])
      finally show ?thesis .
    qed
    then show ?thesis by (simp add: codec_def)
  qed
  moreover have "codec (put_usize le_borsh) (get_usize le_borsh)"
  proof -
    have "unat (of_nat n :: 64 word) = n" if "n < 2 ^ 64" for n
      using that by (simp add: unat_of_nat take_bit_nat_eq_self)
    then show ?thesis
      by (auto simp: le_borsh_def codec_def put_le_def get_le_to_le split: if_splits)
  qed
  ultimately show ?thesis
    using vec by (simp add: borsh_codecs_def) (simp add: le_borsh_def codec_le)
qed

section \<open>Properties\<close>

definition example_transaction :: transaction where
  "example_transaction = \<lparr> tx_version = 2, tx_lock_time = 0,
     tx_input = [\<lparr> previous_output = \<lparr> op_txid = 5, op_vout = 1 \<rparr>, script_sig = [], tx_sequence = - 1,
                    tx_witness = [[1, 2], [3]] \<rparr>],
     tx_output = [\<lparr> tx_value = 1000, script_pubkey = [0x6a, 1, 9] \<rparr>, \<lparr> tx_value = 0, script_pubkey = [0x51] \<rparr>] \<rparr>"

text \<open>
  The Borsh encoding of a transaction can be read back. If the Borsh codecs of integers, arrays and
  byte vectors can be read back, reading the encoding of a transaction, whatever bytes follow, gives the
  same transaction, witnesses included, and leaves exactly the bytes that follow; so two transactions with the same
  encoding are equal.
\<close>

theorem transaction_round_trip:
  assumes "borsh_codecs b" "serialize b tx = Some bs"
  shows "deserialize_reader b (bs @ rest) = Some (tx, rest) \<and> (serialize b tx' = Some bs \<longrightarrow> tx' = tx)"
  using codecD [OF codec_transaction [OF assms(1)] assms(2), of rest]
    codecD [OF codec_transaction [OF assms(1)], of tx' bs rest] by auto

theorem transaction_round_trip_witness:
  "\<exists>bs. serialize le_borsh example_transaction = Some bs \<and>
     deserialize_reader le_borsh (bs @ [42]) = Some (example_transaction, [42])"
proof -
  have "serialize le_borsh example_transaction \<noteq> None"
    by (simp add: serialize_def serialize_txin_def serialize_txout_def write_both_def le_borsh_def put_le_def
      example_transaction_def)
  then obtain bs where bs: "serialize le_borsh example_transaction = Some bs" by blast
  with transaction_round_trip [OF le_borsh_codecs bs, of "[42]"] show ?thesis by blast
qed

end
