(* ===== verification/HeaderCircuit.thy ===== *)
theory HeaderCircuit
  imports HeaderChain Transactions
begin

text \<open>
  Inclusion of a transaction in the header chain (\<^verbatim>\<open>src/circuits/crates/header-chain/src/spv.rs\<close>) and the
  header chain circuit (\<^verbatim>\<open>src/circuits/crates/header-chain/src/lib.rs\<close> and the outputs of
  \<^verbatim>\<open>src/circuits/crates/header-chain/src/header_chain.rs\<close>): a proof starts at the genesis block or extends the
  state of a verified previous proof.

  The decoding of the previous public values (\<^verbatim>\<open>bincode\<close>), the genesis block of the \<^verbatim>\<open>bitcoin\<close> crate, the
  difficulty rule and the proof verifier are the fields of the parameter \<^verbatim>\<open>header_env\<close>.

  The circuit is an interpretation of \<^verbatim>\<open>recursive_program\<close>: the history it keeps excludes every foreign program
  from the recursion.
\<close>

section \<open>Inclusion of a transaction\<close>

record spv =
  spv_transaction :: transaction
  block_inclusion :: "hash32 block_inclusion_proof"
  spv_block_header :: circuit_block_header
  mmr_inclusion :: "hash32 mmr_inclusion_proof"

definition spv_verify ::
  "(bytes \<Rightarrow> hash32) \<Rightarrow> consensus \<Rightarrow> spv \<Rightarrow> hash32 mmr_guest \<Rightarrow> 32 word option" where
  "spv_verify sha256 c spv mmr_guest =
     (let block_merkle_root = get_root (merkle_pair sha256) (block_inclusion spv) (txid sha256 c (spv_transaction spv))
      in if block_merkle_root \<noteq> bh_merkle_root (spv_block_header spv) then None
         else
           let block_hash = compute_block_hash sha256 (spv_block_header spv)
           in if guest_verify_proof (hash_pair sha256) mmr_guest block_hash (mmr_inclusion spv)
              then Some (leaf_index (mmr_inclusion spv)) else None)"

section \<open>The circuit\<close>

record header_chain_output =
  hco_chain_state :: chain_state
  hco_self_program_id :: program_id
  hco_program_history_hash :: hash32
  hco_upgrade_checkpoint_hash :: hash32

datatype HeaderChainPrevProofType = HeaderGenesisBlock | HeaderPrevProof

record header_chain_input =
  hci_zkm_proof :: bytes
  hci_zkm_public_values :: bytes
  hci_zkm_vk_hash :: bytes
  hci_zkm_version :: string
  hci_self_program_id :: program_id
  hci_prev_proof :: HeaderChainPrevProofType
  hci_block_headers :: "circuit_block_header list"

record header_env =
  env_sha256 :: "bytes \<Rightarrow> hash32"
  env_zkm :: zkm_verifier
  env_next_work :: "Network \<Rightarrow> 32 word \<Rightarrow> 64 word \<Rightarrow> 32 word"
  env_genesis_block :: "Network \<Rightarrow> circuit_block_header"
  env_network :: Network
  env_decode_header :: "bytes \<Rightarrow> header_chain_output option"

definition classify_header_chain_output ::
  "header_env \<Rightarrow> bytes \<Rightarrow> string + HeaderChainPrevProofType" where
  "classify_header_chain_output env public_values =
     (if env_decode_header env public_values \<noteq> None then Inr HeaderPrevProof
      else Inl ''unknown header-chain public output format'')"

definition decode_header_chain_circuit_output :: "header_env \<Rightarrow> bytes \<Rightarrow> header_chain_output option" where
  "decode_header_chain_circuit_output env public_values = env_decode_header env public_values"

text \<open>The state, the history and the checkpoint a run starts from.\<close>

definition header_chain_start ::
  "header_env \<Rightarrow> header_chain_input \<Rightarrow> (chain_state \<times> hash32 \<times> hash32) option" where
  "header_chain_start env input =
     (case hci_prev_proof input of
        HeaderGenesisBlock \<Rightarrow>
          (case hci_block_headers input of
             [] \<Rightarrow> None
           | first # _ \<Rightarrow>
               if first \<noteq> env_genesis_block env (env_network env) then None
               else Some (chain_state_new (env_network env), initial_history (env_sha256 env) Header, 0))
      | HeaderPrevProof \<Rightarrow>
          (case verify_groth16_proof (env_sha256 env) (env_zkm env) (hci_zkm_proof input) (hci_zkm_public_values input)
                  (hci_zkm_vk_hash input) (hci_zkm_version input) of
             Inl _ \<Rightarrow> None
           | Inr previous_program_id \<Rightarrow>
               (case decode_header_chain_circuit_output env (hci_zkm_public_values input) of
                  None \<Rightarrow> None
                | Some out \<Rightarrow>
                    if hco_self_program_id out \<noteq> previous_program_id then None
                    else
                      let history = next_history (env_sha256 env) Header (hco_program_history_hash out)
                            previous_program_id (hci_self_program_id input);
                          checkpoint =
                            (if previous_program_id = hci_self_program_id input then hco_upgrade_checkpoint_hash out
                             else proof_checkpoint (env_sha256 env) Header (hco_upgrade_checkpoint_hash out)
                               previous_program_id (hci_self_program_id input) (hci_zkm_public_values input))
                      in Some (hco_chain_state out, history, checkpoint))))"

definition header_chain_circuit :: "header_env \<Rightarrow> header_chain_input \<Rightarrow> header_chain_output option" where
  "header_chain_circuit env input =
     (case header_chain_start env input of
        None \<Rightarrow> None
      | Some (s, history, checkpoint) \<Rightarrow>
          (case apply_blocks (env_sha256 env) (env_next_work env) (env_network env) (hci_block_headers input) s of
             None \<Rightarrow> None
           | Some s' \<Rightarrow>
               Some \<lparr> hco_chain_state = s', hco_self_program_id = hci_self_program_id input,
                      hco_program_history_hash = history, hco_upgrade_checkpoint_hash = checkpoint \<rparr>))"

section \<open>Recursive proofs\<close>

text \<open>
  A first run and a run on a previous output, with the identities of the programs. A chain has fewer than
  2^32 blocks in all.
\<close>

definition header_first_run :: "header_env \<Rightarrow> program_id \<Rightarrow> header_chain_output \<Rightarrow> bool" where
  "header_first_run env pid out \<longleftrightarrow>
     (\<exists>input. hci_prev_proof input = HeaderGenesisBlock \<and> hci_self_program_id input = pid \<and>
        header_chain_circuit env input = Some out \<and> length (hci_block_headers input) < 2 ^ 32)"

definition header_next_run ::
  "header_env \<Rightarrow> program_id \<Rightarrow> header_chain_output \<Rightarrow> program_id \<Rightarrow> header_chain_output \<Rightarrow> bool" where
  "header_next_run env pid prev self out \<longleftrightarrow>
     (\<exists>input. hci_prev_proof input = HeaderPrevProof \<and> hci_self_program_id input = self \<and>
        header_chain_circuit env input = Some out \<and>
        verify_groth16_proof (env_sha256 env) (env_zkm env) (hci_zkm_proof input) (hci_zkm_public_values input)
          (hci_zkm_vk_hash input) (hci_zkm_version input) = Inr pid \<and>
        decode_header_chain_circuit_output env (hci_zkm_public_values input) = Some prev \<and>
        unat (block_height (hco_chain_state prev)) + 1 + length (hci_block_headers input) < 2 ^ 32)"

definition header_proved ::
  "header_env \<Rightarrow> program_id set \<Rightarrow> bytes set \<Rightarrow> program_id \<Rightarrow> header_chain_output \<Rightarrow> bool" where
  "header_proved env =
     recursively_proved Header hco_program_history_hash (header_first_run env) (header_next_run env)"

text \<open>The chain state is the one after a valid chain from the genesis block.\<close>

definition genuine_chain :: "header_env \<Rightarrow> chain_state \<Rightarrow> circuit_block_header list \<Rightarrow> bool" where
  "genuine_chain env s hs \<longleftrightarrow>
     hs \<noteq> [] \<and> length hs < 2 ^ 32 \<and> hd hs = env_genesis_block env (env_network env) \<and>
     valid_headers (env_sha256 env) (env_next_work env) (env_network env) hs \<and>
     s = state_of (env_sha256 env) (env_next_work env) (env_network env) hs"

lemma genesis_run:
  assumes "hci_prev_proof input = HeaderGenesisBlock" "header_chain_circuit env input = Some out"
    "length (hci_block_headers input) < 2 ^ 32"
  shows "genuine_chain env (hco_chain_state out) (hci_block_headers input)"
    "hco_program_history_hash out = initial_history (env_sha256 env) Header"
proof -
  let ?hs = "hci_block_headers input"
  from assms(1,2) obtain s where hs: "?hs \<noteq> []" "hd ?hs = env_genesis_block env (env_network env)"
    and s: "apply_blocks (env_sha256 env) (env_next_work env) (env_network env) ?hs (chain_state_new (env_network env)) = Some s"
    and out: "hco_chain_state out = s" "hco_program_history_hash out = initial_history (env_sha256 env) Header"
    by (auto simp: header_chain_circuit_def header_chain_start_def split: option.splits list.splits if_splits)
  from s have "blocks_ok (env_sha256 env) (env_next_work env) (env_network env) [] ?hs \<and>
      s = state_of (env_sha256 env) (env_next_work env) (env_network env) ?hs"
    using apply_blocks_state [of "[]" ?hs "env_sha256 env" "env_next_work env" "env_network env"] assms(3)
    by (simp add: state_of_Nil split: if_splits)
  with hs out assms(3) show "genuine_chain env (hco_chain_state out) ?hs" by (simp add: genuine_chain_def valid_headers_def)
  show "hco_program_history_hash out = initial_history (env_sha256 env) Header" by (fact out(2))
qed

lemma previous_run:
  assumes "hci_prev_proof input = HeaderPrevProof" "header_chain_circuit env input = Some out"
    "verify_groth16_proof (env_sha256 env) (env_zkm env) (hci_zkm_proof input) (hci_zkm_public_values input)
         (hci_zkm_vk_hash input) (hci_zkm_version input) = Inr pid"
    "decode_header_chain_circuit_output env (hci_zkm_public_values input) = Some prev"
  shows "hco_program_history_hash out =
      next_history (env_sha256 env) Header (hco_program_history_hash prev) pid (hci_self_program_id input)"
    "apply_blocks (env_sha256 env) (env_next_work env) (env_network env) (hci_block_headers input) (hco_chain_state prev) =
      Some (hco_chain_state out)"
    "hco_self_program_id prev = pid" "hco_self_program_id out = hci_self_program_id input"
  using assms by (auto simp: header_chain_circuit_def header_chain_start_def Let_def split: option.splits if_splits)

lemma extend_genuine_chain:
  assumes "genuine_chain env s hs"
    "apply_blocks (env_sha256 env) (env_next_work env) (env_network env) bs s = Some s'"
    "unat (block_height s) + 1 + length bs < 2 ^ 32"
  shows "genuine_chain env s' (hs @ bs)"
proof -
  from assms(1) have s: "s = state_of (env_sha256 env) (env_next_work env) (env_network env) hs"
    and len: "length hs < 2 ^ 32" and ne: "hs \<noteq> []" by (simp_all add: genuine_chain_def)
  have "length (hs @ bs) < 2 ^ 32"
    using assms(3) height_of_state(2) [OF len ne, of "env_sha256 env" "env_next_work env" "env_network env"] ne
    by (simp add: s Suc_le_eq)
  from apply_blocks_state [OF this, of "env_sha256 env" "env_next_work env" "env_network env"] assms this
  show ?thesis by (auto simp: genuine_chain_def s valid_headers_def blocks_ok_append split: if_splits)
qed

interpretation header_program: recursive_program "env_sha256 env" Header hco_program_history_hash
  "header_first_run env" "header_next_run env" "\<lambda>out. \<exists>hs. genuine_chain env (hco_chain_state out) hs" for env
proof unfold_locales
  show "hco_program_history_hash out = initial_history (env_sha256 env) Header" if "header_first_run env pid out" for pid out
    using that genesis_run(2) by (auto simp: header_first_run_def)
  show "\<exists>hs. genuine_chain env (hco_chain_state out) hs" if "header_first_run env pid out" for pid out
    using that genesis_run(1) by (auto simp: header_first_run_def)
  show "hco_program_history_hash out = next_history (env_sha256 env) Header (hco_program_history_hash prev) pid self"
    if "header_next_run env pid prev self out" for pid prev self out
    using that previous_run(1) by (auto simp: header_next_run_def)
  show "\<exists>hs. genuine_chain env (hco_chain_state out) hs"
    if "header_next_run env pid prev self out" "\<exists>hs. genuine_chain env (hco_chain_state prev) hs" for pid prev self out
    using that previous_run(2) extend_genuine_chain by (fastforce simp: header_next_run_def)
qed

section \<open>Inclusion proofs and collisions\<close>

text \<open>The strings hashed for pairs of nodes, once in the mountain range and twice in a block's tree.\<close>

definition pair_strings :: "(hash32 \<times> hash32) list \<Rightarrow> bytes set" where
  "pair_strings ps = (\<lambda>(a, b). array_bytes a @ array_bytes b) ` set ps"

definition double_strings :: "(bytes \<Rightarrow> hash32) \<Rightarrow> bytes set \<Rightarrow> bytes set" where
  "double_strings sha256 xs = xs \<union> (\<lambda>x. array_bytes (sha256 x)) ` xs"

lemma no_path_collision:
  assumes "inj_on sha256 S" "pair_strings (climb_pairs (hash_pair sha256) i p x) \<subseteq> S"
    "pair_strings (climb_pairs (hash_pair sha256) i q y) \<subseteq> S"
  shows "\<not> path_collision (hash_pair sha256) i p x q y"
proof
  assume "path_collision (hash_pair sha256) i p x q y"
  then obtain a b c d
    where zip: "((a, b), (c, d)) \<in> set (zip (climb_pairs (hash_pair sha256) i p x) (climb_pairs (hash_pair sha256) i q y))"
      and ne: "(a, b) \<noteq> (c, d)" and eq: "hash_pair sha256 a b = hash_pair sha256 c d"
    by (auto simp: path_collision_def list_ex_iff)
  note ab = set_zip_leftD [OF zip] and cd = set_zip_rightD [OF zip]
  have "array_bytes a @ array_bytes b \<in> S" "array_bytes c @ array_bytes d \<in> S"
    using ab cd assms(2,3) by (auto simp: pair_strings_def)
  with eq assms(1) have "array_bytes a @ array_bytes b = array_bytes c @ array_bytes d"
    unfolding hash_pair_def by (intro inj_onD [OF assms(1)])
  with ne show False by simp
qed

lemma double_sha256_inj:
  assumes "inj_on sha256 S" "double_strings sha256 {x, y} \<subseteq> S"
    "calculate_double_sha256 sha256 x = calculate_double_sha256 sha256 y"
  shows "x = y"
proof -
  have "array_bytes (sha256 x) = array_bytes (sha256 y)"
    using assms by (intro inj_onD [OF assms(1)]) (simp_all add: calculate_double_sha256_def double_strings_def)
  then show ?thesis using assms by (intro inj_onD [OF assms(1)]) (simp_all add: double_strings_def)
qed

lemma merkle_pair_inj:
  assumes "inj_on sha256 S" "double_strings sha256 (pair_strings ps) \<subseteq> S" "double_strings sha256 (pair_strings qs) \<subseteq> S"
    "p \<in> set ps" "q \<in> set qs" "merkle_pair sha256 (fst p) (snd p) = merkle_pair sha256 (fst q) (snd q)"
  shows "p = q"
proof -
  let ?x = "array_bytes (fst p) @ array_bytes (snd p)" and ?y = "array_bytes (fst q) @ array_bytes (snd q)"
  have "?x \<in> pair_strings ps" "?y \<in> pair_strings qs"
    using assms(4,5) by (auto simp: pair_strings_def split_beta)
  then have "double_strings sha256 {?x, ?y} \<subseteq> S"
    using assms(2,3) by (auto simp: double_strings_def)
  then have "?x = ?y"
    using assms(6) by (intro double_sha256_inj [OF assms(1)]) (simp_all add: merkle_pair_def)
  then show ?thesis by (simp add: prod_eq_iff)
qed

lemma guest_of_ok:
  "length hs < 2 ^ 32 \<Longrightarrow> guest_ok (hash_pair sha256) (guest_of sha256 hs) (map (compute_block_hash sha256) hs)"
  by (simp add: guest_ok_def guest_of_def)

text \<open>A block hash that the mountain range over \<open>hs\<close> proves is the hash of the header at that height.\<close>

lemma guest_of_proves:
  assumes "length hs < 2 ^ 32" "inj_on sha256 S"
    "pair_strings (mmr_pairs (hash_pair sha256) (map (compute_block_hash sha256) hs)) \<subseteq> S"
    "pair_strings (climb_pairs (hash_pair sha256) (unat (leaf_index p)) (inclusion_proof p) leaf) \<subseteq> S"
    "guest_verify_proof (hash_pair sha256) (guest_of sha256 hs) leaf p"
  shows "unat (leaf_index p) < length hs" "leaf = compute_block_hash sha256 (hs ! unat (leaf_index p))"
proof -
  let ?H = "hash_pair sha256" and ?l = "map (compute_block_hash sha256) hs" and ?i = "unat (leaf_index p)"
  have v: "?i < length ?l" "length (inclusion_proof p) = peak_of (length ?l) ?i"
      "climb ?H ?i (inclusion_proof p) leaf = rev (peaks_up ?H ?l) ! peak_index (length ?l) ?i"
    using assms(5) unfolding guest_verify_iff [OF guest_of_ok [OF assms(1)]] by simp_all
  then show i: "?i < length hs" by simp
  obtain path where path: "proof_path ?i (mmr_levels ?H ?l) = Some path" "length path = peak_of (length ?l) ?i"
      "climb ?H ?i path (?l ! ?i) = rev (peaks_up ?H ?l) ! peak_index (length ?l) ?i"
    using proof_path_ok [OF v(1), of ?H] by blast
  have "pair_strings (climb_pairs ?H ?i path (?l ! ?i)) \<subseteq> S"
    using climb_pairs_levels [OF v(1) path(1)] assms(3) by (auto simp: pair_strings_def)
  from no_path_collision [OF assms(2,4) this] climb_inj [of ?H ?i "inclusion_proof p" leaf path "?l ! ?i"] v path
  show "leaf = compute_block_hash sha256 (hs ! ?i)" using i by simp
qed

lemma root_last: "txs \<noteq> [] \<Longrightarrow> root (bitcoin_merkle_tree_new H txs) = Some r \<Longrightarrow> last (txs # upper_levels H txs) = [r]"
  using upper_levels_path [of 0 txs H] last_conv_nth [of "txs # upper_levels H txs"]
  by (auto simp: root_def tree_nodes_new Let_def)

text \<open>The strings hashed when the headers and the block are hashed and when the inclusion is verified.\<close>

definition spv_strings ::
  "(bytes \<Rightarrow> hash32) \<Rightarrow> consensus \<Rightarrow> spv \<Rightarrow> circuit_block_header list \<Rightarrow> transaction list \<Rightarrow> bytes set" where
  "spv_strings sha256 c spv hs txs =
     header_strings sha256 (spv_block_header spv # hs) \<union>
     pair_strings (mmr_pairs (hash_pair sha256) (map (compute_block_hash sha256) hs)) \<union>
     pair_strings (climb_pairs (hash_pair sha256) (unat (leaf_index (mmr_inclusion spv)))
       (inclusion_proof (mmr_inclusion spv)) (compute_block_hash sha256 (spv_block_header spv))) \<union>
     double_strings sha256 (pair_strings (tree_pairs (merkle_pair sha256) (map (txid sha256 c) txs))) \<union>
     double_strings sha256 (pair_strings (climb_pairs (merkle_pair sha256) (unat (idx (block_inclusion spv)))
       (merkle_proof (block_inclusion spv)) (txid sha256 c (spv_transaction spv)))) \<union>
     double_strings sha256 (txid_preimage c ` set (spv_transaction spv # txs))"

lemma spv_verify_Some:
  "spv_verify sha256 c spv g = Some height \<longleftrightarrow>
     get_root (merkle_pair sha256) (block_inclusion spv) (txid sha256 c (spv_transaction spv)) = bh_merkle_root (spv_block_header spv) \<and>
     guest_verify_proof (hash_pair sha256) g (compute_block_hash sha256 (spv_block_header spv)) (mmr_inclusion spv) \<and>
     height = leaf_index (mmr_inclusion spv)"
  by (auto simp: spv_verify_def Let_def)

lemma spv_header:
  assumes "length hs < 2 ^ 32" "spv_verify sha256 c spv (guest_of sha256 hs) = Some height"
    "inj_on sha256 S" "spv_strings sha256 c spv hs txs \<subseteq> S"
  shows "unat height < length hs" "spv_block_header spv = hs ! unat height"
proof -
  note v = assms(2) [unfolded spv_verify_Some]
  have sub: "pair_strings (mmr_pairs (hash_pair sha256) (map (compute_block_hash sha256) hs)) \<subseteq> S"
    "pair_strings (climb_pairs (hash_pair sha256) (unat (leaf_index (mmr_inclusion spv)))
       (inclusion_proof (mmr_inclusion spv)) (compute_block_hash sha256 (spv_block_header spv))) \<subseteq> S"
    "header_strings sha256 (spv_block_header spv # hs) \<subseteq> S"
    using assms(4) by (simp_all add: spv_strings_def)
  note p = guest_of_proves [OF assms(1,3) sub(1,2) v [THEN conjunct2, THEN conjunct1]]
  show i: "unat height < length hs" using p v by simp
  have "compute_block_hash sha256 (spv_block_header spv) = compute_block_hash sha256 (hs ! unat height)" using p v by simp
  then show "spv_block_header spv = hs ! unat height"
    using sub(3) i by (intro compute_block_hash_inj [OF assms(3)]) (auto simp: header_strings_def)
qed

lemma spv_transaction_in_block:
  assumes "get_root (merkle_pair sha256) (block_inclusion spv) (txid sha256 c (spv_transaction spv)) = r"
    "txs \<noteq> []" "root (bitcoin_merkle_tree_new (merkle_pair sha256) (map (txid sha256 c) txs)) = Some r"
    "length (merkle_proof (block_inclusion spv)) = length (upper_levels (merkle_pair sha256) (map (txid sha256 c) txs))"
    "inj_on sha256 S" "spv_strings sha256 c spv hs txs \<subseteq> S"
  shows "\<exists>t \<in> set txs. txid_preimage c t = txid_preimage c (spv_transaction spv)"
proof -
  let ?H = "merkle_pair sha256" and ?l = "map (txid sha256 c) txs" and ?p = "block_inclusion spv"
  let ?t = "txid sha256 c (spv_transaction spv)"
  have sub: "double_strings sha256 (pair_strings (tree_pairs ?H ?l)) \<subseteq> S"
    "double_strings sha256 (pair_strings (climb_pairs ?H (unat (idx ?p)) (merkle_proof ?p) ?t)) \<subseteq> S"
    "double_strings sha256 (txid_preimage c ` set (spv_transaction spv # txs)) \<subseteq> S"
    using assms(6) by (simp_all add: spv_strings_def)
  have "?t \<in> set ?l"
  proof (rule climb_to_root_member)
    show "last (?l # upper_levels ?H ?l) = [climb ?H (unat (idx ?p)) (merkle_proof ?p) ?t]"
      using root_last [OF _ assms(3)] assms(1,2) by (simp add: get_root_def root_loop_climb)
    show "p = q" if "p \<in> set (climb_pairs ?H (unat (idx ?p)) (merkle_proof ?p) ?t)" "q \<in> set (tree_pairs ?H ?l)"
      "?H (fst p) (snd p) = ?H (fst q) (snd q)" for p q
      using merkle_pair_inj [OF assms(5) sub(2,1) that] .
  qed (use assms(2,4) in simp_all)
  then obtain t where t: "t \<in> set txs" "txid sha256 c t = ?t" by auto
  have "txid_preimage c t = txid_preimage c (spv_transaction spv)"
    using t sub(3) by (intro double_sha256_inj [OF assms(5)]) (auto simp: double_strings_def txid_def)
  with t(1) show ?thesis by blast
qed

section \<open>Properties\<close>

definition example_history_sha256 :: "bytes \<Rightarrow> hash32" where
  "example_history_sha256 bs = (if length bs = 80 then 1 else if length bs = 25 then 2 else if length bs = 90 then 3 else 0)"

definition example_env :: header_env where
  "example_env = \<lparr>
     env_sha256 = example_history_sha256,
     env_zkm = \<lparr> try_get_part_stark_vk = (\<lambda>_. Some []), decode_zkm_vkey_hash = (\<lambda>_. Some 0), imm_groth16_vk_bytes = [],
       verify_by_imm_groth16_vk = (\<lambda>_ _ _ _ _. False) \<rparr>,
     env_next_work = (\<lambda>_ bits _. bits), env_genesis_block = (\<lambda>_. example_header), env_network = Regtest,
     env_decode_header = (\<lambda>_. None) \<rparr>"

definition example_header_input :: header_chain_input where
  "example_header_input = \<lparr> hci_zkm_proof = [], hci_zkm_public_values = [], hci_zkm_vk_hash = [], hci_zkm_version = [],
     hci_self_program_id = 9, hci_prev_proof = HeaderGenesisBlock, hci_block_headers = [example_header] \<rparr>"

lemma example_header_run:
  "header_chain_circuit example_env example_header_input = Some \<lparr>
     hco_chain_state = state_of example_history_sha256 (\<lambda>_ bits _. bits) Regtest [example_header],
     hco_self_program_id = 9, hco_program_history_hash = 2, hco_upgrade_checkpoint_hash = 0 \<rparr>"
proof -
  have "blocks_ok example_history_sha256 (\<lambda>_ bits _. bits) Regtest [] [example_header]"
    using hash_value_0
    by (simp add: block_ok_def example_header_def required_bits_def easy_block_def NETWORK_CONSTANTS_def
      compute_block_hash_def last_times_def example_history_sha256_def)
  then have "apply_blocks example_history_sha256 (\<lambda>_ bits _. bits) Regtest [example_header] (chain_state_new Regtest) =
      Some (state_of example_history_sha256 (\<lambda>_ bits _. bits) Regtest [example_header])"
    using apply_blocks_state [of "[]" "[example_header]" example_history_sha256 "\<lambda>_ bits _. bits" Regtest]
    by (simp add: state_of_Nil)
  moreover have "initial_history example_history_sha256 Header = 2"
    by (simp add: initial_history_alt seed_preimage_def as_bytes_def example_history_sha256_def)
  ultimately show ?thesis
    by (simp add: header_chain_circuit_def header_chain_start_def example_env_def example_header_input_def)
qed

text \<open>
  A header proof with an accepted program history is a proof about Bitcoin. Suppose recursive proofs
  are made by genuine header programs, which run the circuit on the outputs of earlier proofs, and by
  foreign programs, which output what they like. If the history finalised from a proof's output is the
  history of a list of genuine programs, the chain state in the output is the state after some valid
  header chain that starts at the configured genesis block: a foreign program anywhere in the recursion
  would have left its identity in the history. SHA-256 is assumed injective on the strings hashed for
  histories.
\<close>

theorem proved_headers_genuine:
  assumes "header_proved env G S pid out" "inj_on (env_sha256 env) S"
    and "set (p # ps) \<subseteq> G" "distinct_adj (p # ps)" "history_strings (env_sha256 env) Header (p # ps) \<subseteq> S"
    and "final_preimage Header (hco_program_history_hash out) pid \<in> S"
      "final_preimage Header (history_of (env_sha256 env) Header (p # ps)) p \<in> S"
    and "finalize_history (env_sha256 env) Header (hco_program_history_hash out) pid =
      finalize_history (env_sha256 env) Header (history_of (env_sha256 env) Header (p # ps)) p"
  shows "\<exists>hs. genuine_chain env (hco_chain_state out) hs"
  using header_program.finalized_good [OF assms(1) [unfolded header_proved_def] assms(2-8)] .

theorem proved_headers_genuine_witness:
  "\<exists>out. header_chain_circuit example_env example_header_input = Some out \<and>
     (\<exists>hs. genuine_chain example_env (hco_chain_state out) hs)"
proof -
  let ?out = "the (header_chain_circuit example_env example_header_input)"
  let ?S = "{seed_preimage Header, final_preimage Header 2 9}"
  have run: "header_chain_circuit example_env example_header_input = Some ?out" by (simp add: example_header_run)
  have proved: "header_proved example_env {9} ?S 9 ?out"
    unfolding header_proved_def
    by (rule recursively_proved.from_genesis)
      (use run in \<open>auto simp: header_first_run_def example_header_input_def intro!: exI [of _ example_header_input]\<close>)
  have inj: "inj_on (env_sha256 example_env) ?S"
    by (simp add: example_env_def inj_on_def example_history_sha256_def seed_preimage_def final_preimage_def as_bytes_def)
  have hist: "history_of (env_sha256 example_env) Header [9] = 2"
    by (simp add: example_env_def initial_history_alt seed_preimage_def as_bytes_def example_history_sha256_def)
  have "\<exists>hs. genuine_chain example_env (hco_chain_state ?out) hs"
    using proved_headers_genuine [OF proved inj, of 9 "[]"] hist by (simp add: example_header_run)
  with run show ?thesis by blast
qed

definition example_spv_sha256 :: "bytes \<Rightarrow> hash32" where
  "example_spv_sha256 bs = (if length bs = 80 then 1 else if length bs = 3 then 4 else if bs = array_bytes 4 then 5 else 0)"

definition example_consensus :: consensus where
  "example_consensus = \<lparr> encode_version = (\<lambda>_. [1]), encode_inputs = (\<lambda>_. [2]), encode_outputs = (\<lambda>_. [3]),
     encode_lock_time = (\<lambda>_. []) \<rparr>"

definition example_spv :: spv where
  "example_spv = \<lparr> spv_transaction = example_transaction, block_inclusion = \<lparr> idx = 0, merkle_proof = [] \<rparr>,
     spv_block_header = example_header\<lparr> bh_merkle_root := 5 \<rparr>, mmr_inclusion = \<lparr> leaf_index = 0, inclusion_proof = [] \<rparr> \<rparr>"

text \<open>
  \<^bold>\<open>C24.\<close> An inclusion proof that verifies against the mountain range of a chain is about a block of that chain
  and a transaction of that block. The returned height is in range, the header shown is the header
  of the chain at that height, and, if the Merkle path has as many steps as the tree over the
  transactions of that block, the transaction shown is one of them. SHA-256 is assumed injective on the
  strings hashed for the chain, the block and the verification.
\<close>

theorem spv_sound:
  assumes "length hs < 2 ^ 32" "spv_verify sha256 c spv (guest_of sha256 hs) = Some height"
    and "txs \<noteq> []" "root (bitcoin_merkle_tree_new (merkle_pair sha256) (map (txid sha256 c) txs)) =
      Some (bh_merkle_root (hs ! unat height))"
    and "length (merkle_proof (block_inclusion spv)) = length (upper_levels (merkle_pair sha256) (map (txid sha256 c) txs))"
    and "inj_on sha256 (spv_strings sha256 c spv hs txs)"
  shows "unat height < length hs \<and> spv_block_header spv = hs ! unat height \<and>
    (\<exists>t \<in> set txs. txid_preimage c t = txid_preimage c (spv_transaction spv))"
  using spv_header [OF assms(1,2,6) order_refl] assms(2)
    spv_transaction_in_block [OF _ assms(3,4,5,6) order_refl] by (simp add: spv_verify_Some)

theorem spv_sound_witness:
  "spv_verify example_spv_sha256 example_consensus example_spv
     (guest_of example_spv_sha256 [example_header\<lparr> bh_merkle_root := 5 \<rparr>]) = Some 0 \<and>
   spv_block_header example_spv = [example_header\<lparr> bh_merkle_root := 5 \<rparr>] ! 0"
proof -
  let ?sha = example_spv_sha256 and ?c = example_consensus and ?hs = "[example_header\<lparr> bh_merkle_root := 5 \<rparr>]"
  have tx: "txid_preimage ?c t = [1, 2, 3]" "txid ?sha ?c t = 5" for t
    by (simp_all add: txid_def txid_preimage_def example_consensus_def calculate_double_sha256_def example_spv_sha256_def)
  have verify: "spv_verify ?sha ?c example_spv (guest_of ?sha ?hs) = Some 0"
    by (simp add: spv_verify_Some tx guest_verify_iff [OF guest_of_ok] example_spv_def get_root_def peak_of.simps
      peaks_up.simps peak_index_def popcount.simps)
  have "inj_on ?sha (spv_strings ?sha ?c example_spv ?hs [example_transaction])"
    by (simp add: spv_strings_def example_spv_def header_strings_def tx mmr_pairs_def level_pairs_def mmr_levels.simps
      pair_strings_def double_strings_def tree_pairs_def upper_levels.simps example_spv_sha256_def inj_on_def header_bytes_def)
  with spv_sound [OF _ verify, of "[example_transaction]"] verify show ?thesis
    by (simp add: tx upper_levels.simps bitcoin_merkle_tree_new_def root_def example_spv_def)
qed

text \<open>
  \<^bold>\<open>C25.\<close> The condition on the length of the Merkle path is needed: \<^verbatim>\<open>verify\<close> does not check it. In a block with the
  transaction ids \<open>a\<close>, \<open>b\<close>, \<open>c\<close> and \<open>d\<close>, a 64-byte transaction whose encoding is the concatenation of \<open>a\<close> and \<open>b\<close>
  verifies as included although it is an inner node of the tree.
\<close>

theorem inner_node_accepted:
  assumes "txid_preimage cns tx = array_bytes a @ array_bytes b"
    and "root (bitcoin_merkle_tree_new (merkle_pair sha256) [a, b, c, d]) = Some (bh_merkle_root h)"
  shows "spv_verify sha256 cns
    \<lparr> spv_transaction = tx, block_inclusion = \<lparr> idx = 0, merkle_proof = [merkle_pair sha256 c d] \<rparr>,
      spv_block_header = h, mmr_inclusion = \<lparr> leaf_index = 0, inclusion_proof = [] \<rparr> \<rparr>
    (guest_of sha256 [h]) = Some 0"
proof -
  have "txid sha256 cns tx = merkle_pair sha256 a b" by (simp add: txid_def merkle_pair_def assms(1))
  moreover have "bh_merkle_root h = merkle_pair sha256 (merkle_pair sha256 a b) (merkle_pair sha256 c d)"
    using assms(2) by (simp add: bitcoin_merkle_tree_new_def upper_levels.simps next_level_def root_def)
  ultimately show ?thesis
    by (simp add: spv_verify_Some guest_verify_iff [OF guest_of_ok] get_root_def peak_of.simps peaks_up.simps
      peak_index_def popcount.simps)
qed

theorem inner_node_accepted_witness:
  "spv_verify (\<lambda>_. 0) (example_consensus\<lparr> encode_version := (\<lambda>_. array_bytes 0 @ array_bytes 0),
       encode_inputs := (\<lambda>_. []), encode_outputs := (\<lambda>_. []) \<rparr>)
     \<lparr> spv_transaction = example_transaction, block_inclusion = \<lparr> idx = 0, merkle_proof = [0] \<rparr>,
       spv_block_header = example_header\<lparr> bh_merkle_root := 0 \<rparr>, mmr_inclusion = \<lparr> leaf_index = 0, inclusion_proof = [] \<rparr> \<rparr>
     (guest_of (\<lambda>_. 0) [example_header\<lparr> bh_merkle_root := 0 \<rparr>]) = Some 0"
proof -
  let ?c = "example_consensus\<lparr> encode_version := (\<lambda>_. array_bytes 0 @ array_bytes 0),
    encode_inputs := (\<lambda>_. []), encode_outputs := (\<lambda>_. []) \<rparr>"
  have H: "merkle_pair (\<lambda>_. 0) a b = 0" for a b by (simp add: merkle_pair_def calculate_double_sha256_def)
  have "txid_preimage ?c example_transaction = array_bytes 0 @ array_bytes 0"
    by (simp add: txid_preimage_def example_consensus_def)
  moreover have "root (bitcoin_merkle_tree_new (merkle_pair (\<lambda>_. 0)) [0, 0, 5, 6]) =
      Some (bh_merkle_root (example_header\<lparr> bh_merkle_root := 0 \<rparr>))"
    by (simp add: bitcoin_merkle_tree_new_def upper_levels.simps next_level_def root_def H)
  ultimately show ?thesis
    using inner_node_accepted [of ?c example_transaction 0 0 "\<lambda>_. 0" 5 6 "example_header\<lparr> bh_merkle_root := 0 \<rparr>"]
    by (simp add: H)
qed

end
