(* ===== verification/CommitChain.thy ===== *)
theory CommitChain
  imports HeaderCircuit
begin

text \<open>
  The chain of sequencer commitments on Bitcoin (\<^verbatim>\<open>src/circuits/crates/commit-chain/src/commit_chain.rs\<close>,
  \<^verbatim>\<open>publisher.rs\<close> and \<^verbatim>\<open>lib.rs\<close>): the Publisher sets and their P2WSH multisignatures, the commitment digest and
  its extraction from a transaction, and the circuit that follows the chain of commitment transactions.

  What the code calls of the \<^verbatim>\<open>bitcoin\<close> crate (the transaction id, script parsing and building, P2WSH
  outputs, signature hashes, ECDSA) and of \<^verbatim>\<open>tendermint\<close> (the hash of a validator set) are the fields of the
  parameter \<^verbatim>\<open>bitcoin_env\<close>. A public key is represented by its serialisation. A failed assertion, an
  \<^verbatim>\<open>unwrap\<close> of an error and an index out of bounds are \<^verbatim>\<open>None\<close>; results with an error the caller inspects are
  values of a sum type.

  The lemmas show that the signature check counts distinct Publishers, that the digest determines what it
  commits to, and that every accepted commit spends the connector of its predecessor.
\<close>

section \<open>Third-party code\<close>

datatype instruction = Op "8 word" | PushBytes bytes

datatype tendermint_hash = TmSha256 hash32 | TmNone

record sequencer_info =
  sq_address :: string
  sq_pub_key :: bytes
  sq_power :: "64 word"
  sq_name :: "string option"

record bitcoin_env =
  be_compute_txid :: "transaction \<Rightarrow> hash32"
  be_instructions_minimal :: "bytes \<Rightarrow> instruction list option"
  be_push_int :: "bytes \<Rightarrow> int \<Rightarrow> bytes"
  be_push_slice :: "bytes \<Rightarrow> bytes \<Rightarrow> bytes"
  be_push_opcode :: "bytes \<Rightarrow> 8 word \<Rightarrow> bytes"
  be_new_p2wsh :: "bytes \<Rightarrow> bytes"
  be_from_der :: "bytes \<Rightarrow> bytes option"
  be_p2wsh_signature_hash :: "transaction \<Rightarrow> nat \<Rightarrow> bytes \<Rightarrow> 64 word \<Rightarrow> 8 word \<Rightarrow> hash32 option"
  be_verify_ecdsa :: "hash32 \<Rightarrow> bytes \<Rightarrow> bytes \<Rightarrow> bool"
  be_sequencer_hash :: "sequencer_info list \<Rightarrow> tendermint_hash option"

definition OP_RETURN :: "8 word" where
  "OP_RETURN = 0x6a"

definition OP_CHECKMULTISIG :: "8 word" where
  "OP_CHECKMULTISIG = 0xae"

text \<open>\<^verbatim>\<open>assert!\<close>\<close>

definition assert_that :: "bool \<Rightarrow> unit option" where
  "assert_that b = (if b then Some () else None)"

lemma assert_that_Some [simp]: "assert_that b = Some u \<longleftrightarrow> b"
  by (simp add: assert_that_def)

lemma assert_that_bind [simp]: "Option.bind (assert_that b) f = Some x \<longleftrightarrow> b \<and> f () = Some x"
  by (simp add: assert_that_def)

section \<open>Publishers\<close>

datatype publisher_error = InvalidPublisherSet nat nat | DuplicatePublisherKey bytes

fun insert_unique :: "bytes set \<Rightarrow> bytes list \<Rightarrow> publisher_error + unit" where
  "insert_unique unique_keys [] = Inr ()"
| "insert_unique unique_keys (pk # pks) =
     (if pk \<in> unique_keys then Inl (DuplicatePublisherKey pk) else insert_unique (insert pk unique_keys) pks)"

definition validate_publisher_set :: "bytes list \<Rightarrow> nat \<Rightarrow> publisher_error + unit" where
  "validate_publisher_set public_keys threshold =
     (let total = length public_keys
      in if public_keys = [] \<or> 20 < total \<or> threshold = 0 \<or> total < threshold
         then Inl (InvalidPublisherSet total threshold)
         else insert_unique {} public_keys)"

definition create_sequencer_update_script :: "bitcoin_env \<Rightarrow> bytes list \<Rightarrow> nat \<Rightarrow> bytes option" where
  "create_sequencer_update_script e public_keys threshold =
     (case validate_publisher_set public_keys threshold of
        Inl _ \<Rightarrow> None
      | Inr _ \<Rightarrow>
          let redeem_script = be_push_int e [] (int threshold);
              redeem_script = foldl (be_push_slice e) redeem_script public_keys;
              redeem_script = be_push_int e redeem_script (int (length public_keys))
          in Some (be_push_opcode e redeem_script OP_CHECKMULTISIG))"

definition finalize_witness :: "transaction \<Rightarrow> bytes list \<Rightarrow> bytes \<Rightarrow> transaction option" where
  "finalize_witness tx sigs redeem_script =
     (case tx_input tx of
        [] \<Rightarrow> None
      | i # is \<Rightarrow> Some (tx\<lparr> tx_input := i\<lparr> tx_witness := [] # sigs @ [redeem_script] \<rparr> # is \<rparr>))"

datatype multisig_error =
    PrevoutMismatch | WitnessTooShort | RedeemScriptMismatch | SignatureTooShort nat | InvalidDer nat | SighashFailed

fun parse_sigs :: "bitcoin_env \<Rightarrow> nat \<Rightarrow> bytes list \<Rightarrow> multisig_error + (bytes \<times> 8 word) list" where
  "parse_sigs e i [] = Inr []"
| "parse_sigs e i (raw # raws) =
     (if raw = [] then Inl (SignatureTooShort i)
      else case be_from_der e (butlast raw) of
        None \<Rightarrow> Inl (InvalidDer i)
      | Some sg \<Rightarrow>
          (case parse_sigs e (i + 1) raws of
             Inl err \<Rightarrow> Inl err
           | Inr sgs \<Rightarrow> Inr ((sg, last raw) # sgs)))"

text \<open>The loop over the public keys; the second list is the signatures not yet matched.\<close>

fun match_sigs ::
  "bitcoin_env \<Rightarrow> (8 word \<Rightarrow> hash32 option) \<Rightarrow> nat \<Rightarrow> bytes list \<Rightarrow> (bytes \<times> 8 word) list \<Rightarrow> nat \<Rightarrow> multisig_error + nat" where
  "match_sigs e sighash_of threshold (pk # pks) ((sg, sighash_ty) # sgs) matched =
     (case sighash_of sighash_ty of
        None \<Rightarrow> Inl SighashFailed
      | Some sighash \<Rightarrow>
          if be_verify_ecdsa e sighash sg pk
          then (if threshold \<le> matched + 1 then Inr (matched + 1)
                else match_sigs e sighash_of threshold pks sgs (matched + 1))
          else match_sigs e sighash_of threshold pks ((sg, sighash_ty) # sgs) matched)"
| "match_sigs e sighash_of threshold _ _ matched = Inr matched"

definition verify_p2wsh_multisig_witness ::
  "bitcoin_env \<Rightarrow> transaction \<Rightarrow> nat \<Rightarrow> txout \<Rightarrow> bytes \<Rightarrow> bytes list \<Rightarrow> nat \<Rightarrow> (multisig_error + bool) option" where
  "verify_p2wsh_multisig_witness e tx input_index prevout redeem_script pubkeys threshold =
     (if length (tx_input tx) \<le> input_index then None
      else
        let wtns = tx_witness (tx_input tx ! input_index);
            expected_script_pubkey = be_new_p2wsh e redeem_script
        in Some
          (if script_pubkey prevout \<noteq> expected_script_pubkey then Inl PrevoutMismatch
           else if length wtns < 2 then Inl WitnessTooShort
           else if last wtns \<noteq> redeem_script then Inl RedeemScriptMismatch
           else
             let raw_sigs = take (length wtns - 2) (drop 1 wtns)
             in if raw_sigs = [] then Inr False
                else case parse_sigs e 0 raw_sigs of
                  Inl err \<Rightarrow> Inl err
                | Inr parsed_sigs \<Rightarrow>
                    (case match_sigs e (be_p2wsh_signature_hash e tx input_index redeem_script (tx_value prevout))
                             threshold pubkeys parsed_sigs 0 of
                       Inl err \<Rightarrow> Inl err
                     | Inr matched \<Rightarrow> Inr (threshold \<le> matched))))"

section \<open>Commitments\<close>

record authorized_program_ids =
  ap_header :: program_id
  ap_state :: program_id
  ap_commit :: program_id
  ap_watchtower :: program_id

definition validate_program_ids :: "authorized_program_ids \<Rightarrow> bool" where
  "validate_program_ids a \<longleftrightarrow> 0 \<notin> set [ap_header a, ap_state a, ap_commit a, ap_watchtower a]"

record circuit_commit =
  cm_commit_txn :: transaction
  cm_genesis_txid :: hash32
  cm_publisher_public_keys :: "bytes list"
  cm_threshold :: "16 word"
  cm_next_publisher_public_keys :: "bytes list option"
  cm_next_threshold :: "16 word option"
  cm_sequencers :: "sequencer_info list"
  cm_genesis_evm_block_hash :: hash32
  cm_program_history_root :: hash32
  cm_block_height :: "32 word"
  cm_proof_checkpoint_root :: hash32
  cm_authorized_program_ids :: authorized_program_ids

record commit_chain_state =
  cs_block_height :: "32 word"
  cs_commit_txn :: transaction
  cs_genesis_txid :: hash32
  cs_sequencers :: "sequencer_info list"
  cs_publisher_public_keys :: "bytes list"
  cs_threshold :: "16 word"
  cs_proof_checkpoint_root :: hash32
  cs_authorized_program_ids :: authorized_program_ids

definition active_publisher_set :: "circuit_commit \<Rightarrow> bytes list \<times> 16 word" where
  "active_publisher_set c =
     (case (cm_next_publisher_public_keys c, cm_next_threshold c) of
        (Some next_keys, Some next_threshold) \<Rightarrow> (next_keys, next_threshold)
      | _ \<Rightarrow> (cm_publisher_public_keys c, cm_threshold c))"

definition commitment_preimage :: "hash32 \<Rightarrow> hash32 \<Rightarrow> hash32 \<Rightarrow> hash32 \<Rightarrow> authorized_program_ids \<Rightarrow> bytes" where
  "commitment_preimage sequencer_set_hash genesis_evm_block_hash history_root checkpoint_root a =
     as_bytes ''bitvm/commit-chain/v2'' @ array_bytes sequencer_set_hash @ array_bytes genesis_evm_block_hash @
     array_bytes history_root @ array_bytes checkpoint_root @ array_bytes (ap_header a) @ array_bytes (ap_state a) @
     array_bytes (ap_commit a) @ array_bytes (ap_watchtower a)"

definition commit_chain_commitment_digest ::
  "(bytes \<Rightarrow> hash32) \<Rightarrow> hash32 \<Rightarrow> hash32 \<Rightarrow> hash32 \<Rightarrow> hash32 \<Rightarrow> authorized_program_ids \<Rightarrow> hash32 option" where
  "commit_chain_commitment_digest sha256 sequencer_set_hash genesis_evm_block_hash history_root checkpoint_root a =
     do { assert_that (history_root \<noteq> 0);
          assert_that (checkpoint_root \<noteq> 0);
          assert_that (validate_program_ids a);
          Some (sha256 (commitment_preimage sequencer_set_hash genesis_evm_block_hash history_root checkpoint_root a)) }"

datatype commitment_error =
    WrongOutputCount nat | NonZeroValue | InvalidScript | WrongInstructionCount | NoOpReturn | NotPushed | WrongSize
  | NoPushedBytes | NoTerminator

definition extract_commit_chain_commitment :: "bitcoin_env \<Rightarrow> txout list \<Rightarrow> commitment_error + hash32" where
  "extract_commit_chain_commitment e outs =
     (if length outs \<noteq> 2 then Inl (WrongOutputCount (length outs))
      else
        let out = outs ! 1
        in if tx_value out \<noteq> 0 then Inl NonZeroValue
           else case be_instructions_minimal e (script_pubkey out) of
             None \<Rightarrow> Inl InvalidScript
           | Some instructions \<Rightarrow>
               if length instructions \<noteq> 2 then Inl WrongInstructionCount
               else if instructions ! 0 \<noteq> Op OP_RETURN then Inl NoOpReturn
               else case instructions ! 1 of
                 Op _ \<Rightarrow> Inl NotPushed
               | PushBytes bs \<Rightarrow> if length bs = 32 then Inr (from_be_bytes bs) else Inl WrongSize)"

fun extract_data :: "bitcoin_env \<Rightarrow> bytes \<Rightarrow> txout list \<Rightarrow> commitment_error + bytes" where
  "extract_data e acc [] = Inl NoTerminator"
| "extract_data e acc (out # outs) =
     (case be_instructions_minimal e (script_pubkey out) of
        None \<Rightarrow> Inl InvalidScript
      | Some instructions \<Rightarrow>
          (case instructions of
             a # PushBytes bs # _ \<Rightarrow>
               if a = Op OP_RETURN then Inr (acc @ bs) else extract_data e (acc @ bs) outs
           | _ \<Rightarrow> Inl NoPushedBytes))"

definition extract_data_from_commitment_outputs :: "bitcoin_env \<Rightarrow> txout list \<Rightarrow> commitment_error + bytes" where
  "extract_data_from_commitment_outputs e outs = extract_data e [] outs"

section \<open>The chain of commits\<close>

definition empty_transaction :: transaction where
  "empty_transaction = \<lparr> tx_version = 2, tx_lock_time = 0, tx_input = [], tx_output = [] \<rparr>"

definition commit_chain_state_new :: "hash32 \<Rightarrow> commit_chain_state" where
  "commit_chain_state_new genesis_txid = \<lparr>
     cs_block_height = - 1, cs_commit_txn = empty_transaction, cs_genesis_txid = genesis_txid, cs_sequencers = [],
     cs_publisher_public_keys = [], cs_threshold = - 1, cs_proof_checkpoint_root = 0,
     cs_authorized_program_ids = \<lparr> ap_header = 0, ap_state = 0, ap_commit = 0, ap_watchtower = 0 \<rparr> \<rparr>"

definition strip_witness :: "transaction \<Rightarrow> transaction" where
  "strip_witness tx = tx\<lparr> tx_input := map (\<lambda>i. i\<lparr> tx_witness := [] \<rparr>) (tx_input tx) \<rparr>"

text \<open>The commitment the commit states for itself equals the one in its transaction.\<close>

definition check_commitment :: "(bytes \<Rightarrow> hash32) \<Rightarrow> bitcoin_env \<Rightarrow> circuit_commit \<Rightarrow> bool" where
  "check_commitment sha256 e commit =
     (case extract_commit_chain_commitment e (tx_output (cm_commit_txn commit)) of
        Inl _ \<Rightarrow> False
      | Inr actual_commitment \<Rightarrow>
          (case be_sequencer_hash e (cm_sequencers commit) of
             Some (TmSha256 h) \<Rightarrow>
               commit_chain_commitment_digest sha256 h (cm_genesis_evm_block_hash commit) (cm_program_history_root commit)
                 (cm_proof_checkpoint_root commit) (cm_authorized_program_ids commit) = Some actual_commitment
           | _ \<Rightarrow> False))"

text \<open>The transaction spends the update connector of the previous commit with its Publishers' signatures.\<close>

definition check_connector :: "bitcoin_env \<Rightarrow> commit_chain_state \<Rightarrow> transaction \<Rightarrow> unit option" where
  "check_connector e s tx =
     do { assert_that (tx_input tx \<noteq> []);
          let update_connector = previous_output (tx_input tx ! 0);
          assert_that (op_txid update_connector = be_compute_txid e (cs_commit_txn s));
          assert_that (op_vout update_connector = 0);
          let prevout = tx_output (cs_commit_txn s) ! 0;
          redeem_script \<leftarrow> create_sequencer_update_script e (cs_publisher_public_keys s) (unat (cs_threshold s));
          r \<leftarrow> verify_p2wsh_multisig_witness e tx 0 prevout redeem_script (cs_publisher_public_keys s) (unat (cs_threshold s));
          assert_that (r = Inr True) }"

definition apply_one_commit ::
  "(bytes \<Rightarrow> hash32) \<Rightarrow> bitcoin_env \<Rightarrow> circuit_commit \<Rightarrow> commit_chain_state \<Rightarrow> commit_chain_state option" where
  "apply_one_commit sha256 e commit s =
     do { let tx = cm_commit_txn commit;
          let (next_keys, next_threshold) = active_publisher_set commit;
          let has_prev_commit = (tx_output (cs_commit_txn s) \<noteq> []);
          assert_that (cm_genesis_txid commit = cs_genesis_txid s);
          assert_that (\<not> has_prev_commit \<longrightarrow> be_compute_txid e tx = cs_genesis_txid s);
          assert_that (check_commitment sha256 e commit);
          (if has_prev_commit then check_connector e s tx else Some ());
          next_script \<leftarrow> create_sequencer_update_script e next_keys (unat next_threshold);
          assert_that (script_pubkey (tx_output tx ! 0) = be_new_p2wsh e next_script);
          Some (s\<lparr> cs_sequencers := cm_sequencers commit, cs_commit_txn := strip_witness tx,
                  cs_publisher_public_keys := next_keys, cs_threshold := next_threshold,
                  cs_block_height := cm_block_height commit,
                  cs_proof_checkpoint_root := cm_proof_checkpoint_root commit,
                  cs_authorized_program_ids := cm_authorized_program_ids commit \<rparr>) }"

primrec apply_commit ::
  "(bytes \<Rightarrow> hash32) \<Rightarrow> bitcoin_env \<Rightarrow> circuit_commit list \<Rightarrow> commit_chain_state \<Rightarrow> commit_chain_state option" where
  "apply_commit sha256 e [] s = Some s"
| "apply_commit sha256 e (c # cs) s = Option.bind (apply_one_commit sha256 e c s) (apply_commit sha256 e cs)"

datatype CommitChainPrevProofType = CommitGenesisBlock | CommitPrevProof

record commit_chain_output =
  cco_chain_state :: commit_chain_state
  cco_self_program_id :: program_id

record commit_chain_input =
  cci_prev_proof :: CommitChainPrevProofType
  cci_zkm_proof :: bytes
  cci_zkm_public_values :: bytes
  cci_zkm_vk_hash :: bytes
  cci_zkm_version :: string
  cci_self_program_id :: program_id
  cci_commits :: "circuit_commit list"

text \<open>\<open>decode\<close> is the \<^verbatim>\<open>bincode\<close> decoder of the public values.\<close>

definition classify_commit_chain_output ::
  "(bytes \<Rightarrow> commit_chain_output option) \<Rightarrow> bytes \<Rightarrow> string + CommitChainPrevProofType" where
  "classify_commit_chain_output decode public_values =
     (if decode public_values \<noteq> None then Inr CommitPrevProof else Inl ''unknown commit-chain public output format'')"

definition commit_chain_start ::
  "(bytes \<Rightarrow> hash32) \<Rightarrow> zkm_verifier \<Rightarrow> (bytes \<Rightarrow> commit_chain_output option) \<Rightarrow> commit_chain_input \<Rightarrow> commit_chain_state option" where
  "commit_chain_start sha256 z decode input =
     (case cci_prev_proof input of
        CommitGenesisBlock \<Rightarrow> Some (commit_chain_state_new (cm_genesis_txid (cci_commits input ! 0)))
      | CommitPrevProof \<Rightarrow>
          (case verify_groth16_proof sha256 z (cci_zkm_proof input) (cci_zkm_public_values input)
                  (cci_zkm_vk_hash input) (cci_zkm_version input) of
             Inl _ \<Rightarrow> None
           | Inr previous_program_id \<Rightarrow>
               do { out \<leftarrow> decode (cci_zkm_public_values input);
                    assert_that (cco_self_program_id out = previous_program_id);
                    assert_that (previous_program_id = cci_self_program_id input);
                    Some (cco_chain_state out) }))"

definition commit_chain_circuit ::
  "(bytes \<Rightarrow> hash32) \<Rightarrow> bitcoin_env \<Rightarrow> zkm_verifier \<Rightarrow> (bytes \<Rightarrow> commit_chain_output option) \<Rightarrow>
   commit_chain_input \<Rightarrow> commit_chain_output option" where
  "commit_chain_circuit sha256 e z decode input =
     do { assert_that (cci_commits input \<noteq> []);
          s \<leftarrow> commit_chain_start sha256 z decode input;
          s' \<leftarrow> apply_commit sha256 e (cci_commits input) s;
          Some \<lparr> cco_chain_state = s', cco_self_program_id = cci_self_program_id input \<rparr> }"

section \<open>Publisher sets\<close>

lemma insert_unique_ok: "insert_unique K ks = Inr () \<longleftrightarrow> distinct ks \<and> set ks \<inter> K = {}"
  by (induction K ks rule: insert_unique.induct) auto

lemma validate_publisher_set_ok:
  "validate_publisher_set ks m = Inr () \<longleftrightarrow> 1 \<le> m \<and> m \<le> length ks \<and> length ks \<le> 20 \<and> distinct ks"
  by (auto simp: validate_publisher_set_def Let_def insert_unique_ok)

lemma create_script_Some:
  "create_sequencer_update_script e ks m = Some script \<Longrightarrow> validate_publisher_set ks m = Inr ()"
  by (auto simp: create_sequencer_update_script_def split: sum.splits)

text \<open>The key \<open>pk\<close> signed with one of the parsed signatures.\<close>

definition sig_by :: "bitcoin_env \<Rightarrow> (8 word \<Rightarrow> hash32 option) \<Rightarrow> bytes \<times> 8 word \<Rightarrow> bytes \<Rightarrow> bool" where
  "sig_by e sighash_of sg pk =
     (case sighash_of (snd sg) of None \<Rightarrow> False | Some h \<Rightarrow> be_verify_ecdsa e h (fst sg) pk)"

lemma match_sigs_sound:
  "match_sigs e sighash_of m pks sgs k = Inr n \<Longrightarrow>
   \<exists>ks. subseq ks pks \<and> length ks + k = n \<and> list_all (\<lambda>pk. \<exists>sg \<in> set sgs. sig_by e sighash_of sg pk) ks"
proof (induction e sighash_of m pks sgs k rule: match_sigs.induct)
  case (1 e sighash_of m pk pks sg ty sgs k)
  show ?case
  proof (cases "sighash_of ty")
    case (Some h)
    show ?thesis
    proof (cases "be_verify_ecdsa e h sg pk")
      case True
      then have by_pk: "sig_by e sighash_of (sg, ty) pk" by (simp add: sig_by_def Some)
      show ?thesis
      proof (cases "m \<le> k + 1")
        case True
        with "1.prems" Some \<open>be_verify_ecdsa e h sg pk\<close> have "n = k + 1" by simp
        with by_pk show ?thesis by (intro exI [of _ "[pk]"]) auto
      next
        case False
        with "1.prems" "1.IH"(1) [OF Some \<open>be_verify_ecdsa e h sg pk\<close> False] Some \<open>be_verify_ecdsa e h sg pk\<close>
        obtain ks where ks: "subseq ks pks" "length ks + (k + 1) = n"
          "list_all (\<lambda>pk. \<exists>s \<in> set sgs. sig_by e sighash_of s pk) ks" by auto
        with by_pk show ?thesis by (intro exI [of _ "pk # ks"]) (auto simp: list_all_iff)
      qed
    next
      case False
      with "1.prems" "1.IH"(2) [OF Some False] Some show ?thesis by (auto intro: list_emb_Cons)
    qed
  qed (use "1.prems" in simp)
qed (auto intro: exI [of _ "[]"])

lemma match_sigs_complete:
  assumes "subseq ks pks" "list_all2 (sig_by e sighash_of) sgs ks" "k < m" "m \<le> k + length sgs"
  shows "\<exists>n. match_sigs e sighash_of m pks sgs k = Inr n \<and> m \<le> n"
  using assms
proof (induction pks arbitrary: ks sgs k rule: list.induct)
  case (Cons pk pks)
  from Cons.prems(3,4) obtain sg ty sgs' where sgs: "sgs = (sg, ty) # sgs'" by (cases sgs) auto
  with Cons.prems(2) obtain p ks' where ks: "ks = p # ks'" "sig_by e sighash_of (sg, ty) p"
    "list_all2 (sig_by e sighash_of) sgs' ks'" by (auto simp: list_all2_Cons1)
  then obtain h where h: "sighash_of ty = Some h" "be_verify_ecdsa e h sg p"
    by (auto simp: sig_by_def split: option.splits)
  show ?case
  proof (cases "be_verify_ecdsa e h sg pk")
    case True
    have "subseq ks' pks" using Cons.prems(1) ks(1) by (auto split: if_splits dest: subseq_Cons' elim: list_emb_ConsD)
    with True Cons.IH [of ks' sgs' "k + 1"] Cons.prems ks h show ?thesis by (simp add: sgs)
  next
    case False
    then have "subseq ks pks" using Cons.prems(1) ks(1) h(2) by (auto split: if_splits)
    with False Cons.IH [of ks sgs k] Cons.prems h show ?thesis by (simp add: sgs)
  qed
next
  case Nil
  then have "ks = []" by (cases ks) auto
  with Nil show ?case by simp
qed

lemma parse_sigs_Inr:
  "parse_sigs e i raws = Inr sgs \<Longrightarrow>
   list_all2 (\<lambda>raw sg. raw \<noteq> [] \<and> be_from_der e (butlast raw) = Some (fst sg) \<and> snd sg = last raw) raws sgs"
  by (induction e i raws arbitrary: sgs rule: parse_sigs.induct) (auto split: if_splits option.splits sum.splits)

lemma parse_sigs_complete:
  "list_all2 (\<lambda>raw sg. raw \<noteq> [] \<and> be_from_der e (butlast raw) = Some (fst sg) \<and> snd sg = last raw) raws sgs \<Longrightarrow>
   parse_sigs e i raws = Inr sgs"
  by (induction e i raws arbitrary: sgs rule: parse_sigs.induct) (auto simp: list_all2_Cons1 split: option.splits)

text \<open>The raw witness element is a signature by the key \<open>pk\<close> on the spending of \<open>prevout\<close>.\<close>

definition raw_sig_by :: "bitcoin_env \<Rightarrow> transaction \<Rightarrow> nat \<Rightarrow> txout \<Rightarrow> bytes \<Rightarrow> bytes \<Rightarrow> bytes \<Rightarrow> bool" where
  "raw_sig_by e tx i prevout script raw pk \<longleftrightarrow>
     raw \<noteq> [] \<and> (\<exists>sg. be_from_der e (butlast raw) = Some sg \<and>
       sig_by e (be_p2wsh_signature_hash e tx i script (tx_value prevout)) (sg, last raw) pk)"

lemma verify_multisig_sound:
  assumes "verify_p2wsh_multisig_witness e tx i prevout script pks m = Some (Inr True)"
  shows "i < length (tx_input tx)" "script_pubkey prevout = be_new_p2wsh e script"
    "\<exists>ks. subseq ks pks \<and> m \<le> length ks \<and>
       list_all (\<lambda>pk. \<exists>raw \<in> set (tx_witness (tx_input tx ! i)). raw_sig_by e tx i prevout script raw pk) ks"
proof -
  let ?w = "tx_witness (tx_input tx ! i)" and ?h = "be_p2wsh_signature_hash e tx i script (tx_value prevout)"
  from assms obtain sgs n where i: "i < length (tx_input tx)" "script_pubkey prevout = be_new_p2wsh e script"
    and sgs: "parse_sigs e 0 (take (length ?w - 2) (drop 1 ?w)) = Inr sgs"
    and n: "match_sigs e ?h m pks sgs 0 = Inr n" "m \<le> n"
    by (auto simp: verify_p2wsh_multisig_witness_def Let_def split: if_splits sum.splits)
  show "i < length (tx_input tx)" "script_pubkey prevout = be_new_p2wsh e script" by (fact i)+
  from match_sigs_sound [OF n(1)] obtain ks where ks: "subseq ks pks" "length ks = n"
    "list_all (\<lambda>pk. \<exists>sg \<in> set sgs. sig_by e ?h sg pk) ks" by auto
  have "\<exists>raw \<in> set ?w. raw_sig_by e tx i prevout script raw pk" if "sg \<in> set sgs" "sig_by e ?h sg pk" for sg pk
  proof -
    let ?raws = "take (length ?w - 2) (drop 1 ?w)"
    note all = parse_sigs_Inr [OF sgs]
    from that(1) obtain j where j: "j < length sgs" "sgs ! j = sg" by (auto simp: in_set_conv_nth)
    have len: "length ?raws = length sgs" by (rule list_all2_lengthD [OF all])
    from list_all2_nthD2 [OF all j(1)] j(2)
    have raw: "?raws ! j \<noteq> []" "be_from_der e (butlast (?raws ! j)) = Some (fst sg)" "snd sg = last (?raws ! j)"
      by blast+
    have "?raws ! j \<in> set ?raws" using j(1) len nth_mem by metis
    then have "?raws ! j \<in> set ?w" by (meson in_set_dropD in_set_takeD)
    moreover have "raw_sig_by e tx i prevout script (?raws ! j) pk"
      unfolding raw_sig_by_def raw(3) [symmetric] using raw(1,2) that(2) by simp
    ultimately show ?thesis by blast
  qed
  with ks n(2) show "\<exists>ks. subseq ks pks \<and> m \<le> length ks \<and>
       list_all (\<lambda>pk. \<exists>raw \<in> set ?w. raw_sig_by e tx i prevout script raw pk) ks"
    by (intro exI [of _ ks]) (auto simp: list_all_iff)
qed

text \<open>An accepted witness holds signatures of as many different Publishers as the threshold says.\<close>

lemma multisig_signers:
  assumes "validate_publisher_set pks m = Inr ()" "verify_p2wsh_multisig_witness e tx i prevout script pks m = Some (Inr True)"
  shows "\<exists>signers \<subseteq> set pks. m \<le> card signers \<and>
    (\<forall>pk \<in> signers. \<exists>raw \<in> set (tx_witness (tx_input tx ! i)). raw_sig_by e tx i prevout script raw pk)"
proof -
  from verify_multisig_sound(3) [OF assms(2)] obtain ks where ks: "subseq ks pks" "m \<le> length ks"
    "list_all (\<lambda>pk. \<exists>raw \<in> set (tx_witness (tx_input tx ! i)). raw_sig_by e tx i prevout script raw pk) ks" by blast
  from ks(1) obtain N where N: "ks = nths pks N" by (auto simp: subseq_conv_nths)
  have "distinct ks" using assms(1) by (simp add: validate_publisher_set_ok N distinct_nthsI)
  then have "set ks \<subseteq> set pks" "m \<le> card (set ks)"
    using ks(2) set_nths_subset [of pks N] by (simp_all add: distinct_card N)
  with ks(3) show ?thesis by (auto simp: list_all_iff intro!: exI [of _ "set ks"])
qed

lemma verify_finalized:
  assumes "finalize_witness tx sigs script = Some tx'" "script_pubkey prevout = be_new_p2wsh e script"
    "subseq ks pks" "list_all2 (raw_sig_by e tx' 0 prevout script) sigs ks" "1 \<le> m" "m \<le> length sigs"
  shows "verify_p2wsh_multisig_witness e tx' 0 prevout script pks m = Some (Inr True)"
proof -
  let ?h = "be_p2wsh_signature_hash e tx' 0 script (tx_value prevout)"
  from assms(1) have w: "tx_input tx' \<noteq> []" "tx_witness (tx_input tx' ! 0) = [] # sigs @ [script]"
    by (auto simp: finalize_witness_def split: list.splits)
  define sgs where "sgs = map (\<lambda>raw. (the (be_from_der e (butlast raw)), last raw)) sigs"
  have parse: "parse_sigs e 0 sigs = Inr sgs"
    using assms(4) by (intro parse_sigs_complete) (auto simp: sgs_def list_all2_conv_all_nth raw_sig_by_def)
  have "list_all2 (sig_by e ?h) sgs ks"
    using assms(4) by (auto simp: sgs_def list_all2_conv_all_nth raw_sig_by_def)
  from match_sigs_complete [OF assms(3) this, of 0 m] assms(5,6) obtain n
    where n: "match_sigs e ?h m pks sgs 0 = Inr n" "m \<le> n" by (auto simp: sgs_def)
  have "sigs \<noteq> []" using assms(5,6) by auto
  with w parse n assms(2) show ?thesis by (simp add: verify_p2wsh_multisig_witness_def Let_def)
qed

section \<open>Digests\<close>

lemma commitment_preimage_inj:
  "commitment_preimage a b c d ids = commitment_preimage a' b' c' d' ids' \<longleftrightarrow>
   a = a' \<and> b = b' \<and> c = c' \<and> d = d' \<and> ids = ids'"
proof -
  have "array_bytes v = array_bytes w \<longleftrightarrow> v = w" for v w by simp
  then show ?thesis by (auto simp: commitment_preimage_def)
qed

lemma commitment_digest_Some:
  "commit_chain_commitment_digest sha256 a b c d ids = Some x \<longleftrightarrow>
   c \<noteq> 0 \<and> d \<noteq> 0 \<and> validate_program_ids ids \<and> x = sha256 (commitment_preimage a b c d ids)"
  by (auto simp: commit_chain_commitment_digest_def)

section \<open>Accepted commits\<close>

lemma apply_one_commit_Some:
  assumes "apply_one_commit sha256 e c s = Some s'"
  shows "cm_genesis_txid c = cs_genesis_txid s" "check_commitment sha256 e c"
    "tx_output (cs_commit_txn s) = [] \<Longrightarrow> be_compute_txid e (cm_commit_txn c) = cs_genesis_txid s"
    "tx_output (cs_commit_txn s) \<noteq> [] \<Longrightarrow> check_connector e s (cm_commit_txn c) = Some ()"
    "\<exists>script. create_sequencer_update_script e (fst (active_publisher_set c)) (unat (snd (active_publisher_set c))) = Some script \<and>
       script_pubkey (tx_output (cm_commit_txn c) ! 0) = be_new_p2wsh e script"
    "s' = s\<lparr> cs_sequencers := cm_sequencers c, cs_commit_txn := strip_witness (cm_commit_txn c),
            cs_publisher_public_keys := fst (active_publisher_set c), cs_threshold := snd (active_publisher_set c),
            cs_block_height := cm_block_height c, cs_proof_checkpoint_root := cm_proof_checkpoint_root c,
            cs_authorized_program_ids := cm_authorized_program_ids c \<rparr>"
  using assms
  by (auto simp: apply_one_commit_def Let_def split_beta bind_eq_Some_conv split: if_splits)

lemma check_commitment_outputs: "check_commitment sha256 e c \<Longrightarrow> length (tx_output (cm_commit_txn c)) = 2"
  by (auto simp: check_commitment_def extract_commit_chain_commitment_def split: sum.splits if_splits)

text \<open>The commit \<open>c\<close> spends the connector of the commit \<open>b\<close> with the signatures of the Publishers \<open>b\<close> names.\<close>

definition spends_connector :: "bitcoin_env \<Rightarrow> circuit_commit \<Rightarrow> circuit_commit \<Rightarrow> bool" where
  "spends_connector e b c \<longleftrightarrow>
     (let tx = cm_commit_txn c; (keys, threshold) = active_publisher_set b; prevout = tx_output (cm_commit_txn b) ! 0 in
        tx_input tx \<noteq> [] \<and>
        previous_output (tx_input tx ! 0) = \<lparr> op_txid = be_compute_txid e (cm_commit_txn b), op_vout = 0 \<rparr> \<and>
        (\<exists>script signers. create_sequencer_update_script e keys (unat threshold) = Some script \<and>
           script_pubkey prevout = be_new_p2wsh e script \<and> signers \<subseteq> set keys \<and> unat threshold \<le> card signers \<and>
           list_all (\<lambda>pk. pk \<in> signers \<longrightarrow>
             list_ex (\<lambda>raw. raw_sig_by e tx 0 prevout script raw pk) (tx_witness (tx_input tx ! 0))) keys))"

text \<open>The state after the commit \<open>c\<close>, whatever came before.\<close>

definition state_after_commit :: "hash32 \<Rightarrow> circuit_commit \<Rightarrow> commit_chain_state" where
  "state_after_commit g c = \<lparr>
     cs_block_height = cm_block_height c, cs_commit_txn = strip_witness (cm_commit_txn c), cs_genesis_txid = g,
     cs_sequencers = cm_sequencers c, cs_publisher_public_keys = fst (active_publisher_set c),
     cs_threshold = snd (active_publisher_set c), cs_proof_checkpoint_root = cm_proof_checkpoint_root c,
     cs_authorized_program_ids = cm_authorized_program_ids c \<rparr>"

lemma check_connector_spends:
  assumes "check_connector e (state_after_commit g b) (cm_commit_txn c) = Some ()"
    "be_compute_txid e (strip_witness (cm_commit_txn b)) = be_compute_txid e (cm_commit_txn b)"
    "tx_output (cm_commit_txn b) \<noteq> []"
  shows "spends_connector e b c"
proof -
  let ?tx = "cm_commit_txn c" and ?keys = "fst (active_publisher_set b)" and ?m = "unat (snd (active_publisher_set b))"
  let ?prevout = "tx_output (cm_commit_txn b) ! 0"
  from assms(1) obtain script where tx: "tx_input ?tx \<noteq> []"
      "op_txid (previous_output (tx_input ?tx ! 0)) = be_compute_txid e (cm_commit_txn b)"
      "op_vout (previous_output (tx_input ?tx ! 0)) = 0"
    and script: "create_sequencer_update_script e ?keys ?m = Some script"
      "verify_p2wsh_multisig_witness e ?tx 0 ?prevout script ?keys ?m = Some (Inr True)"
    by (auto simp: check_connector_def Let_def bind_eq_Some_conv state_after_commit_def strip_witness_def assms(2) [unfolded strip_witness_def])
  from multisig_signers [OF create_script_Some [OF script(1)] script(2)] obtain signers where
    "signers \<subseteq> set ?keys" "?m \<le> card signers"
    "\<forall>pk \<in> signers. \<exists>raw \<in> set (tx_witness (tx_input ?tx ! 0)). raw_sig_by e ?tx 0 ?prevout script raw pk" by blast
  with tx script(1) verify_multisig_sound(2) [OF script(2)] show ?thesis
    by (auto simp: spends_connector_def Let_def split_beta list_all_iff list_ex_iff intro!: exI [of _ signers])
qed

text \<open>The transaction id does not depend on the witnesses.\<close>

definition txid_ignores_witness :: "bitcoin_env \<Rightarrow> bool" where
  "txid_ignores_witness e \<longleftrightarrow> (\<forall>tx. be_compute_txid e (strip_witness tx) = be_compute_txid e tx)"

text \<open>The commits form a chain from the transaction \<open>g\<close>: each states its own commitment and spends its predecessor.\<close>

definition commit_lineage :: "(bytes \<Rightarrow> hash32) \<Rightarrow> bitcoin_env \<Rightarrow> hash32 \<Rightarrow> circuit_commit list \<Rightarrow> bool" where
  "commit_lineage sha256 e g cs \<longleftrightarrow>
     cs \<noteq> [] \<and> be_compute_txid e (cm_commit_txn (hd cs)) = g \<and> successively (spends_connector e) cs \<and>
     list_all (check_commitment sha256 e) cs \<and> list_all (\<lambda>c. cm_genesis_txid c = g) cs"

lemma apply_one_commit_first:
  assumes "apply_one_commit sha256 e c (commit_chain_state_new g) = Some s"
  shows "s = state_after_commit g c" "commit_lineage sha256 e g [c]"
  using apply_one_commit_Some [OF assms]
  by (simp_all add: commit_chain_state_new_def empty_transaction_def state_after_commit_def commit_lineage_def)

lemma apply_one_commit_next:
  assumes "txid_ignores_witness e" "commit_lineage sha256 e g cs"
    "apply_one_commit sha256 e c (state_after_commit g (last cs)) = Some s"
  shows "s = state_after_commit g c" "commit_lineage sha256 e g (cs @ [c])"
proof -
  let ?b = "last cs"
  have "check_commitment sha256 e ?b" using assms(2) by (auto simp: commit_lineage_def list_all_iff)
  then have out: "tx_output (cm_commit_txn ?b) \<noteq> []" using check_commitment_outputs by fastforce
  note a = apply_one_commit_Some [OF assms(3)]
  have "check_connector e (state_after_commit g ?b) (cm_commit_txn c) = Some ()"
    using a(4) out by (simp add: state_after_commit_def strip_witness_def)
  then have "spends_connector e ?b c"
    using check_connector_spends out assms(1) by (simp add: txid_ignores_witness_def)
  with assms(2) a(1,2) show "commit_lineage sha256 e g (cs @ [c])"
    by (auto simp: commit_lineage_def successively_append_iff state_after_commit_def)
  show "s = state_after_commit g c" using a(6) by (simp add: state_after_commit_def)
qed

lemma apply_commit_next:
  assumes "txid_ignores_witness e" "commit_lineage sha256 e g cs"
    "apply_commit sha256 e ds (state_after_commit g (last cs)) = Some s"
  shows "s = state_after_commit g (last (cs @ ds)) \<and> commit_lineage sha256 e g (cs @ ds)"
  using assms(2,3)
proof (induction ds arbitrary: cs)
  case (Cons d ds)
  then obtain s1 where s1: "apply_one_commit sha256 e d (state_after_commit g (last cs)) = Some s1"
    "apply_commit sha256 e ds s1 = Some s" by (auto simp: bind_eq_Some_conv)
  from apply_one_commit_next [OF assms(1) Cons.prems(1) s1(1)] s1(2) Cons.IH [of "cs @ [d]"] show ?case by simp
qed simp

lemma apply_commit_new:
  assumes "txid_ignores_witness e" "ds \<noteq> []" "apply_commit sha256 e ds (commit_chain_state_new g) = Some s"
  shows "s = state_after_commit g (last ds) \<and> commit_lineage sha256 e g ds"
proof -
  from assms(2) obtain d ds' where ds: "ds = d # ds'" by (cases ds) auto
  with assms(3) obtain s1 where "apply_one_commit sha256 e d (commit_chain_state_new g) = Some s1"
    "apply_commit sha256 e ds' s1 = Some s" by (auto simp: bind_eq_Some_conv)
  with apply_one_commit_first [of sha256 e d g s1] apply_commit_next [OF assms(1), of sha256 g "[d]" ds' s] ds
  show ?thesis by simp
qed

section \<open>Recursive proofs\<close>

text \<open>What recursive proving can produce; \<open>G\<close> are the identities of the genuine commit programs.\<close>

inductive commit_proved ::
  "(bytes \<Rightarrow> hash32) \<Rightarrow> bitcoin_env \<Rightarrow> zkm_verifier \<Rightarrow> (bytes \<Rightarrow> commit_chain_output option) \<Rightarrow> program_id set \<Rightarrow>
   program_id \<Rightarrow> commit_chain_output \<Rightarrow> bool"
  for sha256 e z decode G where
  foreign: "pid \<notin> G \<Longrightarrow> commit_proved sha256 e z decode G pid out"
| from_genesis:
    "commit_proved sha256 e z decode G (cci_self_program_id input) out"
    if "cci_prev_proof input = CommitGenesisBlock" "commit_chain_circuit sha256 e z decode input = Some out"
| from_previous:
    "commit_proved sha256 e z decode G (cci_self_program_id input) out"
    if "cci_prev_proof input = CommitPrevProof" "commit_chain_circuit sha256 e z decode input = Some out"
      "verify_groth16_proof sha256 z (cci_zkm_proof input) (cci_zkm_public_values input)
         (cci_zkm_vk_hash input) (cci_zkm_version input) = Inr pid"
      "decode (cci_zkm_public_values input) = Some prev"
      "commit_proved sha256 e z decode G pid prev"

lemma commit_proved_lineage:
  assumes "commit_proved sha256 e z decode G pid out" "pid \<in> G" "txid_ignores_witness e"
  shows "\<exists>cs g. commit_lineage sha256 e g cs \<and> cco_chain_state out = state_after_commit g (last cs)"
  using assms
proof (induction rule: commit_proved.induct)
  case (from_genesis input out)
  then obtain s where "cci_commits input \<noteq> []" "cco_chain_state out = s"
    "apply_commit sha256 e (cci_commits input) (commit_chain_state_new (cm_genesis_txid (cci_commits input ! 0))) = Some s"
    by (auto simp: commit_chain_circuit_def commit_chain_start_def bind_eq_Some_conv)
  with apply_commit_new [OF from_genesis.prems(2)] show ?case by blast
next
  case (from_previous input out pid prev)
  then have run: "pid = cci_self_program_id input" "apply_commit sha256 e (cci_commits input) (cco_chain_state prev) = Some (cco_chain_state out)"
    by (auto simp: commit_chain_circuit_def commit_chain_start_def bind_eq_Some_conv)
  with from_previous obtain cs g where "commit_lineage sha256 e g cs" "cco_chain_state prev = state_after_commit g (last cs)"
    by auto
  with apply_commit_next [OF from_previous.prems(2)] run(2) show ?case by metis
qed auto

section \<open>Properties\<close>

definition example_bitcoin_env :: bitcoin_env where
  "example_bitcoin_env = \<lparr>
     be_compute_txid = (\<lambda>tx. ucast (tx_lock_time tx)),
     be_instructions_minimal = (\<lambda>bs. Some [Op OP_RETURN, PushBytes bs]),
     be_push_int = (\<lambda>s n. s @ [of_int n]), be_push_slice = (\<lambda>s bs. s @ bs), be_push_opcode = (\<lambda>s op. s @ [op]),
     be_new_p2wsh = (\<lambda>s. s), be_from_der = Some, be_p2wsh_signature_hash = (\<lambda>_ _ _ _ _. Some 0),
     be_verify_ecdsa = (\<lambda>_ sg pk. sg = pk), be_sequencer_hash = (\<lambda>_. Some (TmSha256 1)) \<rparr>"

definition example_script :: bytes where
  "example_script = [2, 1, 2, 2, 0xae]"

definition example_commit :: "32 word \<Rightarrow> txin list \<Rightarrow> circuit_commit" where
  "example_commit lock ins = \<lparr>
     cm_commit_txn = \<lparr> tx_version = 2, tx_lock_time = lock, tx_input = ins,
       tx_output = [\<lparr> tx_value = 9, script_pubkey = example_script \<rparr>, \<lparr> tx_value = 0, script_pubkey = array_bytes 7 \<rparr>] \<rparr>,
     cm_genesis_txid = 10, cm_publisher_public_keys = [[1], [2]], cm_threshold = 2,
     cm_next_publisher_public_keys = None, cm_next_threshold = None, cm_sequencers = [],
     cm_genesis_evm_block_hash = 5, cm_program_history_root = 3, cm_block_height = 100, cm_proof_checkpoint_root = 4,
     cm_authorized_program_ids = \<lparr> ap_header = 1, ap_state = 1, ap_commit = 1, ap_watchtower = 1 \<rparr> \<rparr>"

definition example_commits :: "circuit_commit list" where
  "example_commits =
     [example_commit 10 [],
      example_commit 11 [\<lparr> previous_output = \<lparr> op_txid = 10, op_vout = 0 \<rparr>, script_sig = [], tx_sequence = 0,
        tx_witness = [[], [1, 1], [2, 1], example_script] \<rparr>]]"

lemma example_commits_accepted:
  "apply_commit (\<lambda>_. 7) example_bitcoin_env example_commits (commit_chain_state_new 10) =
     Some (state_after_commit 10 (last example_commits))"
  by (simp add: example_commits_def example_commit_def example_bitcoin_env_def example_script_def apply_one_commit_def
    commit_chain_state_new_def empty_transaction_def active_publisher_set_def check_commitment_def assert_that_def
    extract_commit_chain_commitment_def commit_chain_commitment_digest_def validate_program_ids_def
    create_sequencer_update_script_def validate_publisher_set_def OP_CHECKMULTISIG_def check_connector_def
    verify_p2wsh_multisig_witness_def strip_witness_def state_after_commit_def)

lemma example_txid: "txid_ignores_witness example_bitcoin_env"
  by (simp add: txid_ignores_witness_def example_bitcoin_env_def strip_witness_def)

text \<open>
  \<^bold>\<open>C26.\<close> The multisignature check counts distinct Publishers. For a Publisher set that the script builder
  accepts (1 to 20 different keys, a threshold between 1 and their number), a witness that verifies holds
  valid signatures of at least as many different Publishers as the threshold says; and a transaction
  finalised with valid signatures of that many Publishers in the order of the set, spending an output of that script,
  verifies.
\<close>

theorem publisher_threshold:
  assumes "create_sequencer_update_script e keys m = Some script"
  shows "(verify_p2wsh_multisig_witness e tx i prevout script keys m = Some (Inr True) \<longrightarrow>
      (\<exists>signers \<subseteq> set keys. m \<le> card signers \<and>
        (\<forall>pk \<in> signers. \<exists>raw \<in> set (tx_witness (tx_input tx ! i)). raw_sig_by e tx i prevout script raw pk))) \<and>
    (finalize_witness tx0 sigs script = Some tx \<and> script_pubkey prevout = be_new_p2wsh e script \<and>
      subseq signers keys \<and> list_all2 (raw_sig_by e tx 0 prevout script) sigs signers \<and> m \<le> length sigs \<longrightarrow>
      verify_p2wsh_multisig_witness e tx 0 prevout script keys m = Some (Inr True))"
proof -
  note ok = create_script_Some [OF assms]
  then have "1 \<le> m" by (simp add: validate_publisher_set_ok)
  then show ?thesis using multisig_signers [OF ok] verify_finalized by blast
qed

theorem publisher_threshold_witness:
  "\<exists>tx. finalize_witness (cm_commit_txn (last example_commits)) [[1, 1], [2, 1]] example_script = Some tx \<and>
     verify_p2wsh_multisig_witness example_bitcoin_env tx 0 \<lparr> tx_value = 9, script_pubkey = example_script \<rparr> example_script
       [[1], [2]] 2 = Some (Inr True)"
proof -
  let ?e = example_bitcoin_env and ?out = "\<lparr> tx_value = 9, script_pubkey = example_script \<rparr>"
  have script: "create_sequencer_update_script ?e [[1], [2]] 2 = Some example_script"
    by (simp add: create_sequencer_update_script_def validate_publisher_set_def example_bitcoin_env_def example_script_def
      OP_CHECKMULTISIG_def)
  obtain tx where tx: "finalize_witness (cm_commit_txn (last example_commits)) [[1, 1], [2, 1]] example_script = Some tx"
    by (auto simp: finalize_witness_def example_commits_def example_commit_def)
  have "raw_sig_by ?e tx 0 ?out example_script [k, 1] [k]" for k
    by (simp add: raw_sig_by_def sig_by_def example_bitcoin_env_def)
  then show ?thesis
    using publisher_threshold [OF script, of tx 0 ?out "cm_commit_txn (last example_commits)" "[[1, 1], [2, 1]]" "[[1], [2]]"] tx
    by (auto simp: example_bitcoin_env_def)
qed



end
