(* ===== verification/StateChain.thy ===== *)
theory StateChain
  imports CommitChain
begin

text \<open>
  The chain of GOAT network states (\<^verbatim>\<open>src/circuits/crates/state-chain/src/state_chain.rs\<close>, \<^verbatim>\<open>cbft.rs\<close> and \<^verbatim>\<open>lib.rs\<close>):
  every EVM block is executed, its withdrawals are read back from the contract's storage, and the block is
  tied to the consensus block whose transactions carry it.

  The EVM executor, Keccak, the decoders of consensus transactions and light blocks, and the light-client
  verdicts of \<^verbatim>\<open>tendermint\<close> are the fields of the parameter \<^verbatim>\<open>state_env\<close>. An EVM block is its number, its hash and the
  bytes the executor reads. A failed assertion and an \<^verbatim>\<open>unwrap\<close> of an error are \<^verbatim>\<open>None\<close>; \<^verbatim>\<open>u64\<close>
  additions wrap around, as in the release build of the guest.

  The lemmas show that the data hash of a consensus block determines its transactions, that the executed
  blocks form a chain of parents from the genesis block and that every recorded withdrawal was read from the
  state of one of them. The circuit is an interpretation of \<^verbatim>\<open>recursive_program\<close>.
\<close>

section \<open>Third-party code\<close>

type_synonym graph_id = "128 word"

text \<open>Contract address, base slot and graph ids.\<close>

type_synonym withdrawal_slot = "160 word \<times> hash32 \<times> graph_id list"

record evm_input =
  ev_number :: "64 word"
  ev_hash :: hash32
  ev_data :: bytes

record evm_header =
  eh_number :: "64 word"
  eh_parent_hash :: hash32
  eh_hash :: hash32

record cosmos_message =
  msg_type_url :: string
  msg_value :: bytes

record execution_payload =
  ep_block_number :: "64 word"
  ep_block_hash :: bytes
  ep_parent_hash :: bytes

record light_block =
  lb_validators_hash :: tendermint_hash
  lb_data_hash :: "tendermint_hash option"
  lb_data :: bytes

record state_env =
  st_sha256 :: "bytes \<Rightarrow> hash32"
  st_keccak256 :: "bytes \<Rightarrow> hash32"
  st_execute :: "evm_input \<Rightarrow> (160 word \<times> hash32 \<times> 256 word) list \<Rightarrow> evm_header option"
  st_light_block :: "bytes \<Rightarrow> light_block option"
  st_decode_tx :: "bytes \<Rightarrow> cosmos_message list option option"
  st_decode_payload :: "bytes \<Rightarrow> execution_payload option option"
  st_verify_validator_sets :: "light_block \<Rightarrow> bool"
  st_verify_commit :: "light_block \<Rightarrow> bool"
  st_zkm :: zkm_verifier

section \<open>Consensus blocks\<close>

definition merkle_leaf_hash :: "(bytes \<Rightarrow> hash32) \<Rightarrow> hash32 \<Rightarrow> hash32" where
  "merkle_leaf_hash sha256 leaf = sha256 (0 # array_bytes leaf)"

definition merkle_inner_node_hash :: "(bytes \<Rightarrow> hash32) \<Rightarrow> hash32 \<Rightarrow> hash32 \<Rightarrow> hash32" where
  "merkle_inner_node_hash sha256 left right = sha256 (1 # array_bytes left @ array_bytes right)"

text \<open>The loop of \<^verbatim>\<open>largest_power_of_two_less_than\<close>, from \<open>k\<close> on.\<close>

function double_while_less :: "nat \<Rightarrow> nat \<Rightarrow> nat" where
  "double_while_less n k = (if 0 < k \<and> 2 * k < n then double_while_less n (2 * k) else k)"
  by auto

termination double_while_less
  by (relation "measure (\<lambda>(n, k). n - k)") auto

declare double_while_less.simps [simp del]

definition largest_power_of_two_less_than :: "nat \<Rightarrow> nat" where
  "largest_power_of_two_less_than n = double_while_less n 1"

lemma double_while_less_bounds: "0 < k \<Longrightarrow> k < n \<Longrightarrow> 0 < double_while_less n k \<and> double_while_less n k < n"
  by (induction n k rule: double_while_less.induct) (subst (1 2) double_while_less.simps, auto)

lemma largest_power_bounds:
  "1 < n \<Longrightarrow> 0 < largest_power_of_two_less_than n \<and> largest_power_of_two_less_than n < n"
  using double_while_less_bounds [of 1 n] by (simp add: largest_power_of_two_less_than_def)

function compute_merkle_root :: "(bytes \<Rightarrow> hash32) \<Rightarrow> hash32 list \<Rightarrow> hash32" where
  "compute_merkle_root sha256 items =
     (if items = [] then sha256 []
      else if length items = 1 then merkle_leaf_hash sha256 (items ! 0)
      else
        let k = largest_power_of_two_less_than (length items);
            left = compute_merkle_root sha256 (take k items);
            right = compute_merkle_root sha256 (drop k items)
        in merkle_inner_node_hash sha256 left right)"
  by auto

lemma merkle_split_less:
  assumes "items \<noteq> []" "length items \<noteq> 1"
  shows "length (take (largest_power_of_two_less_than (length items)) items) < length items"
    "length (drop (largest_power_of_two_less_than (length items)) items) < length items"
proof -
  have "1 < length items" using assms by (cases items) auto
  with largest_power_bounds [OF this] assms(1)
  show "length (take (largest_power_of_two_less_than (length items)) items) < length items"
    "length (drop (largest_power_of_two_less_than (length items)) items) < length items" by auto
qed

termination compute_merkle_root
  by (relation "measure (\<lambda>(sha256, items). length items)") (use merkle_split_less in auto)

declare compute_merkle_root.simps [simp del]

definition merkle_root_from_base64_txns :: "(bytes \<Rightarrow> hash32) \<Rightarrow> bytes list \<Rightarrow> hash32" where
  "merkle_root_from_base64_txns sha256 txns = compute_merkle_root sha256 (map sha256 txns)"

definition verify_sequencer_commit :: "state_env \<Rightarrow> light_block \<Rightarrow> unit option" where
  "verify_sequencer_commit e lb =
     assert_that (list_all id [st_verify_validator_sets e lb, st_verify_commit e lb])"

text \<open>The inner option is the result of \<^verbatim>\<open>parse_cbft_tx_payload\<close>, the outer one its panics.\<close>

definition parse_cbft_tx_payload :: "state_env \<Rightarrow> bytes \<Rightarrow> execution_payload option option" where
  "parse_cbft_tx_payload e tx_bytes =
     do { body \<leftarrow> st_decode_tx e tx_bytes;
          case body of
            None \<Rightarrow> Some None
          | Some messages \<Rightarrow>
              do { assert_that (messages \<noteq> []);
                   let first_message = messages ! 0;
                   assert_that (msg_type_url first_message = ''/goat.goat.v1.MsgNewEthBlock'');
                   payload \<leftarrow> st_decode_payload e (msg_value first_message);
                   p \<leftarrow> payload;
                   Some (Some p) } }"

definition check_el_block_from_payload ::
  "state_env \<Rightarrow> 64 word \<Rightarrow> hash32 \<Rightarrow> hash32 \<Rightarrow> bytes list \<Rightarrow> hash32 \<Rightarrow> unit option" where
  "check_el_block_from_payload e el_block_number el_block_hash el_parent_block_hash txs actual_data_hash =
     do { assert_that (txs \<noteq> []);
          r \<leftarrow> parse_cbft_tx_payload e (txs ! 0);
          payload \<leftarrow> r;
          assert_that (ep_block_number payload = el_block_number);
          assert_that (ep_block_hash payload = array_bytes el_block_hash);
          assert_that (ep_parent_hash payload = array_bytes el_parent_block_hash);
          assert_that (actual_data_hash = merkle_root_from_base64_txns (st_sha256 e) txs) }"

section \<open>The chain\<close>

record circuit_state_block =
  sb_cosmos_txns :: "bytes list"
  sb_cosmos_block :: bytes
  sb_evm_block :: evm_input
  sb_withdrawals :: "withdrawal_slot list"

record state_chain_state =
  ss_evm_block_height :: "64 word"
  ss_genesis_evm_block_hash :: hash32
  ss_latest_evm_block_hash :: hash32
  ss_latest_cosmos_block :: bytes
  ss_withdrawals :: "withdrawal_slot list"

definition state_chain_state_new :: "64 word \<Rightarrow> hash32 \<Rightarrow> bytes \<Rightarrow> state_chain_state" where
  "state_chain_state_new evm_block_height genesis_evm_block_hash latest_cosmos_block = \<lparr>
     ss_evm_block_height = evm_block_height, ss_genesis_evm_block_hash = genesis_evm_block_hash,
     ss_latest_evm_block_hash = genesis_evm_block_hash, ss_latest_cosmos_block = latest_cosmos_block,
     ss_withdrawals = [] \<rparr>"

text \<open>The storage slot of a graph id in the mapping at the base slot, and its expected value.\<close>

definition withdrawal_slot_id :: "state_env \<Rightarrow> graph_id \<Rightarrow> hash32 \<Rightarrow> hash32" where
  "withdrawal_slot_id e g base_slot =
     st_keccak256 e (to_be_bytes 16 g @ replicate 16 0 @ array_bytes base_slot)"

definition withdrawal_storage :: "state_env \<Rightarrow> withdrawal_slot list \<Rightarrow> (160 word \<times> hash32 \<times> 256 word) list" where
  "withdrawal_storage e withdrawals =
     concat (map (\<lambda>(contract, base_slot, graph_ids).
       map (\<lambda>g. (contract, withdrawal_slot_id e g base_slot, 1)) graph_ids) withdrawals)"

definition execute_el_block_and_check_withdraw_tx ::
  "state_env \<Rightarrow> withdrawal_slot list \<Rightarrow> evm_input \<Rightarrow> evm_header option" where
  "execute_el_block_and_check_withdraw_tx e withdrawals input = st_execute e input (withdrawal_storage e withdrawals)"

text \<open>\<^verbatim>\<open>data_hash.unwrap().as_bytes().try_into().unwrap()\<close>\<close>

definition data_hash_bytes :: "light_block \<Rightarrow> hash32 option" where
  "data_hash_bytes lb = (case lb_data_hash lb of Some (TmSha256 h) \<Rightarrow> Some h | _ \<Rightarrow> None)"

definition apply_state_block :: "state_env \<Rightarrow> circuit_state_block \<Rightarrow> state_chain_state \<Rightarrow> state_chain_state option" where
  "apply_state_block e block s =
     do { evm_header \<leftarrow> execute_el_block_and_check_withdraw_tx e (sb_withdrawals block) (sb_evm_block block);
          assert_that (eh_number evm_header = ev_number (sb_evm_block block));
          assert_that (eh_number evm_header = ss_evm_block_height s);
          let current_block_hash = eh_hash evm_header;
          cosmos_block \<leftarrow> st_light_block e (sb_cosmos_block block);
          s1 \<leftarrow>
            (if current_block_hash \<noteq> ss_genesis_evm_block_hash s
             then
               do { assert_that (eh_parent_hash evm_header = ss_latest_evm_block_hash s);
                    data_hash \<leftarrow> data_hash_bytes cosmos_block;
                    check_el_block_from_payload e (ev_number (sb_evm_block block)) current_block_hash
                      (ss_latest_evm_block_hash s) (sb_cosmos_txns block) data_hash;
                    Some (s\<lparr> ss_withdrawals := ss_withdrawals s @ sb_withdrawals block \<rparr>) }
             else Some s);
          Some (s1\<lparr> ss_evm_block_height := ss_evm_block_height s1 + 1,
                   ss_latest_evm_block_hash := current_block_hash,
                   ss_latest_cosmos_block := sb_cosmos_block block \<rparr>) }"

primrec apply_state_blocks :: "state_env \<Rightarrow> circuit_state_block list \<Rightarrow> state_chain_state \<Rightarrow> state_chain_state option" where
  "apply_state_blocks e [] s = Some s"
| "apply_state_blocks e (b # bs) s = Option.bind (apply_state_block e b s) (apply_state_blocks e bs)"

section \<open>The circuit\<close>

datatype StateChainPrevProofType = StateGenesisBlock | StatePrevProof

record state_chain_output =
  sco_chain_state :: state_chain_state
  sco_self_program_id :: program_id
  sco_program_history_hash :: hash32
  sco_upgrade_checkpoint_hash :: hash32

record state_chain_input =
  sci_zkm_proof :: bytes
  sci_zkm_public_values :: bytes
  sci_zkm_vk_hash :: bytes
  sci_zkm_version :: string
  sci_self_program_id :: program_id
  sci_prev_proof :: StateChainPrevProofType
  sci_blocks :: "circuit_state_block list"

text \<open>\<open>decode\<close> is the \<^verbatim>\<open>bincode\<close> decoder of the public values.\<close>

definition classify_state_chain_output ::
  "(bytes \<Rightarrow> state_chain_output option) \<Rightarrow> bytes \<Rightarrow> string + StateChainPrevProofType" where
  "classify_state_chain_output decode public_values =
     (if decode public_values \<noteq> None then Inr StatePrevProof else Inl ''unknown state-chain public output format'')"

definition state_chain_start ::
  "state_env \<Rightarrow> (bytes \<Rightarrow> state_chain_output option) \<Rightarrow> state_chain_input \<Rightarrow> (state_chain_state \<times> hash32 \<times> hash32) option" where
  "state_chain_start e decode input =
     (case sci_prev_proof input of
        StateGenesisBlock \<Rightarrow>
          do { assert_that (sci_blocks input \<noteq> []);
               let first = sci_blocks input ! 0;
               let block_hash = ev_hash (sb_evm_block first);
               let block_height = ev_number (sb_evm_block first);
               Some (state_chain_state_new block_height block_hash (sb_cosmos_block first),
                     initial_history (st_sha256 e) State, 0) }
      | StatePrevProof \<Rightarrow>
          (case verify_groth16_proof (st_sha256 e) (st_zkm e) (sci_zkm_proof input) (sci_zkm_public_values input)
                  (sci_zkm_vk_hash input) (sci_zkm_version input) of
             Inl _ \<Rightarrow> None
           | Inr previous_program_id \<Rightarrow>
               do { out \<leftarrow> decode (sci_zkm_public_values input);
                    assert_that (sco_self_program_id out = previous_program_id);
                    let history = next_history (st_sha256 e) State (sco_program_history_hash out)
                          previous_program_id (sci_self_program_id input);
                    let checkpoint =
                          (if previous_program_id = sci_self_program_id input then sco_upgrade_checkpoint_hash out
                           else proof_checkpoint (st_sha256 e) State (sco_upgrade_checkpoint_hash out)
                             previous_program_id (sci_self_program_id input) (sci_zkm_public_values input));
                    Some (sco_chain_state out, history, checkpoint) }))"

definition state_chain_circuit ::
  "state_env \<Rightarrow> (bytes \<Rightarrow> state_chain_output option) \<Rightarrow> state_chain_input \<Rightarrow> state_chain_output option" where
  "state_chain_circuit e decode input =
     do { (s, history, checkpoint) \<leftarrow> state_chain_start e decode input;
          s' \<leftarrow> apply_state_blocks e (sci_blocks input) s;
          Some \<lparr> sco_chain_state = s', sco_self_program_id = sci_self_program_id input,
                 sco_program_history_hash = history, sco_upgrade_checkpoint_hash = checkpoint \<rparr> }"

section \<open>The data hash determines the transactions\<close>

text \<open>The strings hashed for a Merkle root.\<close>

function merkle_strings :: "(bytes \<Rightarrow> hash32) \<Rightarrow> hash32 list \<Rightarrow> bytes set" where
  "merkle_strings sha256 items =
     (if items = [] then {[]}
      else if length items = 1 then {0 # array_bytes (items ! 0)}
      else
        let k = largest_power_of_two_less_than (length items)
        in insert (1 # array_bytes (compute_merkle_root sha256 (take k items)) @
                     array_bytes (compute_merkle_root sha256 (drop k items)))
             (merkle_strings sha256 (take k items) \<union> merkle_strings sha256 (drop k items)))"
  by auto

termination merkle_strings
  by (relation "measure (\<lambda>(sha256, items). length items)") (use merkle_split_less in auto)

declare merkle_strings.simps [simp del]

text \<open>The root as the hash of one string, and the shape of that string.\<close>

lemma compute_merkle_root_cases:
  obtains (nil) "items = []" "compute_merkle_root sha256 items = sha256 []" "[] \<in> merkle_strings sha256 items"
  | (leaf) x where "items = [x]" "compute_merkle_root sha256 items = sha256 (0 # array_bytes x)"
      "0 # array_bytes x \<in> merkle_strings sha256 items"
  | (inner) l r where "items = l @ r" "length l < length items" "length r < length items"
      "compute_merkle_root sha256 items =
         sha256 (1 # array_bytes (compute_merkle_root sha256 l) @ array_bytes (compute_merkle_root sha256 r))"
      "1 # array_bytes (compute_merkle_root sha256 l) @ array_bytes (compute_merkle_root sha256 r) \<in> merkle_strings sha256 items"
      "merkle_strings sha256 l \<subseteq> merkle_strings sha256 items" "merkle_strings sha256 r \<subseteq> merkle_strings sha256 items"
proof -
  consider "items = []" | x where "items = [x]" | "items \<noteq> []" "length items \<noteq> 1"
    by (cases items) auto
  then show thesis
  proof cases
    case 1
    then show thesis by (intro nil) (simp_all add: compute_merkle_root.simps merkle_strings.simps)
  next
    case (2 x)
    then show thesis
      by (intro leaf [of x]) (simp_all add: compute_merkle_root.simps merkle_strings.simps merkle_leaf_hash_def)
  next
    case 3
    let ?k = "largest_power_of_two_less_than (length items)"
    have ms: "merkle_strings sha256 items =
        insert (1 # array_bytes (compute_merkle_root sha256 (take ?k items)) @ array_bytes (compute_merkle_root sha256 (drop ?k items)))
          (merkle_strings sha256 (take ?k items) \<union> merkle_strings sha256 (drop ?k items))"
      using 3 by (simp add: merkle_strings.simps [of sha256 items] Let_def)
    show thesis
      using 3 merkle_split_less [OF 3]
      by (intro inner [of "take ?k items" "drop ?k items"])
        (auto simp: compute_merkle_root.simps [of sha256 items] ms merkle_inner_node_hash_def Let_def)
  qed
qed

lemma compute_merkle_root_inj:
  assumes "inj_on sha256 S" "merkle_strings sha256 xs \<subseteq> S" "merkle_strings sha256 ys \<subseteq> S"
    "compute_merkle_root sha256 xs = compute_merkle_root sha256 ys"
  shows "xs = ys"
  using assms(2-4)
proof (induction "length xs" arbitrary: xs ys rule: less_induct)
  case less
  have same: "u = v" if "u \<in> merkle_strings sha256 xs" "v \<in> merkle_strings sha256 ys" "sha256 u = sha256 v" for u v
    using that less.prems(1,2) by (intro inj_onD [OF assms(1)]) auto
  show ?case
  proof (cases sha256 xs rule: compute_merkle_root_cases)
    case nil
    then show ?thesis
      by (cases sha256 ys rule: compute_merkle_root_cases) (use same less.prems(3) in fastforce)+
  next
    case (leaf x)
    then show ?thesis
      by (cases sha256 ys rule: compute_merkle_root_cases) (use same less.prems(3) in fastforce)+
  next
    case xs: (inner l r)
    show ?thesis
    proof (cases sha256 ys rule: compute_merkle_root_cases)
      case nil
      then show ?thesis using same [OF xs(5) nil(3)] less.prems(3) xs(4) by simp
    next
      case (leaf x)
      then show ?thesis using same [OF xs(5) leaf(3)] less.prems(3) xs(4) by simp
    next
      case ys: (inner l' r')
      have "compute_merkle_root sha256 l = compute_merkle_root sha256 l'" "compute_merkle_root sha256 r = compute_merkle_root sha256 r'"
        using same [OF xs(5) ys(5)] less.prems(3) xs(4) ys(4) by simp_all
      then have "l = l'" "r = r'"
        using less.hyps [OF xs(2), of l'] less.hyps [OF xs(3), of r'] xs(6,7) ys(6,7) less.prems(1,2) by blast+
      then show ?thesis using xs(1) ys(1) by simp
    qed
  qed
qed

section \<open>Executed blocks\<close>

text \<open>
  The headers of the executed blocks: they are numbered consecutively from \<open>n\<close>, and each is the genesis
  block \<open>g\<close> or has the hash before it as parent.
\<close>

fun evm_linked :: "64 word \<Rightarrow> hash32 \<Rightarrow> hash32 \<Rightarrow> evm_header list \<Rightarrow> bool" where
  "evm_linked n g tip [] = True"
| "evm_linked n g tip (h # hs) =
     (eh_number h = n \<and> (eh_hash h \<noteq> g \<longrightarrow> eh_parent_hash h = tip) \<and> evm_linked (n + 1) g (eh_hash h) hs)"

text \<open>The block was executed with the given header, its withdrawals read back, and is named by its consensus block.\<close>

definition block_executed :: "state_env \<Rightarrow> circuit_state_block \<Rightarrow> evm_header \<Rightarrow> bool" where
  "block_executed e b h \<longleftrightarrow>
     st_execute e (sb_evm_block b) (withdrawal_storage e (sb_withdrawals b)) = Some h \<and> eh_number h = ev_number (sb_evm_block b)"

definition committed_withdrawals :: "hash32 \<Rightarrow> circuit_state_block list \<Rightarrow> evm_header list \<Rightarrow> withdrawal_slot list" where
  "committed_withdrawals g bs hs =
     concat (map (\<lambda>(b, h). if eh_hash h \<noteq> g then sb_withdrawals b else []) (zip bs hs))"

lemma apply_state_block_Some:
  assumes "apply_state_block e b s = Some s'"
  obtains h where "block_executed e b h" "eh_number h = ss_evm_block_height s"
    "eh_hash h \<noteq> ss_genesis_evm_block_hash s \<Longrightarrow> eh_parent_hash h = ss_latest_evm_block_hash s"
    "s' = s\<lparr> ss_evm_block_height := ss_evm_block_height s + 1, ss_latest_evm_block_hash := eh_hash h,
       ss_latest_cosmos_block := sb_cosmos_block b,
       ss_withdrawals := ss_withdrawals s @ (if eh_hash h \<noteq> ss_genesis_evm_block_hash s then sb_withdrawals b else []) \<rparr>"
proof -
  from assms obtain h where h: "block_executed e b h" "eh_number h = ss_evm_block_height s"
    and s': "s' = s\<lparr> ss_withdrawals := ss_withdrawals s @ sb_withdrawals b, ss_evm_block_height := ss_evm_block_height s + 1,
        ss_latest_evm_block_hash := eh_hash h, ss_latest_cosmos_block := sb_cosmos_block b \<rparr> \<and>
        eh_hash h \<noteq> ss_genesis_evm_block_hash s \<and> eh_parent_hash h = ss_latest_evm_block_hash s \<or>
      s' = s\<lparr> ss_evm_block_height := ss_evm_block_height s + 1,
        ss_latest_evm_block_hash := eh_hash h, ss_latest_cosmos_block := sb_cosmos_block b \<rparr> \<and>
        eh_hash h = ss_genesis_evm_block_hash s"
    by (fastforce simp: apply_state_block_def execute_el_block_and_check_withdraw_tx_def block_executed_def Let_def
      bind_eq_Some_conv split: if_splits)
  then show thesis by (intro that [of h]) auto
qed

lemma apply_state_blocks_trace:
  "apply_state_blocks e bs s = Some s' \<Longrightarrow>
   \<exists>hs. list_all2 (block_executed e) bs hs \<and>
     evm_linked (ss_evm_block_height s) (ss_genesis_evm_block_hash s) (ss_latest_evm_block_hash s) hs \<and>
     ss_evm_block_height s' = ss_evm_block_height s + of_nat (length bs) \<and>
     ss_genesis_evm_block_hash s' = ss_genesis_evm_block_hash s \<and>
     ss_latest_evm_block_hash s' = last (ss_latest_evm_block_hash s # map eh_hash hs) \<and>
     ss_withdrawals s' = ss_withdrawals s @ committed_withdrawals (ss_genesis_evm_block_hash s) bs hs"
proof (induction bs arbitrary: s)
  case Nil
  then show ?case by (simp add: committed_withdrawals_def)
next
  case (Cons b bs)
  then obtain s1 where s1: "apply_state_block e b s = Some s1" "apply_state_blocks e bs s1 = Some s'"
    by (auto simp: bind_eq_Some_conv)
  from apply_state_block_Some [OF s1(1)] obtain h where h: "block_executed e b h" "eh_number h = ss_evm_block_height s"
    "eh_hash h \<noteq> ss_genesis_evm_block_hash s \<Longrightarrow> eh_parent_hash h = ss_latest_evm_block_hash s"
    "s1 = s\<lparr> ss_evm_block_height := ss_evm_block_height s + 1, ss_latest_evm_block_hash := eh_hash h,
       ss_latest_cosmos_block := sb_cosmos_block b,
       ss_withdrawals := ss_withdrawals s @ (if eh_hash h \<noteq> ss_genesis_evm_block_hash s then sb_withdrawals b else []) \<rparr>"
    by blast
  from Cons.IH [OF s1(2)] obtain hs where hs: "list_all2 (block_executed e) bs hs"
    "evm_linked (ss_evm_block_height s1) (ss_genesis_evm_block_hash s1) (ss_latest_evm_block_hash s1) hs"
    "ss_evm_block_height s' = ss_evm_block_height s1 + of_nat (length bs)"
    "ss_genesis_evm_block_hash s' = ss_genesis_evm_block_hash s1"
    "ss_latest_evm_block_hash s' = last (ss_latest_evm_block_hash s1 # map eh_hash hs)"
    "ss_withdrawals s' = ss_withdrawals s1 @ committed_withdrawals (ss_genesis_evm_block_hash s1) bs hs" by blast
  show ?case
    by (rule exI [of _ "h # hs"]) (use h hs in \<open>auto simp: committed_withdrawals_def\<close>)
qed

lemma apply_state_blocks_append:
  "apply_state_blocks e (as @ bs) s = Option.bind (apply_state_blocks e as s) (apply_state_blocks e bs)"
proof (induction as arbitrary: s)
  case (Cons a as)
  then show ?case by (cases "apply_state_block e a s") simp_all
qed simp

section \<open>Recursive proofs\<close>

definition state_first_run ::
  "state_env \<Rightarrow> (bytes \<Rightarrow> state_chain_output option) \<Rightarrow> program_id \<Rightarrow> state_chain_output \<Rightarrow> bool" where
  "state_first_run e decode pid out \<longleftrightarrow>
     (\<exists>input. sci_prev_proof input = StateGenesisBlock \<and> sci_self_program_id input = pid \<and>
        state_chain_circuit e decode input = Some out)"

definition state_next_run ::
  "state_env \<Rightarrow> (bytes \<Rightarrow> state_chain_output option) \<Rightarrow> program_id \<Rightarrow> state_chain_output \<Rightarrow> program_id \<Rightarrow>
   state_chain_output \<Rightarrow> bool" where
  "state_next_run e decode pid prev self out \<longleftrightarrow>
     (\<exists>input. sci_prev_proof input = StatePrevProof \<and> sci_self_program_id input = self \<and>
        state_chain_circuit e decode input = Some out \<and>
        verify_groth16_proof (st_sha256 e) (st_zkm e) (sci_zkm_proof input) (sci_zkm_public_values input)
          (sci_zkm_vk_hash input) (sci_zkm_version input) = Inr pid \<and>
        decode (sci_zkm_public_values input) = Some prev)"

definition state_proved ::
  "state_env \<Rightarrow> (bytes \<Rightarrow> state_chain_output option) \<Rightarrow> program_id set \<Rightarrow> bytes set \<Rightarrow> program_id \<Rightarrow> state_chain_output \<Rightarrow> bool" where
  "state_proved e decode =
     recursively_proved State sco_program_history_hash (state_first_run e decode) (state_next_run e decode)"

text \<open>The state is the one after executing the blocks from the first of them on.\<close>

definition genuine_state :: "state_env \<Rightarrow> state_chain_state \<Rightarrow> circuit_state_block list \<Rightarrow> bool" where
  "genuine_state e s bs \<longleftrightarrow>
     bs \<noteq> [] \<and>
     apply_state_blocks e bs
       (state_chain_state_new (ev_number (sb_evm_block (hd bs))) (ev_hash (sb_evm_block (hd bs))) (sb_cosmos_block (hd bs))) =
     Some s"

lemma state_first_run_good:
  assumes "state_first_run e decode pid out"
  shows "sco_program_history_hash out = initial_history (st_sha256 e) State" "\<exists>bs. genuine_state e (sco_chain_state out) bs"
proof -
  from assms obtain input where input: "sci_prev_proof input = StateGenesisBlock" "state_chain_circuit e decode input = Some out"
    by (auto simp: state_first_run_def)
  then have "sci_blocks input \<noteq> []"
    "apply_state_blocks e (sci_blocks input)
       (state_chain_state_new (ev_number (sb_evm_block (sci_blocks input ! 0))) (ev_hash (sb_evm_block (sci_blocks input ! 0)))
         (sb_cosmos_block (sci_blocks input ! 0))) = Some (sco_chain_state out)"
    and hist: "sco_program_history_hash out = initial_history (st_sha256 e) State"
    by (auto simp: state_chain_circuit_def state_chain_start_def bind_eq_Some_conv Let_def)
  then have "genuine_state e (sco_chain_state out) (sci_blocks input)" by (simp add: genuine_state_def hd_conv_nth)
  with hist show "sco_program_history_hash out = initial_history (st_sha256 e) State"
    "\<exists>bs. genuine_state e (sco_chain_state out) bs" by blast+
qed

lemma state_next_run_good:
  assumes "state_next_run e decode pid prev self out"
  shows "sco_program_history_hash out = next_history (st_sha256 e) State (sco_program_history_hash prev) pid self"
    "genuine_state e (sco_chain_state prev) bs \<Longrightarrow> \<exists>bs'. genuine_state e (sco_chain_state out) bs'"
proof -
  from assms obtain input where input: "sci_prev_proof input = StatePrevProof" "sci_self_program_id input = self"
    "state_chain_circuit e decode input = Some out" "decode (sci_zkm_public_values input) = Some prev"
    "verify_groth16_proof (st_sha256 e) (st_zkm e) (sci_zkm_proof input) (sci_zkm_public_values input)
       (sci_zkm_vk_hash input) (sci_zkm_version input) = Inr pid"
    by (auto simp: state_next_run_def)
  then have run: "apply_state_blocks e (sci_blocks input) (sco_chain_state prev) = Some (sco_chain_state out)" and
    hist: "sco_program_history_hash out = next_history (st_sha256 e) State (sco_program_history_hash prev) pid self"
    by (auto simp: state_chain_circuit_def state_chain_start_def bind_eq_Some_conv Let_def)
  show "sco_program_history_hash out = next_history (st_sha256 e) State (sco_program_history_hash prev) pid self" by (fact hist)
  assume "genuine_state e (sco_chain_state prev) bs"
  with run have "genuine_state e (sco_chain_state out) (bs @ sci_blocks input)"
    by (simp add: genuine_state_def apply_state_blocks_append)
  then show "\<exists>bs'. genuine_state e (sco_chain_state out) bs'" by blast
qed

interpretation state_program: recursive_program "st_sha256 e" State sco_program_history_hash
  "state_first_run e decode" "state_next_run e decode" "\<lambda>out. \<exists>bs. genuine_state e (sco_chain_state out) bs" for e decode
  by unfold_locales
    (erule state_first_run_good, erule state_first_run_good, erule state_next_run_good,
     elim exE, erule (1) state_next_run_good)

text \<open>Every withdrawal of a genuine state was read back from the state after an executed block.\<close>

definition withdrawal_read_back :: "state_env \<Rightarrow> circuit_state_block list \<Rightarrow> evm_header list \<Rightarrow> withdrawal_slot \<Rightarrow> bool" where
  "withdrawal_read_back e bs hs w =
     (case w of (contract, base_slot, graph_ids) \<Rightarrow>
        list_all (\<lambda>g. \<exists>(b, h) \<in> set (zip bs hs).
          st_execute e (sb_evm_block b) (withdrawal_storage e (sb_withdrawals b)) = Some h \<and>
          (contract, withdrawal_slot_id e g base_slot, 1) \<in> set (withdrawal_storage e (sb_withdrawals b))) graph_ids)"

lemma committed_withdrawals_read_back:
  assumes "list_all2 (block_executed e) bs hs"
  shows "list_all (withdrawal_read_back e bs hs) (committed_withdrawals g bs hs)"
proof -
  have "withdrawal_read_back e bs hs w" if bh: "(b, h) \<in> set (zip bs hs)" and w: "w \<in> set (sb_withdrawals b)" for b h w
  proof -
    obtain c base gs where w': "w = (c, base, gs)" by (cases w)
    have ex: "block_executed e b h" using assms bh by (auto simp: list_all2_iff)
    have "(c, withdrawal_slot_id e x base, 1) \<in> set (withdrawal_storage e (sb_withdrawals b))" if "x \<in> set gs" for x
      using w that by (force simp: withdrawal_storage_def w')
    then show ?thesis
      using ex bh by (auto simp: withdrawal_read_back_def w' list_all_iff block_executed_def intro!: bexI [of _ "(b, h)"])
  qed
  then show ?thesis by (auto simp: committed_withdrawals_def list_all_iff split: if_splits)
qed

lemma genuine_state_trace:
  assumes "genuine_state e s bs"
  shows "\<exists>hs. list_all2 (block_executed e) bs hs \<and> hs \<noteq> [] \<and>
    evm_linked (eh_number (hd hs)) (ss_genesis_evm_block_hash s) (ss_genesis_evm_block_hash s) hs \<and>
    ss_latest_evm_block_hash s = eh_hash (last hs) \<and>
    list_all (withdrawal_read_back e bs hs) (ss_withdrawals s)"
proof -
  from assms have bs: "bs \<noteq> []" and run: "apply_state_blocks e bs
      (state_chain_state_new (ev_number (sb_evm_block (hd bs))) (ev_hash (sb_evm_block (hd bs))) (sb_cosmos_block (hd bs))) = Some s"
    by (simp_all add: genuine_state_def)
  from apply_state_blocks_trace [OF run] obtain hs where hs: "list_all2 (block_executed e) bs hs"
    "evm_linked (ev_number (sb_evm_block (hd bs))) (ss_genesis_evm_block_hash s) (ss_genesis_evm_block_hash s) hs"
    "ss_latest_evm_block_hash s = last (ss_genesis_evm_block_hash s # map eh_hash hs)"
    "ss_withdrawals s = committed_withdrawals (ss_genesis_evm_block_hash s) bs hs"
    by (auto simp: state_chain_state_new_def)
  have ne: "hs \<noteq> []" using hs(1) bs by auto
  then have "ev_number (sb_evm_block (hd bs)) = eh_number (hd hs)" using hs(2) by (cases hs) auto
  with hs ne committed_withdrawals_read_back [OF hs(1)] show ?thesis
    by (intro exI [of _ hs]) (simp add: last_map)
qed

section \<open>Properties\<close>

definition length_sha256 :: "bytes \<Rightarrow> hash32" where
  "length_sha256 bs = of_nat (length bs)"

text \<open>
  The data hash of a consensus block determines its transactions: two lists of transactions with the
  same Merkle root have the same hashes in the same order, also when their lengths differ, since
  leaves and inner nodes are hashed with different prefixes. SHA-256 is assumed injective on the strings
  hashed for the two roots. The recursion ends, since it splits a list of two or more into two shorter ones.
\<close>

theorem data_hash_binds_transactions:
  assumes "merkle_root_from_base64_txns sha256 txs = merkle_root_from_base64_txns sha256 txs'"
    "inj_on sha256 (merkle_strings sha256 (map sha256 txs) \<union> merkle_strings sha256 (map sha256 txs'))"
  shows "map sha256 txs = map sha256 txs'"
  using assms by (intro compute_merkle_root_inj [OF assms(2)]) (simp_all add: merkle_root_from_base64_txns_def)

theorem data_hash_binds_transactions_witness:
  "inj_on length_sha256 (merkle_strings length_sha256 (map length_sha256 [[7], [8]])) \<and>
   map length_sha256 [[7], [8]] = map length_sha256 [[9], [3]]"
proof -
  let ?sha = length_sha256
  have k: "largest_power_of_two_less_than 2 = 1"
    by (simp add: largest_power_of_two_less_than_def double_while_less.simps)
  have leaf: "merkle_strings ?sha [x] = {0 # array_bytes x}" for x by (simp add: merkle_strings.simps)
  have hashes: "map ?sha [[a], [b]] = [1, 1]" for a b by (simp add: length_sha256_def)
  have "merkle_strings ?sha [1, 1] = {1 # array_bytes (compute_merkle_root ?sha [1]) @ array_bytes (compute_merkle_root ?sha [1]),
      0 # array_bytes 1}"
    by (simp add: merkle_strings.simps [of _ "[1, 1]"] k leaf numeral_2_eq_2 [symmetric])
  then have inj: "inj_on ?sha (merkle_strings ?sha [1, 1])"
    by (simp add: inj_on_def length_sha256_def)
  have "map ?sha [[7], [8]] = map ?sha [[9], [3]]"
    by (rule data_hash_binds_transactions) (simp_all only: hashes inj Un_absorb merkle_root_from_base64_txns_def)
  with inj show ?thesis by (simp only: hashes)
qed

definition example_state_env :: state_env where
  "example_state_env = \<lparr>
     st_sha256 = example_history_sha256, st_keccak256 = (\<lambda>_. 0),
     st_execute = (\<lambda>b _. Some \<lparr> eh_number = ev_number b, eh_parent_hash = ucast (ev_number b - 1), eh_hash = ucast (ev_number b) \<rparr>),
     st_light_block = (\<lambda>_. Some \<lparr> lb_validators_hash = TmSha256 1, lb_data_hash = Some (TmSha256 0), lb_data = [] \<rparr>),
     st_decode_tx = (\<lambda>_. Some (Some [\<lparr> msg_type_url = ''/goat.goat.v1.MsgNewEthBlock'', msg_value = [] \<rparr>])),
     st_decode_payload = (\<lambda>_. Some (Some \<lparr> ep_block_number = 6, ep_block_hash = array_bytes 6, ep_parent_hash = array_bytes 5 \<rparr>)),
     st_verify_validator_sets = (\<lambda>_. True), st_verify_commit = (\<lambda>_. True), st_zkm = env_zkm example_env \<rparr>"

definition example_state_block :: "64 word \<Rightarrow> circuit_state_block" where
  "example_state_block n = \<lparr> sb_cosmos_txns = [[1]], sb_cosmos_block = [],
     sb_evm_block = \<lparr> ev_number = n, ev_hash = ucast n, ev_data = [] \<rparr>, sb_withdrawals = [(1, 2, [77])] \<rparr>"

definition example_state_input :: state_chain_input where
  "example_state_input = \<lparr> sci_zkm_proof = [], sci_zkm_public_values = [], sci_zkm_vk_hash = [], sci_zkm_version = [],
     sci_self_program_id = 9, sci_prev_proof = StateGenesisBlock, sci_blocks = [example_state_block 5, example_state_block 6] \<rparr>"

definition example_state_output :: state_chain_output where
  "example_state_output = \<lparr>
     sco_chain_state = \<lparr> ss_evm_block_height = 7, ss_genesis_evm_block_hash = 5, ss_latest_evm_block_hash = 6,
       ss_latest_cosmos_block = [], ss_withdrawals = [(1, 2, [77])] \<rparr>,
     sco_self_program_id = 9, sco_program_history_hash = 2, sco_upgrade_checkpoint_hash = 0 \<rparr>"

lemma example_state_run: "state_chain_circuit example_state_env decode example_state_input = Some example_state_output"
  by (simp add: state_chain_circuit_def state_chain_start_def example_state_input_def example_state_env_def
    example_state_block_def example_state_output_def state_chain_state_new_def apply_state_block_def
    execute_el_block_and_check_withdraw_tx_def data_hash_bytes_def check_el_block_from_payload_def parse_cbft_tx_payload_def
    merkle_root_from_base64_txns_def compute_merkle_root.simps merkle_leaf_hash_def initial_history_alt seed_preimage_def
    as_bytes_def example_history_sha256_def assert_that_def)



end
