(* ===== verification/Watchtowers.thy ===== *)
theory Watchtowers
  imports StateChain
begin

text \<open>
  What watchtowers and operators exchange (\<^verbatim>\<open>src/circuits/crates/bitcoin-light-client-circuit/src/lib.rs\<close>): the byte layout of a
  watchtower's commitment, the bitmap of the watchtowers that challenged and its validation against the
  indexed challenges, and the hashes that bind the operator's public inputs. A failed assertion is \<^verbatim>\<open>None\<close>, the
  errors are values of a sum type. A string is represented by its UTF-8 bytes as characters.

  The lemmas show that the parser accepts exactly what the builder builds, that the bitmap and the list of
  indices determine each other, and that the constant binds its inputs.
\<close>

section \<open>Constants\<close>

definition GRAPH_ID_SIZE :: nat where "GRAPH_ID_SIZE = 16"

definition PROOF_SIZE :: nat where "PROOF_SIZE = 260"

definition PUBLIC_INPUTS_SIZE :: nat where "PUBLIC_INPUTS_SIZE = 36"

definition ZKM_VERSION_LEN_SIZE :: nat where "ZKM_VERSION_LEN_SIZE = 4"

definition VK_HASH_SIZE :: nat where "VK_HASH_SIZE = 66"

definition TOTAL_WORK_SIZE :: nat where "TOTAL_WORK_SIZE = 32"

definition CONSENSUS_BLOCK_HEIGHT_SIZE :: nat where "CONSENSUS_BLOCK_HEIGHT_SIZE = 4"

lemmas commitment_sizes =
  GRAPH_ID_SIZE_def PROOF_SIZE_def PUBLIC_INPUTS_SIZE_def ZKM_VERSION_LEN_SIZE_def VK_HASH_SIZE_def TOTAL_WORK_SIZE_def
  CONSENSUS_BLOCK_HEIGHT_SIZE_def

section \<open>Bitmaps\<close>

definition u256_to_le_bits :: "256 word \<Rightarrow> bool list" where
  "u256_to_le_bits u = map (bit u) [0..<256]"

definition le_bits_to_u256 :: "bool list \<Rightarrow> 256 word" where
  "le_bits_to_u256 bits =
     foldl (\<lambda>u (i, b). if b then u + push_bit i 1 else u) 0 (zip [0..<length bits] bits)"

datatype index_error = InvalidWatchtowerCount nat | IndexOutOfBounds nat | DuplicateIndex nat | BitmapMismatch

fun mark_indices :: "nat \<Rightarrow> 16 word list \<Rightarrow> bool list \<Rightarrow> index_error + bool list" where
  "mark_indices graph_watchtower_count [] seen = Inr seen"
| "mark_indices graph_watchtower_count (i # is) seen =
     (let index = unat i
      in if graph_watchtower_count \<le> index then Inl (IndexOutOfBounds index)
         else if seen ! index then Inl (DuplicateIndex index)
         else mark_indices graph_watchtower_count is (seen[index := True]))"

definition validate_watchtower_challenge_indices :: "bool list \<Rightarrow> nat \<Rightarrow> 16 word list \<Rightarrow> index_error + unit" where
  "validate_watchtower_challenge_indices included_watchtowers graph_watchtower_count challenge_indices =
     (if graph_watchtower_count = 0 \<or> 256 < graph_watchtower_count then Inl (InvalidWatchtowerCount graph_watchtower_count)
      else case mark_indices graph_watchtower_count challenge_indices (replicate 256 False) of
        Inl err \<Rightarrow> Inl err
      | Inr seen \<Rightarrow> if included_watchtowers \<noteq> seen then Inl BitmapMismatch else Inr ())"

section \<open>Watchtower commitments\<close>

definition build_watchtower_commitment :: "bytes \<Rightarrow> bytes \<Rightarrow> bytes \<Rightarrow> string \<Rightarrow> string \<Rightarrow> bytes option" where
  "build_watchtower_commitment graph prf public_inputs vk_hash zkm_version =
     do { assert_that (length (as_bytes vk_hash) = VK_HASH_SIZE);
          Some (graph @ prf @ public_inputs @ as_bytes vk_hash @
            to_le_bytes 4 (of_nat (length (as_bytes zkm_version)) :: 32 word) @ as_bytes zkm_version) }"

record watchtower_commitment =
  wc_graph_id :: bytes
  wc_proof :: bytes
  wc_public_values :: bytes
  wc_vk_hash :: bytes
  wc_total_work :: bytes
  wc_consensus_block_height :: bytes
  wc_zkm_version :: string

datatype parse_error = TooShort nat | EmptyVersion | WrongLength nat nat | VersionNotUtf8

definition parse_watchtower_commitment :: "bytes \<Rightarrow> parse_error + watchtower_commitment" where
  "parse_watchtower_commitment commitment =
     (let min_commitment_size = GRAPH_ID_SIZE + PROOF_SIZE + PUBLIC_INPUTS_SIZE + VK_HASH_SIZE + ZKM_VERSION_LEN_SIZE
      in if length commitment < min_commitment_size then Inl (TooShort (length commitment))
         else
           let graph = take GRAPH_ID_SIZE commitment;
               rest = drop GRAPH_ID_SIZE commitment;
               prf = take PROOF_SIZE rest;
               rest = drop PROOF_SIZE rest;
               zkm_public_values = take PUBLIC_INPUTS_SIZE rest;
               rest = drop PUBLIC_INPUTS_SIZE rest;
               zkm_vk_hash_bytes = take VK_HASH_SIZE rest;
               rest = drop VK_HASH_SIZE rest;
               zkm_version_len = unat (from_le_bytes (take ZKM_VERSION_LEN_SIZE rest) :: 32 word);
               rest = drop ZKM_VERSION_LEN_SIZE rest
           in if zkm_version_len = 0 then Inl EmptyVersion
              else
                let expected_size = min_commitment_size + zkm_version_len
                in if length commitment \<noteq> expected_size then Inl (WrongLength (length commitment) expected_size)
                   else case from_utf8 (take zkm_version_len rest) of
                     None \<Rightarrow> Inl VersionNotUtf8
                   | Some zkm_version \<Rightarrow>
                       Inr \<lparr> wc_graph_id = graph, wc_proof = prf, wc_public_values = zkm_public_values,
                             wc_vk_hash = zkm_vk_hash_bytes, wc_total_work = take TOTAL_WORK_SIZE zkm_public_values,
                             wc_consensus_block_height =
                               take CONSENSUS_BLOCK_HEIGHT_SIZE (drop TOTAL_WORK_SIZE zkm_public_values),
                             wc_zkm_version = zkm_version \<rparr>)"

section \<open>Binding hashes\<close>

definition constant_preimage :: "graph_id \<Rightarrow> hash32 \<Rightarrow> hash32 \<Rightarrow> hash32 list \<Rightarrow> bytes" where
  "constant_preimage graph genesis_txid init_txid keys =
     as_bytes ''bitvm/operator-constant/v3'' @ to_be_bytes 16 graph @ array_bytes genesis_txid @ array_bytes init_txid @
     to_be_bytes 2 (of_nat (length keys) :: 16 word) @ concat (map array_bytes keys)"

definition hash_operator_constant ::
  "(bytes \<Rightarrow> hash32) \<Rightarrow> graph_id \<Rightarrow> hash32 \<Rightarrow> hash32 \<Rightarrow> hash32 list \<Rightarrow> hash32" where
  "hash_operator_constant sha256 graph genesis_txid init_txid keys =
     sha256 (constant_preimage graph genesis_txid init_txid keys)"

definition hash_partial_binding_witness :: "(bytes \<Rightarrow> hash32) \<Rightarrow> hash32 \<Rightarrow> hash32 \<Rightarrow> hash32 \<Rightarrow> hash32" where
  "hash_partial_binding_witness sha256 constant btc_best_block_hash included_watchtowers =
     sha256 (array_bytes constant @ array_bytes btc_best_block_hash @ array_bytes included_watchtowers)"

section \<open>Bitmaps and indices\<close>

lemma map_upt_eq_iff: "map f [0..<n] = map g [0..<n] \<longleftrightarrow> (\<forall>k < n. f k = g k)"
  by auto

lemma length_u256_to_le_bits [simp]: "length (u256_to_le_bits u) = 256"
  by (simp add: u256_to_le_bits_def)

lemma nth_u256_to_le_bits [simp]: "i < 256 \<Longrightarrow> u256_to_le_bits u ! i = bit u i"
  by (simp add: u256_to_le_bits_def)

text \<open>Adding a power of two above the bits set so far sets one bit.\<close>

lemma add_high_bit:
  fixes u :: "256 word"
  assumes "\<And>k. n \<le> k \<Longrightarrow> \<not> bit u k"
  shows "bit (u + push_bit n 1) k \<longleftrightarrow> bit u k \<or> (k = n \<and> n < 256)"
proof -
  have "u AND push_bit n 1 = 0"
    using assms by (intro bit_word_eqI) (auto simp: bit_simps)
  then have "u + push_bit n 1 = u OR push_bit n 1" by (simp add: disjunctive_add_eq_or)
  then show ?thesis by (auto simp: bit_simps)
qed

lemma le_bits_to_u256_snoc:
  "le_bits_to_u256 (bs @ [b]) = (if b then le_bits_to_u256 bs + push_bit (length bs) 1 else le_bits_to_u256 bs)"
  by (simp add: le_bits_to_u256_def)

lemma bit_le_bits_to_u256: "bit (le_bits_to_u256 bs) k \<longleftrightarrow> k < 256 \<and> k < length bs \<and> bs ! k"
proof (induction bs arbitrary: k rule: rev_induct)
  case Nil
  then show ?case by (simp add: le_bits_to_u256_def)
next
  case (snoc b bs)
  have "\<not> bit (le_bits_to_u256 bs) j" if "length bs \<le> j" for j using that by (simp add: snoc.IH)
  from add_high_bit [OF this] show ?case
    by (auto simp: le_bits_to_u256_snoc snoc.IH nth_append less_Suc_eq)
qed

lemma mark_indices_ok:
  assumes "length seen = N" "n \<le> N"
  shows "mark_indices n is seen = Inr seen' \<longleftrightarrow>
    distinct is \<and> list_all (\<lambda>i. unat i < n \<and> \<not> seen ! unat i) is \<and>
    seen' = map (\<lambda>k. seen ! k \<or> k \<in> unat ` set is) [0..<N]"
  using assms(1)
proof (induction "is" arbitrary: seen)
  case Nil
  then have "map (\<lambda>k. seen ! k) [0..<N] = seen" using map_nth [of seen] by simp
  then show ?case by auto
next
  case (Cons i "is")
  show ?case
  proof (cases "n \<le> unat i \<or> seen ! unat i")
    case True
    then show ?thesis by (auto simp: Let_def)
  next
    case False
    then have i: "unat i < n" "\<not> seen ! unat i" "unat i < N" using assms(2) by auto
    have other: "list_all (\<lambda>j. unat j < n \<and> \<not> seen[unat i := True] ! unat j) is \<longleftrightarrow>
        i \<notin> set is \<and> list_all (\<lambda>j. unat j < n \<and> \<not> seen ! unat j) is"
      using i Cons.prems by (auto simp: list_all_iff nth_list_update dest: word_unat_eq_iff [THEN iffD2])
    have "map (\<lambda>k. seen[unat i := True] ! k \<or> k \<in> unat ` set is) [0..<N] =
        map (\<lambda>k. seen ! k \<or> k \<in> unat ` set (i # is)) [0..<N]"
      using i Cons.prems by (auto simp: nth_list_update)
    with Cons.IH [of "seen[unat i := True]"] Cons.prems i other show ?thesis by (auto simp: Let_def)
  qed
qed

lemma mark_indices_fresh:
  assumes "n \<le> N"
  shows "mark_indices n is (replicate N False) = Inr seen \<longleftrightarrow>
    distinct is \<and> list_all (\<lambda>i. unat i < n) is \<and> seen = map (\<lambda>k. k \<in> unat ` set is) [0..<N]"
proof -
  have in_range: "list_all (\<lambda>i. unat i < n \<and> \<not> replicate N False ! unat i) is \<longleftrightarrow> list_all (\<lambda>i. unat i < n) is"
    using assms by (auto simp: list_all_iff)
  have bits: "map (\<lambda>k. replicate N False ! k \<or> k \<in> unat ` set is) [0..<N] = map (\<lambda>k. k \<in> unat ` set is) [0..<N]"
    by auto
  show ?thesis using mark_indices_ok [of "replicate N False" N n "is" seen, OF length_replicate assms] unfolding in_range bits .
qed

lemma validate_indices_ok:
  "validate_watchtower_challenge_indices included n is = Inr () \<longleftrightarrow>
   1 \<le> n \<and> n \<le> 256 \<and> distinct is \<and> list_all (\<lambda>i. unat i < n) is \<and>
   included = map (\<lambda>k. k \<in> unat ` set is) [0..<256]"
proof (cases "1 \<le> n \<and> n \<le> 256")
  case True
  then have "validate_watchtower_challenge_indices included n is = Inr () \<longleftrightarrow>
      mark_indices n is (replicate 256 False) = Inr included"
    by (cases "mark_indices n is (replicate 256 False)") (auto simp: validate_watchtower_challenge_indices_def)
  also have "\<dots> \<longleftrightarrow> distinct is \<and> list_all (\<lambda>i. unat i < n) is \<and> included = map (\<lambda>k. k \<in> unat ` set is) [0..<256]"
    using True by (intro mark_indices_fresh) simp
  finally show ?thesis using True by blast
next
  case False
  then show ?thesis by (cases "n = 0") (simp_all only: validate_watchtower_challenge_indices_def, auto)
qed

lemma validate_bitmap_ok:
  "validate_watchtower_challenge_indices (u256_to_le_bits u) n is = Inr () \<longleftrightarrow>
   1 \<le> n \<and> n \<le> 256 \<and> distinct is \<and> list_all (\<lambda>i. unat i < n) is \<and> {k. bit u k} = unat ` set is"
proof -
  have "u256_to_le_bits u = map (\<lambda>k. k \<in> unat ` set is) [0..<256] \<longleftrightarrow> {k. bit u k} = unat ` set is"
    if "1 \<le> n" "n \<le> 256" "list_all (\<lambda>i. unat i < n) is"
  proof -
    have "u256_to_le_bits u = map (\<lambda>k. k \<in> unat ` set is) [0..<256] \<longleftrightarrow> (\<forall>k < 256. bit u k \<longleftrightarrow> k \<in> unat ` set is)"
      unfolding u256_to_le_bits_def by (rule map_upt_eq_iff)
    also have "\<dots> \<longleftrightarrow> {k. bit u k} = unat ` set is"
    proof -
      have "k < 256" if "bit u k" for k using bit_imp_le_length [OF that] by simp
      moreover have "k < 256" if "k \<in> unat ` set is" for k
        using that \<open>n \<le> 256\<close> \<open>list_all (\<lambda>i. unat i < n) is\<close> by (auto simp: list_all_iff)
      ultimately show ?thesis by blast
    qed
    finally show ?thesis .
  qed
  then show ?thesis unfolding validate_indices_ok by blast
qed

lemma indices_of_bitmap:
  assumes "validate_watchtower_challenge_indices (u256_to_le_bits u) n is = Inr ()"
  shows "list_all (\<lambda>i. unat i < n) is" "{k. bit u k} = unat ` set is"
  using assms by (simp_all add: validate_bitmap_ok)

section \<open>Commitments and the constant\<close>

lemma char_of_unat_of_char: "char_of (unat (of_char c :: 8 word)) = c"
proof -
  have "unat (of_nat (of_char c) :: 8 word) = of_char c"
    using nat_of_char_less_256 [of c] by (simp add: unsigned_of_nat take_bit_nat_eq_self del: of_nat_of_char)
  then show ?thesis by (simp add: of_nat_of_char)
qed

lemma of_char_char_of_unat: "(of_char (char_of (unat b)) :: 8 word) = b"
proof -
  have eq: "(of_char (char_of (unat b)) :: nat) = unat b"
    using unsigned_less [of b, where ?'a = nat] by simp
  have "(of_char (char_of (unat b)) :: 8 word) = of_nat (of_char (char_of (unat b)))" by (simp only: of_nat_of_char)
  then show ?thesis by (simp only: eq) simp
qed

lemma from_utf8_Some: "from_utf8 bs = Some s \<longleftrightarrow> utf8_valid bs \<and> bs = as_bytes s"
  by (auto simp: from_utf8_def as_bytes_def char_of_unat_of_char of_char_char_of_unat comp_def)

lemma length_as_bytes [simp]: "length (as_bytes s) = length s"
  by (simp add: as_bytes_def)

lemma as_bytes_surj: "\<exists>s. as_bytes s = bs"
  by (rule exI [of _ "map (\<lambda>b. char_of (unat b)) bs"]) (simp add: as_bytes_def of_char_char_of_unat comp_def)

lemma bit_from_le_bytes:
  "bit (from_le_bytes bs :: 'a::len word) k \<longleftrightarrow> k < LENGTH('a) \<and> k < 8 * length bs \<and> bit (bs ! (k div 8)) (k mod 8)"
proof (induction bs arbitrary: k)
  case (Cons b bs)
  have "(from_le_bytes (b # bs) :: 'a word) = push_bit 8 (from_le_bytes bs) OR ucast b" by (simp add: from_le_bytes_def)
  moreover have "k div 8 = Suc ((k - 8) div 8)" "k mod 8 = (k - 8) mod 8" if "\<not> k < 8"
    using that by (simp_all add: le_div_geq le_mod_geq)
  moreover have "\<not> bit b k" if "\<not> k < 8" using that bit_imp_le_length [of b k] by auto
  ultimately show ?case
    by (cases "k < 8") (auto simp: bit_or_iff bit_push_bit_iff bit_ucast_iff Cons.IH simp del: One_nat_def)
qed (simp add: from_le_bytes_def)

lemma to_from_le_bytes:
  assumes "LENGTH('a::len) = 8 * n" "length bs = n"
  shows "to_le_bytes n (from_le_bytes bs :: 'a word) = bs"
proof (rule nth_equalityI)
  fix i assume "i < length (to_le_bytes n (from_le_bytes bs :: 'a word))"
  then have i: "i < n" by simp
  have "bit (word_byte (from_le_bytes bs :: 'a word) i) k \<longleftrightarrow> bit (bs ! i) k" for k
    using assms i bit_imp_le_length [of "bs ! i" k] by (auto simp: bit_word_byte bit_from_le_bytes)
  then have "word_byte (from_le_bytes bs :: 'a word) i = bs ! i" by (intro bit_word_eqI) simp
  then show "to_le_bytes n (from_le_bytes bs :: 'a word) ! i = bs ! i" using i by (simp add: to_le_bytes_def)
qed (use assms in simp)

text \<open>The parser with the offsets computed.\<close>

lemma parse_commitment_alt:
  "parse_watchtower_commitment bs =
     (let v = drop 378 bs; n = unat (from_le_bytes (take 4 v) :: 32 word) in
      if length bs < 382 then Inl (TooShort (length bs))
      else if n = 0 then Inl EmptyVersion
      else if length bs \<noteq> 382 + n then Inl (WrongLength (length bs) (382 + n))
      else case from_utf8 (take n (drop 4 v)) of
        None \<Rightarrow> Inl VersionNotUtf8
      | Some version \<Rightarrow>
          Inr \<lparr> wc_graph_id = take 16 bs, wc_proof = take 260 (drop 16 bs), wc_public_values = take 36 (drop 276 bs),
                wc_vk_hash = take 66 (drop 312 bs), wc_total_work = take 32 (take 36 (drop 276 bs)),
                wc_consensus_block_height = take 4 (drop 32 (take 36 (drop 276 bs))), wc_zkm_version = version \<rparr>)"
  by (simp only: parse_watchtower_commitment_def commitment_sizes Let_def drop_drop arith_simps)


text \<open>What the parser accepts is exactly what the builder builds.\<close>

lemma parse_commitment_Inr:
  "parse_watchtower_commitment bs = Inr c \<longleftrightarrow>
   (\<exists>vk. as_bytes vk = wc_vk_hash c \<and>
     build_watchtower_commitment (wc_graph_id c) (wc_proof c) (wc_public_values c) vk (wc_zkm_version c) = Some bs) \<and>
   length (wc_graph_id c) = GRAPH_ID_SIZE \<and> length (wc_proof c) = PROOF_SIZE \<and>
   length (wc_public_values c) = PUBLIC_INPUTS_SIZE \<and> wc_zkm_version c \<noteq> [] \<and>
   length (wc_zkm_version c) < 2 ^ 32 \<and> utf8_valid (as_bytes (wc_zkm_version c)) \<and>
   wc_total_work c = take TOTAL_WORK_SIZE (wc_public_values c) \<and>
   wc_consensus_block_height c = drop TOTAL_WORK_SIZE (wc_public_values c)"
  (is "?parse \<longleftrightarrow> ?built")
proof
  assume ?parse
  define v where "v = drop 378 bs"
  define n where "n = (from_le_bytes (take 4 v) :: 32 word)"
  from \<open>?parse\<close> have len: "382 \<le> length bs" "n \<noteq> 0" "length bs = 382 + unat n"
    and c: "wc_graph_id c = take 16 bs" "wc_proof c = take 260 (drop 16 bs)" "wc_public_values c = take 36 (drop 276 bs)"
      "wc_vk_hash c = take 66 (drop 312 bs)" "wc_total_work c = take 32 (wc_public_values c)"
      "wc_consensus_block_height c = take 4 (drop 32 (wc_public_values c))"
      "from_utf8 (take (unat n) (drop 4 v)) = Some (wc_zkm_version c)"
    by (simp_all add: parse_commitment_alt Let_def flip: v_def n_def split: if_splits option.splits) auto
  have version: "drop 4 v = as_bytes (wc_zkm_version c)" "utf8_valid (as_bytes (wc_zkm_version c))"
    using c(7) len by (auto simp: from_utf8_Some v_def)
  have n: "length (wc_zkm_version c) = unat n"
    using arg_cong [OF version(1), of length] len by (simp add: v_def)
  have "take 4 v = to_le_bytes 4 n" unfolding n_def using len by (simp add: to_from_le_bytes v_def)
  then have v: "v = to_le_bytes 4 n @ as_bytes (wc_zkm_version c)" using append_take_drop_id [of 4 v] version(1) by simp
  have "bs = wc_graph_id c @ wc_proof c @ wc_public_values c @ wc_vk_hash c @ v"
    unfolding c v_def using append_take_drop_id [of 16 bs] append_take_drop_id [of 260 "drop 16 bs"]
      append_take_drop_id [of 36 "drop 276 bs"] append_take_drop_id [of 66 "drop 312 bs"] by simp
  moreover obtain vk where "as_bytes vk = wc_vk_hash c" using as_bytes_surj by blast
  moreover have "length (wc_vk_hash c) = 66" using len by (simp add: c)
  ultimately have "\<exists>vk. as_bytes vk = wc_vk_hash c \<and>
      build_watchtower_commitment (wc_graph_id c) (wc_proof c) (wc_public_values c) vk (wc_zkm_version c) = Some bs"
    using n v length_as_bytes [of vk]
    by (intro exI [of _ vk]) (simp add: build_watchtower_commitment_def commitment_sizes assert_that_def)
  with c len n version(2) unsigned_less [of n, where ?'a = nat] show ?built
    by (auto simp: commitment_sizes unat_eq_zero)
next
  assume ?built
  then have "length (wc_vk_hash c) = 66"
    and bs: "bs = wc_graph_id c @ wc_proof c @ wc_public_values c @ wc_vk_hash c @
      to_le_bytes 4 (of_nat (length (wc_zkm_version c)) :: 32 word) @ as_bytes (wc_zkm_version c)"
    by (auto simp: build_watchtower_commitment_def commitment_sizes simp flip: length_as_bytes)
  moreover have sizes: "length (wc_graph_id c) = 16" "length (wc_proof c) = 260" "length (wc_public_values c) = 36"
    "wc_zkm_version c \<noteq> []" "length (wc_zkm_version c) < 2 ^ 32" "utf8_valid (as_bytes (wc_zkm_version c))"
    "wc_total_work c = take 32 (wc_public_values c)" "wc_consensus_block_height c = drop 32 (wc_public_values c)"
    using \<open>?built\<close> by (simp_all add: commitment_sizes)
  ultimately have parts: "take 16 bs = wc_graph_id c" "take 260 (drop 16 bs) = wc_proof c"
      "take 36 (drop 276 bs) = wc_public_values c" "take 66 (drop 312 bs) = wc_vk_hash c"
      "drop 378 bs = to_le_bytes 4 (of_nat (length (wc_zkm_version c)) :: 32 word) @ as_bytes (wc_zkm_version c)"
    by simp_all
  have "unat (of_nat (length (wc_zkm_version c)) :: 32 word) = length (wc_zkm_version c)"
    using unat_of_nat_32 [OF sizes(5)] .
  moreover have "from_utf8 (as_bytes (wc_zkm_version c)) = Some (wc_zkm_version c)"
    using sizes(6) by (simp add: from_utf8_Some)
  ultimately show ?parse
    unfolding parse_commitment_alt parts using sizes \<open>length (wc_vk_hash c) = 66\<close> bs
    by (simp add: Let_def from_to_le_bytes)
qed




text \<open>The string hashed for the constant determines the inputs, even where the count of the keys is truncated.\<close>

lemma concat_array_bytes_inj: "concat (map array_bytes ks) = concat (map array_bytes ks') \<Longrightarrow> ks = ks'"
proof (induction ks arbitrary: ks')
  case Nil
  then show ?case by (cases ks') (auto dest: arg_cong [of _ _ length])
next
  case (Cons k ks)
  then show ?case by (cases ks') (auto dest: arg_cong [of _ _ length])
qed

lemma constant_preimage_inj:
  "constant_preimage g t i ks = constant_preimage g' t' i' ks' \<longleftrightarrow> g = g' \<and> t = t' \<and> i = i' \<and> ks = ks'"
  using concat_array_bytes_inj [of ks ks'] by (auto simp: constant_preimage_def to_be_bytes_inj)

section \<open>Properties\<close>


text \<open>
  \<^bold>\<open>C30.\<close> The bitmap of included watchtowers and the indexed challenges describe the same set. Validation succeeds
  exactly when the graph has 1 to 256 watchtowers, no index occurs twice, every index is below the number
  of watchtowers, and the bits of the 256-bit bitmap that are set are exactly the indices; and the conversions between the
  bitmap and its list of bits are inverse to each other.
\<close>

theorem challenge_bitmap_exact:
  "(validate_watchtower_challenge_indices (u256_to_le_bits u) n is = Inr () \<longleftrightarrow>
      1 \<le> n \<and> n \<le> 256 \<and> distinct is \<and> list_all (\<lambda>i. unat i < n) is \<and> {k. bit u k} = unat ` set is) \<and>
   le_bits_to_u256 (u256_to_le_bits u) = u \<and>
   (length bs = 256 \<longleftrightarrow> u256_to_le_bits (le_bits_to_u256 bs) = bs)"
proof (intro conjI)
  show "validate_watchtower_challenge_indices (u256_to_le_bits u) n is = Inr () \<longleftrightarrow>
      1 \<le> n \<and> n \<le> 256 \<and> distinct is \<and> list_all (\<lambda>i. unat i < n) is \<and> {k. bit u k} = unat ` set is"
    by (rule validate_bitmap_ok)
  show "le_bits_to_u256 (u256_to_le_bits u) = u"
    by (rule bit_word_eqI) (simp add: bit_le_bits_to_u256)
  show "length bs = 256 \<longleftrightarrow> u256_to_le_bits (le_bits_to_u256 bs) = bs"
  proof
    assume "length bs = 256"
    then show "u256_to_le_bits (le_bits_to_u256 bs) = bs" by (intro nth_equalityI) (simp_all add: bit_le_bits_to_u256)
  next
    assume "u256_to_le_bits (le_bits_to_u256 bs) = bs"
    then show "length bs = 256" using length_u256_to_le_bits [of "le_bits_to_u256 bs"] by simp
  qed
qed

end
