(* ===== verification/LightClient.thy ===== *)
theory LightClient
  imports Watchtowers
begin

text \<open>
  The Bitcoin light client (\<^verbatim>\<open>src/circuits/crates/bitcoin-light-client-circuit/src/lib.rs\<close>, \<^verbatim>\<open>signature.rs\<close> and
  \<^verbatim>\<open>utils.rs\<close>): the watchtower circuit, which reports the work of the longest chain it knows, the operator circuit, which
  proves a withdrawal on a chain at least as heavy as that of every watchtower that challenged it, the
  commitments that watchtowers publish, and the transactions of the sequencer set.

  The parameter \<^verbatim>\<open>light_env\<close> collects the environments of the three chains and what the code calls of the
  \<^verbatim>\<open>bitcoin\<close> crate for Taproot signatures. \<^verbatim>\<open>le_read_header\<close> and \<^verbatim>\<open>le_read_state\<close> are \<^verbatim>\<open>ZKMPublicValues::read\<close>. A
  panic is \<^verbatim>\<open>None\<close>.

  The lemmas show what acceptance means: which programs, chains and transactions an accepted proof is about.
\<close>

section \<open>Third-party code\<close>

record light_env =
  le_header :: header_env
  le_bitcoin :: bitcoin_env
  le_state :: state_env
  le_consensus :: consensus
  le_read_header :: "bytes \<Rightarrow> header_chain_output option"
  le_read_state :: "bytes \<Rightarrow> state_chain_output option"
  le_decode_commit :: "bytes \<Rightarrow> commit_chain_output option"
  le_taproot_signature :: "bytes \<Rightarrow> (bytes \<times> 8 word) option"
  le_xonly_from_slice :: "bytes \<Rightarrow> bytes option"
  le_verify_taproot_commitment :: "bytes \<Rightarrow> (bytes \<Rightarrow> bytes \<Rightarrow> bool) option"
  le_taproot_sighash :: "transaction \<Rightarrow> nat \<Rightarrow> txout \<Rightarrow> bytes \<Rightarrow> hash32 option"
  le_verify_schnorr :: "bytes \<Rightarrow> hash32 \<Rightarrow> bytes \<Rightarrow> bool"
  le_push_x_only_key :: "bytes \<Rightarrow> bytes \<Rightarrow> bytes"

abbreviation le_sha256 :: "light_env \<Rightarrow> bytes \<Rightarrow> hash32" where
  "le_sha256 E \<equiv> env_sha256 (le_header E)"

abbreviation le_zkm :: "light_env \<Rightarrow> zkm_verifier" where
  "le_zkm E \<equiv> env_zkm (le_header E)"

definition OP_CHECKSIG :: "8 word" where
  "OP_CHECKSIG = 0xac"

text \<open>\<^verbatim>\<open>TapSighashType::AllPlusAnyoneCanPay\<close>\<close>

definition ALL_ANYONE_CAN_PAY :: "8 word" where
  "ALL_ANYONE_CAN_PAY = 0x81"

section \<open>Constants\<close>

definition ROOT_COMMIT_PROGRAM_ID :: program_id where
  "ROOT_COMMIT_PROGRAM_ID = 0x4dc626c63149074f261a81b2719491482d112e2564e1f68b948237f679a1f3fc"

section \<open>Authorisation\<close>

definition check_program_id :: "program_id \<Rightarrow> program_id \<Rightarrow> program_id \<Rightarrow> unit option" where
  "check_program_id actual_program_id output_program_id authorized_program_id =
     do { assert_that (actual_program_id = authorized_program_id);
          assert_that (output_program_id = actual_program_id) }"

definition checked_history_root ::
  "(bytes \<Rightarrow> hash32) \<Rightarrow> ProgramType \<Rightarrow> program_id \<Rightarrow> program_id \<Rightarrow> program_id \<Rightarrow> hash32 \<Rightarrow> hash32 option" where
  "checked_history_root sha256 t actual_program_id output_program_id authorized_program_id history =
     do { check_program_id actual_program_id output_program_id authorized_program_id;
          Some (finalize_history sha256 t history actual_program_id) }"

definition verify_commitment_authorization ::
  "(bytes \<Rightarrow> hash32) \<Rightarrow> bitcoin_env \<Rightarrow> commit_chain_output \<Rightarrow> header_chain_output \<Rightarrow> state_chain_output \<Rightarrow>
   program_id \<Rightarrow> program_id \<Rightarrow> program_id \<Rightarrow> program_id \<Rightarrow> hash32 \<Rightarrow> authorized_program_ids option" where
  "verify_commitment_authorization sha256 e commit_out header_out state_out
     header_program_id state_program_id commit_program_id root_commit_program_id sequencer_set_hash =
     do { assert_that (commit_program_id = root_commit_program_id);
          let authorized = cs_authorized_program_ids (cco_chain_state commit_out);
          assert_that (validate_program_ids authorized);
          check_program_id commit_program_id (cco_self_program_id commit_out) (ap_commit authorized);
          header_root \<leftarrow> checked_history_root sha256 Header header_program_id (hco_self_program_id header_out)
            (ap_header authorized) (hco_program_history_hash header_out);
          state_root \<leftarrow> checked_history_root sha256 State state_program_id (sco_self_program_id state_out)
            (ap_state authorized) (sco_program_history_hash state_out);
          let history_root = program_history_root sha256 header_root state_root;
          let checkpoint_root = proof_checkpoint_root sha256 (hco_upgrade_checkpoint_hash header_out)
                (sco_upgrade_checkpoint_hash state_out);
          assert_that (checkpoint_root = cs_proof_checkpoint_root (cco_chain_state commit_out));
          (case extract_commit_chain_commitment e (tx_output (cs_commit_txn (cco_chain_state commit_out))) of
             Inl _ \<Rightarrow> None
           | Inr commitment \<Rightarrow>
               do { digest \<leftarrow> commit_chain_commitment_digest sha256 sequencer_set_hash
                      (ss_genesis_evm_block_hash (sco_chain_state state_out)) history_root checkpoint_root authorized;
                    assert_that (commitment = digest);
                    Some authorized }) }"

section \<open>The watchtower circuit\<close>

definition groth16 :: "light_env \<Rightarrow> bytes \<Rightarrow> bytes \<Rightarrow> bytes \<Rightarrow> string \<Rightarrow> program_id option" where
  "groth16 E prf public_values vk_hash version =
     (case verify_groth16_proof (le_sha256 E) (le_zkm E) prf public_values vk_hash version of
        Inl _ \<Rightarrow> None
      | Inr pid \<Rightarrow> Some pid)"

definition watch_longest_chain ::
  "light_env \<Rightarrow> hash32 \<Rightarrow> header_chain_input \<Rightarrow> commit_chain_input \<Rightarrow> state_chain_input \<Rightarrow> spv \<Rightarrow> (hash32 \<times> 32 word) option" where
  "watch_longest_chain E genesis_sequencer_commit_txid header commit st sp =
     do { commit_program_id \<leftarrow> groth16 E (cci_zkm_proof commit) (cci_zkm_public_values commit) (cci_zkm_vk_hash commit)
            (cci_zkm_version commit);
          commit_out \<leftarrow> le_decode_commit E (cci_zkm_public_values commit);
          assert_that (be_compute_txid (le_bitcoin E) (cs_commit_txn (cco_chain_state commit_out)) =
            be_compute_txid (le_bitcoin E) (spv_transaction sp));
          assert_that (genesis_sequencer_commit_txid = cs_genesis_txid (cco_chain_state commit_out));
          header_program_id \<leftarrow> groth16 E (hci_zkm_proof header) (hci_zkm_public_values header) (hci_zkm_vk_hash header)
            (hci_zkm_version header);
          header_out \<leftarrow> le_read_header E (hci_zkm_public_values header);
          assert_that (mmr_size (block_hashes_mmr (hco_chain_state header_out)) = block_height (hco_chain_state header_out) + 1);
          commitment_block_height \<leftarrow> spv_verify (le_sha256 E) (le_consensus E) sp (block_hashes_mmr (hco_chain_state header_out));
          state_program_id \<leftarrow> groth16 E (sci_zkm_proof st) (sci_zkm_public_values st) (sci_zkm_vk_hash st) (sci_zkm_version st);
          state_out \<leftarrow> le_read_state E (sci_zkm_public_values st);
          cosmos_block \<leftarrow> st_light_block (le_state E) (ss_latest_cosmos_block (sco_chain_state state_out));
          verify_sequencer_commit (le_state E) cosmos_block;
          commit_sequencer_set_hash \<leftarrow> be_sequencer_hash (le_bitcoin E) (cs_sequencers (cco_chain_state commit_out));
          assert_that (commit_sequencer_set_hash = lb_validators_hash cosmos_block);
          (case lb_validators_hash cosmos_block of
             TmNone \<Rightarrow> None
           | TmSha256 sequencer_set_hash \<Rightarrow>
               do { verify_commitment_authorization (le_sha256 E) (le_bitcoin E) commit_out header_out state_out
                      header_program_id state_program_id commit_program_id ROOT_COMMIT_PROGRAM_ID sequencer_set_hash;
                    Some (total_work (hco_chain_state header_out), commitment_block_height) }) }"

definition checked_challenge_init_transaction ::
  "bitcoin_env \<Rightarrow> hash32 \<Rightarrow> transaction option \<Rightarrow> bool \<Rightarrow> transaction option option" where
  "checked_challenge_init_transaction e expected_txid tx challenges_present =
     do { (case tx of None \<Rightarrow> Some () | Some t \<Rightarrow> assert_that (be_compute_txid e t = expected_txid));
          assert_that (\<not> challenges_present \<or> tx \<noteq> None);
          Some tx }"

section \<open>Taproot signatures\<close>

datatype taproot_error =
    InvalidInputIndex | MissingSignature | InvalidSignature | InvalidSigType | InvalidWitness | ScriptMismatch
  | InvalidControlBlock | NotP2tr | InvalidOutputKey | CommitmentMismatch | InvalidSighash | BadSchnorr

definition verify_taproot_leaf_schnorr_signature ::
  "light_env \<Rightarrow> bytes \<Rightarrow> transaction \<Rightarrow> nat \<Rightarrow> txout \<Rightarrow> bytes \<Rightarrow> taproot_error + unit" where
  "verify_taproot_leaf_schnorr_signature E script tx input_index prev_out pubkey =
     (if length (tx_input tx) \<le> input_index then Inl InvalidInputIndex
      else
        let wtns = tx_witness (tx_input tx ! input_index)
        in case wtns of
          [] \<Rightarrow> Inl MissingSignature
        | raw # _ \<Rightarrow>
            (case le_taproot_signature E raw of
               None \<Rightarrow> Inl InvalidSignature
             | Some (sg, sighash_type) \<Rightarrow>
                 if sighash_type \<noteq> ALL_ANYONE_CAN_PAY then Inl InvalidSigType
                 else if length wtns < 3 then Inl InvalidWitness
                 else if wtns ! (length wtns - 2) \<noteq> script then Inl ScriptMismatch
                 else case le_verify_taproot_commitment E (wtns ! (length wtns - 1)) of
                   None \<Rightarrow> Inl InvalidControlBlock
                 | Some commits \<Rightarrow>
                     let spk = script_pubkey prev_out
                     in if length spk \<noteq> 34 \<or> spk ! 0 \<noteq> 0x51 \<or> spk ! 1 \<noteq> 0x20 then Inl NotP2tr
                        else case le_xonly_from_slice E (drop 2 spk) of
                          None \<Rightarrow> Inl InvalidOutputKey
                        | Some output_key \<Rightarrow>
                            if \<not> commits output_key script then Inl CommitmentMismatch
                            else case le_taproot_sighash E tx input_index prev_out script of
                              None \<Rightarrow> Inl InvalidSighash
                            | Some sighash \<Rightarrow> if le_verify_schnorr E sg sighash pubkey then Inr () else Inl BadSchnorr))"

section \<open>The operator circuit\<close>

record operator_public_outputs =
  oo_btc_best_block_hash :: hash32
  oo_constant :: hash32
  oo_included_watchtowers :: hash32

text \<open>\<open>deserialize\<close> is the \<^verbatim>\<open>bincode\<close> decoder of the outputs.\<close>

datatype outputs_error = WrongOutputsSize nat | UndecodableOutputs

definition decode_operator_public_outputs ::
  "(bytes \<Rightarrow> operator_public_outputs option) \<Rightarrow> bytes \<Rightarrow> outputs_error + operator_public_outputs" where
  "decode_operator_public_outputs deserialize public_values =
     (if length public_values \<noteq> 96 then Inl (WrongOutputsSize (length public_values))
      else case deserialize public_values of None \<Rightarrow> Inl UndecodableOutputs | Some out \<Rightarrow> Inr out)"

record indexed_watchtower_challenge =
  iw_node_index :: "16 word"
  iw_spv :: spv

text \<open>
  What the circuit does with the commitment of a challenge whose signature is valid: a commitment that is
  not a valid proof of the authorised watchtower program for this graph is skipped.
\<close>

definition check_watchtower_work ::
  "light_env \<Rightarrow> graph_id \<Rightarrow> program_id \<Rightarrow> hash32 \<Rightarrow> 32 word \<Rightarrow> transaction \<Rightarrow> unit option" where
  "check_watchtower_work E graph watchtower_program_id operator_total_work operator_height tx =
     (case extract_data_from_commitment_outputs (le_bitcoin E) (tx_output tx) of
        Inl _ \<Rightarrow> Some ()
      | Inr commitment \<Rightarrow>
          (case parse_watchtower_commitment commitment of
             Inl _ \<Rightarrow> Some ()
           | Inr c \<Rightarrow>
               (case groth16 E (wc_proof c) (wc_public_values c) (wc_vk_hash c) (wc_zkm_version c) of
                  None \<Rightarrow> Some ()
                | Some pid \<Rightarrow>
                    if pid \<noteq> watchtower_program_id \<or> wc_graph_id c \<noteq> to_be_bytes 16 graph then Some ()
                    else
                      do { assert_that ((from_be_bytes (wc_total_work c) :: 256 word) \<le> operator_total_work);
                           assert_that ((from_le_bytes (wc_consensus_block_height c) :: 32 word) \<le> operator_height) })))"

definition check_watchtower_challenge ::
  "light_env \<Rightarrow> graph_id \<Rightarrow> hash32 \<Rightarrow> transaction option \<Rightarrow> hash32 list \<Rightarrow> chain_state \<Rightarrow> program_id \<Rightarrow> 32 word \<Rightarrow>
   indexed_watchtower_challenge \<Rightarrow> unit option" where
  "check_watchtower_challenge E graph init_txid init_txn keys s watchtower_program_id operator_height challenge =
     do { let i = unat (iw_node_index challenge);
          challenge_height \<leftarrow> spv_verify (le_sha256 E) (le_consensus E) (iw_spv challenge) (block_hashes_mmr s);
          assert_that (challenge_height \<le> block_height s);
          let tx = spv_transaction (iw_spv challenge);
          assert_that (tx_input tx \<noteq> []);
          let input = tx_input tx ! 0;
          let expected_vout = ucast (iw_node_index challenge) * 2;
          assert_that (op_txid (previous_output input) = init_txid);
          assert_that (op_vout (previous_output input) = expected_vout);
          init \<leftarrow> init_txn;
          assert_that (unat expected_vout < length (tx_output init));
          let prev_out = tx_output init ! unat expected_vout;
          assert_that (i < length keys);
          xonly \<leftarrow> le_xonly_from_slice E (array_bytes (keys ! i));
          let script = be_push_opcode (le_bitcoin E) (le_push_x_only_key E [] xonly) OP_CHECKSIG;
          assert_that (verify_taproot_leaf_schnorr_signature E script tx 0 prev_out xonly = Inr ());
          check_watchtower_work E graph watchtower_program_id (total_work s) operator_height tx }"

primrec check_watchtower_challenges ::
  "light_env \<Rightarrow> graph_id \<Rightarrow> hash32 \<Rightarrow> transaction option \<Rightarrow> hash32 list \<Rightarrow> chain_state \<Rightarrow> program_id \<Rightarrow> 32 word \<Rightarrow>
   indexed_watchtower_challenge list \<Rightarrow> unit option" where
  "check_watchtower_challenges E graph init_txid init_txn keys s watchtower_program_id operator_height [] = Some ()"
| "check_watchtower_challenges E graph init_txid init_txn keys s watchtower_program_id operator_height (c # cs) =
     do { check_watchtower_challenge E graph init_txid init_txn keys s watchtower_program_id operator_height c;
          check_watchtower_challenges E graph init_txid init_txn keys s watchtower_program_id operator_height cs }"

record operator_input =
  oi_included_watchtowers :: "256 word"
  oi_graph_id :: graph_id
  oi_genesis_sequencer_commit_txid :: hash32
  oi_watchtower_challenge_init_txid :: hash32
  oi_watchtower_challenge_init_txn :: "transaction option"
  oi_watchtower_challenges :: "indexed_watchtower_challenge list"
  oi_watchtower_keys :: "hash32 list"
  oi_header_chain :: header_chain_input
  oi_commit_chain :: commit_chain_input
  oi_state_chain :: state_chain_input
  oi_spv_ss_commit :: spv
  oi_committed_blockhash :: hash32

definition propose_longest_chain :: "light_env \<Rightarrow> operator_input \<Rightarrow> (hash32 \<times> hash32 \<times> bytes) option" where
  "propose_longest_chain E inp =
     (let commit = oi_commit_chain inp; header = oi_header_chain inp; st = oi_state_chain inp; sp = oi_spv_ss_commit inp in
      do { commit_program_id \<leftarrow> groth16 E (cci_zkm_proof commit) (cci_zkm_public_values commit) (cci_zkm_vk_hash commit)
             (cci_zkm_version commit);
           commit_out \<leftarrow> le_decode_commit E (cci_zkm_public_values commit);
           assert_that (be_compute_txid (le_bitcoin E) (cs_commit_txn (cco_chain_state commit_out)) =
             be_compute_txid (le_bitcoin E) (spv_transaction sp));
           assert_that (oi_genesis_sequencer_commit_txid inp = cs_genesis_txid (cco_chain_state commit_out));
           header_program_id \<leftarrow> groth16 E (hci_zkm_proof header) (hci_zkm_public_values header) (hci_zkm_vk_hash header)
             (hci_zkm_version header);
           header_out \<leftarrow> le_read_header E (hci_zkm_public_values header);
           let s = hco_chain_state header_out;
           assert_that (mmr_size (block_hashes_mmr s) = block_height s + 1);
           operator_consensus_block_height \<leftarrow> spv_verify (le_sha256 E) (le_consensus E) sp (block_hashes_mmr s);
           state_program_id \<leftarrow> groth16 E (sci_zkm_proof st) (sci_zkm_public_values st) (sci_zkm_vk_hash st) (sci_zkm_version st);
           state_out \<leftarrow> le_read_state E (sci_zkm_public_values st);
           cosmos_block \<leftarrow> st_light_block (le_state E) (ss_latest_cosmos_block (sco_chain_state state_out));
           verify_sequencer_commit (le_state E) cosmos_block;
           commit_sequencer_set_hash \<leftarrow> be_sequencer_hash (le_bitcoin E) (cs_sequencers (cco_chain_state commit_out));
           authorized \<leftarrow>
             (case lb_validators_hash cosmos_block of
                TmNone \<Rightarrow> None
              | TmSha256 sequencer_set_hash \<Rightarrow>
                  verify_commitment_authorization (le_sha256 E) (le_bitcoin E) commit_out header_out state_out
                    header_program_id state_program_id commit_program_id ROOT_COMMIT_PROGRAM_ID sequencer_set_hash);
           assert_that (commit_sequencer_set_hash = lb_validators_hash cosmos_block);
           assert_that (validate_watchtower_challenge_indices (u256_to_le_bits (oi_included_watchtowers inp))
             (length (oi_watchtower_keys inp)) (map iw_node_index (oi_watchtower_challenges inp)) = Inr ());
           init_txn \<leftarrow> checked_challenge_init_transaction (le_bitcoin E) (oi_watchtower_challenge_init_txid inp)
             (oi_watchtower_challenge_init_txn inp) (oi_watchtower_challenges inp \<noteq> []);
           check_watchtower_challenges E (oi_graph_id inp) (oi_watchtower_challenge_init_txid inp) init_txn
             (oi_watchtower_keys inp) s (ap_watchtower authorized) operator_consensus_block_height
             (oi_watchtower_challenges inp);
           assert_that (list_ex (\<lambda>(_, _, graph_ids). oi_graph_id inp \<in> set graph_ids) (ss_withdrawals (sco_chain_state state_out)));
           let constant = hash_operator_constant (le_sha256 E) (oi_graph_id inp) (oi_genesis_sequencer_commit_txid inp)
                 (oi_watchtower_challenge_init_txid inp) (oi_watchtower_keys inp);
           assert_that (oi_committed_blockhash inp = best_block_hash s);
           Some (oi_committed_blockhash inp, constant, to_le_bytes 32 (oi_included_watchtowers inp)) })"

section \<open>What acceptance means\<close>

text \<open>The checks that both circuits make, with the decoded outputs and the identities of the verified programs.\<close>

definition chains_accepted ::
  "light_env \<Rightarrow> hash32 \<Rightarrow> header_chain_input \<Rightarrow> commit_chain_input \<Rightarrow> state_chain_input \<Rightarrow> spv \<Rightarrow>
   header_chain_output \<Rightarrow> commit_chain_output \<Rightarrow> state_chain_output \<Rightarrow> hash32 \<Rightarrow> 32 word \<Rightarrow> authorized_program_ids \<Rightarrow> bool" where
  "chains_accepted E g header commit st sp hout cout sout seqs height authorized \<longleftrightarrow>
     groth16 E (cci_zkm_proof commit) (cci_zkm_public_values commit) (cci_zkm_vk_hash commit) (cci_zkm_version commit) =
       Some ROOT_COMMIT_PROGRAM_ID \<and>
     groth16 E (hci_zkm_proof header) (hci_zkm_public_values header) (hci_zkm_vk_hash header) (hci_zkm_version header) =
       Some (hco_self_program_id hout) \<and>
     groth16 E (sci_zkm_proof st) (sci_zkm_public_values st) (sci_zkm_vk_hash st) (sci_zkm_version st) =
       Some (sco_self_program_id sout) \<and>
     le_decode_commit E (cci_zkm_public_values commit) = Some cout \<and>
     le_read_header E (hci_zkm_public_values header) = Some hout \<and>
     le_read_state E (sci_zkm_public_values st) = Some sout \<and>
     be_compute_txid (le_bitcoin E) (cs_commit_txn (cco_chain_state cout)) =
       be_compute_txid (le_bitcoin E) (spv_transaction sp) \<and>
     g = cs_genesis_txid (cco_chain_state cout) \<and>
     spv_verify (le_sha256 E) (le_consensus E) sp (block_hashes_mmr (hco_chain_state hout)) = Some height \<and>
     verify_commitment_authorization (le_sha256 E) (le_bitcoin E) cout hout sout (hco_self_program_id hout)
       (sco_self_program_id sout) ROOT_COMMIT_PROGRAM_ID ROOT_COMMIT_PROGRAM_ID seqs = Some authorized \<and>
     be_sequencer_hash (le_bitcoin E) (cs_sequencers (cco_chain_state cout)) = Some (TmSha256 seqs)"

lemma authorization_Some:
  assumes "verify_commitment_authorization sha256 e cout hout sout hp sp cp anchor seqs = Some authorized"
  shows "cp = anchor" "hp = hco_self_program_id hout" "sp = sco_self_program_id sout"
    "authorized = cs_authorized_program_ids (cco_chain_state cout)"
    "\<exists>d. extract_commit_chain_commitment e (tx_output (cs_commit_txn (cco_chain_state cout))) = Inr d \<and>
       d = sha256 (commitment_preimage seqs (ss_genesis_evm_block_hash (sco_chain_state sout))
         (program_history_root sha256
           (finalize_history sha256 Header (hco_program_history_hash hout) (hco_self_program_id hout))
           (finalize_history sha256 State (sco_program_history_hash sout) (sco_self_program_id sout)))
         (cs_proof_checkpoint_root (cco_chain_state cout)) authorized)"
  using assms
  by (auto simp: verify_commitment_authorization_def checked_history_root_def check_program_id_def Let_def bind_eq_Some_conv
    commitment_digest_Some split: sum.splits)

lemma groth16_Some:
  "groth16 E prf pv vk version = Some pid \<longleftrightarrow>
   verify_groth16_proof (le_sha256 E) (le_zkm E) prf pv vk version = Inr pid"
  by (simp add: groth16_def split: sum.splits)

lemma sha256_case_Some:
  "(case h of TmSha256 x \<Rightarrow> f x | TmNone \<Rightarrow> None) = Some y \<longleftrightarrow> (\<exists>x. h = TmSha256 x \<and> f x = Some y)"
  by (cases h) auto

lemma watch_accepts:
  assumes "watch_longest_chain E g header commit st sp = Some (work, height)"
  shows "\<exists>hout cout sout seqs authorized.
    chains_accepted E g header commit st sp hout cout sout seqs height authorized \<and> work = total_work (hco_chain_state hout)"
proof -
  from assms obtain cp cout hp hout sp' sout lb seqs authorized where
    "groth16 E (cci_zkm_proof commit) (cci_zkm_public_values commit) (cci_zkm_vk_hash commit) (cci_zkm_version commit) = Some cp"
    "le_decode_commit E (cci_zkm_public_values commit) = Some cout"
    "be_compute_txid (le_bitcoin E) (cs_commit_txn (cco_chain_state cout)) = be_compute_txid (le_bitcoin E) (spv_transaction sp)"
    "g = cs_genesis_txid (cco_chain_state cout)"
    "groth16 E (hci_zkm_proof header) (hci_zkm_public_values header) (hci_zkm_vk_hash header) (hci_zkm_version header) = Some hp"
    "le_read_header E (hci_zkm_public_values header) = Some hout"
    "spv_verify (le_sha256 E) (le_consensus E) sp (block_hashes_mmr (hco_chain_state hout)) = Some height"
    "groth16 E (sci_zkm_proof st) (sci_zkm_public_values st) (sci_zkm_vk_hash st) (sci_zkm_version st) = Some sp'"
    "le_read_state E (sci_zkm_public_values st) = Some sout"
    "be_sequencer_hash (le_bitcoin E) (cs_sequencers (cco_chain_state cout)) = Some (TmSha256 seqs)"
    "work = total_work (hco_chain_state hout)"
    and auth: "verify_commitment_authorization (le_sha256 E) (le_bitcoin E) cout hout sout hp sp' cp ROOT_COMMIT_PROGRAM_ID seqs =
      Some authorized"
    by (auto simp: watch_longest_chain_def bind_eq_Some_conv sha256_case_Some)
  with authorization_Some(1,2,3) [OF auth] show ?thesis unfolding chains_accepted_def by blast
qed

text \<open>What the operator's circuit checks besides the chains.\<close>

lemma propose_accepts:
  assumes "propose_longest_chain E inp = Some (blockhash, constant, included)"
  shows "\<exists>hout cout sout seqs height authorized init_txn.
    chains_accepted E (oi_genesis_sequencer_commit_txid inp) (oi_header_chain inp) (oi_commit_chain inp) (oi_state_chain inp)
      (oi_spv_ss_commit inp) hout cout sout seqs height authorized \<and>
    validate_watchtower_challenge_indices (u256_to_le_bits (oi_included_watchtowers inp)) (length (oi_watchtower_keys inp))
      (map iw_node_index (oi_watchtower_challenges inp)) = Inr () \<and>
    checked_challenge_init_transaction (le_bitcoin E) (oi_watchtower_challenge_init_txid inp)
      (oi_watchtower_challenge_init_txn inp) (oi_watchtower_challenges inp \<noteq> []) = Some init_txn \<and>
    check_watchtower_challenges E (oi_graph_id inp) (oi_watchtower_challenge_init_txid inp) init_txn (oi_watchtower_keys inp)
      (hco_chain_state hout) (ap_watchtower authorized) height (oi_watchtower_challenges inp) = Some () \<and>
    list_ex (\<lambda>(_, _, graph_ids). oi_graph_id inp \<in> set graph_ids) (ss_withdrawals (sco_chain_state sout)) \<and>
    blockhash = best_block_hash (hco_chain_state hout) \<and>
    constant = hash_operator_constant (le_sha256 E) (oi_graph_id inp) (oi_genesis_sequencer_commit_txid inp)
      (oi_watchtower_challenge_init_txid inp) (oi_watchtower_keys inp) \<and>
    included = to_le_bytes 32 (oi_included_watchtowers inp)"
proof -
  let ?commit = "oi_commit_chain inp" and ?header = "oi_header_chain inp" and ?st = "oi_state_chain inp"
  from assms obtain cp cout hp hout sp' sout lb seqs authorized height init_txn where
    chain: "groth16 E (cci_zkm_proof ?commit) (cci_zkm_public_values ?commit) (cci_zkm_vk_hash ?commit) (cci_zkm_version ?commit) = Some cp"
    "le_decode_commit E (cci_zkm_public_values ?commit) = Some cout"
    "be_compute_txid (le_bitcoin E) (cs_commit_txn (cco_chain_state cout)) =
      be_compute_txid (le_bitcoin E) (spv_transaction (oi_spv_ss_commit inp))"
    "oi_genesis_sequencer_commit_txid inp = cs_genesis_txid (cco_chain_state cout)"
    "groth16 E (hci_zkm_proof ?header) (hci_zkm_public_values ?header) (hci_zkm_vk_hash ?header) (hci_zkm_version ?header) = Some hp"
    "le_read_header E (hci_zkm_public_values ?header) = Some hout"
    "spv_verify (le_sha256 E) (le_consensus E) (oi_spv_ss_commit inp) (block_hashes_mmr (hco_chain_state hout)) = Some height"
    "groth16 E (sci_zkm_proof ?st) (sci_zkm_public_values ?st) (sci_zkm_vk_hash ?st) (sci_zkm_version ?st) = Some sp'"
    "le_read_state E (sci_zkm_public_values ?st) = Some sout"
    "be_sequencer_hash (le_bitcoin E) (cs_sequencers (cco_chain_state cout)) = Some (TmSha256 seqs)"
    and auth: "verify_commitment_authorization (le_sha256 E) (le_bitcoin E) cout hout sout hp sp' cp ROOT_COMMIT_PROGRAM_ID seqs =
      Some authorized"
    and rest: "validate_watchtower_challenge_indices (u256_to_le_bits (oi_included_watchtowers inp)) (length (oi_watchtower_keys inp))
      (map iw_node_index (oi_watchtower_challenges inp)) = Inr ()"
    "checked_challenge_init_transaction (le_bitcoin E) (oi_watchtower_challenge_init_txid inp)
      (oi_watchtower_challenge_init_txn inp) (oi_watchtower_challenges inp \<noteq> []) = Some init_txn"
    "check_watchtower_challenges E (oi_graph_id inp) (oi_watchtower_challenge_init_txid inp) init_txn (oi_watchtower_keys inp)
      (hco_chain_state hout) (ap_watchtower authorized) height (oi_watchtower_challenges inp) = Some ()"
    "list_ex (\<lambda>(_, _, graph_ids). oi_graph_id inp \<in> set graph_ids) (ss_withdrawals (sco_chain_state sout))"
    "blockhash = best_block_hash (hco_chain_state hout)"
    "constant = hash_operator_constant (le_sha256 E) (oi_graph_id inp) (oi_genesis_sequencer_commit_txid inp)
      (oi_watchtower_challenge_init_txid inp) (oi_watchtower_keys inp)"
    "included = to_le_bytes 32 (oi_included_watchtowers inp)"
    unfolding propose_longest_chain_def Let_def
    by (auto simp: bind_eq_Some_conv sha256_case_Some)
  have "chains_accepted E (oi_genesis_sequencer_commit_txid inp) ?header ?commit ?st (oi_spv_ss_commit inp)
      hout cout sout seqs height authorized"
    using chain auth authorization_Some(1,2,3) [OF auth] unfolding chains_accepted_def by blast
  with rest show ?thesis by blast
qed

section \<open>Composition of the chains\<close>

definition root_preimage :: "hash32 \<Rightarrow> hash32 \<Rightarrow> bytes" where
  "root_preimage a b = as_bytes ''bitvm/program-history/v1'' @ array_bytes a @ array_bytes b"

lemma program_history_root_alt: "program_history_root sha256 a b = sha256 (root_preimage a b)"
  by (simp add: program_history_root_def tagged_hash_def root_preimage_def)

lemma root_preimage_inj [simp]: "root_preimage a b = root_preimage c d \<longleftrightarrow> a = c \<and> b = d"
  by (simp add: root_preimage_def)

text \<open>The strings hashed when the authorisation is verified.\<close>

definition authorization_strings ::
  "(bytes \<Rightarrow> hash32) \<Rightarrow> header_chain_output \<Rightarrow> commit_chain_output \<Rightarrow> state_chain_output \<Rightarrow> hash32 \<Rightarrow> bytes set" where
  "authorization_strings sha256 hout cout sout seqs =
     (let final_h = final_preimage Header (hco_program_history_hash hout) (hco_self_program_id hout);
          final_s = final_preimage State (sco_program_history_hash sout) (sco_self_program_id sout);
          rt = root_preimage (sha256 final_h) (sha256 final_s)
      in {final_h, final_s, rt,
          commitment_preimage seqs (ss_genesis_evm_block_hash (sco_chain_state sout)) (sha256 rt)
            (cs_proof_checkpoint_root (cco_chain_state cout)) (cs_authorized_program_ids (cco_chain_state cout))})"

text \<open>
  The Publishers' transaction carries the digest of the history of a list of genuine header programs and
  a list of genuine state programs; \<open>S\<close> contains the strings hashed for it.
\<close>

definition genuine_history :: "(bytes \<Rightarrow> hash32) \<Rightarrow> ProgramType \<Rightarrow> program_id set \<Rightarrow> bytes set \<Rightarrow> hash32 \<Rightarrow> bool" where
  "genuine_history sha256 t G S h \<longleftrightarrow>
     (\<exists>p ps. set (p # ps) \<subseteq> G \<and> distinct_adj (p # ps) \<and> history_strings sha256 t (p # ps) \<subseteq> S \<and>
        final_preimage t (history_of sha256 t (p # ps)) p \<in> S \<and>
        h = finalize_history sha256 t (history_of sha256 t (p # ps)) p)"

definition honest_commitment ::
  "(bytes \<Rightarrow> hash32) \<Rightarrow> bitcoin_env \<Rightarrow> program_id set \<Rightarrow> program_id set \<Rightarrow> bytes set \<Rightarrow> transaction \<Rightarrow> bool" where
  "honest_commitment sha256 e Gh Gs S tx \<longleftrightarrow>
     (\<exists>hh hs seqs genesis checkpoint ids.
        genuine_history sha256 Header Gh S hh \<and> genuine_history sha256 State Gs S hs \<and> root_preimage hh hs \<in> S \<and>
        commitment_preimage seqs genesis (sha256 (root_preimage hh hs)) checkpoint ids \<in> S \<and>
        extract_commit_chain_commitment e (tx_output tx) =
          Inr (sha256 (commitment_preimage seqs genesis (sha256 (root_preimage hh hs)) checkpoint ids)))"

text \<open>
  Soundness of the proof system for the three proofs of an input: what verifies was proved, by genuine
  programs running their circuits or by foreign ones. \<open>decode\<close> is the decoder of the state circuit.
\<close>

definition sound_proofs ::
  "light_env \<Rightarrow> (bytes \<Rightarrow> state_chain_output option) \<Rightarrow> program_id set \<Rightarrow> program_id set \<Rightarrow> program_id set \<Rightarrow> bytes set \<Rightarrow>
   header_chain_input \<Rightarrow> commit_chain_input \<Rightarrow> state_chain_input \<Rightarrow> bool" where
  "sound_proofs E decode Gc Gh Gs S header commit st \<longleftrightarrow>
     (\<forall>pid out.
        (groth16 E (cci_zkm_proof commit) (cci_zkm_public_values commit) (cci_zkm_vk_hash commit) (cci_zkm_version commit) = Some pid \<and>
         le_decode_commit E (cci_zkm_public_values commit) = Some out \<longrightarrow>
         commit_proved (le_sha256 E) (le_bitcoin E) (le_zkm E) (le_decode_commit E) Gc pid out)) \<and>
     (\<forall>pid out.
        (groth16 E (hci_zkm_proof header) (hci_zkm_public_values header) (hci_zkm_vk_hash header) (hci_zkm_version header) = Some pid \<and>
         le_read_header E (hci_zkm_public_values header) = Some out \<longrightarrow> header_proved (le_header E) Gh S pid out)) \<and>
     (\<forall>pid out.
        (groth16 E (sci_zkm_proof st) (sci_zkm_public_values st) (sci_zkm_vk_hash st) (sci_zkm_version st) = Some pid \<and>
         le_read_state E (sci_zkm_public_values st) = Some out \<longrightarrow> state_proved (le_state E) decode Gs S pid out))"

lemma accepted_histories:
  assumes "chains_accepted E g header commit st sp hout cout sout seqs height authorized"
    "inj_on (le_sha256 E) S" "authorization_strings (le_sha256 E) hout cout sout seqs \<subseteq> S"
    "honest_commitment (le_sha256 E) (le_bitcoin E) Gh Gs S (cs_commit_txn (cco_chain_state cout))"
  shows "genuine_history (le_sha256 E) Header Gh S
      (finalize_history (le_sha256 E) Header (hco_program_history_hash hout) (hco_self_program_id hout))"
    "genuine_history (le_sha256 E) State Gs S
      (finalize_history (le_sha256 E) State (sco_program_history_hash sout) (sco_self_program_id sout))"
proof -
  let ?sha = "le_sha256 E"
  let ?hh = "finalize_history ?sha Header (hco_program_history_hash hout) (hco_self_program_id hout)"
  let ?hs = "finalize_history ?sha State (sco_program_history_hash sout) (sco_self_program_id sout)"
  let ?pre = "commitment_preimage seqs (ss_genesis_evm_block_hash (sco_chain_state sout)) (?sha (root_preimage ?hh ?hs))
    (cs_proof_checkpoint_root (cco_chain_state cout)) (cs_authorized_program_ids (cco_chain_state cout))"
  have auth: "verify_commitment_authorization ?sha (le_bitcoin E) cout hout sout (hco_self_program_id hout)
       (sco_self_program_id sout) ROOT_COMMIT_PROGRAM_ID ROOT_COMMIT_PROGRAM_ID seqs = Some authorized"
    using assms(1) by (simp add: chains_accepted_def)
  have S: "root_preimage ?hh ?hs \<in> S" "?pre \<in> S"
    using assms(3) by (simp_all add: authorization_strings_def finalize_history_alt Let_def)
  obtain hh hs a b d ids where honest: "genuine_history ?sha Header Gh S hh" "genuine_history ?sha State Gs S hs"
      "root_preimage hh hs \<in> S" "commitment_preimage a b (?sha (root_preimage hh hs)) d ids \<in> S"
      "extract_commit_chain_commitment (le_bitcoin E) (tx_output (cs_commit_txn (cco_chain_state cout))) =
        Inr (?sha (commitment_preimage a b (?sha (root_preimage hh hs)) d ids))"
    using assms(4) unfolding honest_commitment_def by blast
  have "?sha ?pre = ?sha (commitment_preimage a b (?sha (root_preimage hh hs)) d ids)"
    using authorization_Some(4,5) [OF auth] honest(5) by (simp add: program_history_root_alt)
  then have "?pre = commitment_preimage a b (?sha (root_preimage hh hs)) d ids"
    using S(2) honest(4) by (intro inj_onD [OF assms(2)])
  then have "?sha (root_preimage ?hh ?hs) = ?sha (root_preimage hh hs)" by (simp add: commitment_preimage_inj)
  then have "root_preimage ?hh ?hs = root_preimage hh hs" using S(1) honest(3) by (intro inj_onD [OF assms(2)])
  with honest(1,2) show "genuine_history ?sha Header Gh S ?hh" "genuine_history ?sha State Gs S ?hs" by simp_all
qed

text \<open>What the accepted chains are: a header chain, a chain of commits on it and a chain of executed blocks.\<close>

lemma accepted_chains:
  assumes "chains_accepted E g header commit st sp hout cout sout seqs height authorized"
    and "sound_proofs E decode Gc Gh Gs S header commit st" "ROOT_COMMIT_PROGRAM_ID \<in> Gc"
    and "honest_commitment (le_sha256 E) (le_bitcoin E) Gh Gs S (cs_commit_txn (cco_chain_state cout))"
    and "inj_on (le_sha256 E) S" "authorization_strings (le_sha256 E) hout cout sout seqs \<subseteq> S"
    and "st_sha256 (le_state E) = le_sha256 E" "txid_ignores_witness (le_bitcoin E)"
  shows "\<exists>hs. genuine_chain (le_header E) (hco_chain_state hout) hs"
    "\<exists>bs. genuine_state (le_state E) (sco_chain_state sout) bs"
    "\<exists>cs. commit_lineage (le_sha256 E) (le_bitcoin E) g cs \<and> cco_chain_state cout = state_after_commit g (last cs) \<and>
       be_compute_txid (le_bitcoin E) (cm_commit_txn (last cs)) = be_compute_txid (le_bitcoin E) (spv_transaction sp)"
proof -
  note acc = assms(1) [unfolded chains_accepted_def]
  have proved: "commit_proved (le_sha256 E) (le_bitcoin E) (le_zkm E) (le_decode_commit E) Gc ROOT_COMMIT_PROGRAM_ID cout"
      "header_proved (le_header E) Gh S (hco_self_program_id hout) hout"
      "state_proved (le_state E) decode Gs S (sco_self_program_id sout) sout"
    using assms(2) acc unfolding sound_proofs_def by blast+
  have final: "final_preimage Header (hco_program_history_hash hout) (hco_self_program_id hout) \<in> S"
      "final_preimage State (sco_program_history_hash sout) (sco_self_program_id sout) \<in> S"
    using assms(6) by (simp_all add: authorization_strings_def Let_def)
  note hist = accepted_histories [OF assms(1,5,6,4)]
  from hist(1) obtain p ps where p: "set (p # ps) \<subseteq> Gh" "distinct_adj (p # ps)"
      "history_strings (le_sha256 E) Header (p # ps) \<subseteq> S" "final_preimage Header (history_of (le_sha256 E) Header (p # ps)) p \<in> S"
      "finalize_history (le_sha256 E) Header (hco_program_history_hash hout) (hco_self_program_id hout) =
         finalize_history (le_sha256 E) Header (history_of (le_sha256 E) Header (p # ps)) p"
    unfolding genuine_history_def by (elim exE conjE)
  show "\<exists>hs. genuine_chain (le_header E) (hco_chain_state hout) hs"
    by (rule header_program.finalized_good [OF proved(2) [unfolded header_proved_def] assms(5) p(1,2,3) final(1) p(4,5)])
  from hist(2) obtain q qs where q: "set (q # qs) \<subseteq> Gs" "distinct_adj (q # qs)"
      "history_strings (le_sha256 E) State (q # qs) \<subseteq> S" "final_preimage State (history_of (le_sha256 E) State (q # qs)) q \<in> S"
      "finalize_history (le_sha256 E) State (sco_program_history_hash sout) (sco_self_program_id sout) =
         finalize_history (le_sha256 E) State (history_of (le_sha256 E) State (q # qs)) q"
    unfolding genuine_history_def by (elim exE conjE)
  show "\<exists>bs. genuine_state (le_state E) (sco_chain_state sout) bs"
    by (rule state_program.finalized_good [OF proved(3) [unfolded state_proved_def], unfolded assms(7),
      OF assms(5) q(1,2,3) final(2) q(4,5)])
  from commit_proved_lineage [OF proved(1) assms(3,8)] obtain cs g' where
    cs: "commit_lineage (le_sha256 E) (le_bitcoin E) g' cs" "cco_chain_state cout = state_after_commit g' (last cs)" by blast
  then have "g' = g" using acc by (simp add: state_after_commit_def)
  have "be_compute_txid (le_bitcoin E) (cs_commit_txn (cco_chain_state cout)) = be_compute_txid (le_bitcoin E) (spv_transaction sp)"
    using acc by blast
  moreover have "cs_commit_txn (cco_chain_state cout) = strip_witness (cm_commit_txn (last cs))"
    by (simp add: cs(2) state_after_commit_def)
  ultimately have "be_compute_txid (le_bitcoin E) (cm_commit_txn (last cs)) = be_compute_txid (le_bitcoin E) (spv_transaction sp)"
    using assms(8) [unfolded txid_ignores_witness_def, rule_format, of "cm_commit_txn (last cs)"] by simp
  with cs \<open>g' = g\<close> show "\<exists>cs. commit_lineage (le_sha256 E) (le_bitcoin E) g cs \<and>
      cco_chain_state cout = state_after_commit g (last cs) \<and>
      be_compute_txid (le_bitcoin E) (cm_commit_txn (last cs)) = be_compute_txid (le_bitcoin E) (spv_transaction sp)"
    by blast
qed

text \<open>Every challenge passes the check of the loop.\<close>

lemma challenges_checked:
  "check_watchtower_challenges E graph init_txid init_txn keys s pid height cs = Some () \<Longrightarrow> c \<in> set cs \<Longrightarrow>
   check_watchtower_challenge E graph init_txid init_txn keys s pid height c = Some ()"
  by (induction cs) (auto simp: bind_eq_Some_conv)

lemma challenge_checked:
  assumes "check_watchtower_challenge E graph init_txid init_txn keys s pid height c = Some ()"
  shows "\<exists>ch. spv_verify (le_sha256 E) (le_consensus E) (iw_spv c) (block_hashes_mmr s) = Some ch \<and> ch \<le> block_height s"
    "\<exists>init xonly. init_txn = Some init \<and> 2 * unat (iw_node_index c) < length (tx_output init) \<and>
       le_xonly_from_slice E (array_bytes (keys ! unat (iw_node_index c))) = Some xonly \<and>
       verify_taproot_leaf_schnorr_signature E
         (be_push_opcode (le_bitcoin E) (le_push_x_only_key E [] xonly) OP_CHECKSIG) (spv_transaction (iw_spv c)) 0
         (tx_output init ! (2 * unat (iw_node_index c))) xonly = Inr ()"
    "tx_input (spv_transaction (iw_spv c)) \<noteq> []"
    "previous_output (tx_input (spv_transaction (iw_spv c)) ! 0) =
       \<lparr> op_txid = init_txid, op_vout = ucast (iw_node_index c) * 2 \<rparr>"
    "check_watchtower_work E graph pid (total_work s) height (spv_transaction (iw_spv c)) = Some ()"
proof -
  have small: "unat (iw_node_index c) < 2 ^ 16" using unsigned_less [of "iw_node_index c", where ?'a = nat] by simp
  have vout: "unat (ucast (iw_node_index c) * 2 :: 32 word) = 2 * unat (iw_node_index c)"
  proof -
    have "(ucast (iw_node_index c) * 2 :: 32 word) = of_nat (2 * unat (iw_node_index c))"
      by (simp add: unsigned_ucast_eq)
    also have "unat \<dots> = 2 * unat (iw_node_index c)" using small by (intro unat_of_nat_32) simp
    finally show ?thesis .
  qed
  note c = assms [unfolded check_watchtower_challenge_def Let_def]
  show "\<exists>ch. spv_verify (le_sha256 E) (le_consensus E) (iw_spv c) (block_hashes_mmr s) = Some ch \<and> ch \<le> block_height s"
    "tx_input (spv_transaction (iw_spv c)) \<noteq> []"
    "check_watchtower_work E graph pid (total_work s) height (spv_transaction (iw_spv c)) = Some ()"
    using c by (auto simp: bind_eq_Some_conv)
  show "previous_output (tx_input (spv_transaction (iw_spv c)) ! 0) =
       \<lparr> op_txid = init_txid, op_vout = ucast (iw_node_index c) * 2 \<rparr>"
    using c by (auto simp: bind_eq_Some_conv)
  show "\<exists>init xonly. init_txn = Some init \<and> 2 * unat (iw_node_index c) < length (tx_output init) \<and>
       le_xonly_from_slice E (array_bytes (keys ! unat (iw_node_index c))) = Some xonly \<and>
       verify_taproot_leaf_schnorr_signature E
         (be_push_opcode (le_bitcoin E) (le_push_x_only_key E [] xonly) OP_CHECKSIG) (spv_transaction (iw_spv c)) 0
         (tx_output init ! (2 * unat (iw_node_index c))) xonly = Inr ()"
    using c by (auto simp: bind_eq_Some_conv vout)
qed

text \<open>A commitment that counts: a proof of the authorised program for this graph.\<close>

definition counted_commitment ::
  "light_env \<Rightarrow> graph_id \<Rightarrow> program_id \<Rightarrow> transaction \<Rightarrow> watchtower_commitment \<Rightarrow> bool" where
  "counted_commitment E graph pid tx c \<longleftrightarrow>
     (\<exists>bs. extract_data_from_commitment_outputs (le_bitcoin E) (tx_output tx) = Inr bs \<and> parse_watchtower_commitment bs = Inr c) \<and>
     groth16 E (wc_proof c) (wc_public_values c) (wc_vk_hash c) (wc_zkm_version c) = Some pid \<and>
     wc_graph_id c = to_be_bytes 16 graph"

lemma counted_work:
  "check_watchtower_work E graph pid work height tx = Some () \<Longrightarrow> counted_commitment E graph pid tx c \<Longrightarrow>
   from_be_bytes (wc_total_work c) \<le> work \<and> from_le_bytes (wc_consensus_block_height c) \<le> height"
  by (auto simp: check_watchtower_work_def counted_commitment_def)

end
