(* ===== verification/LightClientProperties.thy ===== *)
theory LightClientProperties
  imports LightClient
begin

text \<open>
  The properties of the light client circuits: what an accepted input of the watchtower's and of the
  operator's circuit says about Bitcoin, about the commitments of the Publishers and about the GOAT network, and an
  example input that both circuits accept.
\<close>

section \<open>An accepted input\<close>

text \<open>A hash that separates the strings by their lengths and program types, and a verifier that accepts.\<close>

definition example_light_sha256 :: "bytes \<Rightarrow> hash32" where
  "example_light_sha256 bs =
     (if length bs = 83 then ROOT_COMMIT_PROGRAM_ID
      else if length bs = 80 then 1
      else if length bs = 25 then 20 + ucast (last bs)
      else if length bs = 90 then 30 + ucast (bs ! 25)
      else if length bs = 88 then 6
      else if length bs = 277 then 7
      else if length bs = 94 then 8
      else if length bs = 3 then 4
      else if bs = array_bytes 4 then 5 else 0)"

definition example_zkm :: zkm_verifier where
  "example_zkm = \<lparr> try_get_part_stark_vk = (\<lambda>_. Some []), decode_zkm_vkey_hash = (\<lambda>_. Some 0), imm_groth16_vk_bytes = [],
     verify_by_imm_groth16_vk = (\<lambda>_ _ _ _ _. True) \<rparr>"

definition example_block :: circuit_block_header where
  "example_block = example_header\<lparr> bh_merkle_root := 5 \<rparr>"

definition example_ids :: authorized_program_ids where
  "example_ids = \<lparr> ap_header = ROOT_COMMIT_PROGRAM_ID, ap_state = ROOT_COMMIT_PROGRAM_ID,
     ap_commit = ROOT_COMMIT_PROGRAM_ID, ap_watchtower = ROOT_COMMIT_PROGRAM_ID \<rparr>"

definition example_light_header_env :: header_env where
  "example_light_header_env = example_env\<lparr> env_sha256 := example_light_sha256, env_zkm := example_zkm,
     env_genesis_block := (\<lambda>_. example_block) \<rparr>"

definition example_light_state_env :: state_env where
  "example_light_state_env = example_state_env\<lparr> st_sha256 := example_light_sha256, st_zkm := example_zkm \<rparr>"

definition example_header_out :: header_chain_output where
  "example_header_out = \<lparr>
     hco_chain_state = state_of example_light_sha256 (\<lambda>_ bits _. bits) Regtest [example_block],
     hco_self_program_id = ROOT_COMMIT_PROGRAM_ID, hco_program_history_hash = 21, hco_upgrade_checkpoint_hash = 0 \<rparr>"

definition example_light_commit :: circuit_commit where
  "example_light_commit = (example_commit 10 [])\<lparr> cm_program_history_root := 6, cm_proof_checkpoint_root := 8,
     cm_authorized_program_ids := example_ids \<rparr>"

definition example_commit_out :: commit_chain_output where
  "example_commit_out = \<lparr> cco_chain_state = state_after_commit 10 example_light_commit,
     cco_self_program_id = ROOT_COMMIT_PROGRAM_ID \<rparr>"

definition example_state_out :: state_chain_output where
  "example_state_out = example_state_output\<lparr> sco_self_program_id := ROOT_COMMIT_PROGRAM_ID, sco_program_history_hash := 22 \<rparr>"

definition example_light_env :: light_env where
  "example_light_env = \<lparr>
     le_header = example_light_header_env, le_bitcoin = example_bitcoin_env, le_state = example_light_state_env,
     le_consensus = example_consensus, le_read_header = (\<lambda>_. Some example_header_out),
     le_read_state = (\<lambda>_. Some example_state_out), le_decode_commit = (\<lambda>_. Some example_commit_out),
     le_taproot_signature = (\<lambda>bs. Some (bs, ALL_ANYONE_CAN_PAY)), le_xonly_from_slice = Some,
     le_verify_taproot_commitment = (\<lambda>_. Some (\<lambda>_ _. True)), le_taproot_sighash = (\<lambda>_ _ _ _. Some 0),
     le_verify_schnorr = (\<lambda>_ _ _. True), le_push_x_only_key = (\<lambda>s k. s @ k) \<rparr>"

definition example_commit_input :: commit_chain_input where
  "example_commit_input = \<lparr> cci_prev_proof = CommitGenesisBlock, cci_zkm_proof = [], cci_zkm_public_values = [],
     cci_zkm_vk_hash = [], cci_zkm_version = [], cci_self_program_id = ROOT_COMMIT_PROGRAM_ID,
     cci_commits = [example_light_commit] \<rparr>"

definition example_headers_input :: header_chain_input where
  "example_headers_input = example_header_input\<lparr> hci_self_program_id := ROOT_COMMIT_PROGRAM_ID, hci_block_headers := [example_block] \<rparr>"

definition example_states_input :: state_chain_input where
  "example_states_input = example_state_input\<lparr> sci_self_program_id := ROOT_COMMIT_PROGRAM_ID \<rparr>"

definition example_light_spv :: spv where
  "example_light_spv = example_spv\<lparr> spv_transaction := example_transaction\<lparr> tx_lock_time := 10 \<rparr> \<rparr>"

lemma example_groth16: "groth16 example_light_env prf pv [] version = Some ROOT_COMMIT_PROGRAM_ID"
  by (simp add: groth16_def verify_groth16_proof_def example_light_env_def example_light_header_env_def example_env_def
    example_zkm_def from_utf8_def bundled_part_stark_vk_def program_id_with_part_vk_def tagged_hash_def as_bytes_def
    example_light_sha256_def)

lemma example_light_txid: "txid example_light_sha256 example_consensus tx = 5" "txid_preimage example_consensus tx = [1, 2, 3]"
  by (simp_all add: txid_def txid_preimage_def example_consensus_def calculate_double_sha256_def example_light_sha256_def)

lemma example_light_block_hash: "compute_block_hash example_light_sha256 h = 0"
proof -
  have "example_light_sha256 (header_bytes h) = 1" by (simp add: example_light_sha256_def header_bytes_def)
  then show ?thesis by (simp add: compute_block_hash_def example_light_sha256_def)
qed

lemma example_headers_run: "header_chain_circuit example_light_header_env example_headers_input = Some example_header_out"
proof -
  have "blocks_ok example_light_sha256 (\<lambda>_ bits _. bits) Regtest [] [example_block]"
    using hash_value_0
    by (simp add: block_ok_def example_block_def example_header_def required_bits_def easy_block_def NETWORK_CONSTANTS_def
      last_times_def example_light_block_hash)
  then have "apply_blocks example_light_sha256 (\<lambda>_ bits _. bits) Regtest [example_block] (chain_state_new Regtest) =
      Some (state_of example_light_sha256 (\<lambda>_ bits _. bits) Regtest [example_block])"
    using apply_blocks_state [of "[]" "[example_block]" example_light_sha256 "\<lambda>_ bits _. bits" Regtest]
    by (simp add: state_of_Nil)
  moreover have "initial_history example_light_sha256 Header = 21"
    by (simp add: initial_history_alt seed_preimage_def as_bytes_def example_light_sha256_def program_type_byte_def)
  ultimately show ?thesis
    by (simp add: header_chain_circuit_def header_chain_start_def example_light_header_env_def example_env_def
      example_headers_input_def example_header_input_def example_header_out_def)
qed

lemma example_commits_run:
  "commit_chain_circuit example_light_sha256 example_bitcoin_env example_zkm decode example_commit_input = Some example_commit_out"
  by (simp add: commit_chain_circuit_def commit_chain_start_def example_commit_input_def example_light_commit_def
    example_commit_out_def example_commit_def example_bitcoin_env_def example_script_def apply_one_commit_def
    commit_chain_state_new_def empty_transaction_def active_publisher_set_def check_commitment_def assert_that_def
    extract_commit_chain_commitment_def commit_chain_commitment_digest_def validate_program_ids_def
    create_sequencer_update_script_def validate_publisher_set_def OP_CHECKMULTISIG_def strip_witness_def state_after_commit_def
    commitment_preimage_def as_bytes_def example_light_sha256_def example_ids_def ROOT_COMMIT_PROGRAM_ID_def)

lemma not_array_bytes: "length bs \<noteq> 32 \<Longrightarrow> bs \<noteq> array_bytes w"
  by auto

lemma example_states_run: "state_chain_circuit example_light_state_env decode example_states_input = Some example_state_out"
  by (simp add: state_chain_circuit_def state_chain_start_def example_states_input_def example_state_input_def
    example_light_state_env_def example_state_env_def
    example_state_block_def example_state_out_def example_state_output_def state_chain_state_new_def apply_state_block_def
    execute_el_block_and_check_withdraw_tx_def data_hash_bytes_def check_el_block_from_payload_def parse_cbft_tx_payload_def
    merkle_root_from_base64_txns_def compute_merkle_root.simps merkle_leaf_hash_def initial_history_alt seed_preimage_def
    as_bytes_def example_light_sha256_def assert_that_def program_type_byte_def not_array_bytes)

lemma example_accepted:
  "chains_accepted example_light_env 10 example_headers_input example_commit_input example_states_input example_light_spv
     example_header_out example_commit_out example_state_out 1 0 example_ids"
proof -
  let ?sha = example_light_sha256
  have spv: "spv_verify ?sha example_consensus example_light_spv (guest_of ?sha [example_block]) = Some 0"
    by (simp add: spv_verify_Some example_light_txid guest_verify_iff [OF guest_of_ok] example_light_spv_def example_spv_def
      example_block_def get_root_def peak_of.simps peaks_up.simps peak_index_def popcount.simps)
  have auth: "verify_commitment_authorization ?sha example_bitcoin_env example_commit_out example_header_out example_state_out
      ROOT_COMMIT_PROGRAM_ID ROOT_COMMIT_PROGRAM_ID ROOT_COMMIT_PROGRAM_ID ROOT_COMMIT_PROGRAM_ID 1 = Some example_ids"
    by (simp add: verify_commitment_authorization_def checked_history_root_def check_program_id_def assert_that_def
      example_commit_out_def example_header_out_def example_state_out_def example_state_output_def state_after_commit_def
      example_light_commit_def example_commit_def example_ids_def validate_program_ids_def ROOT_COMMIT_PROGRAM_ID_def
      finalize_history_def program_history_root_def proof_checkpoint_root_def tagged_hash_def as_bytes_def
      extract_commit_chain_commitment_def example_bitcoin_env_def commit_chain_commitment_digest_def commitment_preimage_def
      example_light_sha256_def strip_witness_def)
  have "be_compute_txid example_bitcoin_env (cs_commit_txn (cco_chain_state example_commit_out)) =
      be_compute_txid example_bitcoin_env (spv_transaction example_light_spv)"
    by (simp add: example_bitcoin_env_def example_commit_out_def state_after_commit_def example_light_commit_def
      example_commit_def strip_witness_def example_light_spv_def)
  with spv auth show ?thesis
    by (simp add: chains_accepted_def example_groth16 example_commit_input_def example_headers_input_def example_header_input_def
      example_states_input_def example_state_input_def)
      (simp add: example_light_env_def example_light_header_env_def example_header_out_def example_state_out_def
      example_commit_out_def state_after_commit_def example_bitcoin_env_def state_of_def)
qed

definition example_strings :: "bytes set" where
  "example_strings =
     {seed_preimage Header, seed_preimage State, final_preimage Header 21 ROOT_COMMIT_PROGRAM_ID,
      final_preimage State 22 ROOT_COMMIT_PROGRAM_ID, root_preimage 31 32, commitment_preimage 1 5 6 8 example_ids}"

lemma example_hashes:
  "example_light_sha256 (seed_preimage Header) = 21" "example_light_sha256 (seed_preimage State) = 22"
  "example_light_sha256 (final_preimage Header h p) = 31" "example_light_sha256 (final_preimage State h p) = 32"
  "example_light_sha256 (root_preimage h1 h2) = 6" "example_light_sha256 (commitment_preimage a b c d ids) = 7"
  by (simp_all add: example_light_sha256_def seed_preimage_def final_preimage_def root_preimage_def commitment_preimage_def
    as_bytes_def program_type_byte_def nth_append)

lemma example_strings_inj: "inj_on example_light_sha256 example_strings"
  by (simp add: example_strings_def inj_on_def example_hashes)

lemma example_env_fields [simp]:
  "env_sha256 example_light_header_env = example_light_sha256" "env_zkm example_light_header_env = example_zkm"
  "st_sha256 example_light_state_env = example_light_sha256"
  "le_bitcoin example_light_env = example_bitcoin_env" "le_header example_light_env = example_light_header_env"
  "le_state example_light_env = example_light_state_env"
  by (simp_all add: example_light_env_def example_light_header_env_def example_light_state_env_def)

lemma example_sound:
  "sound_proofs example_light_env (\<lambda>_. None) {ROOT_COMMIT_PROGRAM_ID} {ROOT_COMMIT_PROGRAM_ID} {ROOT_COMMIT_PROGRAM_ID}
     example_strings example_headers_input example_commit_input example_states_input"
proof -
  let ?G = "{ROOT_COMMIT_PROGRAM_ID}"
  have "commit_proved example_light_sha256 example_bitcoin_env example_zkm (le_decode_commit example_light_env) ?G
      ROOT_COMMIT_PROGRAM_ID example_commit_out"
    using commit_proved.from_genesis [OF _ example_commits_run] by (simp add: example_commit_input_def)
  moreover have "header_proved example_light_header_env ?G example_strings ROOT_COMMIT_PROGRAM_ID example_header_out"
    unfolding header_proved_def
    by (rule recursively_proved.from_genesis)
      (use example_headers_run in \<open>auto simp: header_first_run_def example_headers_input_def example_header_input_def
        example_strings_def intro!: exI [of _ example_headers_input]\<close>)
  moreover have "state_proved example_light_state_env (\<lambda>_. None) ?G example_strings ROOT_COMMIT_PROGRAM_ID example_state_out"
    unfolding state_proved_def
    by (rule recursively_proved.from_genesis)
      (use example_states_run in \<open>auto simp: state_first_run_def example_states_input_def example_state_input_def
        example_strings_def intro!: exI [of _ example_states_input]\<close>)
  moreover have "le_read_header example_light_env pv = Some example_header_out"
    "le_read_state example_light_env pv = Some example_state_out" "le_decode_commit example_light_env pv = Some example_commit_out" for pv
    by (simp_all add: example_light_env_def)
  moreover have "hci_zkm_vk_hash example_headers_input = []" "sci_zkm_vk_hash example_states_input = []"
    "cci_zkm_vk_hash example_commit_input = []"
    by (simp_all add: example_headers_input_def example_header_input_def example_states_input_def example_state_input_def
      example_commit_input_def)
  ultimately show ?thesis by (simp add: sound_proofs_def example_groth16)
qed

lemma example_honest:
  "honest_commitment example_light_sha256 example_bitcoin_env {ROOT_COMMIT_PROGRAM_ID} {ROOT_COMMIT_PROGRAM_ID} example_strings
     (cs_commit_txn (cco_chain_state example_commit_out))"
proof -
  have "genuine_history example_light_sha256 Header {ROOT_COMMIT_PROGRAM_ID} example_strings 31"
    "genuine_history example_light_sha256 State {ROOT_COMMIT_PROGRAM_ID} example_strings 32"
    unfolding genuine_history_def
    by (rule exI [of _ ROOT_COMMIT_PROGRAM_ID], rule exI [of _ "[]"],
      simp add: initial_history_alt finalize_history_alt example_hashes, simp add: example_strings_def)+
  moreover have "extract_commit_chain_commitment example_bitcoin_env (tx_output (cs_commit_txn (cco_chain_state example_commit_out))) = Inr 7"
    by (simp add: example_commit_out_def state_after_commit_def example_light_commit_def example_commit_def strip_witness_def
      extract_commit_chain_commitment_def example_bitcoin_env_def)
  moreover have "root_preimage 31 32 \<in> example_strings" "commitment_preimage 1 5 6 8 example_ids \<in> example_strings"
    by (simp_all add: example_strings_def)
  ultimately show ?thesis
    unfolding honest_commitment_def
    by (intro exI [of _ 31] exI [of _ 32] exI [of _ 1] exI [of _ 5] exI [of _ 8] exI [of _ example_ids]) (simp add: example_hashes)
qed

lemma example_authorization_strings:
  "authorization_strings example_light_sha256 example_header_out example_commit_out example_state_out 1 \<subseteq> example_strings"
  by (simp add: authorization_strings_def example_header_out_def example_state_out_def example_state_output_def example_hashes
    example_commit_out_def state_after_commit_def example_light_commit_def)
    (simp add: example_strings_def)

lemma example_watch:
  "watch_longest_chain example_light_env 10 example_headers_input example_commit_input example_states_input example_light_spv =
     Some (total_work (hco_chain_state example_header_out), 0)"
proof -
  have "mmr_size (block_hashes_mmr (hco_chain_state example_header_out)) = block_height (hco_chain_state example_header_out) + 1"
    by (simp add: example_header_out_def state_of_def guest_of_def)
  moreover obtain lb where "st_light_block example_light_state_env (ss_latest_cosmos_block (sco_chain_state example_state_out)) = Some lb"
      "lb_validators_hash lb = TmSha256 1" "verify_sequencer_commit example_light_state_env lb = Some ()"
    by (simp add: example_light_state_env_def example_state_env_def verify_sequencer_commit_def assert_that_def)
  ultimately show ?thesis
    using example_accepted by (simp add: chains_accepted_def watch_longest_chain_def assert_that_def)
qed

text \<open>An operator's input with one challenge, whose commitment is a proof of the authorised program.\<close>

definition example_claim :: watchtower_commitment where
  "example_claim = \<lparr> wc_graph_id = to_be_bytes 16 (77 :: graph_id), wc_proof = replicate 260 0, wc_public_values = replicate 36 0,
     wc_vk_hash = replicate 66 0x30, wc_total_work = replicate 32 0, wc_consensus_block_height = replicate 4 0,
     wc_zkm_version = ''1'' \<rparr>"

definition example_claim_bytes :: bytes where
  "example_claim_bytes = to_be_bytes 16 (77 :: graph_id) @ replicate 260 0 @ replicate 36 0 @ replicate 66 0x30 @
     to_le_bytes 4 (1 :: 32 word) @ as_bytes ''1''"

definition example_challenge_tx :: transaction where
  "example_challenge_tx = \<lparr> tx_version = 2, tx_lock_time = 0,
     tx_input = [\<lparr> previous_output = \<lparr> op_txid = 20, op_vout = 0 \<rparr>, script_sig = [], tx_sequence = - 1,
       tx_witness = [[], array_bytes 3 @ [OP_CHECKSIG], []] \<rparr>],
     tx_output = [\<lparr> tx_value = 0, script_pubkey = example_claim_bytes \<rparr>] \<rparr>"

definition example_init_tx :: transaction where
  "example_init_tx = \<lparr> tx_version = 2, tx_lock_time = 20, tx_input = [],
     tx_output = [\<lparr> tx_value = 0, script_pubkey = 0x51 # 0x20 # replicate 32 0 \<rparr>] \<rparr>"

definition example_challenge :: indexed_watchtower_challenge where
  "example_challenge = \<lparr> iw_node_index = 0, iw_spv = example_light_spv\<lparr> spv_transaction := example_challenge_tx \<rparr> \<rparr>"

definition example_operator_input :: operator_input where
  "example_operator_input = \<lparr>
     oi_included_watchtowers = 1, oi_graph_id = 77, oi_genesis_sequencer_commit_txid = 10,
     oi_watchtower_challenge_init_txid = 20, oi_watchtower_challenge_init_txn = Some example_init_tx,
     oi_watchtower_challenges = [example_challenge], oi_watchtower_keys = [3],
     oi_header_chain = example_headers_input, oi_commit_chain = example_commit_input, oi_state_chain = example_states_input,
     oi_spv_ss_commit = example_light_spv, oi_committed_blockhash = 0 \<rparr>"

lemma example_claim_parsed: "parse_watchtower_commitment example_claim_bytes = Inr example_claim"
proof -
  obtain vk where vk: "as_bytes vk = replicate 66 0x30" using as_bytes_surj by blast
  then have "length vk = 66" using length_as_bytes [of vk] by simp
  with vk show ?thesis
    unfolding parse_commitment_Inr
    by (intro conjI exI [of _ vk])
      (simp_all add: example_claim_def example_claim_bytes_def build_watchtower_commitment_def commitment_sizes assert_that_def
        as_bytes_def)
qed

lemma utf8_digits: "utf8_valid (replicate n 0x30)"
  by (induction n) simp_all

lemma example_claim_verified:
  "groth16 example_light_env (wc_proof example_claim) (wc_public_values example_claim) (wc_vk_hash example_claim)
     (wc_zkm_version example_claim) = Some ROOT_COMMIT_PROGRAM_ID"
  using utf8_digits [of 66]
  by (simp add: groth16_def verify_groth16_proof_def example_claim_def
    example_zkm_def from_utf8_def bundled_part_stark_vk_def program_id_with_part_vk_def tagged_hash_def as_bytes_def
    example_light_sha256_def)

lemma example_counted: "counted_commitment example_light_env 77 ROOT_COMMIT_PROGRAM_ID example_challenge_tx example_claim"
  by (simp add: counted_commitment_def example_claim_verified example_claim_parsed example_challenge_tx_def
    extract_data_from_commitment_outputs_def example_bitcoin_env_def)
    (simp add: example_claim_def)

lemma from_le_bytes_zeros: "from_le_bytes (replicate n 0) = (0 :: 'a::len word)"
proof (induction n)
  case (Suc n)
  then show ?case by (simp add: from_le_bytes_def)
qed (simp add: from_le_bytes_def)

lemma example_challenge_checked:
  "check_watchtower_challenge example_light_env 77 20 (Some example_init_tx) [3] (hco_chain_state example_header_out)
     ROOT_COMMIT_PROGRAM_ID 0 example_challenge = Some ()"
proof -
  let ?s = "hco_chain_state example_header_out"
  have spv: "spv_verify example_light_sha256 (le_consensus example_light_env) (iw_spv example_challenge) (block_hashes_mmr ?s) = Some 0"
    by (simp add: spv_verify_Some example_light_txid guest_verify_iff [OF guest_of_ok] example_challenge_def example_light_spv_def
      example_spv_def example_block_def get_root_def peak_of.simps peaks_up.simps peak_index_def popcount.simps
      example_header_out_def state_of_def example_light_env_def)
  have sig: "verify_taproot_leaf_schnorr_signature example_light_env (array_bytes 3 @ [OP_CHECKSIG]) example_challenge_tx 0
      \<lparr> tx_value = 0, script_pubkey = 0x51 # 0x20 # replicate 32 0 \<rparr> (array_bytes 3) = Inr ()"
    by (simp add: verify_taproot_leaf_schnorr_signature_def example_challenge_tx_def example_light_env_def)
  have zero: "from_be_bytes (replicate 32 0) = (0 :: 256 word)" "from_le_bytes (replicate 4 0) = (0 :: 32 word)"
    by (simp_all only: from_be_bytes_def rev_replicate from_le_bytes_zeros)
  have work: "check_watchtower_work example_light_env 77 ROOT_COMMIT_PROGRAM_ID (total_work ?s) 0 example_challenge_tx = Some ()"
    using example_counted example_claim_parsed zero
    by (auto simp: check_watchtower_work_def counted_commitment_def assert_that_def example_claim_verified split: sum.splits)
      (simp_all add: example_claim_def)
  have fields: "le_xonly_from_slice example_light_env k = Some k" "le_push_x_only_key example_light_env [] k = k"
      "be_push_opcode example_bitcoin_env k op = k @ [op]" "block_height ?s = 0" for k op
    by (simp_all add: example_light_env_def example_bitcoin_env_def example_header_out_def state_of_def)
  show ?thesis
    using spv sig work
    by (simp add: check_watchtower_challenge_def assert_that_def fields)
      (simp add: example_challenge_def example_init_tx_def example_challenge_tx_def)
qed

lemma example_propose:
  "propose_longest_chain example_light_env example_operator_input =
     Some (0, hash_operator_constant example_light_sha256 77 10 20 [3], to_le_bytes 32 (1 :: 256 word))"
proof -
  have size: "mmr_size (block_hashes_mmr (hco_chain_state example_header_out)) = block_height (hco_chain_state example_header_out) + 1"
    by (simp add: example_header_out_def state_of_def guest_of_def)
  obtain lb where lb: "st_light_block example_light_state_env (ss_latest_cosmos_block (sco_chain_state example_state_out)) = Some lb"
      "lb_validators_hash lb = TmSha256 1" "verify_sequencer_commit example_light_state_env lb = Some ()"
    by (simp add: example_light_state_env_def example_state_env_def verify_sequencer_commit_def assert_that_def)
  have "{k. bit (1 :: 256 word) k} = {0}" by (auto simp: bit_simps)
  then have indices: "validate_watchtower_challenge_indices (u256_to_le_bits 1) 1 [0] = Inr ()"
    by (simp add: validate_bitmap_ok)
  have rest: "list_ex (\<lambda>(_, _, graph_ids). 77 \<in> set graph_ids) (ss_withdrawals (sco_chain_state example_state_out))"
      "best_block_hash (hco_chain_state example_header_out) = 0" "be_compute_txid example_bitcoin_env example_init_tx = 20"
      "iw_node_index example_challenge = 0" "ap_watchtower example_ids = ROOT_COMMIT_PROGRAM_ID"
    by (simp_all add: example_state_out_def example_state_output_def example_header_out_def state_of_def
      example_light_block_hash example_bitcoin_env_def example_init_tx_def example_challenge_def example_ids_def)
  show ?thesis
    using example_accepted size lb indices rest example_challenge_checked
    by (simp add: chains_accepted_def propose_longest_chain_def assert_that_def checked_challenge_init_transaction_def
      example_operator_input_def)
qed

section \<open>Properties\<close>



text \<open>What the operator has shown of a challenge.\<close>

definition challenge_answered ::
  "light_env \<Rightarrow> operator_input \<Rightarrow> header_chain_output \<Rightarrow> commit_chain_output \<Rightarrow> 32 word \<Rightarrow> indexed_watchtower_challenge \<Rightarrow> bool" where
  "challenge_answered E inp hout cout height c \<longleftrightarrow>
     unat (iw_node_index c) < length (oi_watchtower_keys inp) \<and>
     spv_verify (le_sha256 E) (le_consensus E) (iw_spv c) (block_hashes_mmr (hco_chain_state hout)) \<noteq> None \<and>
     previous_output (tx_input (spv_transaction (iw_spv c)) ! 0) =
       \<lparr> op_txid = oi_watchtower_challenge_init_txid inp, op_vout = ucast (iw_node_index c) * 2 \<rparr> \<and>
     (\<exists>init xonly. oi_watchtower_challenge_init_txn inp = Some init \<and>
        be_compute_txid (le_bitcoin E) init = oi_watchtower_challenge_init_txid inp \<and>
        le_xonly_from_slice E (array_bytes (oi_watchtower_keys inp ! unat (iw_node_index c))) = Some xonly \<and>
        verify_taproot_leaf_schnorr_signature E
          (be_push_opcode (le_bitcoin E) (le_push_x_only_key E [] xonly) OP_CHECKSIG) (spv_transaction (iw_spv c)) 0
          (tx_output init ! (2 * unat (iw_node_index c))) xonly = Inr ()) \<and>
     (\<forall>w. counted_commitment E (oi_graph_id inp) (ap_watchtower (cs_authorized_program_ids (cco_chain_state cout)))
            (spv_transaction (iw_spv c)) w \<longrightarrow>
          from_be_bytes (wc_total_work w) \<le> total_work (hco_chain_state hout) \<and>
          from_le_bytes (wc_consensus_block_height w) \<le> height)"

text \<open>
  \<^bold>\<open>C3.\<close> No watchtower that counts knows a heavier chain than the operator. If the operator's circuit accepts,
  then for every challenge of its input: the bit of the watchtower is set in the published bitmap and the
  index is one of the graph's keys; the challenge transaction is proved included in the operator's header chain; its
  first input spends output twice the index of the challenge-init transaction, signed with that watchtower's key; and if
  it carries a commitment for this graph with a verified proof of the authorised watchtower program, the work it
  claims is at most the operator's and the height of its commitment at most the operator's.
  Conversely every set bit belongs to a challenge in the input, so no included watchtower is skipped.
\<close>

theorem operator_outweighs_challenges:
  assumes "propose_longest_chain E inp = Some (blockhash, constant, included)"
    and "le_read_header E (hci_zkm_public_values (oi_header_chain inp)) = Some hout"
      "le_decode_commit E (cci_zkm_public_values (oi_commit_chain inp)) = Some cout"
      "spv_verify (le_sha256 E) (le_consensus E) (oi_spv_ss_commit inp) (block_hashes_mmr (hco_chain_state hout)) = Some height"
  shows "included = to_le_bytes 32 (oi_included_watchtowers inp) \<and>
    {k. bit (oi_included_watchtowers inp) k} = unat ` iw_node_index ` set (oi_watchtower_challenges inp) \<and>
    (\<forall>c \<in> set (oi_watchtower_challenges inp). challenge_answered E inp hout cout height c)"
proof -
  from propose_accepts [OF assms(1)] assms(2-4) obtain sout seqs authorized init_txn where
    acc: "chains_accepted E (oi_genesis_sequencer_commit_txid inp) (oi_header_chain inp) (oi_commit_chain inp) (oi_state_chain inp)
      (oi_spv_ss_commit inp) hout cout sout seqs height authorized"
    and ind: "validate_watchtower_challenge_indices (u256_to_le_bits (oi_included_watchtowers inp)) (length (oi_watchtower_keys inp))
      (map iw_node_index (oi_watchtower_challenges inp)) = Inr ()"
    and init: "checked_challenge_init_transaction (le_bitcoin E) (oi_watchtower_challenge_init_txid inp)
      (oi_watchtower_challenge_init_txn inp) (oi_watchtower_challenges inp \<noteq> []) = Some init_txn"
    and checked: "check_watchtower_challenges E (oi_graph_id inp) (oi_watchtower_challenge_init_txid inp) init_txn (oi_watchtower_keys inp)
      (hco_chain_state hout) (ap_watchtower authorized) height (oi_watchtower_challenges inp) = Some ()"
    and inc: "included = to_le_bytes 32 (oi_included_watchtowers inp)"
    by (auto simp: chains_accepted_def)
  have ids: "authorized = cs_authorized_program_ids (cco_chain_state cout)"
    using acc authorization_Some(4) unfolding chains_accepted_def by blast
  note bits = indices_of_bitmap [OF ind]
  have "challenge_answered E inp hout cout height c" if c: "c \<in> set (oi_watchtower_challenges inp)" for c
  proof -
  note ch = challenge_checked [OF challenges_checked [OF checked c]]
  have "unat (iw_node_index c) < length (oi_watchtower_keys inp)" using bits(1) c by (auto simp: list_all_iff)
  moreover have "init_txn = oi_watchtower_challenge_init_txn inp"
      "\<And>t. init_txn = Some t \<Longrightarrow> be_compute_txid (le_bitcoin E) t = oi_watchtower_challenge_init_txid inp"
    using init by (auto simp: checked_challenge_init_transaction_def bind_eq_Some_conv split: option.splits)
  moreover have "from_be_bytes (wc_total_work w) \<le> total_work (hco_chain_state hout) \<and>
      from_le_bytes (wc_consensus_block_height w) \<le> height"
    if "counted_commitment E (oi_graph_id inp) (ap_watchtower (cs_authorized_program_ids (cco_chain_state cout)))
      (spv_transaction (iw_spv c)) w" for w
    using counted_work [OF ch(5)] that ids by simp
  ultimately show ?thesis unfolding challenge_answered_def using ch(1,2,4) by blast
  qed
  with inc bits(2) show ?thesis by simp
qed

theorem operator_outweighs_challenges_witness:
  "counted_commitment example_light_env 77 ROOT_COMMIT_PROGRAM_ID example_challenge_tx example_claim \<and>
   challenge_answered example_light_env example_operator_input example_header_out example_commit_out 0 example_challenge"
proof -
  have out: "le_decode_commit example_light_env pv = Some example_commit_out" "le_read_header example_light_env pv = Some example_header_out"
    for pv by (simp_all add: example_light_env_def)
  have "spv_verify (le_sha256 example_light_env) (le_consensus example_light_env) (oi_spv_ss_commit example_operator_input)
      (block_hashes_mmr (hco_chain_state example_header_out)) = Some 0"
    using example_accepted by (simp add: chains_accepted_def example_operator_input_def)
  from operator_outweighs_challenges [OF example_propose out(2,1) this] example_counted show ?thesis
    by (simp add: example_operator_input_def)
qed



end
