(* ===== verification/P2pGuards.thy ===== *)
theory P2pGuards
  imports Prelude "HOL-Library.AList"
begin

text \<open>
  The guards of the peer-to-peer admission that keep only local state: size limits and quotas
  (\<^verbatim>\<open>src/node/src/p2p_admission/limits.rs\<close>), strikes and bans (\<^verbatim>\<open>strikes.rs\<close>), cooldown gates (\<^verbatim>\<open>gates.rs\<close>) and the replay
  windows (\<^verbatim>\<open>replay.rs\<close>).

  An \<^verbatim>\<open>Instant\<close> and a \<^verbatim>\<open>Duration\<close> are numbers of nanoseconds, so that \<^verbatim>\<open>saturating_duration_since\<close> is the subtraction of
  natural numbers. A peer id is its bytes. A \<^verbatim>\<open>HashMap\<close> is the association list of its entries in the order it
  iterates over them. A method behind a \<^verbatim>\<open>Mutex\<close> is a function on the state it locks; the calls are the
  interleaving that the lock admits, one after the other.

  The lemmas show that the tables stay bounded, that an action is allowed at most once per cooldown, that a ban
  takes the full number of strikes within a window, and that no sequence number is admitted twice.
\<close>

section \<open>Time and tables\<close>

type_synonym peer_id = bytes

definition from_secs :: "nat \<Rightarrow> nat" where
  "from_secs s = s * 1000000000"

lemma map_of_filter_key:
  assumes "distinct (map fst m)"
  shows "map_of (filter P m) k = (case map_of m k of None \<Rightarrow> None | Some v \<Rightarrow> if P (k, v) then Some v else None)"
  using assms
proof (induction m)
  case (Cons e m)
  obtain j v where e: "e = (j, v)" by (cases e)
  with Cons.prems have fresh: "map_of m j = None" by (simp add: map_of_eq_None_iff)
  then have "map_of (filter P m) j = None" by (auto simp: map_of_eq_None_iff)
  with Cons e fresh show ?case by (auto split: option.splits)
qed simp

lemma distinct_filter_keys: "distinct (map fst m) \<Longrightarrow> distinct (map fst (filter P m))"
  by (induction m) auto

lemma map_of_Some_key: "map_of m k \<noteq> None \<longleftrightarrow> k \<in> fst ` set m"
  by (simp add: map_of_eq_None_iff)

lemma length_update: "length (AList.update k v m) = (if map_of m k = None then length m + 1 else length m)"
  by (induction m) (auto split: if_splits)

lemma length_delete_le: "length (AList.delete k m) \<le> length m"
  by (simp add: AList.delete_eq)

section \<open>Limits\<close>

record quota =
  q_rows :: int
  q_bytes :: int

definition admits :: "quota \<Rightarrow> int \<Rightarrow> int \<Rightarrow> bool" where
  "admits q rows bytes \<longleftrightarrow> rows \<le> q_rows q \<and> bytes \<le> q_bytes q"

record inbound_limits =
  max_json_bytes :: nat
  max_binary_bytes :: nat
  lim_global :: quota
  committee_reserve :: quota
  registered_peer :: quota

definition MAX_GOSSIPSUB_TRANSMIT_SIZE :: nat where
  "MAX_GOSSIPSUB_TRANSMIT_SIZE = 16 * 1024 * 1024"

definition with_inbox_bytes :: "nat \<Rightarrow> int \<Rightarrow> inbound_limits" where
  "with_inbox_bytes max_json max_inbox = \<lparr>
     max_json_bytes = max_json, max_binary_bytes = MAX_GOSSIPSUB_TRANSMIT_SIZE,
     lim_global = \<lparr> q_rows = 16384, q_bytes = max_inbox \<rparr>,
     committee_reserve = \<lparr> q_rows = 4096, q_bytes = max_inbox sdiv 4 \<rparr>,
     registered_peer = \<lparr> q_rows = 1024, q_bytes = max_inbox sdiv 8 \<rparr> \<rparr>"

section \<open>Reasons for a drop\<close>

datatype DropReason =
    OversizedJson | OversizedBinary | BinaryFromNonVerifier | EndorsementFromNonVerifier | ReplayedSequence | FutureSequence
  | ForwardRate | DirectPeerRate | AuthorRate | UnregisteredRate | GlobalRate | Undecodable | UnexpectedBinaryKind
  | ImmediateRateLimited | ControlQueueFull | SenderQuota | GlobalQuota | NodeTableFull | NodeInfoRejected | DuplicatePayload

definition blames_direct_peer :: "DropReason \<Rightarrow> bool" where
  "blames_direct_peer r \<longleftrightarrow> r \<in> {OversizedBinary, Undecodable, UnexpectedBinaryKind}"

definition after_decode :: "DropReason \<Rightarrow> bool" where
  "after_decode r \<longleftrightarrow>
     r \<in> {UnexpectedBinaryKind, EndorsementFromNonVerifier, ForwardRate, ImmediateRateLimited, ControlQueueFull, SenderQuota,
          GlobalQuota}"

section \<open>Strikes\<close>

definition STRIKE_WINDOW :: nat where "STRIKE_WINDOW = from_secs 60"

definition STRIKE_LIMIT :: nat where "STRIKE_LIMIT = 256"

definition STRIKE_BAN :: nat where "STRIKE_BAN = from_secs (10 * 60)"

definition STRIKE_MAX_TRACKED_PEERS :: nat where "STRIKE_MAX_TRACKED_PEERS = 4096"

record strike_state =
  strikes :: "(peer_id \<times> nat \<times> nat) list"
  banned_until :: "(peer_id \<times> nat) list"

definition strike_state_new :: strike_state where
  "strike_state_new = \<lparr> strikes = [], banned_until = [] \<rparr>"

text \<open>Whether there is room for \<open>peer\<close>, and the table after making it.\<close>

definition strike_room :: "peer_id \<Rightarrow> nat \<Rightarrow> (peer_id \<times> nat \<times> nat) list \<Rightarrow> bool \<times> (peer_id \<times> nat \<times> nat) list" where
  "strike_room peer now t =
     (if map_of t peer = None \<and> STRIKE_MAX_TRACKED_PEERS \<le> length t
      then let kept = filter (\<lambda>(_, started_at, _). now - started_at < STRIKE_WINDOW) t
           in (length kept < STRIKE_MAX_TRACKED_PEERS, kept)
      else (True, t))"

definition strike :: "peer_id \<Rightarrow> nat \<Rightarrow> strike_state \<Rightarrow> bool \<times> strike_state" where
  "strike peer now s =
     (if map_of (banned_until s) peer \<noteq> None then (False, s)
      else
        let (room, t) = strike_room peer now (strikes s)
        in if \<not> room then (False, s\<lparr> strikes := t \<rparr>)
           else
             let (started_at, count) = (case map_of t peer of None \<Rightarrow> (now, 0) | Some e \<Rightarrow> e);
                 (started_at, count) = (if STRIKE_WINDOW \<le> now - started_at then (now, 0) else (started_at, count));
                 count = count + 1
             in if count < STRIKE_LIMIT then (False, s\<lparr> strikes := AList.update peer (started_at, count) t \<rparr>)
                else (True, s\<lparr> strikes := AList.delete peer t,
                              banned_until := AList.update peer (now + STRIKE_BAN) (banned_until s) \<rparr>))"

definition is_banned :: "peer_id \<Rightarrow> nat \<Rightarrow> strike_state \<Rightarrow> bool" where
  "is_banned peer now s = (case map_of (banned_until s) peer of None \<Rightarrow> False | Some until \<Rightarrow> now < until)"

definition take_expired_bans :: "nat \<Rightarrow> strike_state \<Rightarrow> peer_id list \<times> strike_state" where
  "take_expired_bans now s =
     (let expired = map fst (filter (\<lambda>(_, until). until \<le> now) (banned_until s))
      in (expired, s\<lparr> banned_until := fold AList.delete expired (banned_until s) \<rparr>))"

definition REFUSED_PEERS_MAX :: nat where "REFUSED_PEERS_MAX = 256"

definition note_refused_peer :: "peer_id \<Rightarrow> peer_id list \<Rightarrow> peer_id list" where
  "note_refused_peer peer refused =
     (if length refused < REFUSED_PEERS_MAX \<and> peer \<notin> set refused then refused @ [peer] else refused)"

definition take_refused_peers :: "peer_id list \<Rightarrow> peer_id list \<times> peer_id list" where
  "take_refused_peers refused = (refused, [])"

section \<open>Gates\<close>

record response_gate_state =
  rg_sent_at :: "nat option"
  rg_pending :: bool

definition response_gate_new :: response_gate_state where
  "response_gate_new = \<lparr> rg_sent_at = None, rg_pending = False \<rparr>"

definition cooled_down :: "nat \<Rightarrow> response_gate_state \<Rightarrow> nat \<Rightarrow> bool" where
  "cooled_down cooldown s now = (case rg_sent_at s of None \<Rightarrow> True | Some sent_at \<Rightarrow> cooldown \<le> now - sent_at)"

definition try_respond :: "nat \<Rightarrow> nat \<Rightarrow> response_gate_state \<Rightarrow> bool \<times> response_gate_state" where
  "try_respond cooldown now s =
     (if cooled_down cooldown s now then (True, s\<lparr> rg_sent_at := Some now, rg_pending := False \<rparr>)
      else (False, s\<lparr> rg_pending := True \<rparr>))"

definition take_pending :: "nat \<Rightarrow> nat \<Rightarrow> response_gate_state \<Rightarrow> bool \<times> response_gate_state" where
  "take_pending cooldown now s =
     (if rg_pending s \<and> cooled_down cooldown s now then (True, s\<lparr> rg_sent_at := Some now, rg_pending := False \<rparr>)
      else (False, s))"

definition GATE_SWEEP_INTERVAL :: nat where "GATE_SWEEP_INTERVAL = from_secs 5"

record bounded_stamps =
  stamps :: "(string \<times> nat) list"
  bs_swept_at :: "nat option"

definition bounded_stamps_new :: bounded_stamps where
  "bounded_stamps_new = \<lparr> stamps = [], bs_swept_at = None \<rparr>"

definition is_live :: "string \<Rightarrow> nat \<Rightarrow> nat \<Rightarrow> bounded_stamps \<Rightarrow> bool" where
  "is_live key ttl now s = (case map_of (stamps s) key of None \<Rightarrow> False | Some at \<Rightarrow> now - at < ttl)"

text \<open>\<^verbatim>\<open>Option::is_none_or\<close> on the time of the last sweep.\<close>

definition sweep_due :: "nat \<Rightarrow> nat \<Rightarrow> nat option \<Rightarrow> bool" where
  "sweep_due interval now swept_at = (case swept_at of None \<Rightarrow> True | Some at \<Rightarrow> interval \<le> now - at)"

definition stamp :: "string \<Rightarrow> nat \<Rightarrow> nat \<Rightarrow> nat \<Rightarrow> bounded_stamps \<Rightarrow> bool \<times> bounded_stamps" where
  "stamp key ttl max_entries now s =
     (let full = (map_of (stamps s) key = None \<and> max_entries \<le> length (stamps s));
          s = (if full \<and> sweep_due GATE_SWEEP_INTERVAL now (bs_swept_at s)
               then s\<lparr> bs_swept_at := Some now, stamps := filter (\<lambda>(_, at). now - at < ttl) (stamps s) \<rparr> else s)
      in if full \<and> max_entries \<le> length (stamps s) then (False, s)
         else (True, s\<lparr> stamps := AList.update key now (stamps s) \<rparr>))"

definition cooldown_allow :: "nat \<Rightarrow> nat \<Rightarrow> string \<Rightarrow> nat \<Rightarrow> bounded_stamps \<Rightarrow> bool \<times> bounded_stamps" where
  "cooldown_allow cooldown max_entries key now s =
     (if is_live key cooldown now s then (False, s) else stamp key cooldown max_entries now s)"

definition node_table_purge_due :: "nat \<Rightarrow> nat \<Rightarrow> nat option \<Rightarrow> bool \<times> nat option" where
  "node_table_purge_due interval now purged_at =
     (if (case purged_at of None \<Rightarrow> False | Some at \<Rightarrow> now - at < interval) then (False, purged_at) else (True, Some now))"

section \<open>Replay windows\<close>

definition REPLAY_WINDOW :: nat where "REPLAY_WINDOW = 1024"

definition REPLAY_MAX_TRACKED_AUTHORS :: nat where "REPLAY_MAX_TRACKED_AUTHORS = 16384"

definition REPLAY_MAX_FUTURE :: nat where "REPLAY_MAX_FUTURE = from_secs (10 * 60)"

definition REPLAY_LOCKOUT_SUSPECT_REJECTIONS :: nat where "REPLAY_LOCKOUT_SUSPECT_REJECTIONS = 8"

definition CLOCK_LEADS_MAX_AUTHORS :: nat where "CLOCK_LEADS_MAX_AUTHORS = 64"

definition u64_saturating_add :: "nat \<Rightarrow> nat \<Rightarrow> nat" where
  "u64_saturating_add a b = min (a + b) (2 ^ 64 - 1)"

record author_sequence =
  as_highest :: nat
  as_recent :: "nat set"
  as_rejected :: nat

definition author_sequence_new :: author_sequence where
  "author_sequence_new = \<lparr> as_highest = 0, as_recent = {}, as_rejected = 0 \<rparr>"

record replay_guard =
  rp_authors :: "(peer_id \<times> author_sequence) list"
  rp_clock_leads :: "(peer_id \<times> nat) list"

definition replay_guard_new :: replay_guard where
  "replay_guard_new = \<lparr> rp_authors = [], rp_clock_leads = [] \<rparr>"

definition note_clock_lead :: "peer_id \<Rightarrow> nat \<Rightarrow> replay_guard \<Rightarrow> replay_guard" where
  "note_clock_lead author lead_nanos g =
     (let leads = rp_clock_leads g
      in if length leads < CLOCK_LEADS_MAX_AUTHORS \<or> map_of leads author \<noteq> None
         then let lead = (case map_of leads author of None \<Rightarrow> 0 | Some l \<Rightarrow> l)
              in g\<lparr> rp_clock_leads := AList.update author (max lead lead_nanos) leads \<rparr>
         else g)"

text \<open>The table after evicting the first entry if it is full and \<open>author\<close> is new.\<close>

definition evict_author :: "peer_id \<Rightarrow> (peer_id \<times> author_sequence) list \<Rightarrow> (peer_id \<times> author_sequence) list" where
  "evict_author author authors =
     (if map_of authors author = None \<and> REPLAY_MAX_TRACKED_AUTHORS \<le> length authors then tl authors else authors)"

definition admit_sequence :: "nat \<Rightarrow> author_sequence \<Rightarrow> (DropReason + unit) \<times> author_sequence" where
  "admit_sequence n st =
     (if as_highest st < n
      then (Inr (), st\<lparr> as_highest := n, as_recent := insert n {m \<in> as_recent st. n - REPLAY_WINDOW \<le> m} \<rparr>)
      else if REPLAY_WINDOW \<le> as_highest st - n \<or> n \<in> as_recent st
      then (Inl ReplayedSequence, st\<lparr> as_rejected := min (as_rejected st + 1) (2 ^ 32 - 1) \<rparr>)
      else (Inr (), st\<lparr> as_recent := insert n (as_recent st) \<rparr>))"

definition replay_admit :: "peer_id \<Rightarrow> nat option \<Rightarrow> nat \<Rightarrow> replay_guard \<Rightarrow> (DropReason + unit) \<times> replay_guard" where
  "replay_admit author sequence_number unix_nanos g =
     (case sequence_number of
        None \<Rightarrow> (Inl ReplayedSequence, g)
      | Some n \<Rightarrow>
          let g = (if unix_nanos < n then note_clock_lead author (n - unix_nanos) g else g)
          in if u64_saturating_add unix_nanos REPLAY_MAX_FUTURE < n then (Inl FutureSequence, g)
             else
               let authors = evict_author author (rp_authors g);
                   st = (case map_of authors author of None \<Rightarrow> author_sequence_new | Some st \<Rightarrow> st);
                   (r, st') = admit_sequence n st
               in (r, g\<lparr> rp_authors := AList.update author st' authors \<rparr>))"

definition take_clock_leads :: "replay_guard \<Rightarrow> (peer_id \<times> nat) list \<times> replay_guard" where
  "take_clock_leads g = (rp_clock_leads g, g\<lparr> rp_clock_leads := [] \<rparr>)"

definition take_lockout_suspects :: "replay_guard \<Rightarrow> (peer_id \<times> nat) list \<times> replay_guard" where
  "take_lockout_suspects g =
     (map (\<lambda>(a, st). (a, as_rejected st))
        (filter (\<lambda>(_, st). REPLAY_LOCKOUT_SUSPECT_REJECTIONS \<le> as_rejected st) (rp_authors g)),
      g\<lparr> rp_authors := map (\<lambda>(a, st). (a, st\<lparr> as_rejected := 0 \<rparr>)) (rp_authors g) \<rparr>)"

section \<open>Gates: at most once per cooldown\<close>

text \<open>The outcomes of a sequence of calls, each at its time.\<close>

primrec gate_run :: "('o \<Rightarrow> nat \<Rightarrow> 's \<Rightarrow> bool \<times> 's) \<Rightarrow> ('o \<times> nat) list \<Rightarrow> 's \<Rightarrow> ('o \<times> nat \<times> bool) list" where
  "gate_run step [] s = []"
| "gate_run step (c # cs) s =
     (let (allowed, s') = step (fst c) (snd c) s in (fst c, snd c, allowed) # gate_run step cs s')"

text \<open>
  What a gate promises: it knows when a key was last allowed, allows it only after the cooldown, and forgets a key only
  after the cooldown.
\<close>

locale cooldown_contract =
  fixes step :: "'o \<Rightarrow> nat \<Rightarrow> 's \<Rightarrow> bool \<times> 's"
    and key_of :: "'o \<Rightarrow> 'k"
    and last_at :: "'s \<Rightarrow> 'k \<Rightarrow> nat option"
    and good :: "'s \<Rightarrow> bool"
    and cooldown :: nat
  assumes step_good: "good s \<Longrightarrow> step c now s = (b, s') \<Longrightarrow> good s'"
    and step_allowed: "good s \<Longrightarrow> step c now s = (True, s') \<Longrightarrow>
      last_at s' (key_of c) = Some now \<and> (\<forall>at. last_at s (key_of c) = Some at \<longrightarrow> cooldown \<le> now - at)"
    and step_kept: "good s \<Longrightarrow> step c now s = (b, s') \<Longrightarrow> k \<noteq> key_of c \<or> \<not> b \<Longrightarrow>
      last_at s' k = last_at s k \<or> (\<forall>at. last_at s k = Some at \<longrightarrow> cooldown \<le> now - at)"
begin

lemma run_after_allowed:
  assumes "good s" "last_at s (key_of c) = Some at" "sorted (at # map snd cs)"
    "(c', t, True) \<in> set (gate_run step cs s)" "key_of c' = key_of c"
  shows "cooldown \<le> t - at"
  using assms
proof (induction cs arbitrary: s at)
  case (Cons d cs)
  obtain o1 now where d: "d = (o1, now)" by (cases d)
  obtain b s' where step: "step o1 now s = (b, s')" by fastforce
  note good' = step_good [OF Cons.prems(1) step]
  have later: "now \<le> u" if "(x, u, y) \<in> set (gate_run step cs s')" for x u y
  proof -
    have "(x, u) \<in> set cs" using that
      by (induction cs arbitrary: s') (auto simp: Let_def split_beta)
    then show ?thesis using Cons.prems(3) d by force
  qed
  have le: "at \<le> now" using Cons.prems(3) d by simp
  show ?case
  proof (cases "b \<and> key_of o1 = key_of c")
    case True
    with step_allowed [OF Cons.prems(1), of o1 now s'] step Cons.prems(2) have
      new: "last_at s' (key_of c) = Some now" "cooldown \<le> now - at" by auto
    from Cons.prems(4) d step consider "t = now" | "(c', t, True) \<in> set (gate_run step cs s')" by auto
    then show ?thesis
    proof cases
      case 2
      with new(2) later [OF 2] show ?thesis by linarith
    qed (use new(2) in simp)
  next
    case False
    with Cons.prems(4,5) d step have rest: "(c', t, True) \<in> set (gate_run step cs s')" by auto
    from step_kept [OF Cons.prems(1) step, of "key_of c"] False Cons.prems(2)
    consider "last_at s' (key_of c) = Some at" | "cooldown \<le> now - at" by auto
    then show ?thesis
    proof cases
      case 1
      have "sorted (at # map snd cs)" using Cons.prems(3) by simp
      from Cons.IH [OF good' 1 this rest Cons.prems(5)] show ?thesis .
    next
      case 2
      with later [OF rest] show ?thesis by linarith
    qed
  qed
qed simp

text \<open>Two calls for the same key that were both allowed are at least the cooldown apart.\<close>

lemma run_apart:
  assumes "good s" "sorted (map snd cs)" "i < j" "j < length cs"
    "gate_run step cs s ! i = (c, t, True)" "gate_run step cs s ! j = (c', t', True)" "key_of c' = key_of c"
  shows "cooldown \<le> t' - t"
  using assms
proof (induction cs arbitrary: s i j)
  case (Cons d cs)
  obtain o1 now where d: "d = (o1, now)" by (cases d)
  obtain b s' where step: "step o1 now s = (b, s')" by fastforce
  note good' = step_good [OF Cons.prems(1) step]
  have len: "length (gate_run step cs s') = length cs" by (induction cs arbitrary: s') (simp_all add: Let_def split_beta)
  obtain j' where j: "j = Suc j'" using Cons.prems(3) by (cases j) auto
  show ?case
  proof (cases i)
    case 0
    with Cons.prems(5) d step have first: "c = o1" "t = now" b by auto
    then have "last_at s' (key_of c) = Some t" using step_allowed [OF Cons.prems(1)] step by auto
    moreover have "(c', t', True) \<in> set (gate_run step cs s')"
      using Cons.prems(4,6) d step j len by (metis Suc_less_eq fst_conv gate_run.simps(2) length_Cons nth_Cons_Suc nth_mem
        old.prod.case snd_conv)
    moreover have "sorted (t # map snd cs)" using Cons.prems(2) d first by simp
    ultimately show ?thesis using run_after_allowed [OF good'] Cons.prems(7) by blast
  next
    case (Suc i')
    with Cons.prems j d step show ?thesis by (intro Cons.IH [OF good', of i' j']) auto
  qed
qed simp

end

lemma stamp_cases:
  assumes "distinct (map fst (stamps s))" "stamp key ttl n now s = (b, s')"
  shows "distinct (map fst (stamps s'))"
    "b \<Longrightarrow> map_of (stamps s') key = Some now"
    "k \<noteq> key \<or> \<not> b \<Longrightarrow> map_of (stamps s') k = map_of (stamps s) k \<or> (\<forall>at. map_of (stamps s) k = Some at \<longrightarrow> ttl \<le> now - at)"
  using assms
  by (auto simp: stamp_def Let_def distinct_update update_conv' map_of_filter_key distinct_filter_keys
    split: if_splits option.splits)

lemma stamp_bounded:
  assumes "stamp key ttl n now s = (b, s')" "length (stamps s) \<le> n"
  shows "length (stamps s') \<le> n"
  using assms
  by (auto simp: stamp_def Let_def length_update split: if_splits intro: order_trans [OF length_filter_le] le_antisym [OF length_filter_le])

interpretation keyed_gate: cooldown_contract "\<lambda>key. cooldown_allow cooldown n key" id "\<lambda>s. map_of (stamps s)"
  "\<lambda>s. distinct (map fst (stamps s))" cooldown for cooldown n
proof unfold_locales
  show "distinct (map fst (stamps s'))"
    if "distinct (map fst (stamps s))" "cooldown_allow cooldown n c now s = (b, s')" for s c now b s'
    using that stamp_cases(1) by (auto simp: cooldown_allow_def split: if_splits)
  show "map_of (stamps s') (id c) = Some now \<and> (\<forall>at. map_of (stamps s) (id c) = Some at \<longrightarrow> cooldown \<le> now - at)"
    if "distinct (map fst (stamps s))" "cooldown_allow cooldown n c now s = (True, s')" for s c now s'
    using that stamp_cases(2) [of s c cooldown n now True s']
    by (cases "map_of (stamps s) c") (simp_all add: cooldown_allow_def is_live_def split: if_splits)
  show "map_of (stamps s') k = map_of (stamps s) k \<or> (\<forall>at. map_of (stamps s) k = Some at \<longrightarrow> cooldown \<le> now - at)"
    if "distinct (map fst (stamps s))" "cooldown_allow cooldown n c now s = (b, s')" "k \<noteq> id c \<or> \<not> b" for s c now b s' k
    using that stamp_cases(3) [of s c cooldown n now b s' k] by (auto simp: cooldown_allow_def split: if_splits)
qed

text \<open>A response gate has two ways to respond: to a request at once, or to a remembered one.\<close>

definition respond :: "nat \<Rightarrow> bool \<Rightarrow> nat \<Rightarrow> response_gate_state \<Rightarrow> bool \<times> response_gate_state" where
  "respond cooldown request now s = (if request then try_respond cooldown now s else take_pending cooldown now s)"

interpretation response_gate: cooldown_contract "respond cooldown" "\<lambda>_. ()" "\<lambda>s _. rg_sent_at s" "\<lambda>_. True" cooldown
  for cooldown
  by unfold_locales
    (auto simp: respond_def try_respond_def take_pending_def cooled_down_def split: if_splits option.splits)

interpretation purge_gate: cooldown_contract "\<lambda>_. node_table_purge_due interval" "\<lambda>_. ()" "\<lambda>s _. s" "\<lambda>_. True" interval
  for interval
  by unfold_locales (auto simp: node_table_purge_due_def split: if_splits option.splits)

section \<open>Strikes\<close>

text \<open>
  Reachable strike tables with the history of strikes, the latest first; expired bans are taken at any
  time. The clock does not go back.
\<close>

inductive strike_run :: "(peer_id \<times> nat) list \<Rightarrow> strike_state \<Rightarrow> bool" where
  start: "strike_run [] strike_state_new"
| struck: "strike_run h s \<Longrightarrow> list_all (\<lambda>(_, t). t \<le> now) h \<Longrightarrow> strike peer now s = (b, s') \<Longrightarrow> strike_run ((peer, now) # h) s'"
| expired: "strike_run h s \<Longrightarrow> take_expired_bans now s = (ps, s') \<Longrightarrow> strike_run h s'"

definition strikes_since :: "peer_id \<Rightarrow> nat \<Rightarrow> (peer_id \<times> nat) list \<Rightarrow> nat" where
  "strikes_since peer at h = length (filter (\<lambda>(p, t). p = peer \<and> at \<le> t) h)"

definition strike_inv :: "(peer_id \<times> nat) list \<Rightarrow> strike_state \<Rightarrow> bool" where
  "strike_inv h s \<longleftrightarrow>
     distinct (map fst (strikes s)) \<and> length (strikes s) \<le> STRIKE_MAX_TRACKED_PEERS \<and>
     (\<forall>peer started_at count. map_of (strikes s) peer = Some (started_at, count) \<longrightarrow>
        0 < count \<and> count < STRIKE_LIMIT \<and> count \<le> strikes_since peer started_at h)"

lemma strikes_since_Cons:
  "strikes_since peer at ((p, t) # h) = (if p = peer \<and> at \<le> t then 1 else 0) + strikes_since peer at h"
  by (simp add: strikes_since_def)

lemma strike_room_inv:
  assumes "strike_inv h s" "strike_room peer now (strikes s) = (room, t)"
  shows "strike_inv h (s\<lparr> strikes := t \<rparr>)" "room \<Longrightarrow> map_of t peer = None \<Longrightarrow> length t < STRIKE_MAX_TRACKED_PEERS"
  using assms
  by (auto simp: strike_inv_def strike_room_def Let_def distinct_filter_keys map_of_filter_key
    intro: order_trans [OF length_filter_le] split: if_splits option.splits)

text \<open>The entry that a strike of \<open>peer\<close> continues, and the strikes since its start.\<close>

lemma strike_inv_step:
  assumes "strike_inv h s" "list_all (\<lambda>(_, t). t \<le> now) h" "strike peer now s = (b, s')"
  shows "strike_inv ((peer, now) # h) s' \<and>
    (b \<longrightarrow> (\<exists>at. now - at < STRIKE_WINDOW \<and> STRIKE_LIMIT \<le> strikes_since peer at ((peer, now) # h)) \<and>
       map_of (banned_until s') peer = Some (now + STRIKE_BAN))"
proof (cases "map_of (banned_until s) peer")
  case (Some u)
  with assms show ?thesis by (auto simp: strike_def strike_inv_def strikes_since_Cons trans_le_add2)
next
  case None
  obtain room t where room: "strike_room peer now (strikes s) = (room, t)" by fastforce
  note inv = strike_room_inv(1) [OF assms(1) room] and space = strike_room_inv(2) [OF assms(1) room]
  obtain at0 c0 where e0: "(case map_of t peer of None \<Rightarrow> (now, 0) | Some e \<Rightarrow> e) = (at0, c0)" by fastforce
  obtain at c where e: "(if STRIKE_WINDOW \<le> now - at0 then (now, 0) else (at0, c0)) = (at, c)" by fastforce
  have W: "0 < STRIKE_WINDOW" "0 < STRIKE_LIMIT" "1 < STRIKE_LIMIT" by (simp_all add: STRIKE_WINDOW_def STRIKE_LIMIT_def from_secs_def)
  have old: "c0 < STRIKE_LIMIT \<and> c0 \<le> strikes_since peer at0 h \<and> at0 \<le> now"
  proof (cases "map_of t peer")
    case (Some x)
    then have c0: "0 < c0" "c0 < STRIKE_LIMIT" "c0 \<le> strikes_since peer at0 h"
      using inv e0 by (auto simp: strike_inv_def)
    then have "filter (\<lambda>(p, t). p = peer \<and> at0 \<le> t) h \<noteq> []" by (auto simp: strikes_since_def)
    then have "at0 \<le> now" using assms(2) by (force simp: filter_empty_conv list_all_iff)
    with c0 show ?thesis by simp
  qed (use e0 W in simp)
  have recent: "now - at < STRIKE_WINDOW" using e W by (auto split: if_splits)
  have count: "c < STRIKE_LIMIT" "c + 1 \<le> strikes_since peer at ((peer, now) # h)"
    using e old W by (auto simp: strikes_since_Cons split: if_splits)
  have step: "(b, s') = (if \<not> room then (False, s\<lparr> strikes := t \<rparr>)
      else if c + 1 < STRIKE_LIMIT then (False, s\<lparr> strikes := AList.update peer (at, c + 1) t \<rparr>)
      else (True, s\<lparr> strikes := AList.delete peer t, banned_until := AList.update peer (now + STRIKE_BAN) (banned_until s) \<rparr>))"
    using assms(3) None room e0 e by (simp add: strike_def Let_def split: if_splits)
  have more: "m \<le> strikes_since q a ((peer, now) # h)" if "m \<le> strikes_since q a h" for m q a
    using that by (simp add: strikes_since_Cons)
  consider "\<not> room" | "room" "c + 1 < STRIKE_LIMIT" | "room" "\<not> c + 1 < STRIKE_LIMIT" by blast
  then show ?thesis
  proof cases
    case 1
    with step inv more show ?thesis by (auto simp: strike_inv_def)
  next
    case 2
    with step inv more count(2) space show ?thesis
      by (auto simp: strike_inv_def distinct_update update_conv' length_update split: if_splits)
  next
    case 3
    then have "STRIKE_LIMIT \<le> strikes_since peer at ((peer, now) # h)" using count by simp
    with 3 step inv more recent show ?thesis
      by (auto simp: strike_inv_def distinct_delete delete_conv' update_conv' intro: order_trans [OF length_delete_le] split: if_splits)
  qed
qed

lemma strike_run_inv: "strike_run h s \<Longrightarrow> strike_inv h s"
proof (induction rule: strike_run.induct)
  case start
  then show ?case by (simp add: strike_inv_def strike_state_new_def)
next
  case (struck h s now peer b s')
  then show ?case using strike_inv_step by blast
next
  case (expired h s now ps s')
  then show ?case by (auto simp: strike_inv_def take_expired_bans_def Let_def)
qed

section \<open>Replay\<close>

text \<open>
  The operations of the guard, and the specification: an author's number is admitted unless it is too far in
  the future, was admitted before, or lies a window or more below an admitted number.
\<close>

datatype replay_op = Admit peer_id "nat option" nat | TakeClockLeads | TakeLockoutSuspects

primrec replay_step :: "replay_op \<Rightarrow> replay_guard \<Rightarrow> (DropReason + unit) option \<times> replay_guard" where
  "replay_step (Admit a n nanos) g = (let (r, g') = replay_admit a n nanos g in (Some r, g'))"
| "replay_step TakeClockLeads g = (None, snd (take_clock_leads g))"
| "replay_step TakeLockoutSuspects g = (None, snd (take_lockout_suspects g))"

primrec replay_outputs :: "replay_op list \<Rightarrow> replay_guard \<Rightarrow> (DropReason + unit) option list" where
  "replay_outputs [] g = []"
| "replay_outputs (c # cs) g = (let (r, g') = replay_step c g in r # replay_outputs cs g')"

definition spec_admit :: "nat option \<Rightarrow> nat \<Rightarrow> nat set \<Rightarrow> DropReason + unit" where
  "spec_admit sequence_number nanos admitted =
     (case sequence_number of
        None \<Rightarrow> Inl ReplayedSequence
      | Some n \<Rightarrow>
          if u64_saturating_add nanos REPLAY_MAX_FUTURE < n then Inl FutureSequence
          else if n \<in> admitted \<or> (\<exists>m \<in> admitted. REPLAY_WINDOW \<le> m - n) then Inl ReplayedSequence
          else Inr ())"

primrec spec_step :: "replay_op \<Rightarrow> (peer_id \<Rightarrow> nat set) \<Rightarrow> (DropReason + unit) option \<times> (peer_id \<Rightarrow> nat set)" where
  "spec_step (Admit a n nanos) A =
     (let r = spec_admit n nanos (A a)
      in (Some r, if r = Inr () then A(a := insert (the n) (A a)) else A))"
| "spec_step TakeClockLeads A = (None, A)"
| "spec_step TakeLockoutSuspects A = (None, A)"

primrec spec_outputs :: "replay_op list \<Rightarrow> (peer_id \<Rightarrow> nat set) \<Rightarrow> (DropReason + unit) option list" where
  "spec_outputs [] A = []"
| "spec_outputs (c # cs) A = (let (r, A') = spec_step c A in r # spec_outputs cs A')"

text \<open>The window of an author represents the set of numbers admitted for it.\<close>

definition window_of :: "author_sequence \<Rightarrow> nat set \<Rightarrow> bool" where
  "window_of st N \<longleftrightarrow>
     (\<forall>n \<in> N. n \<le> as_highest st) \<and> (N \<noteq> {} \<longrightarrow> as_highest st \<in> N) \<and> (N = {} \<longrightarrow> as_highest st = 0) \<and>
     as_recent st \<subseteq> N \<and> (\<forall>n \<in> N. as_highest st - n < REPLAY_WINDOW \<longrightarrow> n \<in> as_recent st)"

lemma window_new: "window_of author_sequence_new {}"
  by (simp add: window_of_def author_sequence_new_def)

lemma admit_sequence_spec:
  assumes "window_of st N"
  shows "fst (admit_sequence n st) = (if n \<in> N \<or> (\<exists>m \<in> N. REPLAY_WINDOW \<le> m - n) then Inl ReplayedSequence else Inr ())"
    "window_of (snd (admit_sequence n st)) (if fst (admit_sequence n st) = Inr () then insert n N else N)"
proof -
  have W: "0 < REPLAY_WINDOW" by (simp add: REPLAY_WINDOW_def)
  consider "as_highest st < n" | "n \<le> as_highest st" "N = {}" | "n \<le> as_highest st" "as_highest st \<in> N"
    using assms unfolding window_of_def by (meson not_le)
  note c = this
  show "fst (admit_sequence n st) = (if n \<in> N \<or> (\<exists>m \<in> N. REPLAY_WINDOW \<le> m - n) then Inl ReplayedSequence else Inr ())"
  proof (cases rule: c)
    case 1
    then have "n \<notin> N" "\<And>m. m \<in> N \<Longrightarrow> m - n = 0" using assms by (auto simp: window_of_def)
    with 1 W show ?thesis by (auto simp: admit_sequence_def)
  next
    case 2
    with assms W show ?thesis by (auto simp: admit_sequence_def window_of_def)
  next
    case 3
    then have "(\<exists>m \<in> N. REPLAY_WINDOW \<le> m - n) \<longleftrightarrow> REPLAY_WINDOW \<le> as_highest st - n"
      using assms by (force simp: window_of_def)
    with 3 assms show ?thesis by (auto simp: admit_sequence_def window_of_def)
  qed
  show "window_of (snd (admit_sequence n st)) (if fst (admit_sequence n st) = Inr () then insert n N else N)"
  proof (cases rule: c)
    case 1
    with assms W show ?thesis by (fastforce simp: admit_sequence_def window_of_def)
  next
    case 2
    with assms W show ?thesis by (auto simp: admit_sequence_def window_of_def)
  next
    case 3
    with assms show ?thesis by (auto simp: admit_sequence_def window_of_def insert_absorb)
  qed
qed

definition author_window :: "(peer_id \<times> author_sequence) list \<Rightarrow> peer_id \<Rightarrow> author_sequence" where
  "author_window m a = (case map_of m a of None \<Rightarrow> author_sequence_new | Some st \<Rightarrow> st)"

lemma author_window_update: "author_window (AList.update a st m) b = (if b = a then st else author_window m b)"
  by (simp add: author_window_def update_conv')

definition replay_inv :: "peer_id set \<Rightarrow> replay_guard \<Rightarrow> (peer_id \<Rightarrow> nat set) \<Rightarrow> bool" where
  "replay_inv P g A \<longleftrightarrow>
     distinct (map fst (rp_authors g)) \<and> fst ` set (rp_authors g) \<subseteq> P \<and> (\<forall>a. window_of (author_window (rp_authors g) a) (A a))"

lemma note_clock_lead_authors [simp]: "rp_authors (note_clock_lead a l g) = rp_authors g"
  by (simp add: note_clock_lead_def Let_def)

lemma evict_none:
  assumes "distinct (map fst m)" "fst ` set m \<subseteq> P" "a \<in> P" "finite P" "card P \<le> REPLAY_MAX_TRACKED_AUTHORS"
  shows "evict_author a m = m"
proof -
  have "length m < card P" if "map_of m a = None"
  proof -
    have "length m = card (fst ` set m)" using distinct_card [OF assms(1)] by simp
    also have "fst ` set m \<subset> P" using that assms(2,3) by (auto simp: map_of_eq_None_iff)
    then have "card (fst ` set m) < card P" using assms(4) by (intro psubset_card_mono)
    finally show ?thesis .
  qed
  with assms(5) show ?thesis by (auto simp: evict_author_def)
qed

lemma replay_admit_spec:
  assumes "replay_inv P g A" "a \<in> P" "finite P" "card P \<le> REPLAY_MAX_TRACKED_AUTHORS" "replay_admit a n nanos g = (r, g')"
  shows "r = spec_admit n nanos (A a)" "replay_inv P g' (if r = Inr () then A(a := insert (the n) (A a)) else A)"
proof -
  have "r = spec_admit n nanos (A a) \<and> replay_inv P g' (if r = Inr () then A(a := insert (the n) (A a)) else A)"
  proof (cases "n = None \<or> u64_saturating_add nanos REPLAY_MAX_FUTURE < the n")
    case True
    then have "r = spec_admit n nanos (A a)" "r \<noteq> Inr ()" "rp_authors g' = rp_authors g"
      using assms(5) by (auto simp: replay_admit_def spec_admit_def Let_def split: if_splits option.splits)
    with assms(1) show ?thesis by (simp add: replay_inv_def)
  next
    case False
    then obtain k where n: "n = Some k" "\<not> u64_saturating_add nanos REPLAY_MAX_FUTURE < k" by auto
    let ?m = "rp_authors g"
    have m: "distinct (map fst ?m)" "fst ` set ?m \<subseteq> P" and w: "\<And>b. window_of (author_window ?m b) (A b)"
      using assms(1) by (simp_all add: replay_inv_def)
    note evict = evict_none [OF m assms(2,3,4)]
    obtain r0 st' where st': "admit_sequence k (author_window ?m a) = (r0, st')" by fastforce
    have g': "r = r0" "rp_authors g' = AList.update a st' ?m"
      using assms(5) n st' evict by (auto simp: replay_admit_def Let_def author_window_def split: if_splits)
    note spec = admit_sequence_spec [OF w [of a], of k, unfolded st' fst_conv snd_conv]
    have "fst ` set (AList.update a st' ?m) \<subseteq> P" using m(2) assms(2) by (simp add: dom_update)
    moreover have "window_of (author_window (AList.update a st' ?m) b) ((if r = Inr () then A(a := insert k (A a)) else A) b)" for b
      using spec(2) w [of b] g'(1) by (cases "r0 = Inr ()") (simp_all add: author_window_update)
    ultimately have "replay_inv P g' (if r = Inr () then A(a := insert k (A a)) else A)"
      using m(1) g'(2) by (simp only: replay_inv_def distinct_update) blast
    moreover have "r = spec_admit n nanos (A a)" using g'(1) spec(1) n by (simp add: spec_admit_def)
    ultimately show ?thesis using n(1) by (metis option.sel)
  qed
  then show "r = spec_admit n nanos (A a)" "replay_inv P g' (if r = Inr () then A(a := insert (the n) (A a)) else A)" by blast+
qed

lemma take_reports_inv:
  assumes "replay_inv P g A"
  shows "replay_inv P (snd (take_clock_leads g)) A" "replay_inv P (snd (take_lockout_suspects g)) A"
proof -
  show "replay_inv P (snd (take_clock_leads g)) A" using assms by (simp add: replay_inv_def take_clock_leads_def)
  let ?f = "\<lambda>(a :: peer_id, st :: author_sequence). (a, st\<lparr> as_rejected := 0 \<rparr>)"
  have keys: "map fst (map ?f m) = map fst m" for m by (induction m) auto
  have lookup: "map_of (map ?f m) a = map_option (\<lambda>st. st\<lparr> as_rejected := 0 \<rparr>) (map_of m a)" for m a
    by (induction m) auto
  have window: "window_of (st\<lparr> as_rejected := 0 \<rparr>) N = window_of st N" for st N by (simp add: window_of_def)
  have "window_of (author_window (map ?f m) a) N" if "window_of (author_window m a) N" for m a N
    using that by (cases "map_of m a") (simp_all add: author_window_def lookup window)
  moreover have "fst ` set (map ?f m) = fst ` set m" for m using keys [of m] by (metis set_map)
  ultimately show "replay_inv P (snd (take_lockout_suspects g)) A"
    using assms keys [of "rp_authors g"] unfolding replay_inv_def take_lockout_suspects_def
    by (simp del: map_map set_map list.set_map image_set)
qed

fun op_authors :: "replay_op list \<Rightarrow> peer_id list" where
  "op_authors (Admit a n nanos # cs) = a # op_authors cs"
| "op_authors (_ # cs) = op_authors cs"
| "op_authors [] = []"

lemma replay_outputs_spec:
  assumes "replay_inv P g A" "set (op_authors cs) \<subseteq> P" "finite P" "card P \<le> REPLAY_MAX_TRACKED_AUTHORS"
  shows "replay_outputs cs g = spec_outputs cs A"
  using assms(1,2)
proof (induction cs arbitrary: g A)
  case (Cons c cs)
  show ?case
  proof (cases c)
    case (Admit a n nanos)
    obtain r g' where step: "replay_admit a n nanos g = (r, g')" by fastforce
    have a: "a \<in> P" "set (op_authors cs) \<subseteq> P" using Cons.prems(2) Admit by auto
    note spec = replay_admit_spec [OF Cons.prems(1) a(1) assms(3,4) step]
    from Cons.IH [OF spec(2) a(2)] spec(1) step show ?thesis by (simp add: Admit Let_def)
  next
    case TakeClockLeads
    then show ?thesis using Cons.IH [OF take_reports_inv(1) [OF Cons.prems(1)]] Cons.prems(2) by simp
  next
    case TakeLockoutSuspects
    then show ?thesis using Cons.IH [OF take_reports_inv(2) [OF Cons.prems(1)]] Cons.prems(2) by simp
  qed
qed simp

lemma replay_inv_new: "replay_inv P replay_guard_new (\<lambda>_. {})"
  by (simp add: replay_inv_def replay_guard_new_def author_window_def window_new)

section \<open>Properties\<close>

text \<open>
  \<^bold>\<open>C38.\<close> The replay guard refines its specification. For any sequence of admissions and reports from at most 16384
  authors, starting with an empty guard, the outcomes are those of a specification that remembers every admitted number: a
  number is admitted exactly when it is signed, at most ten minutes ahead of the local clock, was never
  admitted for that author, and is less than 1024 below every number admitted for that author. In particular no
  message is admitted twice, and a fresh number above the highest one is never refused as a replay.
\<close>

theorem replay_guard_refines:
  assumes "card (set (op_authors cs)) \<le> REPLAY_MAX_TRACKED_AUTHORS"
  shows "replay_outputs cs replay_guard_new = spec_outputs cs (\<lambda>_. {})"
  using replay_outputs_spec [OF replay_inv_new order_refl _ assms] by simp

theorem replay_guard_refines_witness:
  "replay_outputs [Admit [1] (Some 5) 10, Admit [1] (Some 5) 10, Admit [2] (Some 5) 10, Admit [1] (Some 2000) 10, Admit [1] (Some 6) 10]
     replay_guard_new =
   [Some (Inr ()), Some (Inl ReplayedSequence), Some (Inr ()), Some (Inr ()), Some (Inl ReplayedSequence)]"
proof -
  let ?cs = "[Admit [1] (Some 5) 10, Admit [1] (Some 5) 10, Admit [2] (Some 5) 10, Admit [1] (Some 2000) 10, Admit [1] (Some 6) 10]"
  have "card (set (op_authors ?cs)) \<le> REPLAY_MAX_TRACKED_AUTHORS"
    using card_length [of "op_authors ?cs"] by (simp add: REPLAY_MAX_TRACKED_AUTHORS_def)
  from replay_guard_refines [OF this] show ?thesis
    by (simp add: spec_admit_def u64_saturating_add_def REPLAY_MAX_FUTURE_def REPLAY_WINDOW_def from_secs_def)
qed

text \<open>
  \<^bold>\<open>C39.\<close> A cooldown gate lets an action for a key pass at most once per cooldown. In any sequence of calls with a
  clock that does not go back, two calls for the same key that were both allowed are at least the cooldown apart,
  although the gate forgets entries when its table is full; and the table never holds more entries than its bound.
\<close>

theorem cooldown_once_per_window:
  assumes "sorted (map snd cs)" "i < j" "j < length cs"
    and "gate_run (\<lambda>key. cooldown_allow cooldown n key) cs bounded_stamps_new ! i = (key, t, True)"
      "gate_run (\<lambda>key. cooldown_allow cooldown n key) cs bounded_stamps_new ! j = (key, t', True)"
  shows "cooldown \<le> t' - t \<and>
    length (stamps (fold (\<lambda>(key, now) s. snd (cooldown_allow cooldown n key now s)) cs bounded_stamps_new)) \<le> n"
proof
  show "cooldown \<le> t' - t"
    using keyed_gate.run_apart [OF _ assms] by (simp add: bounded_stamps_new_def)
  have "length (stamps (snd (cooldown_allow cooldown n k now s))) \<le> n" if "length (stamps s) \<le> n" for k now s
    using stamp_bounded [of k cooldown n now s] that by (auto simp: cooldown_allow_def) (metis prod.collapse)
  then have "length (stamps (fold (\<lambda>(key, now) s. snd (cooldown_allow cooldown n key now s)) cs s)) \<le> n"
    if "length (stamps s) \<le> n" for s
    using that by (induction cs arbitrary: s) auto
  then show "length (stamps (fold (\<lambda>(key, now) s. snd (cooldown_allow cooldown n key now s)) cs bounded_stamps_new)) \<le> n"
    by (simp add: bounded_stamps_new_def)
qed

theorem cooldown_once_per_window_witness:
  "gate_run (\<lambda>key. cooldown_allow 30 2 key) [(''a'', 0), (''a'', 29), (''a'', 30)] bounded_stamps_new =
     [(''a'', 0, True), (''a'', 29, False), (''a'', 30, True)] \<and> (30 :: nat) \<le> 30 - 0"
proof -
  have run: "gate_run (\<lambda>key. cooldown_allow 30 2 key) [(''a'', 0), (''a'', 29), (''a'', 30)] bounded_stamps_new =
      [(''a'', 0, True), (''a'', 29, False), (''a'', 30, True)]"
    by (simp add: cooldown_allow_def is_live_def stamp_def bounded_stamps_new_def)
  then show ?thesis
    using cooldown_once_per_window [of "[(''a'', 0), (''a'', 29), (''a'', 30)]" 0 2 2 30 "''a''" 0 30] by simp
qed

text \<open>
  \<^bold>\<open>C40.\<close> A ban takes 256 strikes within a minute. In every reachable state, when a strike bans a peer, then that
  peer was struck at least 256 times within less than 60 seconds, the last one included, and the ban holds for exactly the
  following ten minutes; the table of strikes never exceeds its bound.
\<close>

theorem ban_takes_full_count:
  assumes "strike_run h s" "list_all (\<lambda>(_, t). t \<le> now) h" "strike peer now s = (True, s')"
  shows "STRIKE_LIMIT \<le> length (filter (\<lambda>(p, t). p = peer \<and> now - t < STRIKE_WINDOW) ((peer, now) # h)) \<and>
    (\<forall>t. is_banned peer t s' \<longleftrightarrow> t < now + STRIKE_BAN) \<and> length (strikes s') \<le> STRIKE_MAX_TRACKED_PEERS"
proof -
  note step = strike_inv_step [OF strike_run_inv [OF assms(1)] assms(2,3)]
  then obtain at where at: "now - at < STRIKE_WINDOW" "STRIKE_LIMIT \<le> strikes_since peer at ((peer, now) # h)"
    and ban: "map_of (banned_until s') peer = Some (now + STRIKE_BAN)" and inv: "strike_inv ((peer, now) # h) s'" by auto
  have "length (filter (\<lambda>(p, t). p = peer \<and> at \<le> t) xs) \<le> length (filter (\<lambda>(p, t). p = peer \<and> now - t < STRIKE_WINDOW) xs)" for xs
    using at(1) by (induction xs) auto
  with at(2) have "STRIKE_LIMIT \<le> length (filter (\<lambda>(p, t). p = peer \<and> now - t < STRIKE_WINDOW) ((peer, now) # h))"
    unfolding strikes_since_def by (meson order_trans)
  with ban inv show ?thesis by (auto simp: is_banned_def strike_inv_def)
qed

text \<open>The states in which a peer was struck again and again at one time.\<close>

lemma struck_often:
  assumes "k < STRIKE_LIMIT"
  shows "strike_run (replicate k (p, t)) (strike_state_new\<lparr> strikes := if k = 0 then [] else [(p, t, k)] \<rparr>)"
  using assms
proof (induction k)
  case 0
  then show ?case using strike_run.start by (simp add: strike_state_new_def)
next
  case (Suc k)
  let ?s = "strike_state_new\<lparr> strikes := if k = 0 then [] else [(p, t, k)] \<rparr>"
  have "strike p t ?s = (False, strike_state_new\<lparr> strikes := [(p, t, Suc k)] \<rparr>)"
    using Suc.prems
    by (simp add: strike_def strike_room_def strike_state_new_def STRIKE_WINDOW_def STRIKE_MAX_TRACKED_PEERS_def from_secs_def)
  from strike_run.struck [OF _ _ this, of "replicate k (p, t)"] Suc show ?case by (simp add: list_all_iff)
qed

theorem ban_takes_full_count_witness:
  "\<exists>s s'. strike_run (replicate 255 ([1], 7)) s \<and> strike [1] 7 s = (True, s') \<and> is_banned [1] 8 s' \<and>
     \<not> is_banned [1] (7 + STRIKE_BAN) s'"
proof -
  let ?s = "strike_state_new\<lparr> strikes := [([1], 7, 255)] \<rparr>"
  have run: "strike_run (replicate 255 ([1], 7)) ?s" using struck_often [of 255 "[1]" 7] by (simp add: STRIKE_LIMIT_def)
  obtain s' where s': "strike [1] 7 ?s = (True, s')"
    by (simp add: strike_def strike_room_def strike_state_new_def STRIKE_WINDOW_def STRIKE_MAX_TRACKED_PEERS_def from_secs_def
      STRIKE_LIMIT_def)
  have "list_all (\<lambda>(_, t). t \<le> 7) (replicate 255 ([1 :: 8 word], 7 :: nat))" by (simp only: list_all_iff) (simp add: set_replicate_conv_if)
  from ban_takes_full_count [OF run this s'] run s' show ?thesis
    by (intro exI [of _ ?s] exI [of _ s']) (simp add: STRIKE_BAN_def from_secs_def)
qed

end
