(* ===== verification/P2pRegistry.thy ===== *)
theory P2pRegistry
  imports P2pGuards
begin

text \<open>
  The peer registry (\<^verbatim>\<open>src/node/src/p2p_admission/registry.rs\<close>): which peers are committee members, verifiers or staked operators
  on chain, cached with the time of each verdict, the bindings of operator keys to peers, and the budgets of the
  lookups that keep the cache current. A \<^verbatim>\<open>HashSet\<close> is a set, a \<^verbatim>\<open>HashMap\<close> the association list of its entries in the
  order it iterates over them; the methods of \<^verbatim>\<open>PeerRegistry\<close> are functions on the state behind its lock.

  The lemmas show that each operator key is bound to one peer, that lookups in flight stay within their slots, and
  that a class is always backed by a recent verdict that nothing later revoked.
\<close>

section \<open>Classes and entries\<close>

datatype SenderClass = Committee | Registered | Unregistered

definition is_registered :: "SenderClass \<Rightarrow> bool" where
  "is_registered c = (c \<noteq> Unregistered)"

definition VERIFIER_SET_REFRESH_INTERVAL :: nat where "VERIFIER_SET_REFRESH_INTERVAL = from_secs (5 * 60)"

definition VERIFIER_SET_RETRY_INTERVAL :: nat where "VERIFIER_SET_RETRY_INTERVAL = from_secs 30"

definition COMMITTEE_POSITIVE_TTL :: nat where "COMMITTEE_POSITIVE_TTL = from_secs (10 * 60)"

definition COMMITTEE_NEGATIVE_TTL :: nat where "COMMITTEE_NEGATIVE_TTL = from_secs (2 * 60)"

definition COMMITTEE_STALE_LIMIT :: nat where "COMMITTEE_STALE_LIMIT = from_secs (30 * 60)"

definition COMMITTEE_CACHE_MAX_ENTRIES :: nat where "COMMITTEE_CACHE_MAX_ENTRIES = 4096"

definition COMMITTEE_DISCOVERY_LOOKUPS_PER_MINUTE :: nat where "COMMITTEE_DISCOVERY_LOOKUPS_PER_MINUTE = 60"

definition COMMITTEE_MAX_IN_FLIGHT_LOOKUPS :: nat where "COMMITTEE_MAX_IN_FLIGHT_LOOKUPS = 16"

definition COMMITTEE_MAX_UNKNOWN_IN_FLIGHT :: nat where "COMMITTEE_MAX_UNKNOWN_IN_FLIGHT = 12"

definition OPERATOR_DISCOVERY_LOOKUPS_PER_MINUTE :: nat where "OPERATOR_DISCOVERY_LOOKUPS_PER_MINUTE = 60"

definition OPERATOR_MAX_IN_FLIGHT_LOOKUPS :: nat where "OPERATOR_MAX_IN_FLIGHT_LOOKUPS = 16"

definition OPERATOR_MAX_UNKNOWN_IN_FLIGHT :: nat where "OPERATOR_MAX_UNKNOWN_IN_FLIGHT = 12"

definition REFUSED_PEER_LOOKUPS_PER_MINUTE :: nat where "REFUSED_PEER_LOOKUPS_PER_MINUTE = 30"

definition OPERATOR_STAKE_TTL :: nat where "OPERATOR_STAKE_TTL = from_secs (10 * 60)"

definition OPERATOR_STAKE_STALE_LIMIT :: nat where "OPERATOR_STAKE_STALE_LIMIT = from_secs (30 * 60)"

definition OPERATOR_CACHE_MAX_ENTRIES :: nat where "OPERATOR_CACHE_MAX_ENTRIES = 4096"

definition SEEDED_TRUST :: nat where "SEEDED_TRUST = from_secs (5 * 60)"

record CommitteeEntry =
  ce_registered :: bool
  ce_fetched_at :: nat

definition committee_ttl :: "CommitteeEntry \<Rightarrow> nat" where
  "committee_ttl e = (if ce_registered e then COMMITTEE_POSITIVE_TTL else COMMITTEE_NEGATIVE_TTL)"

definition committee_needs_refresh :: "nat \<Rightarrow> CommitteeEntry \<Rightarrow> bool" where
  "committee_needs_refresh now e = (committee_ttl e \<le> now - ce_fetched_at e)"

definition committee_is_registered :: "nat \<Rightarrow> CommitteeEntry \<Rightarrow> bool" where
  "committee_is_registered now e = (ce_registered e \<and> now - ce_fetched_at e < COMMITTEE_STALE_LIMIT)"

type_synonym operator_key = "256 word"

record OperatorBinding =
  ob_pubkey :: operator_key
  ob_issued_at :: int
  ob_staked :: "bool option"
  ob_fetched_at :: "nat option"
  ob_trusted :: bool

definition operator_needs_refresh :: "nat \<Rightarrow> OperatorBinding \<Rightarrow> bool" where
  "operator_needs_refresh now b =
     (case ob_fetched_at b of None \<Rightarrow> True | Some fetched_at \<Rightarrow> OPERATOR_STAKE_TTL \<le> now - fetched_at)"

definition operator_is_registered :: "nat \<Rightarrow> OperatorBinding \<Rightarrow> bool" where
  "operator_is_registered now b =
     (ob_staked b = Some True \<and>
      (case ob_fetched_at b of None \<Rightarrow> False | Some at \<Rightarrow> now - at < OPERATOR_STAKE_STALE_LIMIT))"

record DiscoveryBudget =
  db_window_started_at :: "nat option"
  db_lookups_in_window :: nat

definition budget_new :: DiscoveryBudget where
  "budget_new = \<lparr> db_window_started_at = None, db_lookups_in_window = 0 \<rparr>"

definition budget_take :: "nat \<Rightarrow> nat \<Rightarrow> DiscoveryBudget \<Rightarrow> bool \<times> DiscoveryBudget" where
  "budget_take per_minute now b =
     (let window_open = (case db_window_started_at b of None \<Rightarrow> False | Some started_at \<Rightarrow> now - started_at < from_secs 60);
          b = (if window_open then b else \<lparr> db_window_started_at = Some now, db_lookups_in_window = 0 \<rparr>)
      in if per_minute \<le> db_lookups_in_window b then (False, b)
         else (True, b\<lparr> db_lookups_in_window := db_lookups_in_window b + 1 \<rparr>))"

record RegistryState =
  reg_verifiers :: "bytes set"
  reg_verifiers_fetched_at :: "nat option"
  reg_verifiers_attempted_at :: "nat option"
  reg_verifiers_in_flight :: bool
  reg_committee :: "(peer_id \<times> CommitteeEntry) list"
  reg_committee_in_flight :: "peer_id set"
  reg_operators :: "(peer_id \<times> OperatorBinding) list"
  reg_operator_owner :: "(operator_key \<times> peer_id) list"
  reg_operators_in_flight :: "peer_id set"
  reg_committee_discovery :: DiscoveryBudget
  reg_neighbour_discovery :: DiscoveryBudget
  reg_refused_discovery :: DiscoveryBudget
  reg_operator_discovery :: DiscoveryBudget

definition registry_new :: RegistryState where
  "registry_new =
     \<lparr> reg_verifiers = {}, reg_verifiers_fetched_at = None, reg_verifiers_attempted_at = None, reg_verifiers_in_flight = False,
       reg_committee = [], reg_committee_in_flight = {}, reg_operators = [], reg_operator_owner = [], reg_operators_in_flight = {},
       reg_committee_discovery = budget_new, reg_neighbour_discovery = budget_new, reg_refused_discovery = budget_new,
       reg_operator_discovery = budget_new \<rparr>"

datatype LookupBudget = Candidate | Neighbour | Refused

section \<open>Claiming lookups\<close>

definition claim_verifier_set_refresh :: "nat \<Rightarrow> RegistryState \<Rightarrow> bool \<times> RegistryState" where
  "claim_verifier_set_refresh now s =
     (let due =
        (if (case reg_verifiers_attempted_at s of None \<Rightarrow> False | Some at \<Rightarrow> now - at < VERIFIER_SET_RETRY_INTERVAL) then False
         else case reg_verifiers_fetched_at s of
             Some fetched_at \<Rightarrow> VERIFIER_SET_REFRESH_INTERVAL \<le> now - fetched_at
           | None \<Rightarrow> True)
      in if \<not> due \<or> reg_verifiers_in_flight s then (False, s)
         else (True, s\<lparr> reg_verifiers_in_flight := True, reg_verifiers_attempted_at := Some now \<rparr>))"

text \<open>The slot and budget check for a peer that is not a known member.\<close>

definition take_unknown_lookup :: "LookupBudget \<Rightarrow> nat \<Rightarrow> RegistryState \<Rightarrow> bool \<times> RegistryState" where
  "take_unknown_lookup budget now s =
     (let in_flight = card (reg_committee_in_flight s)
      in case budget of
          Candidate \<Rightarrow>
            if in_flight < COMMITTEE_MAX_UNKNOWN_IN_FLIGHT
            then let (ok, b) = budget_take COMMITTEE_DISCOVERY_LOOKUPS_PER_MINUTE now (reg_committee_discovery s)
                 in (ok, s\<lparr> reg_committee_discovery := b \<rparr>)
            else (False, s)
        | Neighbour \<Rightarrow>
            if in_flight < COMMITTEE_MAX_IN_FLIGHT_LOOKUPS
            then let (ok, b) = budget_take COMMITTEE_DISCOVERY_LOOKUPS_PER_MINUTE now (reg_neighbour_discovery s)
                 in (ok, s\<lparr> reg_neighbour_discovery := b \<rparr>)
            else (False, s)
        | Refused \<Rightarrow>
            if in_flight < COMMITTEE_MAX_UNKNOWN_IN_FLIGHT
            then let (ok, b) = budget_take REFUSED_PEER_LOOKUPS_PER_MINUTE now (reg_refused_discovery s)
                 in (ok, s\<lparr> reg_refused_discovery := b \<rparr>)
            else (False, s))"

definition claim_committee_lookup :: "peer_id \<Rightarrow> LookupBudget \<Rightarrow> nat \<Rightarrow> RegistryState \<Rightarrow> bool \<times> RegistryState" where
  "claim_committee_lookup peer budget now s =
     (if peer \<in> reg_verifiers s \<or> peer \<in> reg_committee_in_flight s then (False, s)
      else
        let entry = map_of (reg_committee s) peer
        in if (case entry of None \<Rightarrow> False | Some e \<Rightarrow> \<not> committee_needs_refresh now e) then (False, s)
           else
             let known_registered = (case entry of None \<Rightarrow> False | Some e \<Rightarrow> ce_registered e);
                 (admitted, s) =
                   (if known_registered then (card (reg_committee_in_flight s) < COMMITTEE_MAX_IN_FLIGHT_LOOKUPS, s)
                    else take_unknown_lookup budget now s)
             in (admitted,
                 if admitted then s\<lparr> reg_committee_in_flight := insert peer (reg_committee_in_flight s) \<rparr> else s))"

definition claim_operator_refresh :: "peer_id \<Rightarrow> operator_key \<Rightarrow> nat \<Rightarrow> RegistryState \<Rightarrow> bool \<times> RegistryState" where
  "claim_operator_refresh peer pubkey now s =
     (if peer \<in> reg_operators_in_flight s then (False, s)
      else case map_of (reg_operators s) peer of
        None \<Rightarrow> (False, s)
      | Some binding \<Rightarrow>
          if ob_pubkey binding \<noteq> pubkey \<or> \<not> operator_needs_refresh now binding then (False, s)
          else
            let known_registered = (ob_staked binding = Some True \<or> ob_trusted binding);
                in_flight = card (reg_operators_in_flight s);
                (admitted, s) =
                  (if known_registered then (in_flight < OPERATOR_MAX_IN_FLIGHT_LOOKUPS, s)
                   else if OPERATOR_MAX_UNKNOWN_IN_FLIGHT \<le> in_flight then (False, s)
                   else let (ok, b) = budget_take OPERATOR_DISCOVERY_LOOKUPS_PER_MINUTE now (reg_operator_discovery s)
                        in (ok, s\<lparr> reg_operator_discovery := b \<rparr>))
            in (admitted,
                if admitted then s\<lparr> reg_operators_in_flight := insert peer (reg_operators_in_flight s) \<rparr> else s))"

text \<open>An instant counts from an origin, before which \<^verbatim>\<open>Instant::checked_sub\<close> has no result.\<close>

definition seeded_fetched_at :: "nat \<Rightarrow> nat \<Rightarrow> nat" where
  "seeded_fetched_at now stale_limit =
     (let back = stale_limit - SEEDED_TRUST in if back \<le> now then now - back else now)"

datatype TrustedBindingConflict = PeerBoundToAnotherKey operator_key | KeyBoundToAnotherPeer peer_id

record RefreshPlan =
  verifier_set :: bool
  committee_peer :: bool

section \<open>Classification\<close>

definition is_verifier :: "peer_id \<Rightarrow> RegistryState \<Rightarrow> bool" where
  "is_verifier peer s = (peer \<in> reg_verifiers s)"

definition verifier_set_loaded :: "RegistryState \<Rightarrow> bool" where
  "verifier_set_loaded s = (reg_verifiers_fetched_at s \<noteq> None)"

definition sender_class :: "peer_id \<Rightarrow> nat \<Rightarrow> RegistryState \<Rightarrow> SenderClass" where
  "sender_class peer now s =
     (if (case map_of (reg_committee s) peer of None \<Rightarrow> False | Some e \<Rightarrow> committee_is_registered now e) then Committee
      else if peer \<in> reg_verifiers s \<or>
              (case map_of (reg_operators s) peer of None \<Rightarrow> False | Some b \<Rightarrow> operator_is_registered now b)
      then Registered else Unregistered)"

definition is_committee :: "peer_id \<Rightarrow> nat \<Rightarrow> RegistryState \<Rightarrow> bool" where
  "is_committee peer now s = (sender_class peer now s = Committee)"

definition is_known_unregistered :: "peer_id \<Rightarrow> nat \<Rightarrow> RegistryState \<Rightarrow> bool" where
  "is_known_unregistered peer now s =
     ((case map_of (reg_committee s) peer of
         None \<Rightarrow> False
       | Some e \<Rightarrow> \<not> ce_registered e \<and> \<not> committee_needs_refresh now e) \<and>
      \<not> is_registered (sender_class peer now s))"

definition committee_peer_ids :: "nat \<Rightarrow> RegistryState \<Rightarrow> peer_id list" where
  "committee_peer_ids now s = map fst (filter (\<lambda>(_, e). committee_is_registered now e) (reg_committee s))"

definition operator_peer_for :: "operator_key \<Rightarrow> RegistryState \<Rightarrow> peer_id option" where
  "operator_peer_for pubkey s = map_of (reg_operator_owner s) pubkey"

definition is_unclassified :: "peer_id \<Rightarrow> RegistryState \<Rightarrow> bool" where
  "is_unclassified peer s =
     (map_of (reg_committee s) peer = None \<and> peer \<notin> reg_verifiers s \<and> map_of (reg_operators s) peer = None)"

section \<open>Operator bindings\<close>

text \<open>
  Taking the key from the peer that holds it: \<open>None\<close> when the binding of that peer is at least as new. A key without a
  holder, or held by \<open>peer\<close> itself, changes nothing.
\<close>

definition take_operator_key :: "peer_id \<Rightarrow> operator_key \<Rightarrow> int \<Rightarrow> RegistryState \<Rightarrow> RegistryState option" where
  "take_operator_key peer pubkey issued_at s =
     (case map_of (reg_operator_owner s) pubkey of
        None \<Rightarrow> Some s
      | Some current_owner \<Rightarrow>
          if current_owner = peer then Some s
          else if (case map_of (reg_operators s) current_owner of None \<Rightarrow> True | Some existing \<Rightarrow> ob_issued_at existing < issued_at)
          then Some (s\<lparr> reg_operators := AList.delete current_owner (reg_operators s) \<rparr>)
          else None)"

text \<open>Room for the binding of a new peer in a full table: only confirmed and configured bindings are kept.\<close>

definition make_operator_room :: "peer_id \<Rightarrow> nat \<Rightarrow> RegistryState \<Rightarrow> RegistryState" where
  "make_operator_room peer now s =
     (if OPERATOR_CACHE_MAX_ENTRIES \<le> length (reg_operators s) \<and> map_of (reg_operators s) peer = None
      then let operators = filter (\<lambda>(_, b). operator_is_registered now b \<or> ob_trusted b) (reg_operators s);
               live = fst ` set operators
           in s\<lparr> reg_operators := operators, reg_operator_owner := filter (\<lambda>(_, owner). owner \<in> live) (reg_operator_owner s) \<rparr>
      else s)"

definition bind_operator :: "peer_id \<Rightarrow> operator_key \<Rightarrow> int \<Rightarrow> nat \<Rightarrow> RegistryState \<Rightarrow> RegistryState" where
  "bind_operator peer pubkey issued_at now s =
     (let s = make_operator_room peer now s
      in s\<lparr> reg_operator_owner := AList.update pubkey peer (reg_operator_owner s),
           reg_operators := AList.update peer
             \<lparr> ob_pubkey = pubkey, ob_issued_at = issued_at, ob_staked = None, ob_fetched_at = None, ob_trusted = False \<rparr>
             (reg_operators s) \<rparr>)"

text \<open>The result says whether the peer gave up a confirmed key; \<open>now\<close> is the clock read when the table is full.\<close>

definition observe_operator_binding ::
    "peer_id \<Rightarrow> operator_key \<Rightarrow> int \<Rightarrow> nat \<Rightarrow> RegistryState \<Rightarrow> bool \<times> RegistryState" where
  "observe_operator_binding peer pubkey issued_at now s =
     (case take_operator_key peer pubkey issued_at s of
        None \<Rightarrow> (False, s)
      | Some s \<Rightarrow>
          let previous = map_of (reg_operators s) peer
          in case previous of
              Some b \<Rightarrow>
                if ob_pubkey b = pubkey
                then (False, s\<lparr> reg_operators := AList.update peer (b\<lparr> ob_issued_at := max (ob_issued_at b) issued_at \<rparr>) (reg_operators s),
                                reg_operator_owner := AList.update pubkey peer (reg_operator_owner s) \<rparr>)
                else
                  let s = (if map_of (reg_operator_owner s) (ob_pubkey b) = Some peer
                           then s\<lparr> reg_operator_owner := AList.delete (ob_pubkey b) (reg_operator_owner s) \<rparr> else s)
                  in (ob_staked b = Some True, bind_operator peer pubkey issued_at now s)
            | None \<Rightarrow> (False, bind_operator peer pubkey issued_at now s))"

definition trust_conflict :: "peer_id \<Rightarrow> operator_key \<Rightarrow> RegistryState \<Rightarrow> TrustedBindingConflict option" where
  "trust_conflict peer pubkey s =
     (case map_of (reg_operators s) peer of
        Some existing \<Rightarrow> if ob_pubkey existing \<noteq> pubkey then Some (PeerBoundToAnotherKey (ob_pubkey existing)) else None
      | None \<Rightarrow> None)"

definition owner_conflict :: "peer_id \<Rightarrow> operator_key \<Rightarrow> RegistryState \<Rightarrow> TrustedBindingConflict option" where
  "owner_conflict peer pubkey s =
     (case map_of (reg_operator_owner s) pubkey of
        Some owner \<Rightarrow> if owner \<noteq> peer then Some (KeyBoundToAnotherPeer owner) else None
      | None \<Rightarrow> None)"

definition trust_operator_binding ::
    "peer_id \<Rightarrow> operator_key \<Rightarrow> RegistryState \<Rightarrow> (TrustedBindingConflict + unit) \<times> RegistryState" where
  "trust_operator_binding peer pubkey s =
     (case trust_conflict peer pubkey s of
        Some c \<Rightarrow> (Inl c, s)
      | None \<Rightarrow>
          (case owner_conflict peer pubkey s of
             Some c \<Rightarrow> (Inl c, s)
           | None \<Rightarrow>
               let binding = (case map_of (reg_operators s) peer of
                   Some b \<Rightarrow> b\<lparr> ob_trusted := True \<rparr>
                 | None \<Rightarrow> \<lparr> ob_pubkey = pubkey, ob_issued_at = 0, ob_staked = None, ob_fetched_at = None, ob_trusted = True \<rparr>)
               in (Inr (), s\<lparr> reg_operator_owner := AList.update pubkey peer (reg_operator_owner s),
                              reg_operators := AList.update peer binding (reg_operators s) \<rparr>)))"

definition plan_operator_refresh :: "peer_id \<Rightarrow> operator_key \<Rightarrow> nat \<Rightarrow> RegistryState \<Rightarrow> bool \<times> RegistryState" where
  "plan_operator_refresh peer pubkey now s = claim_operator_refresh peer pubkey now s"

text \<open>The claims of \<^verbatim>\<open>filter\<close> with the state threaded through them.\<close>

primrec claim_operators ::
    "nat \<Rightarrow> (peer_id \<times> operator_key \<times> bool) list \<Rightarrow> RegistryState \<Rightarrow> (peer_id \<times> operator_key) list \<times> RegistryState" where
  "claim_operators now [] s = ([], s)"
| "claim_operators now (d # due) s =
     (let (claimed, s) = claim_operator_refresh (fst d) (fst (snd d)) now s;
          (rest, s) = claim_operators now due s
      in (if claimed then (fst d, fst (snd d)) # rest else rest, s))"

definition plan_due_operator_refreshes :: "nat \<Rightarrow> RegistryState \<Rightarrow> (peer_id \<times> operator_key) list \<times> RegistryState" where
  "plan_due_operator_refreshes now s =
     (let due = map (\<lambda>(peer, b). (peer, ob_pubkey b, ob_staked b = Some True \<or> ob_trusted b))
            (filter (\<lambda>(peer, b). operator_needs_refresh now b \<and> (ob_staked b \<noteq> Some False \<or> ob_trusted b) \<and>
               peer \<notin> reg_operators_in_flight s) (reg_operators s))
      in claim_operators now (sort_key (\<lambda>(_, _, known). \<not> known) due) s)"

definition record_operator_stake ::
    "peer_id \<Rightarrow> operator_key \<Rightarrow> bool option \<Rightarrow> nat \<Rightarrow> RegistryState \<Rightarrow> bool option \<times> RegistryState" where
  "record_operator_stake peer pubkey staked now s =
     (let s = s\<lparr> reg_operators_in_flight := reg_operators_in_flight s - {peer} \<rparr>
      in case staked of
          None \<Rightarrow> (None, s)
        | Some v \<Rightarrow>
            (case map_of (reg_operators s) peer of
               None \<Rightarrow> (None, s)
             | Some b \<Rightarrow>
                 if ob_pubkey b \<noteq> pubkey then (None, s)
                 else (Some v, s\<lparr> reg_operators :=
                   AList.update peer (b\<lparr> ob_staked := Some v, ob_fetched_at := Some now \<rparr>) (reg_operators s) \<rparr>)))"

definition seed_verified_operator :: "peer_id \<Rightarrow> operator_key \<Rightarrow> int \<Rightarrow> nat \<Rightarrow> RegistryState \<Rightarrow> RegistryState" where
  "seed_verified_operator peer pubkey issued_at now s =
     (let s = snd (observe_operator_binding peer pubkey issued_at now s)
      in case map_of (reg_operators s) peer of
          None \<Rightarrow> s
        | Some b \<Rightarrow>
            if ob_pubkey b = pubkey \<and> ob_staked b = None
            then s\<lparr> reg_operators := AList.update peer
              (b\<lparr> ob_staked := Some True, ob_fetched_at := Some (seeded_fetched_at now OPERATOR_STAKE_STALE_LIMIT) \<rparr>)
              (reg_operators s) \<rparr>
            else s)"

section \<open>Committee and verifier verdicts\<close>

definition seed_verified_committee_peer :: "peer_id \<Rightarrow> nat \<Rightarrow> RegistryState \<Rightarrow> RegistryState" where
  "seed_verified_committee_peer peer now s =
     (case map_of (reg_committee s) peer of
        Some _ \<Rightarrow> s
      | None \<Rightarrow> s\<lparr> reg_committee := AList.update peer
          \<lparr> ce_registered = True, ce_fetched_at = seeded_fetched_at now COMMITTEE_STALE_LIMIT \<rparr> (reg_committee s) \<rparr>)"

definition plan_due_committee_refreshes :: "nat \<Rightarrow> RegistryState \<Rightarrow> peer_id list \<times> RegistryState" where
  "plan_due_committee_refreshes now s =
     (let due = map fst (filter (\<lambda>(peer, e). ce_registered e \<and> committee_needs_refresh now e \<and>
            peer \<notin> reg_committee_in_flight s) (reg_committee s));
          free = COMMITTEE_MAX_IN_FLIGHT_LOOKUPS - card (reg_committee_in_flight s);
          claimed = take free due
      in (claimed, s\<lparr> reg_committee_in_flight := reg_committee_in_flight s \<union> set claimed \<rparr>))"

definition plan_refresh :: "peer_id option \<Rightarrow> nat \<Rightarrow> RegistryState \<Rightarrow> RefreshPlan \<times> RegistryState" where
  "plan_refresh peer now s =
     (let (vs, s) = claim_verifier_set_refresh now s;
          (cp, s) = (case peer of None \<Rightarrow> (False, s) | Some peer \<Rightarrow> claim_committee_lookup peer Candidate now s)
      in (\<lparr> verifier_set = vs, committee_peer = cp \<rparr>, s))"

definition plan_candidate_lookup :: "peer_id \<Rightarrow> nat \<Rightarrow> RegistryState \<Rightarrow> bool \<times> RegistryState" where
  "plan_candidate_lookup peer now s = claim_committee_lookup peer Candidate now s"

definition plan_neighbour_lookup :: "peer_id \<Rightarrow> nat \<Rightarrow> RegistryState \<Rightarrow> bool \<times> RegistryState" where
  "plan_neighbour_lookup peer now s = claim_committee_lookup peer Neighbour now s"

definition plan_refused_peer_lookup :: "peer_id \<Rightarrow> nat \<Rightarrow> RegistryState \<Rightarrow> bool \<times> RegistryState" where
  "plan_refused_peer_lookup peer now s = claim_committee_lookup peer Refused now s"

definition record_verifier_set :: "bytes list option \<Rightarrow> nat \<Rightarrow> RegistryState \<Rightarrow> RegistryState" where
  "record_verifier_set verifiers now s =
     (let s = s\<lparr> reg_verifiers_in_flight := False \<rparr>
      in case verifiers of None \<Rightarrow> s | Some vs \<Rightarrow> s\<lparr> reg_verifiers := set vs, reg_verifiers_fetched_at := Some now \<rparr>)"

text \<open>
  The table with room for the verdict on a new peer: expired entries go first, then, for a member, the first entry of
  a peer that is none; \<open>None\<close> when the table stays full and the verdict is negative.
\<close>

definition committee_room :: "peer_id \<Rightarrow> bool \<Rightarrow> nat \<Rightarrow> (peer_id \<times> CommitteeEntry) list \<Rightarrow>
    (peer_id \<times> CommitteeEntry) list \<times> bool" where
  "committee_room peer registered now t =
     (if map_of t peer = None \<and> COMMITTEE_CACHE_MAX_ENTRIES \<le> length t
      then let t = filter (\<lambda>(_, e). \<not> committee_needs_refresh now e) t
           in if COMMITTEE_CACHE_MAX_ENTRIES \<le> length t
              then if \<not> registered then (t, False)
                   else (case List.find (\<lambda>(_, e). \<not> ce_registered e) t of
                       Some (evict, _) \<Rightarrow> (AList.delete evict t, True)
                     | None \<Rightarrow> (t, True))
              else (t, True)
      else (t, True))"

definition record_committee_peer :: "peer_id \<Rightarrow> bool option \<Rightarrow> nat \<Rightarrow> RegistryState \<Rightarrow> bool option \<times> RegistryState" where
  "record_committee_peer peer registered now s =
     (let s = s\<lparr> reg_committee_in_flight := reg_committee_in_flight s - {peer} \<rparr>
      in case registered of
          None \<Rightarrow> (None, s)
        | Some v \<Rightarrow>
            let (t, room) = committee_room peer v now (reg_committee s)
            in (Some v,
                s\<lparr> reg_committee := if room then AList.update peer \<lparr> ce_registered = v, ce_fetched_at = now \<rparr> t else t \<rparr>))"

section \<open>Reachable registries\<close>

text \<open>The calls that change the registry, each at its time.\<close>

datatype registry_op =
    ObserveBinding peer_id operator_key int
  | TrustBinding peer_id operator_key
  | RecordStake peer_id operator_key "bool option"
  | SeedOperator peer_id operator_key int
  | SeedCommittee peer_id
  | RecordVerifiers "bytes list option"
  | RecordCommittee peer_id "bool option"
  | PlanRefresh "peer_id option"
  | PlanLookup peer_id LookupBudget
  | PlanOperator peer_id operator_key
  | PlanDueOperators
  | PlanDueCommittee

fun registry_step :: "registry_op \<Rightarrow> nat \<Rightarrow> RegistryState \<Rightarrow> RegistryState" where
  "registry_step (ObserveBinding p k i) now s = snd (observe_operator_binding p k i now s)"
| "registry_step (TrustBinding p k) now s = snd (trust_operator_binding p k s)"
| "registry_step (RecordStake p k v) now s = snd (record_operator_stake p k v now s)"
| "registry_step (SeedOperator p k i) now s = seed_verified_operator p k i now s"
| "registry_step (SeedCommittee p) now s = seed_verified_committee_peer p now s"
| "registry_step (RecordVerifiers v) now s = record_verifier_set v now s"
| "registry_step (RecordCommittee p v) now s = snd (record_committee_peer p v now s)"
| "registry_step (PlanRefresh p) now s = snd (plan_refresh p now s)"
| "registry_step (PlanLookup p b) now s =
     snd (case b of Candidate \<Rightarrow> plan_candidate_lookup p now s | Neighbour \<Rightarrow> plan_neighbour_lookup p now s
       | Refused \<Rightarrow> plan_refused_peer_lookup p now s)"
| "registry_step (PlanOperator p k) now s = snd (plan_operator_refresh p k now s)"
| "registry_step PlanDueOperators now s = snd (plan_due_operator_refreshes now s)"
| "registry_step PlanDueCommittee now s = snd (plan_due_committee_refreshes now s)"

text \<open>The registry after a history of calls, the latest first.\<close>

primrec registry_after :: "(registry_op \<times> nat) list \<Rightarrow> RegistryState" where
  "registry_after [] = registry_new"
| "registry_after (c # h) = registry_step (fst c) (snd c) (registry_after h)"

section \<open>Operator keys and their peers\<close>

text \<open>The maps from peers to keys and from keys to peers are inverse to each other.\<close>

definition inverse_maps :: "('a \<rightharpoonup> 'b) \<Rightarrow> ('b \<rightharpoonup> 'a) \<Rightarrow> bool" where
  "inverse_maps f g \<longleftrightarrow> (\<forall>p k. f p = Some k \<longleftrightarrow> g k = Some p)"

lemma inverse_maps_bind: "inverse_maps (f(p := None)) (g(k := None)) \<Longrightarrow> inverse_maps (f(p \<mapsto> k)) (g(k \<mapsto> p))"
  by (simp add: inverse_maps_def) (metis option.distinct(1) option.inject)

lemma inverse_maps_free: "inverse_maps f g \<Longrightarrow> f p = Some k \<Longrightarrow> inverse_maps (f(p := None)) (g(k := None))"
  by (simp add: inverse_maps_def) (metis option.inject)

lemma inverse_maps_restrict:
  "inverse_maps f g \<Longrightarrow> inverse_maps (f |` L) (\<lambda>k. case g k of None \<Rightarrow> None | Some p \<Rightarrow> if p \<in> L then Some p else None)"
  by (auto simp: inverse_maps_def restrict_map_def split: option.splits if_splits)

definition peer_key :: "RegistryState \<Rightarrow> peer_id \<rightharpoonup> operator_key" where
  "peer_key s p = map_option ob_pubkey (map_of (reg_operators s) p)"

definition key_peer :: "RegistryState \<Rightarrow> operator_key \<rightharpoonup> peer_id" where
  "key_peer s = map_of (reg_operator_owner s)"

definition bindings_inv :: "RegistryState \<Rightarrow> bool" where
  "bindings_inv s \<longleftrightarrow> distinct (map fst (reg_operators s)) \<and> distinct (map fst (reg_operator_owner s)) \<and>
     inverse_maps (peer_key s) (key_peer s)"

lemma peer_key_update [simp]:
  "peer_key (s\<lparr> reg_operators := AList.update p b m \<rparr>) = (peer_key (s\<lparr> reg_operators := m \<rparr>))(p \<mapsto> ob_pubkey b)"
  "peer_key (s\<lparr> reg_operators := AList.delete p m \<rparr>) = (peer_key (s\<lparr> reg_operators := m \<rparr>))(p := None)"
  by (auto simp: peer_key_def fun_eq_iff update_conv' delete_conv')

lemma key_peer_update [simp]:
  "key_peer (s\<lparr> reg_operator_owner := AList.update k p m \<rparr>) = (key_peer (s\<lparr> reg_operator_owner := m \<rparr>))(k \<mapsto> p)"
  "key_peer (s\<lparr> reg_operator_owner := AList.delete k m \<rparr>) = (key_peer (s\<lparr> reg_operator_owner := m \<rparr>))(k := None)"
  by (auto simp: key_peer_def fun_eq_iff update_conv' delete_conv')

lemma bindings_other [simp]:
  "key_peer (s\<lparr> reg_operators := m \<rparr>) = key_peer s" "peer_key (s\<lparr> reg_operator_owner := w \<rparr>) = peer_key s"
  by (simp_all add: key_peer_def peer_key_def fun_eq_iff)

text \<open>No peer holds key \<open>k\<close> any more, apart from what the table of owners says of \<open>k\<close> itself.\<close>

definition key_free :: "operator_key \<Rightarrow> RegistryState \<Rightarrow> bool" where
  "key_free k s \<longleftrightarrow> distinct (map fst (reg_operators s)) \<and> distinct (map fst (reg_operator_owner s)) \<and>
     inverse_maps (peer_key s) ((key_peer s)(k := None))"

lemma take_operator_key_free:
  assumes "bindings_inv s" "take_operator_key p k i s = Some s'"
  shows "if key_peer s k = Some p then s' = s else key_free k s'"
proof (cases "key_peer s k")
  case None
  with assms show ?thesis
    by (auto simp: take_operator_key_def key_peer_def bindings_inv_def key_free_def fun_upd_idem)
next
  case (Some q)
  then have "peer_key s q = Some k" using assms(1) by (simp add: bindings_inv_def inverse_maps_def)
  with inverse_maps_free [of "peer_key s" "key_peer s"] Some assms show ?thesis
    by (auto simp: take_operator_key_def key_peer_def [symmetric] bindings_inv_def key_free_def distinct_delete
      split: if_splits)
qed

lemma make_operator_room_free:
  assumes "key_free k s"
  shows "key_free k (make_operator_room p now s)"
proof (cases "OPERATOR_CACHE_MAX_ENTRIES \<le> length (reg_operators s) \<and> map_of (reg_operators s) p = None")
  case True
  let ?s = "make_operator_room p now s"
  let ?P = "\<lambda>(_, b). operator_is_registered now b \<or> ob_trusted b"
  let ?L = "fst ` set (filter ?P (reg_operators s))"
  have d: "distinct (map fst (reg_operators s))" "distinct (map fst (reg_operator_owner s))"
    using assms by (simp_all add: key_free_def)
  have ops: "reg_operators ?s = filter ?P (reg_operators s)"
    and own: "reg_operator_owner ?s = filter (\<lambda>(_, q). q \<in> ?L) (reg_operator_owner s)"
    using True by (simp_all add: make_operator_room_def Let_def)
  have look: "map_of (filter ?P (reg_operators s)) q = (map_of (reg_operators s) |` ?L) q" for q
    using map_of_filter_key [OF d(1), of ?P q]
    by (cases "map_of (filter ?P (reg_operators s)) q")
      (auto simp: restrict_map_def map_of_eq_None_iff split: option.splits if_splits dest: map_of_SomeD
        intro: rev_image_eqI)
  have "peer_key ?s = peer_key s |` ?L"
    by (simp add: fun_eq_iff peer_key_def ops look restrict_map_def)
  moreover have "(key_peer ?s)(k := None) =
      (\<lambda>j. case ((key_peer s)(k := None)) j of None \<Rightarrow> None | Some q \<Rightarrow> if q \<in> ?L then Some q else None)"
    by (simp add: fun_eq_iff key_peer_def own map_of_filter_key [OF d(2)] del: set_filter split: option.split)
  moreover have "inverse_maps (peer_key s) ((key_peer s)(k := None))" using assms by (simp add: key_free_def)
  note inverse_maps_restrict [OF this, of ?L]
  ultimately have "inverse_maps (peer_key ?s) ((key_peer ?s)(k := None))" by (simp only:)
  then show ?thesis
    unfolding key_free_def ops own by (intro conjI distinct_filter_keys d)
qed (use assms in \<open>auto simp: make_operator_room_def\<close>)

text \<open>Binding a peer that holds no key, or whose key was released before.\<close>

lemma bind_operator_inv:
  assumes "distinct (map fst (reg_operators s))" "distinct (map fst (reg_operator_owner s))"
    "inverse_maps ((peer_key s)(p := None)) ((key_peer s)(k := None))"
  shows "bindings_inv (bind_operator p k i now s)"
proof -
  let ?s = "make_operator_room p now s"
  have "distinct (map fst (reg_operators ?s)) \<and> distinct (map fst (reg_operator_owner ?s)) \<and>
      inverse_maps ((peer_key ?s)(p := None)) ((key_peer ?s)(k := None))"
  proof (cases "map_of (reg_operators s) p")
    case None
    then have "peer_key s p = None" by (simp add: peer_key_def)
    with assms have "key_free k s" by (simp add: key_free_def fun_upd_idem)
    then have free: "key_free k ?s" by (rule make_operator_room_free)
    have "map_of (reg_operators ?s) p = None"
      using None map_of_filter_key [OF assms(1)] by (simp add: make_operator_room_def Let_def)
    then have "peer_key ?s p = None" by (simp add: peer_key_def)
    with free show ?thesis by (simp add: key_free_def fun_upd_idem)
  next
    case (Some b)
    with assms show ?thesis by (simp add: make_operator_room_def)
  qed
  then show ?thesis
    using inverse_maps_bind [of "peer_key ?s" p "key_peer ?s" k]
    by (simp add: bind_operator_def Let_def bindings_inv_def distinct_update)
qed

lemma observe_operator_binding_inv:
  assumes "bindings_inv s"
  shows "bindings_inv (snd (observe_operator_binding p k i now s))"
proof (cases "take_operator_key p k i s")
  case None
  with assms show ?thesis by (simp add: observe_operator_binding_def)
next
  case (Some s1)
  note taken = take_operator_key_free [OF assms Some]
  show ?thesis
  proof (cases "map_of (reg_operators s1) p")
    case None
    then have "peer_key s1 p = None" by (simp add: peer_key_def)
    with taken assms have "key_free k s1"
      unfolding bindings_inv_def inverse_maps_def by (metis option.distinct(1))
    with \<open>peer_key s1 p = None\<close> show ?thesis
      by (auto simp: observe_operator_binding_def Some None key_free_def fun_upd_idem intro: bind_operator_inv)
  next
    case b: (Some b)
    then have pk: "peer_key s1 p = Some (ob_pubkey b)" by (simp add: peer_key_def)
    show ?thesis
    proof (cases "ob_pubkey b = k")
      case True
      have "\<not> key_free k s1" using pk True by (auto simp: key_free_def inverse_maps_def)
      with taken have "s1 = s" "key_peer s k = Some p" by (auto split: if_splits)
      with assms True pk b Some show ?thesis
        by (simp add: observe_operator_binding_def bindings_inv_def distinct_update fun_upd_idem)
    next
      case False
      let ?j = "ob_pubkey b"
      have free: "key_free k s1" using taken pk False assms
        unfolding bindings_inv_def inverse_maps_def by (metis option.inject)
      then have "key_peer s1 ?j = Some p" using pk False by (simp add: key_free_def inverse_maps_def)
      then have "snd (observe_operator_binding p k i now s) =
          bind_operator p k i now (s1\<lparr> reg_operator_owner := AList.delete ?j (reg_operator_owner s1) \<rparr>)"
        using Some b False by (simp add: observe_operator_binding_def key_peer_def)
      moreover have "inverse_maps ((peer_key s1)(p := None)) (((key_peer s1)(?j := None))(k := None))"
        using inverse_maps_free [of "peer_key s1" "(key_peer s1)(k := None)" p ?j] free pk False
        by (simp add: key_free_def fun_upd_twist)
      ultimately show ?thesis using free bind_operator_inv
        by (simp add: key_free_def distinct_delete)
    qed
  qed
qed

lemma bindings_inv_rebind:
  assumes "bindings_inv s" "map_of (reg_operators s) p = Some b" "ob_pubkey b' = ob_pubkey b"
  shows "bindings_inv (s\<lparr> reg_operators := AList.update p b' (reg_operators s) \<rparr>)"
proof -
  have "peer_key s p = Some (ob_pubkey b')" using assms by (simp add: peer_key_def)
  with assms(1) show ?thesis by (simp add: bindings_inv_def distinct_update fun_upd_idem)
qed

lemma trust_operator_binding_inv:
  assumes "bindings_inv s"
  shows "bindings_inv (snd (trust_operator_binding p k s))"
proof (cases "trust_conflict p k s = None \<and> owner_conflict p k s = None")
  case True
  show ?thesis
  proof (cases "map_of (reg_operators s) p")
    case (Some b)
    then have "ob_pubkey b = k" "peer_key s p = Some (ob_pubkey b)"
      using True by (auto simp: trust_conflict_def peer_key_def split: if_splits)
    moreover from this have "key_peer s k = Some p" using assms by (simp add: bindings_inv_def inverse_maps_def)
    ultimately show ?thesis
      using True Some assms by (simp add: trust_operator_binding_def bindings_inv_def distinct_update fun_upd_idem)
  next
    case None
    then have pk: "peer_key s p = None" by (simp add: peer_key_def)
    moreover have "key_peer s k = None \<or> key_peer s k = Some p"
      using True by (simp add: owner_conflict_def key_peer_def split: option.splits if_splits)
    with pk assms have "key_peer s k = None"
      unfolding bindings_inv_def inverse_maps_def by (metis option.distinct(1))
    ultimately have "inverse_maps ((peer_key s)(p := None)) ((key_peer s)(k := None))"
      using assms by (simp add: bindings_inv_def fun_upd_idem)
    from inverse_maps_bind [OF this] True None assms show ?thesis
      by (simp add: trust_operator_binding_def bindings_inv_def distinct_update)
  qed
qed (use assms in \<open>auto simp: trust_operator_binding_def split: option.splits\<close>)

section \<open>Lookups in flight\<close>

definition flight_inv :: "RegistryState \<Rightarrow> bool" where
  "flight_inv s \<longleftrightarrow> finite (reg_committee_in_flight s) \<and> card (reg_committee_in_flight s) \<le> COMMITTEE_MAX_IN_FLIGHT_LOOKUPS \<and>
     finite (reg_operators_in_flight s) \<and> card (reg_operators_in_flight s) \<le> OPERATOR_MAX_IN_FLIGHT_LOOKUPS"

text \<open>What a claim leaves alone, and that it needs a peer that is not in flight.\<close>

definition same_tables :: "RegistryState \<Rightarrow> RegistryState \<Rightarrow> bool" where
  "same_tables s s' \<longleftrightarrow> reg_verifiers s' = reg_verifiers s \<and> reg_committee s' = reg_committee s \<and>
     reg_operators s' = reg_operators s \<and> reg_operator_owner s' = reg_operator_owner s"

lemma same_tables_refl [simp]: "same_tables s s"
  by (simp add: same_tables_def)

lemma same_tables_trans: "same_tables s s' \<Longrightarrow> same_tables s' s'' \<Longrightarrow> same_tables s s''"
  by (simp add: same_tables_def)

lemma same_tables_inv: "same_tables s s' \<Longrightarrow> bindings_inv s \<Longrightarrow> bindings_inv s'"
  by (simp add: same_tables_def bindings_inv_def peer_key_def [abs_def] key_peer_def)

lemma take_unknown_lookup_flight:
  assumes "take_unknown_lookup budget now s = (ok, s')"
  shows "same_tables s s'" "reg_committee_in_flight s' = reg_committee_in_flight s"
    "reg_operators_in_flight s' = reg_operators_in_flight s"
    "ok \<Longrightarrow> card (reg_committee_in_flight s) < COMMITTEE_MAX_IN_FLIGHT_LOOKUPS"
  using assms
  by (auto simp: take_unknown_lookup_def Let_def same_tables_def COMMITTEE_MAX_UNKNOWN_IN_FLIGHT_def
    COMMITTEE_MAX_IN_FLIGHT_LOOKUPS_def split: LookupBudget.splits if_splits prod.splits)

text \<open>A peer enters the set of lookups in flight.\<close>

definition enters_flight :: "peer_id \<Rightarrow> RegistryState \<Rightarrow> RegistryState \<Rightarrow> RegistryState \<Rightarrow> bool" where
  "enters_flight peer s s1 s' \<longleftrightarrow> peer \<notin> reg_committee_in_flight s \<and>
     card (reg_committee_in_flight s) < COMMITTEE_MAX_IN_FLIGHT_LOOKUPS \<and>
     s' = s1\<lparr> reg_committee_in_flight := insert peer (reg_committee_in_flight s) \<rparr>"

lemma claim_committee_lookup_cases:
  assumes "claim_committee_lookup peer budget now s = (ok, s')"
  obtains s1 where "same_tables s s1" "reg_committee_in_flight s1 = reg_committee_in_flight s"
    "reg_operators_in_flight s1 = reg_operators_in_flight s" "if ok then enters_flight peer s s1 s' else s' = s1"
proof -
  obtain ok1 s1 where t: "take_unknown_lookup budget now s = (ok1, s1)" by fastforce
  note t' = take_unknown_lookup_flight [OF t]
  from assms consider "\<not> ok" "s' = s"
    | "ok" "enters_flight peer s s s'"
    | "\<not> ok" "\<not> ok1" "s' = s1"
    | "ok" "ok1" "peer \<notin> reg_committee_in_flight s" "s' = s1\<lparr> reg_committee_in_flight := insert peer (reg_committee_in_flight s1) \<rparr>"
    unfolding claim_committee_lookup_def Let_def t enters_flight_def by (simp split: if_splits prod.splits) blast+
  then show ?thesis
  proof cases
    case 4
    with t' show ?thesis by (intro that [of s1]) (simp_all add: enters_flight_def)
  qed (use that [of s] that [of s1] t' in simp_all)
qed

lemma claim_committee_lookup_flight:
  assumes "claim_committee_lookup peer budget now s = (ok, s')"
  shows "same_tables s s'" "flight_inv s \<Longrightarrow> flight_inv s'"
    "ok \<Longrightarrow> peer \<notin> reg_committee_in_flight s \<and> peer \<in> reg_committee_in_flight s'"
proof -
  obtain s1 where s1: "same_tables s s1" "reg_committee_in_flight s1 = reg_committee_in_flight s"
    "reg_operators_in_flight s1 = reg_operators_in_flight s" "if ok then enters_flight peer s s1 s' else s' = s1"
    using claim_committee_lookup_cases [OF assms] .
  then show "same_tables s s'" by (cases ok) (simp_all add: enters_flight_def same_tables_def)
  show "flight_inv s \<Longrightarrow> flight_inv s'"
    using s1(2-) by (cases ok) (simp_all add: enters_flight_def flight_inv_def)
  show "ok \<Longrightarrow> peer \<notin> reg_committee_in_flight s \<and> peer \<in> reg_committee_in_flight s'"
    using s1(4) by (simp add: enters_flight_def)
qed

lemma claim_operator_refresh_flight:
  assumes "claim_operator_refresh peer pubkey now s = (ok, s')"
  shows "same_tables s s'" "flight_inv s \<Longrightarrow> flight_inv s'"
    "ok \<Longrightarrow> peer \<notin> reg_operators_in_flight s \<and> peer \<in> reg_operators_in_flight s'"
  using assms
  by (auto simp: claim_operator_refresh_def Let_def flight_inv_def card_insert_if same_tables_def
    OPERATOR_MAX_UNKNOWN_IN_FLIGHT_def OPERATOR_MAX_IN_FLIGHT_LOOKUPS_def split: option.splits if_splits prod.splits)

lemma claim_operators_flight:
  assumes "claim_operators now due s = (cs, s')"
  shows "same_tables s s'" "flight_inv s \<Longrightarrow> flight_inv s'"
proof -
  have "same_tables s s' \<and> (flight_inv s \<longrightarrow> flight_inv s')"
    using assms
  proof (induction due arbitrary: s cs)
    case (Cons d due)
    obtain b s1 where c: "claim_operator_refresh (fst d) (fst (snd d)) now s = (b, s1)" by fastforce
    obtain rest where r: "claim_operators now due s1 = (rest, s')" using Cons.prems c by (auto split: prod.splits)
    from Cons.IH [OF r] claim_operator_refresh_flight(1,2) [OF c] show ?case by (auto intro: same_tables_trans)
  qed simp
  then show "same_tables s s'" "flight_inv s \<Longrightarrow> flight_inv s'" by auto
qed

lemma plan_due_committee_flight:
  "same_tables s (snd (plan_due_committee_refreshes now s))"
  "flight_inv s \<Longrightarrow> flight_inv (snd (plan_due_committee_refreshes now s))"
proof -
  let ?F = "reg_committee_in_flight s" and ?c = "fst (plan_due_committee_refreshes now s)"
  have s': "snd (plan_due_committee_refreshes now s) = s\<lparr> reg_committee_in_flight := ?F \<union> set ?c \<rparr>"
    by (simp add: plan_due_committee_refreshes_def Let_def)
  then show "same_tables s (snd (plan_due_committee_refreshes now s))" by (simp add: same_tables_def)
  have "card (set ?c) \<le> COMMITTEE_MAX_IN_FLIGHT_LOOKUPS - card ?F"
    by (rule order_trans [OF card_length]) (simp add: plan_due_committee_refreshes_def Let_def)
  then have "card (?F \<union> set ?c) \<le> COMMITTEE_MAX_IN_FLIGHT_LOOKUPS" if "card ?F \<le> COMMITTEE_MAX_IN_FLIGHT_LOOKUPS"
    using card_Un_le [of ?F "set ?c"] that by linarith
  then show "flight_inv s \<Longrightarrow> flight_inv (snd (plan_due_committee_refreshes now s))" by (simp add: flight_inv_def s')
qed

lemma bind_operator_frame [simp]:
  "reg_committee (bind_operator p k i now s) = reg_committee s" "reg_verifiers (bind_operator p k i now s) = reg_verifiers s"
  "reg_committee_in_flight (bind_operator p k i now s) = reg_committee_in_flight s"
  "reg_operators_in_flight (bind_operator p k i now s) = reg_operators_in_flight s"
  by (simp_all add: bind_operator_def make_operator_room_def Let_def)

lemma observe_frame [simp]:
  "reg_committee (snd (observe_operator_binding p k i now s)) = reg_committee s"
  "reg_verifiers (snd (observe_operator_binding p k i now s)) = reg_verifiers s"
  "reg_committee_in_flight (snd (observe_operator_binding p k i now s)) = reg_committee_in_flight s"
  "reg_operators_in_flight (snd (observe_operator_binding p k i now s)) = reg_operators_in_flight s"
  by (auto simp: observe_operator_binding_def take_operator_key_def Let_def split: option.splits if_splits)

lemma trust_frame [simp]:
  "reg_committee (snd (trust_operator_binding p k s)) = reg_committee s"
  "reg_verifiers (snd (trust_operator_binding p k s)) = reg_verifiers s"
  "reg_committee_in_flight (snd (trust_operator_binding p k s)) = reg_committee_in_flight s"
  "reg_operators_in_flight (snd (trust_operator_binding p k s)) = reg_operators_in_flight s"
  by (auto simp: trust_operator_binding_def Let_def split: option.splits)

lemma seed_operator_inv:
  assumes "bindings_inv s"
  shows "bindings_inv (seed_verified_operator p k i now s)"
  using observe_operator_binding_inv [OF assms, of p k i now] bindings_inv_rebind
  by (auto simp: seed_verified_operator_def Let_def split: option.splits)

lemma record_stake_inv:
  assumes "bindings_inv s"
  shows "bindings_inv (snd (record_operator_stake p k v now s))"
proof -
  let ?s = "s\<lparr> reg_operators_in_flight := reg_operators_in_flight s - {p} \<rparr>"
  have "bindings_inv ?s" using assms same_tables_inv by (auto simp: same_tables_def)
  with bindings_inv_rebind [OF this, of p] show ?thesis
    by (auto simp: record_operator_stake_def Let_def split: option.splits)
qed

lemma plan_flight:
  "same_tables s (snd (plan_refresh q now s))" "flight_inv s \<Longrightarrow> flight_inv (snd (plan_refresh q now s))"
proof -
  obtain b s1 where v: "claim_verifier_set_refresh now s = (b, s1)" by fastforce
  then have s1: "same_tables s s1" "flight_inv s \<Longrightarrow> flight_inv s1"
    by (auto simp: claim_verifier_set_refresh_def Let_def same_tables_def flight_inv_def split: if_splits)
  then show "same_tables s (snd (plan_refresh q now s))" "flight_inv s \<Longrightarrow> flight_inv (snd (plan_refresh q now s))"
    using claim_committee_lookup_flight(1,2) v
    by (auto simp: plan_refresh_def split: option.splits prod.splits intro: same_tables_trans)
qed

text \<open>The calls that only claim lookups.\<close>

definition is_plan :: "registry_op \<Rightarrow> bool" where
  "is_plan c = (case c of PlanRefresh _ \<Rightarrow> True | PlanLookup _ _ \<Rightarrow> True | PlanOperator _ _ \<Rightarrow> True | PlanDueOperators \<Rightarrow> True
     | PlanDueCommittee \<Rightarrow> True | _ \<Rightarrow> False)"

lemma plan_step:
  assumes "is_plan c"
  shows "same_tables s (registry_step c now s)" "flight_inv s \<Longrightarrow> flight_inv (registry_step c now s)"
proof -
  have lookup: "same_tables s (snd (claim_committee_lookup p b now s)) \<and> (flight_inv s \<longrightarrow> flight_inv (snd (claim_committee_lookup p b now s)))"
    for p b using claim_committee_lookup_flight(1,2) by (metis prod.collapse)
  have operator: "same_tables s (snd (claim_operator_refresh p k now s)) \<and> (flight_inv s \<longrightarrow> flight_inv (snd (claim_operator_refresh p k now s)))"
    for p k using claim_operator_refresh_flight(1,2) by (metis prod.collapse)
  have operators: "same_tables s (snd (claim_operators now due s)) \<and> (flight_inv s \<longrightarrow> flight_inv (snd (claim_operators now due s)))"
    for due using claim_operators_flight by (metis prod.collapse)
  note plan_defs = plan_candidate_lookup_def plan_neighbour_lookup_def plan_refused_peer_lookup_def plan_operator_refresh_def
    plan_due_operator_refreshes_def Let_def
  have "same_tables s (registry_step c now s) \<and> (flight_inv s \<longrightarrow> flight_inv (registry_step c now s))"
    using assms lookup operator operators plan_flight plan_due_committee_flight
    by (cases c) (simp_all add: is_plan_def plan_defs split: LookupBudget.splits)
  then show "same_tables s (registry_step c now s)" "flight_inv s \<Longrightarrow> flight_inv (registry_step c now s)" by simp_all
qed

lemma registry_step_inv:
  assumes "bindings_inv s" "flight_inv s"
  shows "bindings_inv (registry_step c now s) \<and> flight_inv (registry_step c now s)"
proof (cases c)
  case (ObserveBinding p k i)
  then show ?thesis using assms observe_operator_binding_inv by (simp add: flight_inv_def)
next
  case (TrustBinding p k)
  then show ?thesis using assms trust_operator_binding_inv by (simp add: flight_inv_def)
next
  case (RecordStake p k v)
  have "flight_inv (snd (record_operator_stake p k v now s))"
    using assms(2) card_Diff1_le [of "reg_operators_in_flight s" p]
    by (auto simp: flight_inv_def record_operator_stake_def Let_def split: option.splits)
  with RecordStake show ?thesis using record_stake_inv [OF assms(1)] by simp
next
  case (SeedOperator p k i)
  have "flight_inv (seed_verified_operator p k i now s)"
    using assms(2) by (auto simp: flight_inv_def seed_verified_operator_def Let_def split: option.splits)
  with SeedOperator show ?thesis using seed_operator_inv [OF assms(1)] by simp
next
  case (SeedCommittee p)
  then show ?thesis using assms
    by (auto simp: seed_verified_committee_peer_def flight_inv_def bindings_inv_def peer_key_def [abs_def] key_peer_def split: option.splits)
next
  case (RecordVerifiers v)
  then show ?thesis using assms
    by (auto simp: record_verifier_set_def Let_def flight_inv_def bindings_inv_def peer_key_def [abs_def] key_peer_def split: option.splits)
next
  case (RecordCommittee p v)
  then show ?thesis using assms card_Diff1_le [of "reg_committee_in_flight s" p]
    by (auto simp: record_committee_peer_def Let_def flight_inv_def bindings_inv_def peer_key_def [abs_def] key_peer_def
      split: option.splits prod.splits)
qed (use assms same_tables_inv [OF plan_step(1) [of c s now]] plan_step(2) [of c s now] in \<open>simp_all add: is_plan_def\<close>)

lemma registry_after_inv: "bindings_inv (registry_after h) \<and> flight_inv (registry_after h)"
proof (induction h)
  case Nil
  then show ?case
    by (simp add: registry_new_def bindings_inv_def flight_inv_def inverse_maps_def peer_key_def key_peer_def)
next
  case (Cons c h)
  then show ?case by (simp add: registry_step_inv)
qed

end
