(* ===== verification/P2pVerdicts.thy ===== *)
theory P2pVerdicts
  imports P2pRegistry
begin

text \<open>
  What stands behind the classes of the peer registry: over every history of calls to the registry, a peer that is
  classified as a member was confirmed by the chain not long ago, and nothing later revoked it.
\<close>

section \<open>Verdicts behind the classes\<close>

text \<open>
  A confirmation at time \<open>t\<close> in a history, the latest call first, that no later refutation revokes.
\<close>

primrec backed :: "(registry_op \<Rightarrow> bool) \<Rightarrow> (registry_op \<Rightarrow> bool) \<Rightarrow> (registry_op \<times> nat) list \<Rightarrow> nat \<Rightarrow> bool" where
  "backed conf ref [] t = False"
| "backed conf ref (c # h) t = (conf (fst c) \<and> snd c = t \<or> \<not> ref (fst c) \<and> backed conf ref h t)"

definition committee_backed :: "peer_id \<Rightarrow> (registry_op \<times> nat) list \<Rightarrow> nat \<Rightarrow> bool" where
  "committee_backed p = backed (\<lambda>c. c = RecordCommittee p (Some True) \<or> c = SeedCommittee p)
     (\<lambda>c. c = RecordCommittee p (Some False))"

definition stake_backed :: "peer_id \<Rightarrow> operator_key \<Rightarrow> (registry_op \<times> nat) list \<Rightarrow> nat \<Rightarrow> bool" where
  "stake_backed p k = backed (\<lambda>c. c = RecordStake p k (Some True) \<or> (\<exists>i. c = SeedOperator p k i))
     (\<lambda>c. c = RecordStake p k (Some False))"

text \<open>The verifier set that was recorded last.\<close>

fun last_verifiers :: "(registry_op \<times> nat) list \<Rightarrow> bytes list" where
  "last_verifiers ((RecordVerifiers (Some vs), _) # h) = vs"
| "last_verifiers (_ # h) = last_verifiers h"
| "last_verifiers [] = []"

definition committee_inv :: "(registry_op \<times> nat) list \<Rightarrow> (peer_id \<times> CommitteeEntry) list \<Rightarrow> bool" where
  "committee_inv h m \<longleftrightarrow> distinct (map fst m) \<and>
     (\<forall>p e. map_of m p = Some e \<longrightarrow> ce_registered e \<longrightarrow> (\<exists>t. committee_backed p h t \<and> ce_fetched_at e \<le> t))"

definition stakes_inv :: "(registry_op \<times> nat) list \<Rightarrow> (peer_id \<times> OperatorBinding) list \<Rightarrow> bool" where
  "stakes_inv h m \<longleftrightarrow>
     (\<forall>p b. map_of m p = Some b \<longrightarrow> ob_staked b = Some True \<longrightarrow>
        (\<exists>t at. ob_fetched_at b = Some at \<and> at \<le> t \<and> stake_backed p (ob_pubkey b) h t))"

lemma seeded_le: "seeded_fetched_at now l \<le> now"
  by (simp add: seeded_fetched_at_def Let_def)

lemma submap_delete: "map_of (AList.delete k m) p = Some e \<Longrightarrow> map_of m p = Some e"
  by (simp add: delete_conv' split: if_splits)

lemma submap_filter: "distinct (map fst m) \<Longrightarrow> map_of (filter P m) p = Some e \<Longrightarrow> map_of m p = Some e"
  by (simp only: map_of_filter_key) (simp del: map_of_eq_Some_iff split: option.splits if_splits)

lemma committee_room_sub:
  assumes "distinct (map fst m)" "committee_room p v now m = (m', room)"
  shows "distinct (map fst m')" "\<And>q e. map_of m' q = Some e \<Longrightarrow> map_of m q = Some e"
    "\<not> room \<Longrightarrow> map_of m' p = None \<and> \<not> v" "length m \<le> COMMITTEE_CACHE_MAX_ENTRIES \<Longrightarrow> length m' \<le> COMMITTEE_CACHE_MAX_ENTRIES"
proof -
  let ?f = "filter (\<lambda>(_, e). \<not> committee_needs_refresh now e) m"
  consider "m' = m" "room" | "m' = ?f" "room" | "m' = ?f" "\<not> room" "\<not> v" "map_of m p = None"
    | k where "m' = AList.delete k ?f" "room"
  proof (cases "map_of m p = None \<and> COMMITTEE_CACHE_MAX_ENTRIES \<le> length m")
    case True
    note room = assms(2) [unfolded committee_room_def if_P [OF True] Let_def]
    show thesis
    proof (cases "COMMITTEE_CACHE_MAX_ENTRIES \<le> length ?f \<and> v")
      case True
      with room have find: "(case List.find (\<lambda>(_, e). \<not> ce_registered e) ?f of Some (evict, _) \<Rightarrow> (AList.delete evict ?f, True)
          | None \<Rightarrow> (?f, True)) = (m', room)" by simp
      show thesis
      proof (cases "List.find (\<lambda>(_, e). \<not> ce_registered e) ?f")
        case None
        with find show thesis by (intro that(2)) simp_all
      next
        case (Some e)
        with find show thesis by (intro that(4) [of "fst e"]) (simp_all add: split_beta)
      qed
    next
      case False
      with room \<open>map_of m p = None \<and> _\<close> show thesis by (cases v) (auto intro: that(2,3) split: if_splits)
    qed
  next
    case False
    with assms(2) show thesis by (intro that(1)) (simp_all only: committee_room_def if_False prod.inject)
  qed
  note c = this
  show "distinct (map fst m')"
    by (cases rule: c) (simp_all only: assms(1) distinct_filter_keys distinct_delete)
  show sub: "map_of m' q = Some e \<Longrightarrow> map_of m q = Some e" for q e
    by (cases rule: c) (simp_all only:, (meson submap_filter [OF assms(1)] submap_delete)+)
  show "\<not> room \<Longrightarrow> map_of m' p = None \<and> \<not> v"
    by (cases rule: c) (simp_all only: not_True_eq_False False_implies_equals not_False_eq_True, metis not_None_eq sub)
  have "length (AList.delete k ?f) \<le> length m" for k by (rule order_trans [OF length_delete_le length_filter_le])
  then have "length m' \<le> length m" by (cases rule: c) (simp_all only: order_refl length_filter_le)
  then show "length m \<le> COMMITTEE_CACHE_MAX_ENTRIES \<Longrightarrow> length m' \<le> COMMITTEE_CACHE_MAX_ENTRIES" by (rule order_trans)
qed

lemma record_committee_inv:
  assumes "committee_inv h (reg_committee s)"
  shows "committee_inv ((RecordCommittee p v, now) # h) (reg_committee (snd (record_committee_peer p v now s)))"
proof (cases v)
  case None
  with assms show ?thesis
    by (simp add: record_committee_peer_def committee_inv_def committee_backed_def)
next
  case (Some b)
  let ?m = "reg_committee s"
  obtain m' room where room: "committee_room p b now ?m = (m', room)" by fastforce
  have d: "distinct (map fst ?m)" using assms by (simp add: committee_inv_def)
  note sub = committee_room_sub [OF d room]
  let ?m' = "if room then AList.update p \<lparr> ce_registered = b, ce_fetched_at = now \<rparr> m' else m'"
  have m': "reg_committee (snd (record_committee_peer p v now s)) = ?m'"
    by (simp add: record_committee_peer_def Some room Let_def)
  have "\<exists>t. committee_backed q ((RecordCommittee p v, now) # h) t \<and> ce_fetched_at e \<le> t"
    if e: "map_of ?m' q = Some e" "ce_registered e" for q e
  proof (cases "q = p")
    case True
    then have "room" using e(1) sub(3) by (metis option.distinct(1))
    with e True have "b" "ce_fetched_at e = now" by (auto simp: update_conv')
    with True Some show ?thesis by (auto simp: committee_backed_def)
  next
    case False
    with e(1) have "map_of m' q = Some e" by (simp add: update_conv' del: map_of_eq_Some_iff split: if_splits)
    then obtain t where "committee_backed q h t" "ce_fetched_at e \<le> t"
      using sub(2) e(2) assms unfolding committee_inv_def by blast
    with False show ?thesis by (auto simp: committee_backed_def)
  qed
  moreover have "distinct (map fst ?m')" using sub(1) by (simp add: distinct_update)
  ultimately show ?thesis unfolding committee_inv_def m' by blast
qed

lemma seed_committee_inv:
  assumes "committee_inv h (reg_committee s)"
  shows "committee_inv ((SeedCommittee p, now) # h) (reg_committee (seed_verified_committee_peer p now s))"
proof -
  have keep: "committee_inv ((SeedCommittee p, now) # h) (reg_committee s)"
    using assms unfolding committee_inv_def committee_backed_def by fastforce
  show ?thesis
  proof (cases "map_of (reg_committee s) p")
    case None
    let ?e = "\<lparr> ce_registered = True, ce_fetched_at = seeded_fetched_at now COMMITTEE_STALE_LIMIT \<rparr>"
    have "\<exists>t. committee_backed q ((SeedCommittee p, now) # h) t \<and> ce_fetched_at e \<le> t"
      if e: "map_of (AList.update p ?e (reg_committee s)) q = Some e" "ce_registered e" for q e
    proof (cases "q = p")
      case True
      with e(1) have "e = ?e" by (simp add: update_conv')
      with True seeded_le show ?thesis by (auto simp: committee_backed_def)
    next
      case False
      with e keep show ?thesis unfolding committee_inv_def by (simp add: update_conv' del: map_of_eq_Some_iff)
    qed
    moreover have "distinct (map fst (AList.update p ?e (reg_committee s)))"
      using assms by (simp add: committee_inv_def distinct_update)
    ultimately show ?thesis
      unfolding committee_inv_def by (simp add: seed_verified_committee_peer_def None del: map_of_eq_Some_iff)
  qed (use keep in \<open>simp add: seed_verified_committee_peer_def\<close>)
qed

text \<open>A call that confirms no stake: every confirmed binding was there before, with the same key and time.\<close>

definition no_new_stakes :: "(peer_id \<times> OperatorBinding) list \<Rightarrow> (peer_id \<times> OperatorBinding) list \<Rightarrow> bool" where
  "no_new_stakes m m' \<longleftrightarrow>
     (\<forall>p b'. map_of m' p = Some b' \<longrightarrow> ob_staked b' = Some True \<longrightarrow>
        (\<exists>b. map_of m p = Some b \<and> ob_staked b = Some True \<and> ob_pubkey b = ob_pubkey b' \<and> ob_fetched_at b = ob_fetched_at b'))"

lemma no_new_stakes_refl [simp]: "no_new_stakes m m"
  unfolding no_new_stakes_def by blast

lemma no_new_stakes_trans: "no_new_stakes m m' \<Longrightarrow> no_new_stakes m' m'' \<Longrightarrow> no_new_stakes m m''"
  unfolding no_new_stakes_def by (metis (no_types, lifting))

lemma no_new_stakes_delete: "no_new_stakes m (AList.delete p m)"
  unfolding no_new_stakes_def by (metis submap_delete)

lemma no_new_stakes_filter: "distinct (map fst m) \<Longrightarrow> no_new_stakes m (filter P m)"
  unfolding no_new_stakes_def by (metis submap_filter)

lemma no_new_stakes_update:
  assumes "ob_staked b' = Some True \<Longrightarrow> \<exists>b. map_of m p = Some b \<and> ob_staked b = Some True \<and> ob_pubkey b = ob_pubkey b' \<and>
    ob_fetched_at b = ob_fetched_at b'"
  shows "no_new_stakes m (AList.update p b' m)"
  unfolding no_new_stakes_def
proof (intro allI impI)
  fix q c
  assume "map_of (AList.update p b' m) q = Some c" "ob_staked c = Some True"
  with assms show "\<exists>b. map_of m q = Some b \<and> ob_staked b = Some True \<and> ob_pubkey b = ob_pubkey c \<and> ob_fetched_at b = ob_fetched_at c"
    by (cases "q = p") (simp_all add: update_conv' del: map_of_eq_Some_iff)
qed

lemma no_new_stakes_fresh [simp]: "ob_staked b' \<noteq> Some True \<Longrightarrow> no_new_stakes m (AList.update p b' m)"
  by (rule no_new_stakes_update) simp

lemma stakes_inv_keep:
  assumes "stakes_inv h m" "no_new_stakes m m'" "\<And>p k. c \<noteq> RecordStake p k (Some False)"
  shows "stakes_inv ((c, now) # h) m'"
  unfolding stakes_inv_def
proof (intro allI impI)
  fix p b'
  assume b': "map_of m' p = Some b'" "ob_staked b' = Some True"
  with assms(2) obtain b where b: "map_of m p = Some b" "ob_staked b = Some True" "ob_pubkey b = ob_pubkey b'"
    "ob_fetched_at b = ob_fetched_at b'" unfolding no_new_stakes_def by blast
  with assms(1) obtain t at where "ob_fetched_at b = Some at" "at \<le> t" "stake_backed p (ob_pubkey b) h t"
    unfolding stakes_inv_def by blast
  with b assms(3) show "\<exists>t at. ob_fetched_at b' = Some at \<and> at \<le> t \<and> stake_backed p (ob_pubkey b') ((c, now) # h) t"
    by (intro exI [of _ t] exI [of _ at]) (simp add: stake_backed_def)
qed

lemma bind_operator_stakes:
  assumes "distinct (map fst (reg_operators s))"
  shows "no_new_stakes (reg_operators s) (reg_operators (bind_operator p k i now s))"
proof -
  have "no_new_stakes (reg_operators s) (reg_operators (make_operator_room p now s))"
    using no_new_stakes_filter [OF assms] by (simp add: make_operator_room_def Let_def)
  moreover have "no_new_stakes (reg_operators (make_operator_room p now s)) (reg_operators (bind_operator p k i now s))"
    by (simp add: bind_operator_def Let_def)
  ultimately show ?thesis by (rule no_new_stakes_trans)
qed

lemma observe_stakes:
  assumes "bindings_inv s"
  shows "no_new_stakes (reg_operators s) (reg_operators (snd (observe_operator_binding p k i now s)))"
proof (cases "take_operator_key p k i s")
  case None
  then show ?thesis by (simp add: observe_operator_binding_def)
next
  case (Some s1)
  then have s1: "no_new_stakes (reg_operators s) (reg_operators s1)" "distinct (map fst (reg_operators s1))"
    using assms no_new_stakes_delete
    by (auto simp: take_operator_key_def bindings_inv_def distinct_delete split: option.splits if_splits)
  note bind = bind_operator_stakes [where p = p and k = k and i = i and now = now]
  have "no_new_stakes (reg_operators s1) (reg_operators (snd (observe_operator_binding p k i now s)))"
  proof (cases "map_of (reg_operators s1) p")
    case None
    with Some bind [OF s1(2)] show ?thesis by (simp add: observe_operator_binding_def)
  next
    case b: (Some b)
    let ?s2 = "if map_of (reg_operator_owner s1) (ob_pubkey b) = Some p
      then s1\<lparr> reg_operator_owner := AList.delete (ob_pubkey b) (reg_operator_owner s1) \<rparr> else s1"
    have same: "reg_operators ?s2 = reg_operators s1" by simp
    have "no_new_stakes (reg_operators s1) (reg_operators (bind_operator p k i now ?s2))"
      using bind [of ?s2] s1(2) unfolding same .
    moreover have "no_new_stakes (reg_operators s1)
        (AList.update p (b\<lparr> ob_issued_at := max (ob_issued_at b) i \<rparr>) (reg_operators s1))"
      by (rule no_new_stakes_update) (simp add: b del: map_of_eq_Some_iff)
    ultimately show ?thesis
      by (simp add: observe_operator_binding_def Some b Let_def del: map_of_eq_Some_iff)
  qed
  with s1(1) show ?thesis by (rule no_new_stakes_trans)
qed

lemma trust_stakes: "no_new_stakes (reg_operators s) (reg_operators (snd (trust_operator_binding p k s)))"
proof -
  have "no_new_stakes (reg_operators s) (AList.update p (b\<lparr> ob_trusted := True \<rparr>) (reg_operators s))"
    if "map_of (reg_operators s) p = Some b" for b
    by (rule no_new_stakes_update) (simp add: that del: map_of_eq_Some_iff)
  then show ?thesis
    by (simp add: trust_operator_binding_def Let_def del: map_of_eq_Some_iff split: option.split)
qed

lemma record_stake_stakes:
  assumes "stakes_inv h (reg_operators s)"
  shows "stakes_inv ((RecordStake p k v, now) # h) (reg_operators (snd (record_operator_stake p k v now s)))"
proof (cases "\<exists>w b. v = Some w \<and> map_of (reg_operators s) p = Some b \<and> ob_pubkey b = k")
  case True
  then obtain w b where w: "v = Some w" "map_of (reg_operators s) p = Some b" "ob_pubkey b = k" by blast
  let ?b = "b\<lparr> ob_staked := Some w, ob_fetched_at := Some now \<rparr>"
  have m': "reg_operators (snd (record_operator_stake p k v now s)) = AList.update p ?b (reg_operators s)"
    by (simp add: record_operator_stake_def w Let_def del: map_of_eq_Some_iff)
  show ?thesis
    unfolding stakes_inv_def m'
  proof (intro allI impI)
    fix q c
    assume c: "map_of (AList.update p ?b (reg_operators s)) q = Some c" "ob_staked c = Some True"
    show "\<exists>t at. ob_fetched_at c = Some at \<and> at \<le> t \<and> stake_backed q (ob_pubkey c) ((RecordStake p k v, now) # h) t"
    proof (cases "q = p")
      case True
      with c have "c = ?b" "w" by (auto simp: update_conv')
      with True w show ?thesis by (auto simp: stake_backed_def)
    next
      case False
      with c(1) have "map_of (reg_operators s) q = Some c" by (simp add: update_conv' del: map_of_eq_Some_iff)
      with assms c(2) obtain t at where "ob_fetched_at c = Some at" "at \<le> t" "stake_backed q (ob_pubkey c) h t"
        unfolding stakes_inv_def by blast
      with False show ?thesis by (auto simp: stake_backed_def)
    qed
  qed
next
  case False
  then have m': "reg_operators (snd (record_operator_stake p k v now s)) = reg_operators s"
    by (auto simp: record_operator_stake_def Let_def simp del: map_of_eq_Some_iff split: option.splits)
  show ?thesis
    unfolding stakes_inv_def m'
  proof (intro allI impI)
    fix q c
    assume c: "map_of (reg_operators s) q = Some c" "ob_staked c = Some True"
    with assms obtain t at where t: "ob_fetched_at c = Some at" "at \<le> t" "stake_backed q (ob_pubkey c) h t"
      unfolding stakes_inv_def by blast
    have "RecordStake p k v \<noteq> RecordStake q (ob_pubkey c) (Some False)" using False c(1) by auto
    with t show "\<exists>t at. ob_fetched_at c = Some at \<and> at \<le> t \<and> stake_backed q (ob_pubkey c) ((RecordStake p k v, now) # h) t"
      by (intro exI [of _ t] exI [of _ at]) (auto simp: stake_backed_def)
  qed
qed

lemma seed_operator_stakes:
  assumes "stakes_inv h (reg_operators s)" "bindings_inv s"
  shows "stakes_inv ((SeedOperator p k i, now) # h) (reg_operators (seed_verified_operator p k i now s))"
proof -
  let ?s = "snd (observe_operator_binding p k i now s)"
  have keep: "stakes_inv ((SeedOperator p k i, now) # h) (reg_operators ?s)"
    by (rule stakes_inv_keep [OF assms(1) observe_stakes [OF assms(2)]]) simp
  show ?thesis
  proof (cases "\<exists>b. map_of (reg_operators ?s) p = Some b \<and> ob_pubkey b = k \<and> ob_staked b = None")
    case True
    then obtain b where b: "map_of (reg_operators ?s) p = Some b" "ob_pubkey b = k" "ob_staked b = None" by blast
    let ?b = "b\<lparr> ob_staked := Some True, ob_fetched_at := Some (seeded_fetched_at now OPERATOR_STAKE_STALE_LIMIT) \<rparr>"
    have m': "reg_operators (seed_verified_operator p k i now s) = AList.update p ?b (reg_operators ?s)"
      by (simp add: seed_verified_operator_def b Let_def del: map_of_eq_Some_iff)
    show ?thesis
      unfolding stakes_inv_def m'
    proof (intro allI impI)
      fix q c
      assume c: "map_of (AList.update p ?b (reg_operators ?s)) q = Some c" "ob_staked c = Some True"
      show "\<exists>t at. ob_fetched_at c = Some at \<and> at \<le> t \<and> stake_backed q (ob_pubkey c) ((SeedOperator p k i, now) # h) t"
      proof (cases "q = p")
        case True
        with c have "c = ?b" by (simp add: update_conv')
        with True b seeded_le show ?thesis by (auto simp: stake_backed_def)
      next
        case False
        with c(1) have "map_of (reg_operators ?s) q = Some c" by (simp add: update_conv' del: map_of_eq_Some_iff)
        with keep c(2) show ?thesis unfolding stakes_inv_def by blast
      qed
    qed
  next
    case False
    then have "seed_verified_operator p k i now s = ?s"
      by (auto simp: seed_verified_operator_def Let_def simp del: map_of_eq_Some_iff split: option.splits)
    with keep show ?thesis by simp
  qed
qed

definition classes_inv :: "(registry_op \<times> nat) list \<Rightarrow> RegistryState \<Rightarrow> bool" where
  "classes_inv h s \<longleftrightarrow> bindings_inv s \<and> committee_inv h (reg_committee s) \<and> stakes_inv h (reg_operators s) \<and>
     reg_verifiers s = set (last_verifiers h)"

lemma committee_inv_keep:
  assumes "committee_inv h m" "\<And>p. c \<noteq> RecordCommittee p (Some False)"
  shows "committee_inv ((c, now) # h) m"
  using assms unfolding committee_inv_def committee_backed_def by fastforce

lemma registry_after_classes: "classes_inv h (registry_after h)"
proof (induction h)
  case Nil
  show ?case
    using registry_after_inv [of "[]"]
    by (simp add: classes_inv_def committee_inv_def stakes_inv_def registry_new_def)
next
  case (Cons e h)
  obtain c now where e: "e = (c, now)" by (cases e)
  let ?s = "registry_after h" and ?s' = "registry_step c now (registry_after h)"
  from Cons have inv: "bindings_inv ?s" "committee_inv h (reg_committee ?s)" "stakes_inv h (reg_operators ?s)"
    "reg_verifiers ?s = set (last_verifiers h)" by (simp_all add: classes_inv_def)
  note keep = committee_inv_keep [OF inv(2)] stakes_inv_keep [OF inv(3)]
  have "committee_inv (e # h) (reg_committee ?s') \<and> stakes_inv (e # h) (reg_operators ?s') \<and>
      reg_verifiers ?s' = set (last_verifiers (e # h))"
  proof (cases "is_plan c")
    case True
    then have "same_tables ?s ?s'" by (rule plan_step(1))
    with True keep inv(4) e show ?thesis
      by (cases c) (simp_all add: same_tables_def is_plan_def)
  next
    case False
    then show ?thesis
    proof (cases c)
      case (RecordStake p k v)
      with record_stake_stakes [OF inv(3)] keep(1) inv(4) e show ?thesis
        by (simp add: record_operator_stake_def Let_def split: option.split)
    next
      case (SeedOperator p k i)
      have "reg_committee ?s' = reg_committee ?s" "reg_verifiers ?s' = reg_verifiers ?s"
        by (simp_all add: SeedOperator seed_verified_operator_def Let_def split: option.split)
      with seed_operator_stakes [OF inv(3,1)] keep(1) inv(4) e SeedOperator show ?thesis by simp
    next
      case (SeedCommittee p)
      have "reg_operators ?s' = reg_operators ?s" "reg_verifiers ?s' = reg_verifiers ?s"
        by (simp_all add: SeedCommittee seed_verified_committee_peer_def split: option.split)
      with seed_committee_inv [OF inv(2)] keep(2) inv(4) e SeedCommittee show ?thesis by simp
    next
      case (RecordCommittee p v)
      have "reg_operators ?s' = reg_operators ?s" "reg_verifiers ?s' = reg_verifiers ?s"
        by (simp_all add: RecordCommittee record_committee_peer_def Let_def split: option.split prod.split)
      with record_committee_inv [OF inv(2)] keep(2) inv(4) e RecordCommittee show ?thesis by simp
    next
      case (RecordVerifiers v)
      have "reg_operators ?s' = reg_operators ?s" "reg_committee ?s' = reg_committee ?s"
        by (simp_all add: RecordVerifiers record_verifier_set_def Let_def split: option.split)
      with keep inv(4) e RecordVerifiers show ?thesis by (cases v) (simp_all add: record_verifier_set_def)
    next
      case (ObserveBinding p k i)
      with keep inv(4) e observe_stakes [OF inv(1)] show ?thesis by simp
    next
      case (TrustBinding p k)
      with keep inv(4) e trust_stakes show ?thesis by simp
    qed (simp_all add: is_plan_def)
  qed
  moreover have "bindings_inv ?s'" using registry_after_inv [of "e # h"] e by simp
  ultimately show ?case by (simp add: classes_inv_def e)
qed

section \<open>Properties\<close>

text \<open>
  \<^bold>\<open>C34.\<close> A class is always backed by a recent verdict of the chain. After any history of calls to the
  registry: a peer is classified as \<open>Committee\<close> only if within the last 30 minutes a lookup confirmed it as a committee member, or it
  was restored as one confirmed in an earlier session, and no later lookup denied it. A peer is classified as
  \<open>Registered\<close> only if the last verifier set contains it, or it is the one peer bound to an operator key
  whose stake was confirmed for that peer and key in the same way.
\<close>

theorem class_backed_by_verdict:
  "case sender_class peer now (registry_after h) of
      Committee \<Rightarrow> \<exists>t. committee_backed peer h t \<and> now - t < COMMITTEE_STALE_LIMIT
    | Registered \<Rightarrow> peer \<in> set (last_verifiers h) \<or>
        (\<exists>k t. operator_peer_for k (registry_after h) = Some peer \<and> stake_backed peer k h t \<and>
           now - t < OPERATOR_STAKE_STALE_LIMIT)
    | Unregistered \<Rightarrow> True"
proof -
  define s where "s = registry_after h"
  have inv: "bindings_inv s" "committee_inv h (reg_committee s)" "stakes_inv h (reg_operators s)"
    "reg_verifiers s = set (last_verifiers h)"
    using registry_after_classes [of h] by (simp_all add: s_def classes_inv_def)
  have com: "\<exists>t. committee_backed peer h t \<and> now - t < COMMITTEE_STALE_LIMIT"
    if "map_of (reg_committee s) peer = Some e" "committee_is_registered now e" for e
  proof -
    from that inv(2) obtain t where "committee_backed peer h t" "ce_fetched_at e \<le> t"
      unfolding committee_inv_def committee_is_registered_def by blast
    moreover from this(2) that(2) have "now - t < COMMITTEE_STALE_LIMIT" unfolding committee_is_registered_def by linarith
    ultimately show ?thesis by blast
  qed
  have op: "\<exists>k t. operator_peer_for k s = Some peer \<and> stake_backed peer k h t \<and> now - t < OPERATOR_STAKE_STALE_LIMIT"
    if b: "map_of (reg_operators s) peer = Some b" "operator_is_registered now b" for b
  proof -
    have "peer_key s peer = Some (ob_pubkey b)" by (simp add: peer_key_def b(1))
    with inv(1) have "key_peer s (ob_pubkey b) = Some peer" by (simp add: bindings_inv_def inverse_maps_def)
    moreover from b inv(3) obtain t at where "ob_fetched_at b = Some at" "at \<le> t" "stake_backed peer (ob_pubkey b) h t"
      unfolding stakes_inv_def operator_is_registered_def by blast
    moreover from this(1,2) b(2) have "now - t < OPERATOR_STAKE_STALE_LIMIT" by (auto simp: operator_is_registered_def)
    ultimately show ?thesis by (auto simp: operator_peer_for_def key_peer_def)
  qed
  show ?thesis
    using com op inv(4) unfolding s_def [symmetric] by (auto simp: sender_class_def simp del: map_of_eq_Some_iff split: option.splits)
qed

text \<open>
  \<^bold>\<open>C35.\<close> The registry keeps its structure: after any history of calls, a peer holds at most one operator key and a
  key belongs to at most one peer, the two tables agree, and at most 16 committee lookups and 16 stake lookups
  are in flight.
\<close>

theorem registry_well_formed:
  "(operator_peer_for k (registry_after h) = Some p \<longleftrightarrow>
      (\<exists>b. map_of (reg_operators (registry_after h)) p = Some b \<and> ob_pubkey b = k)) \<and>
   card (reg_committee_in_flight (registry_after h)) \<le> 16 \<and> card (reg_operators_in_flight (registry_after h)) \<le> 16"
proof -
  define s where "s = registry_after h"
  have inv: "bindings_inv s" "flight_inv s" using registry_after_inv [of h] by (simp_all add: s_def)
  then have "operator_peer_for k s = Some p \<longleftrightarrow> peer_key s p = Some k"
    by (simp only: bindings_inv_def inverse_maps_def operator_peer_for_def key_peer_def)
  with inv(2) show ?thesis
    unfolding s_def [symmetric]
    by (simp add: peer_key_def flight_inv_def COMMITTEE_MAX_IN_FLIGHT_LOOKUPS_def OPERATOR_MAX_IN_FLIGHT_LOOKUPS_def
      del: map_of_eq_Some_iff)
qed

end
