(* ===== verification/NodeMessages.thy ===== *)
theory NodeMessages
  imports EngineEvents Hashing
begin

text \<open>
  The wire messages of the node (\<^verbatim>\<open>src/node/src/messages.rs\<close>) and the inbox events they become
  (\<^verbatim>\<open>src/node/src/aggregates/common.rs\<close>): the message kinds with their delivery and routing tables, the two wire
  formats, the signed bindings, the content id by which the engine tells messages apart and the delivery id by which
  both ends of a heavy message name it.

  Keys, signatures and cryptographic payloads are opaque byte strings. The codecs, the hash function, the signature
  scheme and the text forms of identifiers are third-party code: the fields of \<open>message_env\<close>.
\<close>

section \<open>Roles and kinds\<close>

datatype Actor = ActorCommittee | ActorOperator | ActorVerifier | ActorWatchtower | ActorPublisher | ActorAll

fun actor_string :: "Actor \<Rightarrow> string" where
  "actor_string ActorCommittee = ''Committee''"
| "actor_string ActorOperator = ''Operator''"
| "actor_string ActorVerifier = ''Verifier''"
| "actor_string ActorWatchtower = ''Watchtower''"
| "actor_string ActorPublisher = ''Publisher''"
| "actor_string ActorAll = ''All''"

datatype MessageKind =
    KCreateGraph | KInitGraph | KGenCircuits | KCutCircuits | KSolderingProofReady | KGraphSetupAck
  | KVerifierGraphParamsEndorsement | KNonceGeneration | KAggNonceConsensus | KCommitteePresign | KEndorseGraph
  | KGraphFinalize | KPeginConfirmNonce | KPeginConfirmNonceConsensus | KPeginConfirmPartialSig | KRequestNodeInfo
  | KResponseNodeInfo

fun kind_str :: "MessageKind \<Rightarrow> string" where
  "kind_str KCreateGraph = ''CreateGraph''"
| "kind_str KInitGraph = ''InitGraph''"
| "kind_str KGenCircuits = ''GenCircuits''"
| "kind_str KCutCircuits = ''CutCircuits''"
| "kind_str KSolderingProofReady = ''SolderingProofReady''"
| "kind_str KGraphSetupAck = ''GraphSetupAck''"
| "kind_str KVerifierGraphParamsEndorsement = ''VerifierGraphParamsEndorsement''"
| "kind_str KNonceGeneration = ''NonceGeneration''"
| "kind_str KAggNonceConsensus = ''AggNonceConsensus''"
| "kind_str KCommitteePresign = ''CommitteePresign''"
| "kind_str KEndorseGraph = ''EndorseGraph''"
| "kind_str KGraphFinalize = ''GraphFinalize''"
| "kind_str KPeginConfirmNonce = ''PeginConfirmNonce''"
| "kind_str KPeginConfirmNonceConsensus = ''PeginConfirmNonceConsensus''"
| "kind_str KPeginConfirmPartialSig = ''PeginConfirmPartialSig''"
| "kind_str KRequestNodeInfo = ''RequestNodeInfo''"
| "kind_str KResponseNodeInfo = ''ResponseNodeInfo''"

section \<open>Routing\<close>

text \<open>The job of the Graph aggregate that ingests a kind for a role, and the Instance aggregate's.\<close>

definition graph_route_action :: "string \<Rightarrow> Actor \<Rightarrow> string option" where
  "graph_route_action kind actor =
     (if kind = ''InitGraph'' \<and> actor = ActorVerifier then Some ''verifier_setup''
      else if kind = ''GenCircuits'' \<and> actor = ActorOperator then Some ''ingest_gen_circuits''
      else if kind = ''CutCircuits'' \<and> actor = ActorVerifier then Some ''verifier_solder''
      else if kind = ''SolderingProofReady'' \<and> actor = ActorOperator then Some ''ingest_soldering_proof''
      else if kind = ''CreateGraph'' \<and> actor = ActorVerifier then Some ''verifier_validate_graph''
      else if kind = ''CreateGraph'' \<and> actor = ActorCommittee then Some ''committee_ingest_graph''
      else if kind = ''VerifierGraphParamsEndorsement'' \<and> actor = ActorCommittee then Some ''ingest_verifier_endorsement''
      else if kind = ''NonceGeneration'' \<and> actor \<in> {ActorCommittee, ActorOperator} then Some ''ingest_nonces''
      else if kind = ''AggNonceConsensus'' \<and> actor = ActorCommittee then Some ''ingest_vote''
      else if kind = ''CommitteePresign'' \<and> actor \<in> {ActorCommittee, ActorOperator} then Some ''ingest_presign''
      else if kind = ''EndorseGraph'' \<and> actor = ActorOperator then Some ''ingest_endorsement''
      else if kind = ''GraphFinalize'' then Some ''ingest_finalized''
      else None)"

definition graph_engine_handles :: "string \<Rightarrow> Actor \<Rightarrow> bool" where
  "graph_engine_handles kind actor = (graph_route_action kind actor \<noteq> None)"

definition ack_required :: "string \<Rightarrow> bool" where
  "ack_required kind \<longleftrightarrow> kind \<in> {''GenCircuits'', ''CutCircuits'', ''SolderingProofReady'', ''CreateGraph'', ''GraphFinalize''}"

definition instance_route_action :: "string \<Rightarrow> Actor \<Rightarrow> string option" where
  "instance_route_action kind actor =
     (if actor \<noteq> ActorCommittee then None
      else if kind = ''PeginConfirmNonce'' then Some ''ingest_pegin_confirm_nonce''
      else if kind = ''PeginConfirmNonceConsensus'' then Some ''ingest_pegin_confirm_vote''
      else if kind = ''PeginConfirmPartialSig'' then Some ''ingest_pegin_confirm_partial_sig''
      else None)"

definition instance_engine_handles :: "string \<Rightarrow> Actor \<Rightarrow> bool" where
  "instance_engine_handles kind actor = (instance_route_action kind actor \<noteq> None)"

definition handled_by :: "MessageKind \<Rightarrow> Actor \<Rightarrow> bool" where
  "handled_by kind actor =
     (if kind \<in> {KGraphSetupAck, KRequestNodeInfo, KResponseNodeInfo} then True
      else if kind \<in> {KPeginConfirmNonce, KPeginConfirmNonceConsensus, KPeginConfirmPartialSig}
      then instance_engine_handles (kind_str kind) actor
      else graph_engine_handles (kind_str kind) actor)"

section \<open>Messages\<close>

type_synonym uuid = "128 word"
type_synonym public_key = bytes
type_synonym signature = bytes

text \<open>A simplified graph, of which this code reads the operator's key; the rest is opaque.\<close>

record simplified_graph =
  sg_operator_pubkey :: public_key
  sg_rest :: bytes

record NodeInfo =
  ni_peer_id :: string
  ni_actor :: string
  ni_goat_addr :: string
  ni_btc_pub_key :: string
  ni_socket_addr :: string
  ni_node_name :: string
  ni_service_fee_rate :: bytes
  ni_available_peg_btc :: string
  ni_binding_sig :: string
  ni_binding_issued_at :: int

record InitGraph =
  ig_instance_id :: uuid
  ig_graph_id :: uuid
  ig_operator_pubkey :: public_key
  ig_operator_peer_id :: bytes
  ig_signature :: signature

text \<open>Constructors with the fields of the message structs in their order.\<close>

datatype GOATMessageContent =
    CreateGraph uuid uuid "64 word" simplified_graph
  | InitGraphMsg InitGraph
  | GenCircuits uuid uuid public_key bytes
  | CutCircuits uuid uuid public_key nat "nat list"
  | SolderingProofReady uuid uuid nat hash32 nat
  | GraphSetupAck string
  | VerifierGraphParamsEndorsement uuid uuid public_key nat hash32 signature
  | NonceGeneration uuid uuid public_key bytes bytes
  | AggNonceConsensus uuid uuid public_key hash32 signature
  | CommitteePresign uuid uuid public_key bytes bytes
  | EndorseGraph uuid uuid public_key bytes bytes bytes
  | GraphFinalize uuid uuid "64 word" simplified_graph "(public_key \<times> bytes \<times> bytes) list" "(public_key \<times> bytes \<times> bytes) list"
  | PeginConfirmNonce uuid public_key bytes signature
  | PeginConfirmNonceConsensus uuid public_key hash32 signature
  | PeginConfirmPartialSig uuid public_key bytes bytes
  | RequestNodeInfo NodeInfo
  | ResponseNodeInfo NodeInfo

record GOATMessage =
  gm_actor :: Actor
  gm_content :: GOATMessageContent

fun message_kind :: "GOATMessageContent \<Rightarrow> MessageKind" where
  "message_kind (CreateGraph _ _ _ _) = KCreateGraph"
| "message_kind (InitGraphMsg _) = KInitGraph"
| "message_kind (GenCircuits _ _ _ _) = KGenCircuits"
| "message_kind (CutCircuits _ _ _ _ _) = KCutCircuits"
| "message_kind (SolderingProofReady _ _ _ _ _) = KSolderingProofReady"
| "message_kind (GraphSetupAck _) = KGraphSetupAck"
| "message_kind (VerifierGraphParamsEndorsement _ _ _ _ _ _) = KVerifierGraphParamsEndorsement"
| "message_kind (NonceGeneration _ _ _ _ _) = KNonceGeneration"
| "message_kind (AggNonceConsensus _ _ _ _ _) = KAggNonceConsensus"
| "message_kind (CommitteePresign _ _ _ _ _) = KCommitteePresign"
| "message_kind (EndorseGraph _ _ _ _ _ _) = KEndorseGraph"
| "message_kind (GraphFinalize _ _ _ _ _ _) = KGraphFinalize"
| "message_kind (PeginConfirmNonce _ _ _ _) = KPeginConfirmNonce"
| "message_kind (PeginConfirmNonceConsensus _ _ _ _) = KPeginConfirmNonceConsensus"
| "message_kind (PeginConfirmPartialSig _ _ _ _) = KPeginConfirmPartialSig"
| "message_kind (RequestNodeInfo _) = KRequestNodeInfo"
| "message_kind (ResponseNodeInfo _) = KResponseNodeInfo"

definition event_type :: "GOATMessageContent \<Rightarrow> string" where
  "event_type c = kind_str (message_kind c)"

datatype P2PMessageDelivery = DeliverInbox | DeliverImmediate

definition p2p_delivery :: "GOATMessageContent \<Rightarrow> P2PMessageDelivery" where
  "p2p_delivery c =
     (case c of
        RequestNodeInfo _ \<Rightarrow> DeliverImmediate
      | ResponseNodeInfo _ \<Rightarrow> DeliverImmediate
      | GraphSetupAck _ \<Rightarrow> DeliverImmediate
      | _ \<Rightarrow> DeliverInbox)"

datatype BusinessRef = RefInstance uuid | RefGraph uuid uuid | Unscoped

fun business_ref :: "GOATMessageContent \<Rightarrow> BusinessRef" where
  "business_ref (CreateGraph i g _ _) = RefGraph i g"
| "business_ref (InitGraphMsg m) = RefGraph (ig_instance_id m) (ig_graph_id m)"
| "business_ref (GenCircuits i g _ _) = RefGraph i g"
| "business_ref (CutCircuits i g _ _ _) = RefGraph i g"
| "business_ref (SolderingProofReady i g _ _ _) = RefGraph i g"
| "business_ref (GraphSetupAck _) = Unscoped"
| "business_ref (VerifierGraphParamsEndorsement i g _ _ _ _) = RefGraph i g"
| "business_ref (NonceGeneration i g _ _ _) = RefGraph i g"
| "business_ref (AggNonceConsensus i g _ _ _) = RefGraph i g"
| "business_ref (CommitteePresign i g _ _ _) = RefGraph i g"
| "business_ref (EndorseGraph i g _ _ _ _) = RefGraph i g"
| "business_ref (GraphFinalize i g _ _ _ _) = RefGraph i g"
| "business_ref (PeginConfirmNonce i _ _ _) = RefInstance i"
| "business_ref (PeginConfirmNonceConsensus i _ _ _) = RefInstance i"
| "business_ref (PeginConfirmPartialSig i _ _ _) = RefInstance i"
| "business_ref (RequestNodeInfo _) = Unscoped"
| "business_ref (ResponseNodeInfo _) = Unscoped"

section \<open>The environment of the messages\<close>

record InboundMessage =
  im_author :: string
  im_instance_id :: uuid
  im_graph_nonce :: "64 word option"
  im_operator_pubkey :: "string option"
  im_message :: bytes

record message_env =
  sha256_digest :: "bytes \<Rightarrow> bytes"
  hex_encode :: "bytes \<Rightarrow> string"
  hex_decode :: "string \<Rightarrow> bytes option"
  peer_string :: "bytes \<Rightarrow> string"
  uuid_bytes :: "uuid \<Rightarrow> bytes"
  uuid_string :: "uuid \<Rightarrow> string"
  pubkey_string :: "public_key \<Rightarrow> string"
  pubkey_from_str :: "string \<Rightarrow> public_key option"
  xonly :: "public_key \<Rightarrow> 256 word"
  schnorr_from_slice :: "bytes \<Rightarrow> signature option"
  verify_schnorr :: "signature \<Rightarrow> bytes \<Rightarrow> 256 word \<Rightarrow> bool"
  bincode_message :: "GOATMessage \<Rightarrow> bytes option"
  bincode_to_message :: "bytes \<Rightarrow> GOATMessage option"
  json_message :: "GOATMessage \<Rightarrow> bytes option"
  json_to_message :: "bytes \<Rightarrow> GOATMessage option"
  bincode_inbound :: "InboundMessage \<Rightarrow> bytes option"

section \<open>Wire formats\<close>

definition GOAT_MESSAGE_BIN_PREFIX :: bytes where
  "GOAT_MESSAGE_BIN_PREFIX = as_bytes ''GOATBIN1''"

definition is_gen_circuits :: "GOATMessageContent \<Rightarrow> bool" where
  "is_gen_circuits c = (case c of GenCircuits _ _ _ _ \<Rightarrow> True | _ \<Rightarrow> False)"

definition serialize_message :: "message_env \<Rightarrow> GOATMessage \<Rightarrow> bytes option" where
  "serialize_message env m =
     (if is_gen_circuits (gm_content m) then map_option (\<lambda>e. GOAT_MESSAGE_BIN_PREFIX @ e) (bincode_message env m)
      else json_message env m)"

definition is_binary_envelope :: "bytes \<Rightarrow> bool" where
  "is_binary_envelope message = prefix GOAT_MESSAGE_BIN_PREFIX message"

definition deserialize_message :: "message_env \<Rightarrow> bytes \<Rightarrow> GOATMessage option" where
  "deserialize_message env message =
     (if prefix GOAT_MESSAGE_BIN_PREFIX message
      then bincode_to_message env (drop (length GOAT_MESSAGE_BIN_PREFIX) message)
      else json_to_message env message)"

section \<open>Signed bindings\<close>

definition len_be4 :: "bytes \<Rightarrow> bytes" where
  "len_be4 b = to_be_bytes 4 (of_nat (length b) :: 32 word)"

definition len_be8 :: "bytes \<Rightarrow> bytes" where
  "len_be8 b = to_be_bytes 8 (of_nat (length b) :: 64 word)"

definition init_graph_signature_message :: "message_env \<Rightarrow> uuid \<Rightarrow> uuid \<Rightarrow> public_key \<Rightarrow> bytes \<Rightarrow> bytes" where
  "init_graph_signature_message env instance_id graph_id operator_pubkey operator_peer_id =
     sha256_digest env (as_bytes ''bitvm2-node/init-graph/v1'' @ uuid_bytes env instance_id @ uuid_bytes env graph_id @
       operator_pubkey @ len_be4 operator_peer_id @ operator_peer_id)"

definition verify_init_graph_signature :: "message_env \<Rightarrow> InitGraph \<Rightarrow> bool" where
  "verify_init_graph_signature env m =
     verify_schnorr env (ig_signature m)
       (init_graph_signature_message env (ig_instance_id m) (ig_graph_id m) (ig_operator_pubkey m) (ig_operator_peer_id m))
       (xonly env (ig_operator_pubkey m))"

definition node_info_binding_message :: "message_env \<Rightarrow> string \<Rightarrow> string \<Rightarrow> int \<Rightarrow> bytes" where
  "node_info_binding_message env peer_id btc_pub_key issued_at =
     sha256_digest env (as_bytes ''bitvm2-node/node-info-binding/v1'' @
       len_be4 (as_bytes peer_id) @ as_bytes peer_id @ len_be4 (as_bytes btc_pub_key) @ as_bytes btc_pub_key @
       to_be_bytes 8 (word_of_int issued_at :: 64 word))"

definition verify_node_info_binding :: "message_env \<Rightarrow> NodeInfo \<Rightarrow> 256 word option" where
  "verify_node_info_binding env ni =
     (if ni_binding_sig ni = '''' then None
      else case pubkey_from_str env (ni_btc_pub_key ni) of
        None \<Rightarrow> None
      | Some pubkey \<Rightarrow>
          (case hex_decode env (ni_binding_sig ni) of
             None \<Rightarrow> None
           | Some sig_bytes \<Rightarrow>
               (case schnorr_from_slice env sig_bytes of
                  None \<Rightarrow> None
                | Some s \<Rightarrow>
                    if verify_schnorr env s
                         (node_info_binding_message env (ni_peer_id ni) (ni_btc_pub_key ni) (ni_binding_issued_at ni)) (xonly env pubkey)
                    then Some (xonly env pubkey) else None)))"

section \<open>Events of admitted messages\<close>

definition hashed_fields :: "bytes list \<Rightarrow> bytes" where
  "hashed_fields fs = concat (map (\<lambda>f. len_be8 f @ f) fs)"

definition delivery_id :: "message_env \<Rightarrow> string \<Rightarrow> string \<Rightarrow> bytes \<Rightarrow> string" where
  "delivery_id env sender_peer recipient_peer payload =
     ''graph-setup-v2:'' @ hex_encode env (sha256_digest env (as_bytes ''goat/graph-setup-delivery/v2'' @
       hashed_fields [as_bytes sender_peer, as_bytes recipient_peer, sha256_digest env payload]))"

definition content_event_id :: "message_env \<Rightarrow> string \<Rightarrow> string \<Rightarrow> string \<Rightarrow> bytes \<Rightarrow> string" where
  "content_event_id env author kind business payload =
     ''msg:'' @ kind @ '':'' @ hex_encode env (sha256_digest env
       (hashed_fields [as_bytes author, as_bytes kind, as_bytes business, sha256_digest env payload]))"

definition graph_ref :: "message_env \<Rightarrow> uuid \<Rightarrow> aggregate_ref" where
  "graph_ref env graph_id = \<lparr> ar_kind = ''graph'', ar_id = uuid_string env graph_id \<rparr>"

definition instance_ref :: "message_env \<Rightarrow> uuid \<Rightarrow> aggregate_ref" where
  "instance_ref env instance_id = \<lparr> ar_kind = ''instance'', ar_id = uuid_string env instance_id \<rparr>"

text \<open>Aggregate, business id and whether the message is acknowledged.\<close>

definition inbound_route :: "message_env \<Rightarrow> Actor \<Rightarrow> GOATMessageContent \<Rightarrow> (uuid \<times> aggregate_ref \<times> string \<times> bool) option" where
  "inbound_route env actor c =
     (let kind = event_type c
      in case business_ref c of
          Unscoped \<Rightarrow> None
        | RefGraph instance_id graph_id \<Rightarrow>
            if graph_engine_handles kind actor
            then Some (instance_id, graph_ref env graph_id, uuid_string env instance_id @ '':'' @ uuid_string env graph_id, ack_required kind)
            else None
        | RefInstance instance_id \<Rightarrow>
            if instance_engine_handles kind actor
            then Some (instance_id, instance_ref env instance_id, uuid_string env instance_id, False) else None)"

definition message_slot :: "message_env \<Rightarrow> GOATMessageContent \<Rightarrow> 64 word option \<times> string option" where
  "message_slot env c =
     (case c of
        CreateGraph _ _ nonce graph \<Rightarrow> (Some nonce, Some (pubkey_string env (sg_operator_pubkey graph)))
      | GraphFinalize _ _ nonce graph _ _ \<Rightarrow> (Some nonce, Some (pubkey_string env (sg_operator_pubkey graph)))
      | InitGraphMsg m \<Rightarrow> (None, Some (pubkey_string env (ig_operator_pubkey m)))
      | _ \<Rightarrow> (None, None))"

text \<open>\<open>Inl ()\<close> is a failing encoder, \<open>Inr None\<close> a kind that this role takes through no aggregate.\<close>

definition inbound_event :: "message_env \<Rightarrow> Actor \<Rightarrow> string \<Rightarrow> string \<Rightarrow> GOATMessage \<Rightarrow> bytes \<Rightarrow> unit + new_event option" where
  "inbound_event env actor author local_peer decoded raw =
     (let kind = event_type (gm_content decoded)
      in case inbound_route env actor (gm_content decoded) of
          None \<Rightarrow> Inr None
        | Some (instance_id, aggregate, business_id, acked) \<Rightarrow>
            let (graph_nonce, operator_pubkey) = message_slot env (gm_content decoded)
            in case bincode_inbound env \<lparr> im_author = author, im_instance_id = instance_id, im_graph_nonce = graph_nonce,
                 im_operator_pubkey = operator_pubkey, im_message = raw \<rparr> of
                None \<Rightarrow> Inl ()
              | Some encoded \<Rightarrow>
                  let event = with_author author (new_event_new (content_event_id env author kind business_id raw) aggregate kind
                        SourceNetwork encoded)
                  in Inr (Some (if acked then with_ack author (delivery_id env author local_peer raw) event else event)))"

section \<open>Round trip of the wire format\<close>

text \<open>
  What the codecs promise: decoding inverts encoding, and JSON text does not start with the prefix of the binary format.
\<close>

definition codecs_ok :: "message_env \<Rightarrow> bool" where
  "codecs_ok env \<longleftrightarrow>
     (\<forall>m e. bincode_message env m = Some e \<longrightarrow> bincode_to_message env e = Some m) \<and>
     (\<forall>m e. json_message env m = Some e \<longrightarrow> json_to_message env e = Some m \<and> \<not> prefix GOAT_MESSAGE_BIN_PREFIX e)"

lemma serialized_envelope:
  assumes "codecs_ok env" "serialize_message env m = Some raw"
  shows "is_binary_envelope raw \<longleftrightarrow> is_gen_circuits (gm_content m)" "deserialize_message env raw = Some m"
  using assms by (auto simp: codecs_ok_def serialize_message_def is_binary_envelope_def deserialize_message_def split: if_splits)

section \<open>Content ids\<close>

lemma len_be8_inj: "length f < 2 ^ 64 \<Longrightarrow> length g < 2 ^ 64 \<Longrightarrow> len_be8 f = len_be8 g \<longleftrightarrow> length f = length g"
  using to_be_bytes_inj [where 'a = 64 and n = 8]
  by (simp add: len_be8_def word_unat_eq_iff unat_of_nat take_bit_nat_eq_self)

lemma length_len_be8 [simp]: "length (len_be8 f) = 8"
  by (simp add: len_be8_def)

lemma hashed_fields_inj:
  assumes "hashed_fields fs = hashed_fields gs" "length fs = length gs"
    "list_all (\<lambda>f. length f < 2 ^ 64) fs" "list_all (\<lambda>f. length f < 2 ^ 64) gs"
  shows "fs = gs"
  using assms(2,1,3,4)
proof (induction fs gs rule: list_induct2)
  case (Cons f fs g gs)
  then have "len_be8 f = len_be8 g" "f @ hashed_fields fs = g @ hashed_fields gs"
    by (simp_all add: hashed_fields_def)
  with Cons show ?case by (simp add: len_be8_inj)
qed simp

text \<open>The strings hashed for the content id of a message.\<close>

definition content_strings :: "message_env \<Rightarrow> string \<Rightarrow> string \<Rightarrow> string \<Rightarrow> bytes \<Rightarrow> bytes set" where
  "content_strings env author kind business payload =
     {payload, hashed_fields [as_bytes author, as_bytes kind, as_bytes business, sha256_digest env payload]}"

lemma content_event_id_inj:
  assumes id: "content_event_id env a k b p = content_event_id env a' k' b' p'"
    and hex: "inj (hex_encode env)"
    and sha: "inj_on (sha256_digest env) (content_strings env a k b p \<union> content_strings env a' k' b' p')"
    and len: "list_all (\<lambda>f. length f < 2 ^ 64) [as_bytes a, as_bytes k, as_bytes b, sha256_digest env p]"
      "list_all (\<lambda>f. length f < 2 ^ 64) [as_bytes a', as_bytes k', as_bytes b', sha256_digest env p']"
    and colon: "CHR '':'' \<notin> set k" "CHR '':'' \<notin> set k'"
  shows "a = a' \<and> k = k' \<and> b = b' \<and> p = p'"
proof -
  let ?f = "\<lambda>a k b p. [as_bytes a, as_bytes k, as_bytes b, sha256_digest env p]"
  from id have "k @ '':'' @ hex_encode env (sha256_digest env (hashed_fields (?f a k b p))) =
      k' @ '':'' @ hex_encode env (sha256_digest env (hashed_fields (?f a' k' b' p')))"
    by (simp add: content_event_id_def)
  with colon have "hex_encode env (sha256_digest env (hashed_fields (?f a k b p))) =
      hex_encode env (sha256_digest env (hashed_fields (?f a' k' b' p')))"
    using split_at_colon [OF colon] by (simp only: append_Cons append_Nil)
  then have "sha256_digest env (hashed_fields (?f a k b p)) = sha256_digest env (hashed_fields (?f a' k' b' p'))"
    using hex by (simp add: inj_eq)
  then have "hashed_fields (?f a k b p) = hashed_fields (?f a' k' b' p')"
    by (rule inj_onD [OF sha]) (simp_all add: content_strings_def)
  from hashed_fields_inj [OF this _ len] have "?f a k b p = ?f a' k' b' p'" by (simp only: list.size)
  then have eqs: "as_bytes a = as_bytes a'" "as_bytes k = as_bytes k'" "as_bytes b = as_bytes b'"
    and "sha256_digest env p = sha256_digest env p'" by (simp_all only: list.inject)
  from this(4) have "p = p'" by (rule inj_onD [OF sha]) (simp_all add: content_strings_def)
  with eqs show ?thesis using as_bytes_inj by blast
qed

section \<open>Routing agrees\<close>

text \<open>A durable message that this role handles is routed to an aggregate, and no other durable message is.\<close>

lemma routed_iff_handled:
  assumes "p2p_delivery (gm_content m) = DeliverInbox"
  shows "inbound_route env actor (gm_content m) \<noteq> None \<longleftrightarrow> handled_by (message_kind (gm_content m)) actor"
  using assms
  by (cases "gm_content m") (auto simp: p2p_delivery_def inbound_route_def handled_by_def event_type_def Let_def)

end
