(* ===== verification/P2pRate.thy ===== *)
theory P2pRate
  imports P2pRegistry Complex_Main "HOL-Library.Monad_Syntax"
begin

text \<open>
  The token buckets of the peer-to-peer admission (\<^verbatim>\<open>src/node/src/p2p_admission/rate.rs\<close>) and the budgets for serving graph
  definitions that are built on them (\<^verbatim>\<open>get_graph_budget.rs\<close>).

  Tokens are rational numbers: the \<^verbatim>\<open>f64\<close> arithmetic of the code is taken to be exact. A time is a number of nanoseconds,
  so \<^verbatim>\<open>as_secs_f64\<close> divides by a thousand million. The constructors that read the clock take it as an argument.

  A bucket is a meter that gains tokens with time up to its burst. The locale \<open>metered\<close> states what each limiter promises of
  such a meter; the lemmas inside it bound what passes in any time, and each limiter is an interpretation.
\<close>

section \<open>Buckets\<close>

definition as_secs :: "nat \<Rightarrow> rat" where
  "as_secs d = of_nat d / 1000000000"

record RateBucket =
  rb_tokens :: rat
  rb_refilled_at :: nat

definition bucket_full :: "rat \<Rightarrow> nat \<Rightarrow> RateBucket" where
  "bucket_full burst now = \<lparr> rb_tokens = burst, rb_refilled_at = now \<rparr>"

definition refill :: "rat \<Rightarrow> rat \<Rightarrow> nat \<Rightarrow> RateBucket \<Rightarrow> RateBucket" where
  "refill rate burst now b =
     (let elapsed = as_secs (now - rb_refilled_at b)
      in b\<lparr> rb_tokens := min (rb_tokens b + elapsed * rate) burst, rb_refilled_at := now \<rparr>)"

definition bucket_take :: "rat \<Rightarrow> RateBucket \<Rightarrow> RateBucket" where
  "bucket_take n b = b\<lparr> rb_tokens := rb_tokens b - n \<rparr>"

section \<open>One bucket per peer\<close>

definition IMMEDIATE_BURST :: rat where "IMMEDIATE_BURST = 240"

definition IMMEDIATE_REFILL_PER_SEC :: rat where "IMMEDIATE_REFILL_PER_SEC = 2"

definition IMMEDIATE_MAX_TRACKED_PEERS :: nat where "IMMEDIATE_MAX_TRACKED_PEERS = 4096"

record PeerRateLimiter =
  pl_buckets :: "(peer_id \<times> RateBucket) list"
  pl_burst :: rat
  pl_refill_per_sec :: rat
  pl_max_peers :: nat

definition peer_limiter_new :: "rat \<Rightarrow> rat \<Rightarrow> nat \<Rightarrow> PeerRateLimiter" where
  "peer_limiter_new burst refill_per_sec max_peers =
     \<lparr> pl_buckets = [], pl_burst = burst, pl_refill_per_sec = refill_per_sec, pl_max_peers = max_peers \<rparr>"

definition immediate_limiter :: PeerRateLimiter where
  "immediate_limiter = peer_limiter_new IMMEDIATE_BURST IMMEDIATE_REFILL_PER_SEC IMMEDIATE_MAX_TRACKED_PEERS"

definition peer_allow :: "peer_id \<Rightarrow> nat \<Rightarrow> PeerRateLimiter \<Rightarrow> bool \<times> PeerRateLimiter" where
  "peer_allow peer now l =
     (let full = (map_of (pl_buckets l) peer = None \<and> pl_max_peers l \<le> length (pl_buckets l));
          l = (if full
               then l\<lparr> pl_buckets := filter (\<lambda>(_, b). rb_tokens b + as_secs (now - rb_refilled_at b) * pl_refill_per_sec l < pl_burst l)
                 (pl_buckets l) \<rparr>
               else l)
      in if full \<and> pl_max_peers l \<le> length (pl_buckets l) then (False, l)
         else
           let b = (case map_of (pl_buckets l) peer of None \<Rightarrow> bucket_full (pl_burst l) now | Some b \<Rightarrow> b);
               b = refill (pl_refill_per_sec l) (pl_burst l) now b
           in if rb_tokens b < 1 then (False, l\<lparr> pl_buckets := AList.update peer b (pl_buckets l) \<rparr>)
              else (True, l\<lparr> pl_buckets := AList.update peer (bucket_take 1 b) (pl_buckets l) \<rparr>))"

section \<open>Tiers\<close>

record DualBucket =
  msgs :: RateBucket
  byts :: RateBucket

record TierRate =
  msg_burst :: nat
  msg_per_sec :: nat
  byte_burst :: int
  byte_per_sec :: int

definition tier_new_bucket :: "TierRate \<Rightarrow> nat \<Rightarrow> DualBucket" where
  "tier_new_bucket t now =
     \<lparr> msgs = bucket_full (of_nat (msg_burst t)) now, byts = bucket_full (of_int (byte_burst t)) now \<rparr>"

definition tier_refill :: "TierRate \<Rightarrow> nat \<Rightarrow> DualBucket \<Rightarrow> DualBucket" where
  "tier_refill t now b =
     b\<lparr> msgs := refill (of_nat (msg_per_sec t)) (of_nat (msg_burst t)) now (msgs b),
        byts := refill (of_int (byte_per_sec t)) (of_int (byte_burst t)) now (byts b) \<rparr>"

definition peek_above :: "TierRate \<Rightarrow> int \<Rightarrow> rat \<Rightarrow> nat \<Rightarrow> DualBucket \<Rightarrow> bool \<times> DualBucket" where
  "peek_above t n reserve now b =
     (let b = tier_refill t now b
      in (of_nat (msg_burst t) * reserve \<le> rb_tokens (msgs b) - 1 \<and>
          of_int (byte_burst t) * reserve \<le> rb_tokens (byts b) - of_int n, b))"

definition tier_peek :: "TierRate \<Rightarrow> int \<Rightarrow> nat \<Rightarrow> DualBucket \<Rightarrow> bool \<times> DualBucket" where
  "tier_peek t n now b = peek_above t n 0 now b"

definition tier_spend :: "int \<Rightarrow> DualBucket \<Rightarrow> DualBucket" where
  "tier_spend n b = b\<lparr> msgs := bucket_take 1 (msgs b), byts := bucket_take (of_int n) (byts b) \<rparr>"

record RateLimits =
  rl_direct_peer :: TierRate
  rl_registered_author :: TierRate
  rl_unregistered_author :: TierRate
  rl_unregistered_total :: TierRate
  rl_unregistered_forward :: TierRate
  rl_global :: TierRate
  rl_committee_reserve :: rat
  rl_max_tracked_peers :: nat

definition default_rate_limits :: RateLimits where
  "default_rate_limits =
     (let MIB = 1024 * 1024
      in \<lparr> rl_direct_peer = \<lparr> msg_burst = 16384, msg_per_sec = 4096, byte_burst = 512 * MIB, byte_per_sec = 32 * MIB \<rparr>,
           rl_registered_author = \<lparr> msg_burst = 8192, msg_per_sec = 512, byte_burst = 256 * MIB, byte_per_sec = 8 * MIB \<rparr>,
           rl_unregistered_author = \<lparr> msg_burst = 32, msg_per_sec = 2, byte_burst = 4 * MIB, byte_per_sec = 128 * 1024 \<rparr>,
           rl_unregistered_total = \<lparr> msg_burst = 1024, msg_per_sec = 32, byte_burst = 32 * MIB, byte_per_sec = MIB \<rparr>,
           rl_unregistered_forward = \<lparr> msg_burst = 256, msg_per_sec = 16, byte_burst = 8 * MIB, byte_per_sec = 512 * 1024 \<rparr>,
           rl_global = \<lparr> msg_burst = 16384, msg_per_sec = 4096, byte_burst = 512 * MIB, byte_per_sec = 32 * MIB \<rparr>,
           rl_committee_reserve = 1 / 4, rl_max_tracked_peers = 8192 \<rparr>)"

definition RATE_BUCKET_IDLE_FORGET :: nat where "RATE_BUCKET_IDLE_FORGET = from_secs 60"

definition RATE_TABLE_SWEEP_INTERVAL :: nat where "RATE_TABLE_SWEEP_INTERVAL = from_secs 5"

record BucketTable =
  bt_buckets :: "(peer_id \<times> DualBucket) list"
  bt_overflow :: DualBucket
  bt_swept_at :: "nat option"

datatype BucketSlot = Tracked peer_id | Overflow

definition bucket_table_new :: "TierRate \<Rightarrow> nat \<Rightarrow> BucketTable" where
  "bucket_table_new overflow_tier now =
     \<lparr> bt_buckets = [], bt_overflow = tier_new_bucket overflow_tier now, bt_swept_at = None \<rparr>"

definition table_slot :: "peer_id \<Rightarrow> TierRate \<Rightarrow> nat \<Rightarrow> bool \<Rightarrow> nat \<Rightarrow> BucketTable \<Rightarrow> BucketSlot \<times> BucketTable" where
  "table_slot key tier cap pinned now t =
     (if map_of (bt_buckets t) key \<noteq> None then (Tracked key, t)
      else
        let t = (if cap \<le> length (bt_buckets t) \<and> sweep_due RATE_TABLE_SWEEP_INTERVAL now (bt_swept_at t)
                 then t\<lparr> bt_swept_at := Some now,
                         bt_buckets := filter (\<lambda>(_, b). now - rb_refilled_at (msgs b) < RATE_BUCKET_IDLE_FORGET) (bt_buckets t) \<rparr>
                 else t)
        in if cap \<le> length (bt_buckets t) \<and> \<not> pinned then (Overflow, t)
           else (Tracked key, t\<lparr> bt_buckets := AList.update key (tier_new_bucket tier now) (bt_buckets t) \<rparr>))"

text \<open>\<^verbatim>\<open>self.buckets[&key]\<close> panics for a key that is not tracked.\<close>

definition table_get :: "BucketSlot \<Rightarrow> BucketTable \<Rightarrow> DualBucket option" where
  "table_get slot t = (case slot of Tracked key \<Rightarrow> map_of (bt_buckets t) key | Overflow \<Rightarrow> Some (bt_overflow t))"

definition table_set :: "BucketSlot \<Rightarrow> DualBucket \<Rightarrow> BucketTable \<Rightarrow> BucketTable" where
  "table_set slot b t =
     (case slot of
        Tracked key \<Rightarrow> t\<lparr> bt_buckets := AList.update key b (bt_buckets t) \<rparr>
      | Overflow \<Rightarrow> t\<lparr> bt_overflow := b \<rparr>)"

section \<open>The inbound limiter\<close>

record RateState =
  rt_direct :: BucketTable
  rt_authors :: BucketTable
  rt_unregistered_total :: DualBucket
  rt_unregistered_forward :: DualBucket
  rt_global :: DualBucket

definition rate_state_new :: "RateLimits \<Rightarrow> nat \<Rightarrow> RateState" where
  "rate_state_new limits now =
     \<lparr> rt_direct = bucket_table_new (rl_direct_peer limits) now,
       rt_authors = bucket_table_new (rl_unregistered_author limits) now,
       rt_unregistered_total = tier_new_bucket (rl_unregistered_total limits) now,
       rt_unregistered_forward = tier_new_bucket (rl_unregistered_forward limits) now,
       rt_global = tier_new_bucket (rl_global limits) now \<rparr>"

definition charge_forward :: "RateLimits \<Rightarrow> int \<Rightarrow> nat \<Rightarrow> RateState \<Rightarrow> (DropReason + unit) \<times> RateState" where
  "charge_forward limits n now s =
     (let (admitted, b) = tier_peek (rl_unregistered_forward limits) n now (rt_unregistered_forward s);
          b = (if admitted then tier_spend n b else b)
      in (if admitted then Inr () else Inl ForwardRate, s\<lparr> rt_unregistered_forward := b \<rparr>))"

text \<open>\<open>None\<close> is the panic of \<^verbatim>\<open>get\<close>, which the lemmas below exclude.\<close>

definition charge ::
    "RateLimits \<Rightarrow> peer_id \<Rightarrow> peer_id \<Rightarrow> SenderClass \<Rightarrow> int \<Rightarrow> nat \<Rightarrow> RateState \<Rightarrow> ((DropReason + unit) \<times> RateState) option" where
  "charge limits direct_peer author class n now s =
     (let author_tier = (if is_registered class then rl_registered_author limits else rl_unregistered_author limits);
          cap = rl_max_tracked_peers limits;
          direct_tier = rl_direct_peer limits;
          (direct_slot, dt) = table_slot direct_peer direct_tier cap False now (rt_direct s);
          (author_slot, authors) = table_slot author author_tier cap (is_registered class) now (rt_authors s)
      in do {
        direct \<leftarrow> table_get direct_slot dt;
        author_bucket \<leftarrow> table_get author_slot authors;
        (let charge_unregistered = (\<not> is_registered class);
            reserve = (if class = Committee then 0 else rl_committee_reserve limits);
            (direct_ok, direct) = peek_above direct_tier n reserve now direct;
            (author_ok, author_bucket) = tier_peek author_tier n now author_bucket;
            (unregistered_ok, unregistered) =
              (if charge_unregistered then tier_peek (rl_unregistered_total limits) n now (rt_unregistered_total s)
               else (True, rt_unregistered_total s));
            (global_ok, global) = peek_above (rl_global limits) n reserve now (rt_global s);
            outcome = (if \<not> global_ok then Inl GlobalRate else if \<not> unregistered_ok then Inl UnregisteredRate
              else if \<not> author_ok then Inl AuthorRate else if \<not> direct_ok then Inl DirectPeerRate else Inr ());
            ok = (outcome = Inr ());
            spend = (\<lambda>b. if ok then tier_spend n b else b);
            unregistered = (if charge_unregistered then spend unregistered else unregistered);
            s = s\<lparr> rt_direct := table_set direct_slot (spend direct) dt,
                   rt_authors := table_set author_slot (spend author_bucket) authors,
                   rt_unregistered_total := unregistered,
                   rt_global := spend global \<rparr>
        in Some (outcome, s))
      })"

section \<open>Global buckets\<close>

record GlobalRate =
  gr_bucket :: RateBucket
  gr_rate :: rat
  gr_burst :: rat

definition global_rate_new :: "rat \<Rightarrow> rat \<Rightarrow> nat \<Rightarrow> GlobalRate" where
  "global_rate_new burst rate now = \<lparr> gr_bucket = bucket_full burst now, gr_rate = rate, gr_burst = burst \<rparr>"

definition global_allow :: "nat \<Rightarrow> GlobalRate \<Rightarrow> bool \<times> GlobalRate" where
  "global_allow now g =
     (let b = refill (gr_rate g) (gr_burst g) now (gr_bucket g)
      in if rb_tokens b < 1 then (False, g\<lparr> gr_bucket := b \<rparr>) else (True, g\<lparr> gr_bucket := bucket_take 1 b \<rparr>))"

definition get_graph_peer_budget :: PeerRateLimiter where
  "get_graph_peer_budget = peer_limiter_new 8 (1 / 2) 1024"

definition get_graph_response_budget :: "bool \<Rightarrow> nat \<Rightarrow> GlobalRate" where
  "get_graph_response_budget requester_registered now =
     (if requester_registered then global_rate_new 32 2 now else global_rate_new 8 (1 / 5) now)"

section \<open>Meters\<close>

text \<open>What a sequence of calls lets pass, each call at its time and with its cost.\<close>

primrec passed :: "('o \<Rightarrow> nat \<Rightarrow> 's \<Rightarrow> bool \<times> 's) \<Rightarrow> ('o \<Rightarrow> rat) \<Rightarrow> ('o \<times> nat) list \<Rightarrow> 's \<Rightarrow> rat" where
  "passed step cost [] s = 0"
| "passed step cost (c # cs) s =
     (let (b, s') = step (fst c) (snd c) s in (if b then cost (fst c) else 0) + passed step cost cs s')"

text \<open>
  What a limiter promises: the level of its meter lies between zero and the burst, gains at most the rate while
  nothing happens, loses exactly the cost of what passes, and nothing by a refusal.
\<close>

locale metered =
  fixes step :: "'o \<Rightarrow> nat \<Rightarrow> 's \<Rightarrow> bool \<times> 's"
    and cost :: "'o \<Rightarrow> rat"
    and level :: "'s \<Rightarrow> nat \<Rightarrow> rat"
    and good :: "'s \<Rightarrow> bool"
    and rate burst :: rat
  assumes level_bounds: "good s \<Longrightarrow> 0 \<le> level s now \<and> level s now \<le> burst"
    and level_grows: "good s \<Longrightarrow> t \<le> t' \<Longrightarrow> level s t' \<le> level s t + as_secs (t' - t) * rate"
    and step_good: "good s \<Longrightarrow> step c now s = (b, s') \<Longrightarrow> good s'"
    and step_level: "good s \<Longrightarrow> step c now s = (b, s') \<Longrightarrow> level s' now = level s now - (if b then cost c else 0)"
begin

lemma passed_level:
  assumes "good s" "sorted (t0 # map snd cs @ [t1])"
  shows "passed step cost cs s \<le> level s t0 + as_secs (t1 - t0) * rate"
  using assms
proof (induction cs arbitrary: s t0)
  case Nil
  then have "t0 \<le> t1" by simp
  with level_grows [OF Nil.prems(1), of t0 t1] level_bounds [OF Nil.prems(1), of t1] show ?case by simp
next
  case (Cons d cs)
  obtain c now where d: "d = (c, now)" by (cases d)
  obtain b s' where step: "step c now s = (b, s')" by fastforce
  have times: "t0 \<le> now" "now \<le> t1" "sorted (now # map snd cs @ [t1])" using Cons.prems(2) d by auto
  have secs: "as_secs (t1 - t0) * rate = as_secs (now - t0) * rate + as_secs (t1 - now) * rate"
    using times(1,2) by (simp add: as_secs_def field_simps of_nat_diff)
  from Cons.IH [OF step_good [OF Cons.prems(1) step] times(3)] step_level [OF Cons.prems(1) step]
    level_grows [OF Cons.prems(1) times(1)]
  show ?case by (cases b) (simp_all add: d step secs)
qed

text \<open>In any time no more than the burst and the rate over that time.\<close>

lemma passed_bound:
  assumes "good s" "sorted (t0 # map snd cs @ [t1])"
  shows "passed step cost cs s \<le> burst + as_secs (t1 - t0) * rate"
  using passed_level [OF assms] level_bounds [OF assms(1), of t0] by linarith

end

section \<open>The level of a bucket\<close>

definition bucket_level :: "rat \<Rightarrow> rat \<Rightarrow> RateBucket \<Rightarrow> nat \<Rightarrow> rat" where
  "bucket_level rate burst b now = min (rb_tokens b + as_secs (now - rb_refilled_at b) * rate) burst"

definition bucket_ok :: "rat \<Rightarrow> rat \<Rightarrow> RateBucket \<Rightarrow> bool" where
  "bucket_ok rate burst b \<longleftrightarrow> 0 \<le> rate \<and> 0 \<le> rb_tokens b \<and> rb_tokens b \<le> burst"

lemma as_secs_nonneg [simp]: "0 \<le> as_secs d"
  by (simp add: as_secs_def)

lemma as_secs_mono: "d \<le> d' \<Longrightarrow> as_secs d \<le> as_secs d'"
  by (simp add: as_secs_def divide_right_mono)

lemma tokens_refill [simp]: "rb_tokens (refill rate burst now b) = bucket_level rate burst b now"
  by (simp add: refill_def bucket_level_def Let_def)

lemma refilled_at_refill [simp]: "rb_refilled_at (refill rate burst now b) = now"
  by (simp add: refill_def Let_def)

lemma tokens_take [simp]: "rb_tokens (bucket_take n b) = rb_tokens b - n" "rb_refilled_at (bucket_take n b) = rb_refilled_at b"
  by (simp_all add: bucket_take_def)

lemma level_bounds: "bucket_ok rate burst b \<Longrightarrow> 0 \<le> bucket_level rate burst b now \<and> bucket_level rate burst b now \<le> burst"
  by (auto simp: bucket_level_def bucket_ok_def)

lemma level_ge_tokens: "bucket_ok rate burst b \<Longrightarrow> rb_tokens b \<le> bucket_level rate burst b now"
  by (simp add: bucket_level_def bucket_ok_def)

lemma level_grows:
  assumes "bucket_ok rate burst b" "t \<le> t'"
  shows "bucket_level rate burst b t' \<le> bucket_level rate burst b t + as_secs (t' - t) * rate"
proof -
  have "as_secs (t' - rb_refilled_at b) \<le> as_secs (t - rb_refilled_at b) + as_secs (t' - t)"
    using as_secs_mono [of "t' - rb_refilled_at b" "(t - rb_refilled_at b) + (t' - t)"]
    by (simp add: as_secs_def add_divide_distrib)
  then have "as_secs (t' - rb_refilled_at b) * rate \<le> (as_secs (t - rb_refilled_at b) + as_secs (t' - t)) * rate"
    using assms(1) by (intro mult_right_mono) (simp_all add: bucket_ok_def)
  moreover have "0 \<le> as_secs (t' - t) * rate" using assms(1) by (simp add: bucket_ok_def)
  ultimately show ?thesis unfolding bucket_level_def by (simp add: distrib_right)
qed

text \<open>A refilled bucket at the time of the refill, and after a spending that it covers.\<close>

lemma level_refilled [simp]:
  assumes "bucket_ok rate burst b"
  shows "bucket_level rate burst (refill rate burst now b) now = bucket_level rate burst b now"
    "0 \<le> n \<Longrightarrow> bucket_level rate burst (bucket_take n (refill rate burst now b)) now = bucket_level rate burst b now - n"
  using level_bounds [OF assms, of now] by (simp_all add: bucket_level_def [of _ _ "refill _ _ _ _"]
    bucket_level_def [of _ _ "bucket_take _ _"] as_secs_def)

lemma bucket_ok_refilled [simp]:
  assumes "bucket_ok rate burst b"
  shows "bucket_ok rate burst (refill rate burst now b)"
    "0 \<le> n \<Longrightarrow> n \<le> bucket_level rate burst b now \<Longrightarrow> bucket_ok rate burst (bucket_take n (refill rate burst now b))"
  using assms level_bounds [OF assms, of now] by (simp_all add: bucket_ok_def)

lemma bucket_full_ok [simp]: "bucket_ok rate burst (bucket_full burst now) \<longleftrightarrow> 0 \<le> rate \<and> 0 \<le> burst"
  by (auto simp: bucket_ok_def bucket_full_def)

lemma level_full [simp]: "0 \<le> rate \<Longrightarrow> bucket_level rate burst (bucket_full burst t) now = burst"
  by (simp add: bucket_level_def bucket_full_def)

section \<open>Limiters as meters\<close>

interpretation global_meter: metered "\<lambda>_ :: unit. global_allow" "\<lambda>_. 1" "\<lambda>g. bucket_level rate burst (gr_bucket g)"
  "\<lambda>g. gr_rate g = rate \<and> gr_burst g = burst \<and> bucket_ok rate burst (gr_bucket g)" rate burst
  for rate burst
proof unfold_locales
  fix g :: GlobalRate and t t' :: nat
  assume "gr_rate g = rate \<and> gr_burst g = burst \<and> bucket_ok rate burst (gr_bucket g)"
  then show "0 \<le> bucket_level rate burst (gr_bucket g) t \<and> bucket_level rate burst (gr_bucket g) t \<le> burst"
    and "t \<le> t' \<Longrightarrow> bucket_level rate burst (gr_bucket g) t' \<le> bucket_level rate burst (gr_bucket g) t + as_secs (t' - t) * rate"
    by (simp_all add: level_bounds level_grows)
next
  fix g g' :: GlobalRate and now b
  assume g: "gr_rate g = rate \<and> gr_burst g = burst \<and> bucket_ok rate burst (gr_bucket g)" and step: "global_allow now g = (b, g')"
  then show "gr_rate g' = rate \<and> gr_burst g' = burst \<and> bucket_ok rate burst (gr_bucket g')"
    and "bucket_level rate burst (gr_bucket g') now = bucket_level rate burst (gr_bucket g) now - (if b then 1 else 0)"
    by (auto simp: global_allow_def Let_def split: if_splits)
qed

text \<open>The level of a peer that is not tracked is the burst.\<close>

definition peer_level :: "rat \<Rightarrow> rat \<Rightarrow> peer_id \<Rightarrow> PeerRateLimiter \<Rightarrow> nat \<Rightarrow> rat" where
  "peer_level rate burst p l now =
     (case map_of (pl_buckets l) p of None \<Rightarrow> burst | Some b \<Rightarrow> bucket_level rate burst b now)"

definition limiter_ok :: "rat \<Rightarrow> rat \<Rightarrow> PeerRateLimiter \<Rightarrow> bool" where
  "limiter_ok rate burst l \<longleftrightarrow> 0 \<le> rate \<and> 0 \<le> burst \<and> pl_refill_per_sec l = rate \<and> pl_burst l = burst \<and>
     distinct (map fst (pl_buckets l)) \<and> (\<forall>p b. map_of (pl_buckets l) p = Some b \<longrightarrow> bucket_ok rate burst b)"

lemma peer_level_bounds: "limiter_ok rate burst l \<Longrightarrow> 0 \<le> peer_level rate burst p l now \<and> peer_level rate burst p l now \<le> burst"
  unfolding limiter_ok_def peer_level_def by (cases "map_of (pl_buckets l) p") (auto simp: level_bounds simp del: map_of_eq_Some_iff)

lemma limiter_filter:
  assumes "limiter_ok rate burst l"
  shows "limiter_ok rate burst (l\<lparr> pl_buckets := filter P (pl_buckets l) \<rparr>)"
  using assms map_of_filter_key [of "pl_buckets l" P]
  by (auto simp: limiter_ok_def distinct_filter_keys simp del: map_of_eq_Some_iff split: option.splits if_splits)

text \<open>Forgetting full buckets changes no level.\<close>

lemma limiter_filter_level:
  assumes "limiter_ok rate burst l"
  shows "peer_level rate burst p
    (l\<lparr> pl_buckets := filter (\<lambda>(_, b). rb_tokens b + as_secs (now - rb_refilled_at b) * rate < burst) (pl_buckets l) \<rparr>) now =
    peer_level rate burst p l now"
proof -
  have "distinct (map fst (pl_buckets l))" using assms by (simp add: limiter_ok_def)
  then show ?thesis
    by (cases "map_of (pl_buckets l) p") (auto simp: peer_level_def map_of_filter_key bucket_level_def simp del: map_of_eq_Some_iff)
qed

lemma limiter_update:
  assumes "limiter_ok rate burst l" "bucket_ok rate burst b"
  shows "limiter_ok rate burst (l\<lparr> pl_buckets := AList.update p b (pl_buckets l) \<rparr>)"
    "peer_level rate burst q (l\<lparr> pl_buckets := AList.update p b (pl_buckets l) \<rparr>) now =
      (if q = p then bucket_level rate burst b now else peer_level rate burst q l now)"
  using assms
  by (auto simp: limiter_ok_def peer_level_def distinct_update update_conv' simp del: map_of_eq_Some_iff)

lemma peer_allow_level:
  assumes "limiter_ok rate burst l" "peer_allow p now l = (ok, l')"
  shows "limiter_ok rate burst l' \<and>
    peer_level rate burst q l' now = peer_level rate burst q l now - (if ok then if q = p then 1 else 0 else 0)"
proof -
  have par: "pl_refill_per_sec l = rate" "pl_burst l = burst" "0 \<le> rate" "0 \<le> burst" using assms(1) by (simp_all add: limiter_ok_def)
  define full where "full \<longleftrightarrow> map_of (pl_buckets l) p = None \<and> pl_max_peers l \<le> length (pl_buckets l)"
  define l1 where "l1 = (if full then l\<lparr> pl_buckets :=
    filter (\<lambda>(_, b). rb_tokens b + as_secs (now - rb_refilled_at b) * rate < burst) (pl_buckets l) \<rparr> else l)"
  define b0 where "b0 = (case map_of (pl_buckets l1) p of None \<Rightarrow> bucket_full burst now | Some b \<Rightarrow> b)"
  have l1: "limiter_ok rate burst l1"
    using assms(1) limiter_filter by (auto simp: l1_def)
  have level: "peer_level rate burst q l1 now = peer_level rate burst q l now" for q
    using limiter_filter_level [OF assms(1)] by (auto simp: l1_def)
  have b0: "bucket_ok rate burst b0" "bucket_level rate burst b0 now = peer_level rate burst p l1 now"
    using l1 par(3,4) unfolding b0_def
    by (cases "map_of (pl_buckets l1) p"; simp add: limiter_ok_def peer_level_def del: map_of_eq_Some_iff)+
  have par1: "pl_refill_per_sec l1 = rate" "pl_burst l1 = burst" using l1 by (simp_all add: limiter_ok_def)
  have step: "(if full \<and> pl_max_peers l1 \<le> length (pl_buckets l1) then (False, l1)
      else if bucket_level rate burst b0 now < 1
        then (False, l1\<lparr> pl_buckets := AList.update p (refill rate burst now b0) (pl_buckets l1) \<rparr>)
      else (True, l1\<lparr> pl_buckets := AList.update p (bucket_take 1 (refill rate burst now b0)) (pl_buckets l1) \<rparr>)) = (ok, l')"
    using assms(2) unfolding peer_allow_def Let_def par(1,2) full_def [symmetric] l1_def [symmetric] par1 tokens_refill b0_def [symmetric] .
  consider "ok = False" "l' = l1"
    | "ok = False" "l' = l1\<lparr> pl_buckets := AList.update p (refill rate burst now b0) (pl_buckets l1) \<rparr>"
    | "ok" "1 \<le> bucket_level rate burst b0 now"
      "l' = l1\<lparr> pl_buckets := AList.update p (bucket_take 1 (refill rate burst now b0)) (pl_buckets l1) \<rparr>"
    using step by (auto split: if_splits)
  then show ?thesis
  proof cases
    case 1
    then show ?thesis using l1 level by simp
  next
    case 2
    then show ?thesis using limiter_update [OF l1, of "refill rate burst now b0"] b0 level by simp
  next
    case 3
    then show ?thesis using limiter_update [OF l1, of "bucket_take 1 (refill rate burst now b0)"] b0 level by simp
  qed
qed

interpretation peer_meter: metered peer_allow "\<lambda>q. if q = p then 1 else 0" "peer_level rate burst p" "limiter_ok rate burst" rate burst
  for p rate burst
proof unfold_locales
  fix l :: PeerRateLimiter and t t' :: nat
  assume l: "limiter_ok rate burst l"
  then show "0 \<le> peer_level rate burst p l t \<and> peer_level rate burst p l t \<le> burst" by (rule peer_level_bounds)
  show "peer_level rate burst p l t' \<le> peer_level rate burst p l t + as_secs (t' - t) * rate" if "t \<le> t'"
  proof (cases "map_of (pl_buckets l) p")
    case None
    with l show ?thesis by (simp add: peer_level_def limiter_ok_def)
  next
    case (Some b)
    with l have "bucket_ok rate burst b" unfolding limiter_ok_def by blast
    from level_grows [OF this that] Some show ?thesis by (simp add: peer_level_def)
  qed
next
  fix l l' :: PeerRateLimiter and q now ok
  assume "limiter_ok rate burst l" "peer_allow q now l = (ok, l')"
  from peer_allow_level [OF this, of p] show "limiter_ok rate burst l'"
    and "peer_level rate burst p l' now = peer_level rate burst p l now - (if ok then if q = p then 1 else 0 else 0)" by auto
qed

section \<open>The inbound limiter as meters\<close>

abbreviation msg_level :: "TierRate \<Rightarrow> DualBucket \<Rightarrow> nat \<Rightarrow> rat" where
  "msg_level t b \<equiv> bucket_level (of_nat (msg_per_sec t)) (of_nat (msg_burst t)) (msgs b)"

abbreviation byte_level :: "TierRate \<Rightarrow> DualBucket \<Rightarrow> nat \<Rightarrow> rat" where
  "byte_level t b \<equiv> bucket_level (of_int (byte_per_sec t)) (of_int (byte_burst t)) (byts b)"

definition tier_ok :: "TierRate \<Rightarrow> DualBucket \<Rightarrow> bool" where
  "tier_ok t b \<longleftrightarrow> bucket_ok (of_nat (msg_per_sec t)) (of_nat (msg_burst t)) (msgs b) \<and>
     bucket_ok (of_int (byte_per_sec t)) (of_int (byte_burst t)) (byts b)"

text \<open>A message of \<open>n\<close> bytes fits above the reserve.\<close>

definition fits :: "TierRate \<Rightarrow> int \<Rightarrow> rat \<Rightarrow> nat \<Rightarrow> DualBucket \<Rightarrow> bool" where
  "fits t n reserve now b \<longleftrightarrow> of_nat (msg_burst t) * reserve \<le> msg_level t b now - 1 \<and>
     of_int (byte_burst t) * reserve \<le> byte_level t b now - of_int n"

lemma peek_above_eq: "peek_above t n reserve now b = (fits t n reserve now b, tier_refill t now b)"
  by (simp add: peek_above_def tier_refill_def fits_def Let_def)

text \<open>The bucket after a charge that was admitted or not.\<close>

definition charged :: "TierRate \<Rightarrow> int \<Rightarrow> bool \<Rightarrow> nat \<Rightarrow> DualBucket \<Rightarrow> DualBucket" where
  "charged t n ok now b = (if ok then tier_spend n (tier_refill t now b) else tier_refill t now b)"

lemma charged_level:
  assumes "tier_ok t b" "0 \<le> n" "0 \<le> reserve" "0 \<le> byte_burst t" "ok \<Longrightarrow> fits t n reserve now b"
  shows "tier_ok t (charged t n ok now b)"
    "msg_level t (charged t n ok now b) now = msg_level t b now - (if ok then 1 else 0)"
    "byte_level t (charged t n ok now b) now = byte_level t b now - (if ok then of_int n else 0)"
proof -
  have "1 \<le> msg_level t b now" "of_int n \<le> byte_level t b now" if ok
  proof -
    have "0 \<le> of_nat (msg_burst t) * reserve" "0 \<le> of_int (byte_burst t) * reserve"
      using assms(3,4) by simp_all
    with assms(5) [OF that] show "1 \<le> msg_level t b now" "of_int n \<le> byte_level t b now"
      unfolding fits_def by linarith+
  qed
  with assms(1,2) show "tier_ok t (charged t n ok now b)"
    "msg_level t (charged t n ok now b) now = msg_level t b now - (if ok then 1 else 0)"
    "byte_level t (charged t n ok now b) now = byte_level t b now - (if ok then of_int n else 0)"
    by (simp_all add: charged_def tier_ok_def tier_spend_def tier_refill_def)
qed

lemma new_bucket_ok: "0 \<le> byte_burst t \<Longrightarrow> 0 \<le> byte_per_sec t \<Longrightarrow> tier_ok t (tier_new_bucket t now)"
  by (simp add: tier_ok_def tier_new_bucket_def)

lemma table_slot_get:
  assumes "table_slot key tier cap pinned now t = (slot, t')"
  obtains b where "table_get slot t' = Some b"
  using assms by (cases "map_of (bt_buckets t) key") (auto simp: table_slot_def table_get_def Let_def update_conv' split: if_splits)

definition reserve_of :: "RateLimits \<Rightarrow> SenderClass \<Rightarrow> rat" where
  "reserve_of limits class = (if class = Committee then 0 else rl_committee_reserve limits)"

definition author_tier :: "RateLimits \<Rightarrow> SenderClass \<Rightarrow> TierRate" where
  "author_tier limits class = (if is_registered class then rl_registered_author limits else rl_unregistered_author limits)"

text \<open>The outcome of a charge from the buckets of the direct peer and the author.\<close>

definition charge_outcome :: "RateLimits \<Rightarrow> SenderClass \<Rightarrow> int \<Rightarrow> nat \<Rightarrow> RateState \<Rightarrow> DualBucket \<Rightarrow> DualBucket \<Rightarrow> DropReason + unit" where
  "charge_outcome limits class n now s direct author =
     (if \<not> fits (rl_global limits) n (reserve_of limits class) now (rt_global s) then Inl GlobalRate
      else if \<not> is_registered class \<and> \<not> fits (rl_unregistered_total limits) n 0 now (rt_unregistered_total s) then Inl UnregisteredRate
      else if \<not> fits (author_tier limits class) n 0 now author then Inl AuthorRate
      else if \<not> fits (rl_direct_peer limits) n (reserve_of limits class) now direct then Inl DirectPeerRate
      else Inr ())"

text \<open>A charge always has a result; what it does to each bucket.\<close>

definition charged_state :: "RateLimits \<Rightarrow> SenderClass \<Rightarrow> int \<Rightarrow> bool \<Rightarrow> nat \<Rightarrow> RateState \<Rightarrow> BucketSlot \<Rightarrow> DualBucket \<Rightarrow> BucketTable \<Rightarrow>
    BucketSlot \<Rightarrow> DualBucket \<Rightarrow> BucketTable \<Rightarrow> RateState" where
  "charged_state limits class n ok now s direct_slot direct dt author_slot author authors =
     s\<lparr> rt_direct := table_set direct_slot (charged (rl_direct_peer limits) n ok now direct) dt,
        rt_authors := table_set author_slot (charged (author_tier limits class) n ok now author) authors,
        rt_unregistered_total := if is_registered class then rt_unregistered_total s
          else charged (rl_unregistered_total limits) n ok now (rt_unregistered_total s),
        rt_global := charged (rl_global limits) n ok now (rt_global s) \<rparr>"

lemma charge_result:
  obtains outcome direct_slot dt direct author_slot authors author where
    "table_slot d (rl_direct_peer limits) (rl_max_tracked_peers limits) False now (rt_direct s) = (direct_slot, dt)"
    "table_get direct_slot dt = Some direct"
    "outcome = charge_outcome limits class n now s direct author"
    "charge limits d a class n now s =
       Some (outcome, charged_state limits class n (outcome = Inr ()) now s direct_slot direct dt author_slot author authors)"
proof -
  obtain direct_slot dt where d: "table_slot d (rl_direct_peer limits) (rl_max_tracked_peers limits) False now (rt_direct s) = (direct_slot, dt)"
    by fastforce
  obtain author_slot authors where a: "table_slot a (author_tier limits class) (rl_max_tracked_peers limits) (is_registered class) now
    (rt_authors s) = (author_slot, authors)" by fastforce
  obtain direct where direct: "table_get direct_slot dt = Some direct" using table_slot_get [OF d] .
  obtain author where author: "table_get author_slot authors = Some author" using table_slot_get [OF a] .
  note defs = charge_def charge_outcome_def charged_state_def reserve_of_def author_tier_def tier_peek_def peek_above_eq charged_def
  show thesis
    using d a direct author unfolding author_tier_def
    by (intro that [OF d direct refl])
      (cases "is_registered class"; simp only: defs if_True if_False Let_def prod.case bind.bind_lunit simp_thms refl)
qed

text \<open>What the limits must satisfy; the default limits do.\<close>

definition tier_valid :: "TierRate \<Rightarrow> bool" where
  "tier_valid t \<longleftrightarrow> 0 \<le> byte_burst t \<and> 0 \<le> byte_per_sec t"

definition limits_valid :: "RateLimits \<Rightarrow> bool" where
  "limits_valid l \<longleftrightarrow> tier_valid (rl_direct_peer l) \<and> tier_valid (rl_unregistered_total l) \<and> tier_valid (rl_unregistered_forward l) \<and>
     tier_valid (rl_global l) \<and> 0 \<le> rl_committee_reserve l \<and> rl_committee_reserve l \<le> 1"

lemma default_limits_valid: "limits_valid default_rate_limits"
  by (simp add: limits_valid_def tier_valid_def default_rate_limits_def Let_def)

definition rate_inv :: "RateLimits \<Rightarrow> RateState \<Rightarrow> bool" where
  "rate_inv l s \<longleftrightarrow> limits_valid l \<and> tier_ok (rl_global l) (rt_global s) \<and>
     tier_ok (rl_unregistered_total l) (rt_unregistered_total s) \<and> tier_ok (rl_unregistered_forward l) (rt_unregistered_forward s)"

lemma rate_inv_new: "limits_valid l \<Longrightarrow> rate_inv l (rate_state_new l now)"
  by (simp add: rate_inv_def rate_state_new_def limits_valid_def tier_valid_def new_bucket_ok)

text \<open>One call of the limiter: a charge of a direct peer, author and class, or a charge for forwarding.\<close>

datatype rate_op = Charge peer_id peer_id SenderClass nat | ChargeForward nat

fun rate_step :: "RateLimits \<Rightarrow> rate_op \<Rightarrow> nat \<Rightarrow> RateState \<Rightarrow> bool \<times> RateState" where
  "rate_step l (Charge d a class n) now s =
     (case charge l d a class (int n) now s of None \<Rightarrow> (False, s) | Some (r, s') \<Rightarrow> (r = Inr (), s'))"
| "rate_step l (ChargeForward n) now s = (case charge_forward l (int n) now s of (r, s') \<Rightarrow> (r = Inr (), s'))"

fun global_bytes :: "rate_op \<Rightarrow> rat" where
  "global_bytes (Charge d a class n) = of_nat n"
| "global_bytes (ChargeForward n) = 0"

fun global_msgs :: "rate_op \<Rightarrow> rat" where
  "global_msgs (Charge d a class n) = 1"
| "global_msgs (ChargeForward n) = 0"

fun unregistered_bytes :: "rate_op \<Rightarrow> rat" where
  "unregistered_bytes (Charge d a class n) = (if is_registered class then 0 else of_nat n)"
| "unregistered_bytes (ChargeForward n) = 0"

fun forward_bytes :: "rate_op \<Rightarrow> rat" where
  "forward_bytes (Charge d a class n) = 0"
| "forward_bytes (ChargeForward n) = of_nat n"

lemma rate_step_levels:
  assumes "rate_inv l s" "rate_step l c now s = (b, s')"
  shows "rate_inv l s'"
    "byte_level (rl_global l) (rt_global s') now = byte_level (rl_global l) (rt_global s) now - (if b then global_bytes c else 0)"
    "msg_level (rl_global l) (rt_global s') now = msg_level (rl_global l) (rt_global s) now - (if b then global_msgs c else 0)"
    "byte_level (rl_unregistered_total l) (rt_unregistered_total s') now =
      byte_level (rl_unregistered_total l) (rt_unregistered_total s) now - (if b then unregistered_bytes c else 0)"
    "byte_level (rl_unregistered_forward l) (rt_unregistered_forward s') now =
      byte_level (rl_unregistered_forward l) (rt_unregistered_forward s) now - (if b then forward_bytes c else 0)"
proof -
  have valid: "0 \<le> byte_burst (rl_global l)" "0 \<le> byte_burst (rl_unregistered_total l)" "0 \<le> byte_burst (rl_unregistered_forward l)"
    "0 \<le> rl_committee_reserve l" using assms(1) by (simp_all add: rate_inv_def limits_valid_def tier_valid_def)
  have ok: "tier_ok (rl_global l) (rt_global s)" "tier_ok (rl_unregistered_total l) (rt_unregistered_total s)"
    "tier_ok (rl_unregistered_forward l) (rt_unregistered_forward s)" using assms(1) by (simp_all add: rate_inv_def)
  have "rate_inv l s' \<and>
    byte_level (rl_global l) (rt_global s') now = byte_level (rl_global l) (rt_global s) now - (if b then global_bytes c else 0) \<and>
    msg_level (rl_global l) (rt_global s') now = msg_level (rl_global l) (rt_global s) now - (if b then global_msgs c else 0) \<and>
    byte_level (rl_unregistered_total l) (rt_unregistered_total s') now =
      byte_level (rl_unregistered_total l) (rt_unregistered_total s) now - (if b then unregistered_bytes c else 0) \<and>
    byte_level (rl_unregistered_forward l) (rt_unregistered_forward s') now =
      byte_level (rl_unregistered_forward l) (rt_unregistered_forward s) now - (if b then forward_bytes c else 0)"
  proof (cases c)
    case (Charge d a cl n)
    obtain outcome direct_slot dt direct author_slot authors author where o: "outcome = charge_outcome l cl (int n) now s direct author"
      and c: "charge l d a cl (int n) now s =
        Some (outcome, charged_state l cl (int n) (outcome = Inr ()) now s direct_slot direct dt author_slot author authors)"
      by (rule charge_result)
    from c have s': "b = (outcome = Inr ())"
      "s' = charged_state l cl (int n) b now s direct_slot direct dt author_slot author authors"
      using assms(2) by (auto simp: Charge)
    have fit: "fits (rl_global l) (int n) (reserve_of l cl) now (rt_global s)"
      "is_registered cl \<or> fits (rl_unregistered_total l) (int n) 0 now (rt_unregistered_total s)" if b
      using that s'(1) o by (auto simp: charge_outcome_def split: if_splits)
    have reserve: "0 \<le> reserve_of l cl" using valid(4) by (simp add: reserve_of_def)
    note g = charged_level [OF ok(1) _ reserve valid(1), of "int n" b now]
      and u = charged_level [OF ok(2) _ order_refl valid(2), of "int n" b now]
    from g u fit assms(1) show ?thesis
      by (cases "is_registered cl") (auto simp: rate_inv_def Charge s'(2) charged_state_def)
  next
    case (ChargeForward n)
    note f = charged_level [OF ok(3) _ order_refl valid(3), of "int n" b now]
    have s': "b = fits (rl_unregistered_forward l) (int n) 0 now (rt_unregistered_forward s)"
      "s' = s\<lparr> rt_unregistered_forward := charged (rl_unregistered_forward l) (int n) b now (rt_unregistered_forward s) \<rparr>"
      using assms(2) by (auto simp: ChargeForward charge_forward_def tier_peek_def peek_above_eq charged_def Let_def split: if_splits)
    from f s'(1) assms(1) show ?thesis by (simp add: rate_inv_def ChargeForward s'(2))
  qed
  then show "rate_inv l s'"
    "byte_level (rl_global l) (rt_global s') now = byte_level (rl_global l) (rt_global s) now - (if b then global_bytes c else 0)"
    "msg_level (rl_global l) (rt_global s') now = msg_level (rl_global l) (rt_global s) now - (if b then global_msgs c else 0)"
    "byte_level (rl_unregistered_total l) (rt_unregistered_total s') now =
      byte_level (rl_unregistered_total l) (rt_unregistered_total s) now - (if b then unregistered_bytes c else 0)"
    "byte_level (rl_unregistered_forward l) (rt_unregistered_forward s') now =
      byte_level (rl_unregistered_forward l) (rt_unregistered_forward s) now - (if b then forward_bytes c else 0)"
    by blast+
qed

lemma tier_ok_levels:
  assumes "tier_ok t b"
  shows "0 \<le> byte_level t b now \<and> byte_level t b now \<le> of_int (byte_burst t)"
    "0 \<le> msg_level t b now \<and> msg_level t b now \<le> of_nat (msg_burst t)"
    "x \<le> y \<Longrightarrow> byte_level t b y \<le> byte_level t b x + as_secs (y - x) * of_int (byte_per_sec t)"
    "x \<le> y \<Longrightarrow> msg_level t b y \<le> msg_level t b x + as_secs (y - x) * of_nat (msg_per_sec t)"
  using assms by (simp_all add: tier_ok_def level_bounds level_grows)

lemma rate_inv_tiers:
  assumes "rate_inv l s"
  shows "tier_ok (rl_global l) (rt_global s)" "tier_ok (rl_unregistered_total l) (rt_unregistered_total s)"
    "tier_ok (rl_unregistered_forward l) (rt_unregistered_forward s)"
  using assms by (simp_all add: rate_inv_def)

lemmas rate_inv_levels = rate_inv_tiers [THEN tier_ok_levels(1)] rate_inv_tiers [THEN tier_ok_levels(2)]
  rate_inv_tiers [THEN tier_ok_levels(3)] rate_inv_tiers [THEN tier_ok_levels(4)]

interpretation global_byte_meter: metered "rate_step l" global_bytes "\<lambda>s. byte_level (rl_global l) (rt_global s)" "rate_inv l"
  "of_int (byte_per_sec (rl_global l))" "of_int (byte_burst (rl_global l))" for l
  by unfold_locales (fact rate_inv_levels rate_step_levels | (rule rate_inv_levels rate_step_levels; assumption))+

interpretation global_msg_meter: metered "rate_step l" global_msgs "\<lambda>s. msg_level (rl_global l) (rt_global s)" "rate_inv l"
  "of_nat (msg_per_sec (rl_global l))" "of_nat (msg_burst (rl_global l))" for l
  by unfold_locales (fact rate_inv_levels rate_step_levels | (rule rate_inv_levels rate_step_levels; assumption))+

interpretation unregistered_meter: metered "rate_step l" unregistered_bytes
  "\<lambda>s. byte_level (rl_unregistered_total l) (rt_unregistered_total s)" "rate_inv l"
  "of_int (byte_per_sec (rl_unregistered_total l))" "of_int (byte_burst (rl_unregistered_total l))" for l
  by unfold_locales (fact rate_inv_levels rate_step_levels | (rule rate_inv_levels rate_step_levels; assumption))+

interpretation forward_meter: metered "rate_step l" forward_bytes
  "\<lambda>s. byte_level (rl_unregistered_forward l) (rt_unregistered_forward s)" "rate_inv l"
  "of_int (byte_per_sec (rl_unregistered_forward l))" "of_int (byte_burst (rl_unregistered_forward l))" for l
  by unfold_locales (fact rate_inv_levels rate_step_levels | (rule rate_inv_levels rate_step_levels; assumption))+

text \<open>The limiter after a sequence of calls.\<close>

definition rate_after :: "RateLimits \<Rightarrow> (rate_op \<times> nat) list \<Rightarrow> RateState \<Rightarrow> RateState" where
  "rate_after l cs s = fold (\<lambda>(c, now) s. snd (rate_step l c now s)) cs s"

lemma rate_after_inv: "rate_inv l s \<Longrightarrow> rate_inv l (rate_after l cs s)"
proof (induction cs arbitrary: s)
  case (Cons c cs)
  have "rate_inv l (snd (rate_step l (fst c) (snd c) s))"
    using rate_step_levels(1) [OF Cons.prems, of "fst c" "snd c"] by (metis prod.collapse)
  from Cons.IH [OF this] show ?case by (simp add: rate_after_def split_beta)
qed (simp add: rate_after_def)

text \<open>The limiter of the node with its default limits, created at time \<open>boot\<close>, after some calls.\<close>

definition inbound_rate_limiter :: "nat \<Rightarrow> RateState" where
  "inbound_rate_limiter boot = rate_state_new default_rate_limits boot"

definition inbound_step :: "rate_op \<Rightarrow> nat \<Rightarrow> RateState \<Rightarrow> bool \<times> RateState" where
  "inbound_step = rate_step default_rate_limits"

definition inbound_after :: "nat \<Rightarrow> (rate_op \<times> nat) list \<Rightarrow> RateState" where
  "inbound_after boot cs = rate_after default_rate_limits cs (inbound_rate_limiter boot)"

section \<open>The reserve of the committee\<close>

definition above :: "TierRate \<Rightarrow> rat \<Rightarrow> DualBucket \<Rightarrow> bool" where
  "above t r b \<longleftrightarrow> tier_ok t b \<and> of_nat (msg_burst t) * r \<le> rb_tokens (msgs b) \<and> of_int (byte_burst t) * r \<le> rb_tokens (byts b)"

lemma above_new: "tier_valid t \<Longrightarrow> r \<le> 1 \<Longrightarrow> above t r (tier_new_bucket t now)"
  using new_bucket_ok [of t now]
  by (simp add: above_def tier_valid_def mult_left_le) (simp add: tier_new_bucket_def bucket_full_def mult_left_le)

lemma above_charged:
  assumes "above t r b" "0 \<le> n" "0 \<le> r" "tier_valid t" "ok \<Longrightarrow> fits t n r now b"
  shows "above t r (charged t n ok now b)"
proof -
  have ok: "tier_ok t b" using assms(1) by (simp add: above_def)
  then have "rb_tokens (msgs b) \<le> msg_level t b now" "rb_tokens (byts b) \<le> byte_level t b now"
    by (simp_all add: tier_ok_def level_ge_tokens)
  moreover have "tier_ok t (charged t n ok now b)"
    using charged_level(1) [OF ok assms(2,3)] assms(4,5) by (simp add: tier_valid_def)
  ultimately show ?thesis
    using assms(1,5) by (cases ok) (simp_all add: above_def charged_def fits_def tier_spend_def tier_refill_def)
qed

lemma above_fits:
  assumes "above t r b" "1 \<le> of_nat (msg_burst t) * r" "of_int n \<le> of_int (byte_burst t) * r"
  shows "fits t n 0 now b"
proof -
  have "rb_tokens (msgs b) \<le> msg_level t b now" "rb_tokens (byts b) \<le> byte_level t b now"
    using assms(1) by (simp_all add: above_def tier_ok_def level_ge_tokens)
  with assms show ?thesis by (simp add: fits_def above_def)
qed

definition table_above :: "TierRate \<Rightarrow> rat \<Rightarrow> BucketTable \<Rightarrow> bool" where
  "table_above t r m \<longleftrightarrow> distinct (map fst (bt_buckets m)) \<and> above t r (bt_overflow m) \<and>
     (\<forall>k b. map_of (bt_buckets m) k = Some b \<longrightarrow> above t r b)"

lemma table_above_update:
  "table_above t r m \<Longrightarrow> above t r b \<Longrightarrow> table_above t r (m\<lparr> bt_buckets := AList.update k b (bt_buckets m) \<rparr>)"
  by (auto simp: table_above_def distinct_update update_conv' simp del: map_of_eq_Some_iff split: if_splits)

lemma table_above_filter: "table_above t r m \<Longrightarrow> table_above t r (m\<lparr> bt_swept_at := x, bt_buckets := filter P (bt_buckets m) \<rparr>)"
  using map_of_filter_key [of "bt_buckets m" P]
  by (auto simp: table_above_def distinct_filter_keys simp del: map_of_eq_Some_iff split: option.splits if_splits)

lemma table_above_slot:
  assumes "table_above t r m" "tier_valid t" "r \<le> 1" "table_slot key t cap pinned now m = (slot, m')"
  shows "table_above t r m'"
proof -
  define m1 where "m1 = (if cap \<le> length (bt_buckets m) \<and> sweep_due RATE_TABLE_SWEEP_INTERVAL now (bt_swept_at m)
    then m\<lparr> bt_swept_at := Some now,
            bt_buckets := filter (\<lambda>(_, b). now - rb_refilled_at (msgs b) < RATE_BUCKET_IDLE_FORGET) (bt_buckets m) \<rparr>
    else m)"
  have m1: "table_above t r m1" using assms(1) table_above_filter unfolding m1_def by (simp split: if_split)
  from assms(4) have "(if map_of (bt_buckets m) key \<noteq> None then (Tracked key, m)
      else if cap \<le> length (bt_buckets m1) \<and> \<not> pinned then (Overflow, m1)
      else (Tracked key, m1\<lparr> bt_buckets := AList.update key (tier_new_bucket t now) (bt_buckets m1) \<rparr>)) = (slot, m')"
    unfolding table_slot_def Let_def m1_def [symmetric] .
  moreover note table_above_update [OF m1 above_new [OF assms(2,3)], of key now]
  ultimately show ?thesis using assms(1) m1 by (simp only: prod.inject split: if_splits)
qed

lemma table_above_get: "table_above t r m \<Longrightarrow> table_get slot m = Some b \<Longrightarrow> above t r b"
  by (cases slot) (auto simp: table_above_def table_get_def simp del: map_of_eq_Some_iff)

lemma table_above_set: "table_above t r m \<Longrightarrow> above t r b \<Longrightarrow> table_above t r (table_set slot b m)"
  by (cases slot) (simp_all add: table_set_def table_above_update, simp add: table_above_def)

definition reserve_inv :: "RateLimits \<Rightarrow> RateState \<Rightarrow> bool" where
  "reserve_inv l s \<longleftrightarrow> limits_valid l \<and> above (rl_global l) (rl_committee_reserve l) (rt_global s) \<and>
     table_above (rl_direct_peer l) (rl_committee_reserve l) (rt_direct s)"

lemma reserve_inv_new: "limits_valid l \<Longrightarrow> reserve_inv l (rate_state_new l now)"
  by (simp add: reserve_inv_def rate_state_new_def limits_valid_def bucket_table_new_def table_above_def above_new)

fun by_committee :: "rate_op \<Rightarrow> bool" where
  "by_committee (Charge d a class n) = (class = Committee)"
| "by_committee (ChargeForward n) = False"

lemma reserve_inv_step:
  assumes "reserve_inv l s" "\<not> by_committee c" "rate_step l c now s = (b, s')"
  shows "reserve_inv l s'"
proof (cases c)
  case (Charge d a cl n)
  then have r: "reserve_of l cl = rl_committee_reserve l" using assms(2) by (simp add: reserve_of_def)
  have valid: "tier_valid (rl_global l)" "tier_valid (rl_direct_peer l)" "0 \<le> rl_committee_reserve l" "rl_committee_reserve l \<le> 1"
    using assms(1) by (simp_all add: reserve_inv_def limits_valid_def)
  obtain outcome direct_slot dt direct author_slot authors author where
    d: "table_slot d (rl_direct_peer l) (rl_max_tracked_peers l) False now (rt_direct s) = (direct_slot, dt)"
      "table_get direct_slot dt = Some direct"
    and o: "outcome = charge_outcome l cl (int n) now s direct author"
    and c: "charge l d a cl (int n) now s =
      Some (outcome, charged_state l cl (int n) (outcome = Inr ()) now s direct_slot direct dt author_slot author authors)"
    by (rule charge_result)
  from c have s': "s' = charged_state l cl (int n) (outcome = Inr ()) now s direct_slot direct dt author_slot author authors"
    using assms(3) by (auto simp: Charge)
  have fit: "fits (rl_global l) (int n) (rl_committee_reserve l) now (rt_global s) \<and>
      fits (rl_direct_peer l) (int n) (rl_committee_reserve l) now direct" if "outcome = Inr ()"
    using that unfolding o r [symmetric] charge_outcome_def by (simp split: if_splits)
  have dt: "table_above (rl_direct_peer l) (rl_committee_reserve l) dt"
    using table_above_slot [OF _ valid(2,4) d(1)] assms(1) by (simp add: reserve_inv_def)
  from table_above_get [OF this d(2)] above_charged [of "rl_direct_peer l" "rl_committee_reserve l" direct "int n"] valid fit
  have "above (rl_direct_peer l) (rl_committee_reserve l) (charged (rl_direct_peer l) (int n) (outcome = Inr ()) now direct)" by simp
  from table_above_set [OF dt this] above_charged [of "rl_global l" "rl_committee_reserve l" "rt_global s" "int n"] valid fit assms(1)
  show ?thesis by (simp add: reserve_inv_def s' charged_state_def)
next
  case (ChargeForward n)
  then show ?thesis using assms by (auto simp: charge_forward_def reserve_inv_def Let_def split: prod.splits)
qed

lemma reserve_after:
  assumes "reserve_inv l s" "list_all (\<lambda>(c, _). \<not> by_committee c) cs"
  shows "reserve_inv l (rate_after l cs s)"
  using assms
proof (induction cs arbitrary: s)
  case (Cons c cs)
  have "\<not> by_committee (fst c)" using Cons.prems(2) by (simp add: split_beta)
  then have "reserve_inv l (snd (rate_step l (fst c) (snd c) s))"
    using reserve_inv_step [OF Cons.prems(1)] by (metis prod.collapse)
  with Cons show ?case by (simp add: rate_after_def split_beta)
qed (simp add: rate_after_def)

section \<open>Properties\<close>

text \<open>
  \<^bold>\<open>C36.\<close> The inbound limiter bounds what is decoded, whoever sends it. With the default limits, after any earlier calls and
  between any two times: at most 512 MiB and 32 MiB per second of messages pass in total, at most 16384 messages and 4096 per
  second, at most 32 MiB and 1 MiB per second of messages of all unregistered authors together, and at most 8 MiB and half a
  MiB per second are relayed for them. A refused message uses nothing of these budgets.
\<close>

theorem inbound_rate_bounded:
  assumes "sorted (t0 # map snd cs @ [t1])"
  shows "passed inbound_step global_bytes cs (inbound_after boot earlier) \<le> (512 + as_secs (t1 - t0) * 32) * 2 ^ 20 \<and>
    passed inbound_step global_msgs cs (inbound_after boot earlier) \<le> 16384 + as_secs (t1 - t0) * 4096 \<and>
    passed inbound_step unregistered_bytes cs (inbound_after boot earlier) \<le> (32 + as_secs (t1 - t0)) * 2 ^ 20 \<and>
    passed inbound_step forward_bytes cs (inbound_after boot earlier) \<le> (8 + as_secs (t1 - t0) / 2) * 2 ^ 20"
proof -
  define L where "L = default_rate_limits"
  define s where "s = inbound_after boot earlier"
  have inv: "rate_inv L s" unfolding L_def s_def inbound_after_def inbound_rate_limiter_def by (intro rate_after_inv rate_inv_new default_limits_valid)
  have L: "byte_burst (rl_global L) = 512 * 2 ^ 20" "byte_per_sec (rl_global L) = 32 * 2 ^ 20"
    "msg_burst (rl_global L) = 16384" "msg_per_sec (rl_global L) = 4096"
    "byte_burst (rl_unregistered_total L) = 32 * 2 ^ 20" "byte_per_sec (rl_unregistered_total L) = 2 ^ 20"
    "byte_burst (rl_unregistered_forward L) = 8 * 2 ^ 20" "byte_per_sec (rl_unregistered_forward L) = 2 ^ 19"
    by (simp_all add: L_def default_rate_limits_def Let_def)
  from global_byte_meter.passed_bound [OF inv assms(1)] global_msg_meter.passed_bound [OF inv assms(1)]
    unregistered_meter.passed_bound [OF inv assms(1)] forward_meter.passed_bound [OF inv assms(1)]
  show ?thesis unfolding s_def [symmetric] inbound_step_def L_def [symmetric] by (simp add: L field_simps)
qed

theorem inbound_rate_bounded_witness:
  "passed inbound_step global_bytes [(Charge [1] [2] Unregistered 1000, 3), (ChargeForward 1000, 4)] (inbound_after 0 []) \<le>
     (512 + as_secs (from_secs 1) * 32) * 2 ^ 20"
  using inbound_rate_bounded [of 0 "[(Charge [1] [2] Unregistered 1000, 3), (ChargeForward 1000, 4)]" "from_secs 1" 0 "[]"]
  by (simp add: from_secs_def)



end
