(* ===== verification/P2pAdmission.thy ===== *)
theory P2pAdmission
  imports NodeMessages P2pRate EngineRuntime
begin

text \<open>
  Admission of inbound gossip (\<^verbatim>\<open>src/node/src/p2p_admission/mod.rs\<close>) and the handler that acts on its verdict
  (\<^verbatim>\<open>src/node/src/p2p_msg_handler.rs\<close>): envelope, class, replay, rate, decoding, delivery and quota in the order of the
  code, then the record in the engine's inbox, the control queue, strikes and the report to gossipsub.

  The gates are threaded as one state. \<open>None\<close> is a panic, which the rate lemmas exclude; \<open>Inl ()\<close> is an error of the
  database. The database is the inbox table of the engine, and \<open>db_faults\<close> says which of its calls fail. Metrics and
  logging have no counterpart.

  The lemmas show what a message must pass to be enqueued, that it is forwarded only after it was recorded, and that the
  queued rows never exceed the quotas although the totals are cached.
\<close>

section \<open>Envelope and quota\<close>

definition check_envelope :: "bytes \<Rightarrow> bool \<Rightarrow> inbound_limits \<Rightarrow> DropReason + unit" where
  "check_envelope data sender_is_verifier limits =
     (if is_binary_envelope data
      then if \<not> sender_is_verifier then Inl BinaryFromNonVerifier
           else if max_binary_bytes limits < length data then Inl OversizedBinary else Inr ()
      else if max_json_bytes limits < length data then Inl OversizedJson else Inr ())"

fun class_string :: "SenderClass \<Rightarrow> string" where
  "class_string Committee = ''Committee''"
| "class_string Registered = ''Registered''"
| "class_string Unregistered = ''Unregistered''"

definition check_inbox_quota :: "SenderClass \<Rightarrow> nat \<Rightarrow> inbox_class_usage list \<Rightarrow> inbound_limits \<Rightarrow> DropReason + unit" where
  "check_inbox_quota class content_len usage limits =
     (let n = int content_len;
          total_rows = sum_list (map iu_rows usage);
          total_bytes = sum_list (map iu_bytes usage);
          others = filter (\<lambda>u. iu_admission_class u \<noteq> class_string Committee) usage;
          open_quota = \<lparr> q_rows = q_rows (lim_global limits) - q_rows (committee_reserve limits),
                         q_bytes = q_bytes (lim_global limits) - q_bytes (committee_reserve limits) \<rparr>
      in if \<not> admits (lim_global limits) (total_rows + 1) (total_bytes + n) then Inl GlobalQuota
         else if class \<noteq> Committee \<and>
                 \<not> admits open_quota (sum_list (map iu_rows others) + 1) (sum_list (map iu_bytes others) + n)
         then Inl GlobalQuota
         else if \<not> admits (registered_peer limits) (sum_list (map iu_peer_rows usage) + 1) (sum_list (map iu_peer_bytes usage) + n)
         then Inl SenderQuota
         else Inr ())"

section \<open>Drop counters\<close>

definition drop_record :: "DropReason \<Rightarrow> (DropReason \<times> nat) list \<Rightarrow> (DropReason \<times> nat) list" where
  "drop_record reason counts =
     AList.update reason ((case map_of counts reason of None \<Rightarrow> 0 | Some n \<Rightarrow> n) + 1) counts"

section \<open>Cached totals\<close>

type_synonym usage_cache = "(nat \<times> inbox_class_usage list) option"

definition INBOX_CLASS_TOTALS_TTL :: nat where "INBOX_CLASS_TOTALS_TTL = from_secs 2"

definition cache_fresh :: "nat \<Rightarrow> usage_cache \<Rightarrow> inbox_class_usage list option" where
  "cache_fresh now cache =
     (case cache of None \<Rightarrow> None | Some (t, totals) \<Rightarrow> if now - t < INBOX_CLASS_TOTALS_TTL then Some totals else None)"

text \<open>The first entry of a class is changed, as by \<^verbatim>\<open>iter_mut().find\<close>, or a new one is pushed.\<close>

fun upsert_usage ::
    "string \<Rightarrow> (inbox_class_usage \<Rightarrow> inbox_class_usage) \<Rightarrow> inbox_class_usage \<Rightarrow> inbox_class_usage list \<Rightarrow> inbox_class_usage list" where
  "upsert_usage c f new [] = [new]"
| "upsert_usage c f new (u # us) = (if iu_admission_class u = c then f u # us else u # upsert_usage c f new us)"

definition note_admitted :: "SenderClass \<Rightarrow> int \<Rightarrow> usage_cache \<Rightarrow> usage_cache" where
  "note_admitted class n cache =
     (case cache of
        None \<Rightarrow> None
      | Some (t, totals) \<Rightarrow>
          Some (t, upsert_usage (class_string class) (\<lambda>u. u\<lparr> iu_rows := iu_rows u + 1, iu_bytes := iu_bytes u + n \<rparr>)
            \<lparr> iu_admission_class = class_string class, iu_rows = 1, iu_bytes = n, iu_peer_rows = 0, iu_peer_bytes = 0 \<rparr> totals))"

definition merge_peer_usage :: "inbox_class_usage list \<Rightarrow> inbox_class_usage list \<Rightarrow> inbox_class_usage list" where
  "merge_peer_usage peers usage =
     fold (\<lambda>peer us. upsert_usage (iu_admission_class peer)
       (\<lambda>u. u\<lparr> iu_peer_rows := iu_peer_rows peer, iu_peer_bytes := iu_peer_bytes peer \<rparr>) peer us) peers usage"

text \<open>Which of the database calls for a message fail.\<close>

record db_faults =
  fault_acquire :: bool
  fault_totals :: bool
  fault_peer_usage :: bool
  fault_submit :: bool

definition cache_usage ::
    "db_faults \<Rightarrow> inbox_table \<Rightarrow> string \<Rightarrow> nat \<Rightarrow> usage_cache \<Rightarrow> (unit + inbox_class_usage list) \<times> usage_cache" where
  "cache_usage faults db from_peer now cache =
     (let (totals, cache) =
        (case cache_fresh now cache of
           Some totals \<Rightarrow> (Some totals, cache)
         | None \<Rightarrow>
             if fault_totals faults then (None, cache)
             else (Some (engine_inbox_class_totals db), Some (now, engine_inbox_class_totals db)))
      in case totals of
          None \<Rightarrow> (Inl (), cache)
        | Some totals \<Rightarrow>
            if fault_peer_usage faults then (Inl (), cache)
            else (Inr (merge_peer_usage (engine_inbox_peer_usage from_peer db) totals), cache))"

section \<open>The verdict\<close>

record InboundGossip =
  gossip_direct_peer :: peer_id
  gossip_source :: peer_id
  gossip_sequence_number :: "nat option"
  gossip_data :: bytes

datatype InboundVerdict = Drop DropReason | Immediate GOATMessage | Forward | Enqueue GOATMessage SenderClass

text \<open>The gates that change; the registry is only read, and the limits and the role are fixed.\<close>

record admission_gates =
  ag_replay :: replay_guard
  ag_rate :: RateState
  ag_immediate :: PeerRateLimiter
  ag_cache :: usage_cache

definition is_endorsement :: "GOATMessageContent \<Rightarrow> bool" where
  "is_endorsement c = (case c of VerifierGraphParamsEndorsement _ _ _ _ _ _ \<Rightarrow> True | _ \<Rightarrow> False)"

text \<open>The part after a message was admitted, rated and decoded.\<close>

definition evaluate_decoded :: "message_env \<Rightarrow> inbound_limits \<Rightarrow> RateLimits \<Rightarrow> Actor \<Rightarrow> RegistryState \<Rightarrow> db_faults \<Rightarrow> inbox_table \<Rightarrow>
    InboundGossip \<Rightarrow> SenderClass \<Rightarrow> GOATMessage \<Rightarrow> nat \<Rightarrow> admission_gates \<Rightarrow> (unit + InboundVerdict) \<times> admission_gates" where
  "evaluate_decoded env limits rates actor registry faults db inbound class message now g =
     (let data = gossip_data inbound;
          source = gossip_source inbound;
          content = gm_content message
      in if is_binary_envelope data \<and> \<not> is_gen_circuits content then (Inr (Drop UnexpectedBinaryKind), g)
         else if is_endorsement content \<and> verifier_set_loaded registry \<and> \<not> is_verifier source registry
         then (Inr (Drop EndorsementFromNonVerifier), g)
         else if p2p_delivery content = DeliverImmediate
         then let (allowed, l) = peer_allow source now (ag_immediate g)
              in (Inr (if allowed then Immediate message else Drop ImmediateRateLimited), g\<lparr> ag_immediate := l \<rparr>)
         else if \<not> handled_by (message_kind content) actor \<or> \<not> is_registered class
         then if \<not> is_registered class
              then let (r, s) = charge_forward rates (int (length data)) now (ag_rate g)
                   in (Inr (case r of Inl reason \<Rightarrow> Drop reason | Inr _ \<Rightarrow> Forward), g\<lparr> ag_rate := s \<rparr>)
              else (Inr Forward, g)
         else if fault_acquire faults then (Inl (), g)
         else
           let (usage, cache) = cache_usage faults db (peer_string env source) now (ag_cache g);
               g = g\<lparr> ag_cache := cache \<rparr>
           in case usage of
               Inl _ \<Rightarrow> (Inl (), g)
             | Inr us \<Rightarrow>
                 (case check_inbox_quota class (length data) us limits of
                    Inl reason \<Rightarrow> (Inr (Drop reason), g)
                  | Inr _ \<Rightarrow>
                      (Inr (Enqueue message class), g\<lparr> ag_cache := note_admitted class (int (length data)) cache \<rparr>)))"

definition evaluate_inbound_message :: "message_env \<Rightarrow> inbound_limits \<Rightarrow> RateLimits \<Rightarrow> Actor \<Rightarrow> RegistryState \<Rightarrow> db_faults \<Rightarrow> inbox_table \<Rightarrow>
    InboundGossip \<Rightarrow> nat \<Rightarrow> nat \<Rightarrow> admission_gates \<Rightarrow> ((unit + InboundVerdict) \<times> admission_gates) option" where
  "evaluate_inbound_message env limits rates actor registry faults db inbound now unix_nanos g =
     (let data = gossip_data inbound;
          source = gossip_source inbound
      in case check_envelope data (is_verifier source registry) limits of
          Inl reason \<Rightarrow> Some (Inr (Drop reason), g)
        | Inr _ \<Rightarrow>
            let class = sender_class source now registry;
                (replayed, guard) =
                  (if is_registered class then replay_admit source (gossip_sequence_number inbound) unix_nanos (ag_replay g)
                   else (Inr (), ag_replay g));
                g = g\<lparr> ag_replay := guard \<rparr>
            in case replayed of
                Inl reason \<Rightarrow> Some (Inr (Drop reason), g)
              | Inr _ \<Rightarrow>
                  (case charge rates (gossip_direct_peer inbound) source class (int (length data)) now (ag_rate g) of
                     None \<Rightarrow> None
                   | Some (rated, s) \<Rightarrow>
                       let g = g\<lparr> ag_rate := s \<rparr>
                       in case rated of
                           Inl reason \<Rightarrow> Some (Inr (Drop reason), g)
                         | Inr _ \<Rightarrow>
                             (case deserialize_message env data of
                                None \<Rightarrow> Some (Inr (Drop Undecodable), g)
                              | Some message \<Rightarrow>
                                  Some (evaluate_decoded env limits rates actor registry faults db inbound class message now g))))"

section \<open>The handler\<close>

datatype MessageAcceptance = Accept | Ignore

record ImmediateMessage =
  imm_source :: peer_id
  imm_message :: GOATMessage
  imm_bytes :: nat

definition CONTROL_QUEUE_ROWS :: nat where "CONTROL_QUEUE_ROWS = 16"

definition CONTROL_QUEUE_BYTES :: nat where "CONTROL_QUEUE_BYTES = 16 * 1024 * 1024"

text \<open>The bounded queue in front of the control worker: a channel of 16 messages, and permits for their bytes.\<close>

definition worker_enqueue :: "peer_id \<Rightarrow> GOATMessage \<Rightarrow> nat \<Rightarrow> ImmediateMessage list \<Rightarrow> bool \<times> ImmediateMessage list" where
  "worker_enqueue source message n queue =
     (let n = max n 1
      in if 2 ^ 32 \<le> n \<or> CONTROL_QUEUE_BYTES < sum_list (map imm_bytes queue) + n \<or> CONTROL_QUEUE_ROWS \<le> length queue
         then (False, queue)
         else (True, queue @ [\<lparr> imm_source = source, imm_message = message, imm_bytes = n \<rparr>]))"

definition PEER_TIMESTAMP_COOLDOWN :: nat where "PEER_TIMESTAMP_COOLDOWN = from_secs 30"

definition COOLDOWN_GATE_MAX_ENTRIES :: nat where "COOLDOWN_GATE_MAX_ENTRIES = 8192"

record 'b node_state =
  ns_gates :: admission_gates
  ns_registry :: RegistryState
  ns_strikes :: strike_state
  ns_drops :: "(DropReason \<times> nat) list"
  ns_queue :: "ImmediateMessage list"
  ns_timestamps :: bounded_stamps
  ns_db :: "'b engine_db"
  ns_acks :: ack_channel

text \<open>Registered peers and peers without a verdict are not struck; for the latter a lookup is claimed.\<close>

definition strike_direct_peer :: "peer_id \<Rightarrow> nat \<Rightarrow> 'b node_state \<Rightarrow> 'b node_state" where
  "strike_direct_peer direct_peer now s =
     (if \<not> is_known_unregistered direct_peer now (ns_registry s)
      then s\<lparr> ns_registry := snd (plan_neighbour_lookup direct_peer now (ns_registry s)) \<rparr>
      else s\<lparr> ns_strikes := snd (strike direct_peer now (ns_strikes s)) \<rparr>)"

definition refresh_peer_timestamp_throttled :: "message_env \<Rightarrow> peer_id \<Rightarrow> nat \<Rightarrow> 'b node_state \<Rightarrow> 'b node_state" where
  "refresh_peer_timestamp_throttled env peer now s =
     s\<lparr> ns_timestamps := snd (cooldown_allow PEER_TIMESTAMP_COOLDOWN COOLDOWN_GATE_MAX_ENTRIES (peer_string env peer) now (ns_timestamps s)) \<rparr>"

definition drop_message :: "DropReason \<Rightarrow> 'b node_state \<Rightarrow> 'b node_state" where
  "drop_message reason s = s\<lparr> ns_drops := drop_record reason (ns_drops s) \<rparr>"

definition record_engine_message :: "new_event \<Rightarrow> int \<Rightarrow> 'b node_state \<Rightarrow> 'b node_state" where
  "record_engine_message event secs s =
     (let (outcome, _, db, acks) = submit event secs (ns_db s) (ns_acks s);
          s = s\<lparr> ns_db := db, ns_acks := acks \<rparr>
      in case outcome of SubmitInserted \<Rightarrow> s | SubmitDuplicate _ _ _ \<Rightarrow> drop_message DuplicatePayload s)"

text \<open>
  The report to gossipsub, whether the handler succeeds, and the state; \<open>secs\<close> is the wall clock in seconds.
\<close>

definition handle_inbound_p2p_message :: "message_env \<Rightarrow> inbound_limits \<Rightarrow> RateLimits \<Rightarrow> Actor \<Rightarrow> string \<Rightarrow> db_faults \<Rightarrow> InboundGossip \<Rightarrow>
    nat \<Rightarrow> nat \<Rightarrow> int \<Rightarrow> 'b node_state \<Rightarrow> (MessageAcceptance \<times> bool \<times> 'b node_state) option" where
  "handle_inbound_p2p_message env limits rates actor local_peer faults inbound now unix_nanos secs s =
     (case evaluate_inbound_message env limits rates actor (ns_registry s) faults (db_inbox (ns_db s))
         inbound now unix_nanos (ns_gates s) of
        None \<Rightarrow> None
      | Some (verdict, g) \<Rightarrow>
          let s = s\<lparr> ns_gates := g \<rparr>;
              source = gossip_source inbound
          in Some (case verdict of
              Inl _ \<Rightarrow> (Ignore, False, s)
            | Inr (Drop reason) \<Rightarrow>
                (Ignore, True,
                 drop_message reason (if blames_direct_peer reason then strike_direct_peer (gossip_direct_peer inbound) now s else s))
            | Inr Forward \<Rightarrow> (Accept, True, refresh_peer_timestamp_throttled env source now s)
            | Inr (Enqueue decoded class) \<Rightarrow>
                (case inbound_event env actor (peer_string env source) local_peer decoded (gossip_data inbound) of
                   Inr (Some event) \<Rightarrow>
                     if \<not> fault_submit faults
                     then (Accept, True, refresh_peer_timestamp_throttled env source now
                       (record_engine_message (with_admission_class (class_string class) event) secs s))
                     else (Ignore, False, s)
                 | _ \<Rightarrow> (Ignore, False, s))
            | Inr (Immediate decoded) \<Rightarrow>
                let (queued, queue) = worker_enqueue source decoded (length (gossip_data inbound)) (ns_queue s)
                in if \<not> queued then (Ignore, True, drop_message ControlQueueFull s)
                   else (Accept, True, refresh_peer_timestamp_throttled env source now (s\<lparr> ns_queue := queue \<rparr>))))"

section \<open>What an enqueued message passed\<close>

lemma evaluate_decoded_enqueue:
  assumes "evaluate_decoded env limits rates actor registry faults db inbound cl message now g = (Inr (Enqueue m c), g')"
  obtains us where "m = message" "c = cl" "is_registered cl" "handled_by (message_kind (gm_content m)) actor"
    "p2p_delivery (gm_content m) = DeliverInbox"
    "is_binary_envelope (gossip_data inbound) \<longrightarrow> is_gen_circuits (gm_content m)"
    "is_endorsement (gm_content m) \<and> verifier_set_loaded registry \<longrightarrow> is_verifier (gossip_source inbound) registry"
    "fst (cache_usage faults db (peer_string env (gossip_source inbound)) now (ag_cache g)) = Inr us"
    "check_inbox_quota cl (length (gossip_data inbound)) us limits = Inr ()"
    "ag_cache g' = note_admitted cl (int (length (gossip_data inbound)))
       (snd (cache_usage faults db (peer_string env (gossip_source inbound)) now (ag_cache g)))"
proof -
  let ?u = "cache_usage faults db (peer_string env (gossip_source inbound)) now (ag_cache g)"
  have d: "p2p_delivery (gm_content message) = DeliverInbox"
    using assms by (cases "p2p_delivery (gm_content message)") (auto simp: evaluate_decoded_def Let_def split_beta split: if_splits)
  have h: "handled_by (message_kind (gm_content message)) actor" "is_registered cl" "\<not> fault_acquire faults"
    using assms d by (auto simp: evaluate_decoded_def Let_def split_beta split: if_splits sum.splits)
  obtain us cache where u: "?u = (Inr us, cache)"
    using assms d h by (cases ?u) (auto simp: evaluate_decoded_def Let_def split: if_splits sum.splits)
  have q: "check_inbox_quota cl (length (gossip_data inbound)) us limits = Inr ()"
    using assms d h u by (auto simp: evaluate_decoded_def Let_def split: if_splits sum.splits)
  show thesis
    using assms d h u q by (intro that [of us]) (auto simp: evaluate_decoded_def Let_def split: if_splits)
qed

lemma evaluate_enqueue:
  assumes "evaluate_inbound_message env limits rates actor registry faults db inbound now unix_nanos g = Some (Inr (Enqueue m c), g')"
  obtains s us where "c = sender_class (gossip_source inbound) now registry" "is_registered c"
    "check_envelope (gossip_data inbound) (is_verifier (gossip_source inbound) registry) limits = Inr ()"
    "fst (replay_admit (gossip_source inbound) (gossip_sequence_number inbound) unix_nanos (ag_replay g)) = Inr ()"
    "charge rates (gossip_direct_peer inbound) (gossip_source inbound) c (int (length (gossip_data inbound))) now (ag_rate g) = Some (Inr (), s)"
    "deserialize_message env (gossip_data inbound) = Some m" "handled_by (message_kind (gm_content m)) actor"
    "p2p_delivery (gm_content m) = DeliverInbox"
    "is_binary_envelope (gossip_data inbound) \<longrightarrow> is_gen_circuits (gm_content m)"
    "is_endorsement (gm_content m) \<and> verifier_set_loaded registry \<longrightarrow> is_verifier (gossip_source inbound) registry"
    "fst (cache_usage faults db (peer_string env (gossip_source inbound)) now (ag_cache g)) = Inr us"
    "check_inbox_quota c (length (gossip_data inbound)) us limits = Inr ()"
    "ag_cache g' = note_admitted c (int (length (gossip_data inbound)))
       (snd (cache_usage faults db (peer_string env (gossip_source inbound)) now (ag_cache g)))"
proof -
  let ?c = "sender_class (gossip_source inbound) now registry"
  obtain guard s message where
    e: "check_envelope (gossip_data inbound) (is_verifier (gossip_source inbound) registry) limits = Inr ()"
    and r: "(if is_registered ?c then replay_admit (gossip_source inbound) (gossip_sequence_number inbound) unix_nanos (ag_replay g)
       else (Inr (), ag_replay g)) = (Inr (), guard)"
    and ch: "charge rates (gossip_direct_peer inbound) (gossip_source inbound) ?c (int (length (gossip_data inbound))) now (ag_rate g) = Some (Inr (), s)"
    and m: "deserialize_message env (gossip_data inbound) = Some message"
    and dec: "evaluate_decoded env limits rates actor registry faults db inbound ?c message now (g\<lparr> ag_replay := guard, ag_rate := s \<rparr>) =
      (Inr (Enqueue m c), g')"
    using assms by (auto simp: evaluate_inbound_message_def Let_def split: sum.splits option.splits prod.splits)
  from dec obtain us where "m = message" "c = ?c" "is_registered ?c" "handled_by (message_kind (gm_content m)) actor"
    "p2p_delivery (gm_content m) = DeliverInbox"
    "is_binary_envelope (gossip_data inbound) \<longrightarrow> is_gen_circuits (gm_content m)"
    "is_endorsement (gm_content m) \<and> verifier_set_loaded registry \<longrightarrow> is_verifier (gossip_source inbound) registry"
    "fst (cache_usage faults db (peer_string env (gossip_source inbound)) now (ag_cache g)) = Inr us"
    "check_inbox_quota ?c (length (gossip_data inbound)) us limits = Inr ()"
    "ag_cache g' = note_admitted ?c (int (length (gossip_data inbound)))
       (snd (cache_usage faults db (peer_string env (gossip_source inbound)) now (ag_cache g)))"
    by (rule evaluate_decoded_enqueue) simp_all
  with e r ch m show thesis by (intro that [of s us]) simp_all
qed

section \<open>Quotas with cached totals\<close>

text \<open>The queued network rows of some classes and authors.\<close>

definition queued_count :: "(string \<Rightarrow> string \<Rightarrow> bool) \<Rightarrow> inbox_table \<Rightarrow> int" where
  "queued_count Q t = int (count_rows (\<lambda>r. queued_network r \<and> Q (ie_admission_class r) (ie_author r)) (it_rows t))"

definition usage_rows :: "(string \<Rightarrow> bool) \<Rightarrow> inbox_class_usage list \<Rightarrow> int" where
  "usage_rows Q us = sum_list (map iu_rows (filter (\<lambda>u. Q (iu_admission_class u)) us))"

text \<open>Totals that count at least the rows of the table, whatever classes are looked at.\<close>

definition covers :: "inbox_class_usage list \<Rightarrow> inbox_table \<Rightarrow> bool" where
  "covers us t \<longleftrightarrow> (\<forall>Q. queued_count (\<lambda>c a. Q c) t \<le> usage_rows Q us)"

lemma sum_class_counts:
  assumes "distinct cs" "set (map cls rs) \<subseteq> set cs"
  shows "sum_list (map (\<lambda>c. int (length (filter (\<lambda>r. cls r = c) rs))) (filter Q cs)) = int (length (filter (\<lambda>r. Q (cls r)) rs))"
  using assms(2)
proof (induction rs)
  case (Cons r rs)
  have "sum_list (map (\<lambda>c. int (length (filter (\<lambda>r. cls r = c) (r # rs)))) ds) =
      (if cls r \<in> set ds then 1 else 0) + sum_list (map (\<lambda>c. int (length (filter (\<lambda>r. cls r = c) rs))) ds)" if "distinct ds" for ds
    using that by (induction ds) auto
  from this [of "filter Q cs"] Cons assms(1) show ?case by simp
qed (simp add: sum_list_0)

lemma totals_cover: "covers (engine_inbox_class_totals t) t"
  unfolding covers_def
proof
  fix Q
  let ?rs = "filter queued_network (it_rows t)"
  have "usage_rows Q (engine_inbox_class_totals t) =
      sum_list (map (\<lambda>c. int (length (filter (\<lambda>r. ie_admission_class r = c) ?rs))) (filter Q (remdups (map ie_admission_class ?rs))))"
    by (simp add: usage_rows_def engine_inbox_class_totals_def class_usage_rows_def Let_def filter_map o_def)
  also have "\<dots> = int (length (filter (\<lambda>r. Q (ie_admission_class r)) ?rs))" by (rule sum_class_counts) auto
  finally show "queued_count (\<lambda>c a. Q c) t \<le> usage_rows Q (engine_inbox_class_totals t)"
    by (simp add: queued_count_def count_rows_def conj_commute)
qed

lemma upsert_rows:
  assumes "\<And>u. iu_admission_class (f u) = iu_admission_class u \<and> iu_rows (f u) = iu_rows u + n"
    "iu_admission_class new = c" "iu_rows new = n"
  shows "usage_rows Q (upsert_usage c f new us) = usage_rows Q us + (if Q c then n else 0)"
  using assms by (induction us) (auto simp: usage_rows_def)

lemma merge_rows: "(\<forall>p \<in> set ps. iu_rows p = 0) \<Longrightarrow> usage_rows Q (merge_peer_usage ps us) = usage_rows Q us"
  by (induction ps arbitrary: us) (simp_all add: merge_peer_usage_def upsert_rows [where n = 0])

lemma upsert_peer_rows:
  assumes "\<And>u. iu_peer_rows (f u) = iu_peer_rows new" "\<forall>u \<in> set us. iu_admission_class u = c \<longrightarrow> iu_peer_rows u = 0"
  shows "sum_list (map iu_peer_rows (upsert_usage c f new us)) = sum_list (map iu_peer_rows us) + iu_peer_rows new"
  using assms by (induction us) auto

lemma set_upsert: "set (upsert_usage c f new us) \<subseteq> insert new (set us) \<union> f ` {u \<in> set us. iu_admission_class u = c}"
  by (induction us) auto

lemma merge_peer_rows:
  assumes "distinct (map iu_admission_class ps)" "\<forall>u \<in> set us. iu_admission_class u \<in> iu_admission_class ` set ps \<longrightarrow> iu_peer_rows u = 0"
  shows "sum_list (map iu_peer_rows (merge_peer_usage ps us)) = sum_list (map iu_peer_rows us) + sum_list (map iu_peer_rows ps)"
  using assms
proof (induction ps arbitrary: us)
  case (Cons p ps)
  let ?f = "\<lambda>u. u\<lparr> iu_peer_rows := iu_peer_rows p, iu_peer_bytes := iu_peer_bytes p \<rparr>"
  let ?us = "upsert_usage (iu_admission_class p) ?f p us"
  have "\<forall>u \<in> set ?us. iu_admission_class u \<in> iu_admission_class ` set ps \<longrightarrow> iu_peer_rows u = 0"
    using set_upsert [of "iu_admission_class p" ?f p us] Cons.prems by fastforce
  with Cons have "sum_list (map iu_peer_rows (merge_peer_usage ps ?us)) = sum_list (map iu_peer_rows ?us) + sum_list (map iu_peer_rows ps)"
    by simp
  moreover have "sum_list (map iu_peer_rows ?us) = sum_list (map iu_peer_rows us) + iu_peer_rows p"
    using Cons.prems(2) by (intro upsert_peer_rows) simp_all
  ultimately show ?case by (simp add: merge_peer_usage_def)
qed (simp add: merge_peer_usage_def)

lemma peer_usage_rows: "sum_list (map iu_peer_rows (engine_inbox_peer_usage author t)) = queued_count (\<lambda>c a. a = author) t"
proof -
  let ?rs = "filter (\<lambda>r. queued_network r \<and> ie_author r = author) (it_rows t)"
  have "sum_list (map iu_peer_rows (engine_inbox_peer_usage author t)) =
      sum_list (map (\<lambda>c. int (length (filter (\<lambda>r. ie_admission_class r = c) ?rs))) (filter (\<lambda>_. True) (remdups (map ie_admission_class ?rs))))"
    by (simp add: engine_inbox_peer_usage_def class_usage_rows_def Let_def o_def del: filter_filter)
  also have "\<dots> = int (length (filter (\<lambda>_. True) ?rs))" by (rule sum_class_counts) auto
  finally show ?thesis by (simp add: queued_count_def count_rows_def)
qed

definition cache_inv :: "usage_cache \<Rightarrow> inbox_table \<Rightarrow> bool" where
  "cache_inv cache t \<longleftrightarrow> (case cache of None \<Rightarrow> True | Some (_, us) \<Rightarrow> covers us t \<and> (\<forall>u \<in> set us. iu_peer_rows u = 0))"

lemma cache_usage_inv:
  assumes "cache_inv cache t" "cache_usage faults t author now cache = (r, cache')"
  shows "cache_inv cache' t"
    "r = Inr us \<Longrightarrow> (\<exists>t0 totals. cache' = Some (t0, totals) \<and> (\<forall>Q. usage_rows Q us = usage_rows Q totals)) \<and>
       sum_list (map iu_peer_rows us) = queued_count (\<lambda>c a. a = author) t"
proof -
  let ?T = "engine_inbox_class_totals t"
  have T: "cache_inv (Some (now, ?T)) t"
    using totals_cover by (auto simp: cache_inv_def engine_inbox_class_totals_def Let_def)
  show "cache_inv cache' t" using assms T by (auto simp: cache_usage_def Let_def split: option.splits if_splits)
  assume "r = Inr us"
  then obtain t0 totals where c: "cache' = Some (t0, totals)" "us = merge_peer_usage (engine_inbox_peer_usage author t) totals"
    using assms(2) by (auto simp: cache_usage_def cache_fresh_def Let_def split: option.splits if_splits)
  with \<open>cache_inv cache' t\<close> have z: "\<forall>u \<in> set totals. iu_peer_rows u = 0" by (simp add: cache_inv_def)
  have "distinct (map iu_admission_class (engine_inbox_peer_usage author t))"
    by (simp add: engine_inbox_peer_usage_def Let_def o_def)
  from merge_peer_rows [OF this, of totals] z peer_usage_rows [of author t]
  have "sum_list (map iu_peer_rows us) = sum_list (map iu_peer_rows totals) + queued_count (\<lambda>c a. a = author) t" by (simp add: c(2))
  moreover have "sum_list (map iu_peer_rows totals) = 0" using z by (induction totals) auto
  moreover have "usage_rows Q us = usage_rows Q totals" for Q
    unfolding c(2) by (rule merge_rows) (auto simp: engine_inbox_peer_usage_def Let_def)
  ultimately show "(\<exists>t0 totals. cache' = Some (t0, totals) \<and> (\<forall>Q. usage_rows Q us = usage_rows Q totals)) \<and>
       sum_list (map iu_peer_rows us) = queued_count (\<lambda>c a. a = author) t" using c(1) by auto
qed

lemma note_admitted_inv:
  assumes "cache_inv cache t" "\<And>Q. queued_count (\<lambda>c a. Q c) t' \<le> queued_count (\<lambda>c a. Q c) t + (if Q (class_string cl) then 1 else 0)"
  shows "cache_inv (note_admitted cl n cache) t'"
proof (cases cache)
  case (Some e)
  obtain t0 us where e: "e = (t0, us)" by (cases e)
  let ?f = "\<lambda>u. u\<lparr> iu_rows := iu_rows u + 1, iu_bytes := iu_bytes u + n \<rparr>"
  let ?new = "\<lparr> iu_admission_class = class_string cl, iu_rows = 1, iu_bytes = n, iu_peer_rows = 0, iu_peer_bytes = 0 \<rparr>"
  have "usage_rows Q (upsert_usage (class_string cl) ?f ?new us) = usage_rows Q us + (if Q (class_string cl) then 1 else 0)" for Q
    by (rule upsert_rows) simp_all
  moreover have "queued_count (\<lambda>c a. Q c) t' \<le> usage_rows Q us + (if Q (class_string cl) then 1 else 0)" for Q
  proof -
    have "queued_count (\<lambda>c a. Q c) t \<le> usage_rows Q us" using assms(1) by (simp add: cache_inv_def Some e covers_def)
    with assms(2) [of Q] show ?thesis by linarith
  qed
  ultimately have "covers (upsert_usage (class_string cl) ?f ?new us) t'" by (simp add: covers_def)
  moreover have "\<forall>u \<in> set (upsert_usage (class_string cl) ?f ?new us). iu_peer_rows u = 0"
    using assms(1) set_upsert [of "class_string cl" ?f ?new us] by (fastforce simp: cache_inv_def Some e)
  ultimately show ?thesis by (simp add: cache_inv_def note_admitted_def Some e)
qed (simp add: cache_inv_def note_admitted_def)

lemma cache_inv_fewer:
  assumes "cache_inv cache t" "\<And>Q. queued_count Q t' \<le> queued_count Q t"
  shows "cache_inv cache t'"
  using assms(1) order_trans [OF assms(2)] unfolding cache_inv_def covers_def by (simp split: option.splits prod.splits)

text \<open>An update that queues no row again adds none, and neither does a deletion.\<close>

lemma update_queued:
  assumes "\<And>r. p r \<Longrightarrow> (queued_network (f r) \<longrightarrow> queued_network r) \<and> ie_admission_class (f r) = ie_admission_class r \<and> ie_author (f r) = ie_author r"
  shows "queued_count Q (snd (update_inbox p f t)) \<le> queued_count Q t"
proof -
  have "count_rows (\<lambda>r. queued_network r \<and> Q (ie_admission_class r) (ie_author r)) (update_rows p f rows) \<le>
      count_rows (\<lambda>r. queued_network r \<and> Q (ie_admission_class r) (ie_author r)) rows" for rows
    using assms by (induction rows) (auto simp: count_rows_def update_rows_def)
  then show ?thesis by (simp add: queued_count_def update_inbox_def)
qed

lemma delete_queued: "queued_count Q (snd (delete_inbox p t)) \<le> queued_count Q t"
proof -
  have "count_rows P (delete_rows p rows) \<le> count_rows P rows" for P and rows :: "engine_inbox_event list"
    by (induction rows) (auto simp: count_rows_def delete_rows_def)
  then show ?thesis by (simp add: queued_count_def delete_inbox_def)
qed

text \<open>An insertion adds at most one row, of its class and author.\<close>

lemma insert_queued:
  "queued_count Q (snd (insert_engine_inbox_event ev now t)) \<le>
     queued_count Q t + (if Q (ne_admission_class ev) (ne_author ev) then 1 else 0)"
proof (cases "find_engine_inbox_event (ne_event_id ev) t")
  case None
  then show ?thesis
    by (simp add: insert_engine_inbox_event_def Let_def queued_count_def count_rows_def new_inbox_row_def)
next
  case (Some e)
  have "queued_count Q (snd (update_inbox (\<lambda>r. ie_event_id r = ne_event_id ev \<and> ie_state r = InboxFailed)
      (\<lambda>r. r\<lparr> ie_state := InboxPending, ie_next_at := now, ie_waiting_ref := None,
               ie_waiting_detail := None, ie_last_error := None, ie_updated_at := now \<rparr>) t)) \<le> queued_count Q t"
    by (rule update_queued) (simp add: queued_network_def)
  then show ?thesis by (simp add: insert_existing [OF Some])
qed

definition quota_inv :: "inbound_limits \<Rightarrow> inbox_table \<Rightarrow> bool" where
  "quota_inv limits t \<longleftrightarrow> queued_count (\<lambda>_ _. True) t \<le> q_rows (lim_global limits) \<and>
     queued_count (\<lambda>c _. c \<noteq> ''Committee'') t \<le> q_rows (lim_global limits) - q_rows (committee_reserve limits) \<and>
     (\<forall>author. queued_count (\<lambda>_ a. a = author) t \<le> q_rows (registered_peer limits))"

lemma quota_inv_fewer:
  assumes "quota_inv limits t" "\<And>Q. queued_count Q t' \<le> queued_count Q t"
  shows "quota_inv limits t'"
  using assms(1) order_trans [OF assms(2)] by (simp add: quota_inv_def)

text \<open>A row that the quota admits keeps the quota.\<close>

lemma quota_inv_insert:
  assumes "quota_inv limits t" "cache_inv cache t" "cache_usage faults t author now cache = (Inr us, cache')"
    "check_inbox_quota cl n us limits = Inr ()" "ne_admission_class ev = class_string cl" "ne_author ev = author"
  shows "quota_inv limits (snd (insert_engine_inbox_event ev secs t))"
proof -
  let ?t = "snd (insert_engine_inbox_event ev secs t)"
  note ins = insert_queued [where ev = ev and now = secs and t = t, unfolded assms(5,6)]
  obtain t0 totals where c: "cache' = Some (t0, totals)" "\<And>Q. usage_rows Q us = usage_rows Q totals"
    and own: "sum_list (map iu_peer_rows us) = queued_count (\<lambda>c a. a = author) t"
    using cache_usage_inv(2) [OF assms(2,3)] by blast
  have cov: "queued_count (\<lambda>c a. Q c) t \<le> usage_rows Q us" for Q
    using cache_usage_inv(1) [OF assms(2,3)] by (simp add: c cache_inv_def covers_def)
  have q: "sum_list (map iu_rows us) + 1 \<le> q_rows (lim_global limits)"
    "cl \<noteq> Committee \<Longrightarrow> sum_list (map iu_rows (filter (\<lambda>u. iu_admission_class u \<noteq> ''Committee'') us)) + 1 \<le>
      q_rows (lim_global limits) - q_rows (committee_reserve limits)"
    "sum_list (map iu_peer_rows us) + 1 \<le> q_rows (registered_peer limits)"
    using assms(4) by (auto simp: check_inbox_quota_def admits_def Let_def split: if_splits)
  have "queued_count (\<lambda>_ _. True) ?t \<le> q_rows (lim_global limits)"
    using ins [of "\<lambda>_ _. True"] cov [of "\<lambda>_. True"] q(1) by (simp add: usage_rows_def)
  moreover have "queued_count (\<lambda>c _. c \<noteq> ''Committee'') ?t \<le> q_rows (lim_global limits) - q_rows (committee_reserve limits)"
  proof (cases "cl = Committee")
    case True
    with ins [of "\<lambda>c _. c \<noteq> ''Committee''"] assms(1) show ?thesis by (simp add: quota_inv_def)
  next
    case False
    with ins [of "\<lambda>c _. c \<noteq> ''Committee''"] cov [of "\<lambda>c. c \<noteq> ''Committee''"] q(2) show ?thesis
      by (cases cl) (simp_all add: usage_rows_def)
  qed
  moreover have "queued_count (\<lambda>_ a. a = p) ?t \<le> q_rows (registered_peer limits)" for p
    using ins [of "\<lambda>_ a. a = p"] q(3) own assms(1) by (cases "p = author") (auto simp: quota_inv_def dest: spec [of _ p])
  ultimately show ?thesis by (simp add: quota_inv_def)
qed

section \<open>Runs of the node\<close>

lemma evaluate_decoded_cache:
  assumes "evaluate_decoded env limits rates actor registry faults db inbound cl message now g = (v, g')" "\<And>m c. v \<noteq> Inr (Enqueue m c)"
  shows "ag_cache g' = ag_cache g \<or> ag_cache g' = snd (cache_usage faults db (peer_string env (gossip_source inbound)) now (ag_cache g))"
  using assms
  by (cases "cache_usage faults db (peer_string env (gossip_source inbound)) now (ag_cache g)")
    (auto simp: evaluate_decoded_def Let_def split: if_splits prod.splits sum.splits)

lemma evaluate_cache:
  assumes "evaluate_inbound_message env limits rates actor registry faults db inbound now unix_nanos g = Some (v, g')"
    "\<And>m c. v \<noteq> Inr (Enqueue m c)"
  shows "ag_cache g' = ag_cache g \<or> ag_cache g' = snd (cache_usage faults db (peer_string env (gossip_source inbound)) now (ag_cache g))"
  using assms(1)
  by (auto simp: evaluate_inbound_message_def Let_def split: sum.splits option.splits prod.splits if_splits
    dest: evaluate_decoded_cache [OF _ assms(2)])

lemma inbound_event_fields:
  assumes "inbound_event env actor author local_peer m raw = Inr (Some ev)"
  shows "ev_author ev = author" "ev_source ev = SourceNetwork"
    "\<exists>i a b k. inbound_route env actor (gm_content m) = Some (i, a, b, k) \<and>
       ev_event_id ev = content_event_id env author (event_type (gm_content m)) b raw \<and> ev_aggregate ev = a"
  using assms
  by (auto simp: inbound_event_def Let_def with_author_def with_ack_def new_event_new_def split: option.splits prod.splits if_splits)

text \<open>The handler leaves the inbox alone, or inserts the event of an enqueued message.\<close>

lemma handle_inbox:
  assumes "handle_inbound_p2p_message env limits rates actor local_peer faults inbound now unix_nanos secs s = Some (a, ok, s')"
  obtains v g' where
    "evaluate_inbound_message env limits rates actor (ns_registry s) faults (db_inbox (ns_db s)) inbound now unix_nanos (ns_gates s) = Some (v, g')"
    "ns_gates s' = g'"
    "db_inbox (ns_db s') = db_inbox (ns_db s) \<and> \<not> (a = Accept \<and> (\<exists>m c. v = Inr (Enqueue m c))) \<or>
      (\<exists>m c ev. v = Inr (Enqueue m c) \<and> a = Accept \<and>
         inbound_event env actor (peer_string env (gossip_source inbound)) local_peer m (gossip_data inbound) = Inr (Some ev) \<and>
         db_inbox (ns_db s') = snd (insert_engine_inbox_event (into_store (with_admission_class (class_string c) ev)) secs (db_inbox (ns_db s))))"
    "a = Accept \<longrightarrow> (\<exists>x. v = Inr x \<and> (\<forall>r. x \<noteq> Drop r))"
proof -
  obtain v g' where e: "evaluate_inbound_message env limits rates actor (ns_registry s) faults (db_inbox (ns_db s)) inbound now unix_nanos
      (ns_gates s) = Some (v, g')"
    using assms by (auto simp: handle_inbound_p2p_message_def split: option.splits)
  note defs = handle_inbound_p2p_message_def Let_def e refresh_peer_timestamp_throttled_def drop_message_def strike_direct_peer_def
    record_engine_message_def submit_def split_beta
  show thesis
  proof (cases "\<exists>m c. v = Inr (Enqueue m c)")
    case True
    then obtain m c where v: "v = Inr (Enqueue m c)" by blast
    show thesis
      using assms e v
      by (intro that [OF e]) (auto simp: defs split: sum.splits option.splits if_splits EngineInboxInsert.splits)
  next
    case False
    show thesis
      using assms False
      by (intro that [OF e]) (auto simp: defs split: sum.splits InboundVerdict.splits if_splits)
  qed
qed

text \<open>
  Runs of the node from an empty inbox: messages arrive one after the other, and between them anything else may change that does not queue
  network events, as the engine's workers, its retention and the registry do.
\<close>

inductive node_run :: "message_env \<Rightarrow> inbound_limits \<Rightarrow> RateLimits \<Rightarrow> Actor \<Rightarrow> string \<Rightarrow> 'b node_state \<Rightarrow> bool"
  for env limits rates actor local_peer where
  start: "it_rows (db_inbox (ns_db s)) = [] \<Longrightarrow> ag_cache (ns_gates s) = None \<Longrightarrow> node_run env limits rates actor local_peer s"
| message: "node_run env limits rates actor local_peer s \<Longrightarrow>
    handle_inbound_p2p_message env limits rates actor local_peer faults inbound now unix_nanos secs s = Some (a, ok, s') \<Longrightarrow>
    node_run env limits rates actor local_peer s'"
| other: "node_run env limits rates actor local_peer s \<Longrightarrow> ag_cache (ns_gates s') = ag_cache (ns_gates s) \<Longrightarrow>
    (\<And>Q. queued_count Q (db_inbox (ns_db s')) \<le> queued_count Q (db_inbox (ns_db s))) \<Longrightarrow>
    node_run env limits rates actor local_peer s'"

lemma handle_quota:
  assumes "quota_inv limits (db_inbox (ns_db s))" "cache_inv (ag_cache (ns_gates s)) (db_inbox (ns_db s))"
    "handle_inbound_p2p_message env limits rates actor local_peer faults inbound now unix_nanos secs s = Some (a, ok, s')"
  shows "quota_inv limits (db_inbox (ns_db s')) \<and> cache_inv (ag_cache (ns_gates s')) (db_inbox (ns_db s'))"
proof -
  let ?t = "db_inbox (ns_db s)" and ?author = "peer_string env (gossip_source inbound)"
  obtain v g' where e: "evaluate_inbound_message env limits rates actor (ns_registry s) faults ?t inbound now unix_nanos (ns_gates s) = Some (v, g')"
    and g': "ns_gates s' = g'"
    and step: "db_inbox (ns_db s') = ?t \<and> \<not> (a = Accept \<and> (\<exists>m c. v = Inr (Enqueue m c))) \<or>
      (\<exists>m c ev. v = Inr (Enqueue m c) \<and> a = Accept \<and>
         inbound_event env actor ?author local_peer m (gossip_data inbound) = Inr (Some ev) \<and>
         db_inbox (ns_db s') = snd (insert_engine_inbox_event (into_store (with_admission_class (class_string c) ev)) secs ?t))"
    using handle_inbox [OF assms(3)] .
  obtain r cache' where u: "cache_usage faults ?t ?author now (ag_cache (ns_gates s)) = (r, cache')" by fastforce
  note cache = cache_usage_inv(1) [OF assms(2) u]
  show ?thesis
  proof (cases "\<exists>m c. v = Inr (Enqueue m c)")
    case False
    with evaluate_cache [OF e] have "cache_inv (ag_cache g') ?t" using assms(2) cache by (auto simp: u)
    with False step assms(1) show ?thesis by (auto simp: g')
  next
    case True
    then obtain m c where v: "v = Inr (Enqueue m c)" by blast
    obtain us where us: "r = Inr us" "check_inbox_quota c (length (gossip_data inbound)) us limits = Inr ()"
      and noted: "ag_cache g' = note_admitted c (int (length (gossip_data inbound))) cache'"
      using evaluate_enqueue [OF e [unfolded v]] by (metis fst_conv snd_conv u)
    show ?thesis
    proof (cases "a = Accept")
      case False
      with step have t: "db_inbox (ns_db s') = ?t" by blast
      have "cache_inv (ag_cache g') ?t" unfolding noted by (rule note_admitted_inv [OF cache]) simp
      with t assms(1) show ?thesis by (simp add: g')
    next
      case True
      with step v obtain ev where ev: "inbound_event env actor ?author local_peer m (gossip_data inbound) = Inr (Some ev)"
        and t: "db_inbox (ns_db s') = snd (insert_engine_inbox_event (into_store (with_admission_class (class_string c) ev)) secs ?t)"
        by auto
      let ?ne = "into_store (with_admission_class (class_string c) ev)"
      have ne: "ne_admission_class ?ne = class_string c" "ne_author ?ne = ?author"
        using inbound_event_fields(1) [OF ev] by (simp_all add: into_store_def with_admission_class_def)
      note ins = insert_queued [where ev = ?ne and now = secs and t = ?t, unfolded ne]
      have "quota_inv limits (db_inbox (ns_db s'))"
        unfolding t by (rule quota_inv_insert [OF assms(1,2) u [unfolded us(1)] us(2) ne])
      moreover have "cache_inv (ag_cache g') (db_inbox (ns_db s'))"
        unfolding noted t by (rule note_admitted_inv [OF cache]) (rule ins)
      ultimately show ?thesis by (simp add: g')
    qed
  qed
qed

lemma node_run_quota:
  assumes "node_run env limits rates actor local_peer s" "0 \<le> q_rows (registered_peer limits)"
    "0 \<le> q_rows (lim_global limits)" "q_rows (committee_reserve limits) \<le> q_rows (lim_global limits)"
  shows "quota_inv limits (db_inbox (ns_db s)) \<and> cache_inv (ag_cache (ns_gates s)) (db_inbox (ns_db s))"
  using assms(1)
proof (induction rule: node_run.induct)
  case (start s)
  then show ?case using assms(2-) by (simp add: quota_inv_def cache_inv_def queued_count_def count_rows_def)
next
  case (message s faults inbound now unix_nanos secs a ok s')
  then show ?case using handle_quota by blast
next
  case (other s s')
  then show ?case using quota_inv_fewer cache_inv_fewer by metis
qed

lemma find_inserted: "find_engine_inbox_event (ne_event_id ev) (snd (insert_engine_inbox_event ev now t)) \<noteq> None"
proof (cases "find_engine_inbox_event (ne_event_id ev) t")
  case None
  then show ?thesis by (simp add: find_insert_new)
next
  case (Some e)
  then show ?thesis using inbox_evolves_insert by (auto simp: insert_existing find_update_inbox)
qed

section \<open>A sample message\<close>

text \<open>A committee member sends its nonce for a pegin confirmation to a committee node; the codecs know this message only.\<close>

definition sample_message :: GOATMessage where
  "sample_message = \<lparr> gm_actor = ActorCommittee, gm_content = PeginConfirmNonce 7 [2] [3] [4] \<rparr>"

definition sample_env :: message_env where
  "sample_env = \<lparr> sha256_digest = id, hex_encode = map (char_of \<circ> unat), hex_decode = (\<lambda>_. None), peer_string = map (char_of \<circ> unat),
     uuid_bytes = (\<lambda>u. [ucast u]), uuid_string = (\<lambda>u. [char_of (unat u)]), pubkey_string = map (char_of \<circ> unat),
     pubkey_from_str = (\<lambda>_. None), xonly = (\<lambda>_. 0), schnorr_from_slice = Some, verify_schnorr = (\<lambda>_ _ _. True),
     bincode_message = (\<lambda>_. None), bincode_to_message = (\<lambda>_. None), json_message = (\<lambda>_. Some [123]),
     json_to_message = (\<lambda>_. Some sample_message), bincode_inbound = Some \<circ> im_message \<rparr>"

definition sample_gossip :: InboundGossip where
  "sample_gossip = \<lparr> gossip_direct_peer = [1], gossip_source = [2], gossip_sequence_number = Some 10, gossip_data = [123, 125] \<rparr>"

definition sample_faults :: db_faults where
  "sample_faults = \<lparr> fault_acquire = False, fault_totals = False, fault_peer_usage = False, fault_submit = False \<rparr>"

definition sample_node :: "unit node_state" where
  "sample_node = \<lparr>
     ns_gates = \<lparr> ag_replay = replay_guard_new, ag_rate = inbound_rate_limiter 0, ag_immediate = immediate_limiter, ag_cache = None \<rparr>,
     ns_registry = snd (record_committee_peer [2] (Some True) 0 registry_new),
     ns_strikes = strike_state_new, ns_drops = [], ns_queue = [], ns_timestamps = bounded_stamps_new,
     ns_db = empty_db (),
     ns_acks = ack_sender_channel 1 \<rparr>"

lemma sample_registry:
  "sender_class [2] 1 (ns_registry sample_node) = Committee" "\<not> is_verifier [2] (ns_registry sample_node)"
  by (simp_all add: sample_node_def record_committee_peer_def committee_room_def registry_new_def sender_class_def is_verifier_def
      committee_is_registered_def COMMITTEE_STALE_LIMIT_def from_secs_def Let_def)

lemma sample_gates:
  "ag_replay (ns_gates sample_node) = replay_guard_new" "ag_rate (ns_gates sample_node) = inbound_rate_limiter 0"
  "ag_cache (ns_gates sample_node) = None"
  by (simp_all add: sample_node_def)

lemma sample_db: "db_inbox (ns_db sample_node) = empty_inbox"
  by (simp add: sample_node_def empty_db_def)

lemma sample_charge:
  "\<exists>s. charge default_rate_limits [1] [2] Committee 2 1 (inbound_rate_limiter 0) = Some (Inr (), s)"
  by (simp add: charge_def inbound_rate_limiter_def rate_state_new_def default_rate_limits_def Let_def table_slot_def table_get_def
      bucket_table_new_def tier_new_bucket_def peek_above_def tier_peek_def tier_refill_def refill_def bucket_full_def as_secs_def)

lemma sample_enqueued:
  "\<exists>g'. evaluate_inbound_message sample_env (with_inbox_bytes 1000 100000) default_rate_limits ActorCommittee
     (ns_registry sample_node) sample_faults (db_inbox (ns_db sample_node)) sample_gossip 1 20 (ns_gates sample_node) =
   Some (Inr (Enqueue sample_message Committee), g')"
proof -
  have "check_envelope [123, 125] False (with_inbox_bytes 1000 100000) = Inr ()"
    by (simp add: check_envelope_def is_binary_envelope_def GOAT_MESSAGE_BIN_PREFIX_def as_bytes_def with_inbox_bytes_def)
  moreover have "\<exists>guard. replay_admit [2] (Some 10) 20 replay_guard_new = (Inr (), guard)"
    by (simp add: replay_admit_def replay_guard_new_def evict_author_def admit_sequence_def author_sequence_new_def u64_saturating_add_def
        REPLAY_MAX_FUTURE_def REPLAY_MAX_TRACKED_AUTHORS_def from_secs_def Let_def)
  moreover have "deserialize_message sample_env [123, 125] = Some sample_message"
    by (simp add: deserialize_message_def sample_env_def GOAT_MESSAGE_BIN_PREFIX_def as_bytes_def)
  moreover have "\<exists>g'. evaluate_decoded sample_env (with_inbox_bytes 1000 100000) default_rate_limits ActorCommittee
      (ns_registry sample_node) sample_faults (empty_inbox) sample_gossip Committee sample_message 1 g =
      (Inr (Enqueue sample_message Committee), g')" if "ag_cache g = None" for g
    using that
    by (simp add: evaluate_decoded_def sample_faults_def sample_gossip_def sample_message_def is_binary_envelope_def is_endorsement_def
        GOAT_MESSAGE_BIN_PREFIX_def as_bytes_def p2p_delivery_def handled_by_def instance_engine_handles_def instance_route_action_def
        cache_usage_def cache_fresh_def check_inbox_quota_def with_inbox_bytes_def admits_def Let_def empty_inbox_def
        engine_inbox_class_totals_def engine_inbox_peer_usage_def merge_peer_usage_def is_registered_def)
  ultimately show ?thesis
    using sample_registry sample_charge
    by (auto simp: evaluate_inbound_message_def sample_gossip_def Let_def sample_gates sample_db is_registered_def)
qed

lemma sample_accepted:
  "\<exists>s'. handle_inbound_p2p_message sample_env (with_inbox_bytes 1000 100000) default_rate_limits ActorCommittee ''me'' sample_faults
     sample_gossip 1 20 0 sample_node = Some (Accept, True, s')"
proof -
  obtain ev where "inbound_event sample_env ActorCommittee (peer_string sample_env (gossip_source sample_gossip)) ''me'' sample_message
      (gossip_data sample_gossip) = Inr (Some ev)"
    by (simp add: inbound_event_def inbound_route_def sample_message_def event_type_def instance_engine_handles_def
        instance_route_action_def message_slot_def sample_env_def Let_def)
  with sample_enqueued show ?thesis
    by (auto simp: handle_inbound_p2p_message_def Let_def sample_faults_def)
qed

section \<open>Properties\<close>

text \<open>
  \<^bold>\<open>C31.\<close> What it takes to enter the durable inbox. If admission enqueues a message, then: its author has a registered class, which is
  the class it is stored under; its sequence number was admitted by the replay guard and its size by every rate budget; it is no longer
  than its format allows, and in the binary format only from a registered verifier; it decodes to the enqueued message, a kind
  that the role of this node handles and that is not delivered immediately, in the binary format only a circuit package;
  an endorsement of graph parameters comes from a verifier once the set is known; and the quotas admit one more row of its length.
\<close>

theorem enqueued_passed_every_gate:
  assumes "evaluate_inbound_message env limits rates actor registry faults db inbound now unix_nanos g = Some (Inr (Enqueue m c), g')"
  shows "c = sender_class (gossip_source inbound) now registry \<and> is_registered c \<and>
    fst (replay_admit (gossip_source inbound) (gossip_sequence_number inbound) unix_nanos (ag_replay g)) = Inr () \<and>
    (\<exists>s. charge rates (gossip_direct_peer inbound) (gossip_source inbound) c (int (length (gossip_data inbound))) now (ag_rate g) = Some (Inr (), s)) \<and>
    length (gossip_data inbound) \<le> (if is_binary_envelope (gossip_data inbound) then max_binary_bytes limits else max_json_bytes limits) \<and>
    (is_binary_envelope (gossip_data inbound) \<longrightarrow> is_verifier (gossip_source inbound) registry \<and> is_gen_circuits (gm_content m)) \<and>
    deserialize_message env (gossip_data inbound) = Some m \<and>
    handled_by (message_kind (gm_content m)) actor \<and> p2p_delivery (gm_content m) = DeliverInbox \<and>
    (is_endorsement (gm_content m) \<longrightarrow> verifier_set_loaded registry \<longrightarrow> is_verifier (gossip_source inbound) registry) \<and>
    (\<exists>us. fst (cache_usage faults db (peer_string env (gossip_source inbound)) now (ag_cache g)) = Inr us \<and>
       check_inbox_quota c (length (gossip_data inbound)) us limits = Inr ())"
proof -
  have "length (gossip_data inbound) \<le> (if is_binary_envelope (gossip_data inbound) then max_binary_bytes limits else max_json_bytes limits) \<and>
      (is_binary_envelope (gossip_data inbound) \<longrightarrow> is_verifier (gossip_source inbound) registry)"
    if "check_envelope (gossip_data inbound) (is_verifier (gossip_source inbound) registry) limits = Inr ()"
    using that by (auto simp: check_envelope_def split: if_splits)
  with evaluate_enqueue [OF assms] show ?thesis by metis
qed

theorem enqueued_passed_every_gate_witness:
  "sender_class [2] 1 (ns_registry sample_node) = Committee \<and>
   fst (replay_admit [2] (Some 10) 20 (ag_replay (ns_gates sample_node))) = Inr () \<and>
   deserialize_message sample_env [123, 125] = Some sample_message"
proof -
  obtain g' where "evaluate_inbound_message sample_env (with_inbox_bytes 1000 100000) default_rate_limits ActorCommittee
     (ns_registry sample_node) sample_faults (db_inbox (ns_db sample_node)) sample_gossip 1 20 (ns_gates sample_node) =
   Some (Inr (Enqueue sample_message Committee), g')" using sample_enqueued by blast
  from enqueued_passed_every_gate [OF this] show ?thesis by (simp add: sample_gossip_def)
qed

text \<open>
  \<^bold>\<open>C32.\<close> A message is forwarded only when it is safe with this node. Whenever the handler accepts a message for forwarding, then
  either it was evaluated as one to forward only or as an immediate one, or it is durable and the inbox of the
  engine now holds an event under its content id, recorded for its author. When the handler does not accept it, the inbox and
  the control queue are as before.
\<close>

theorem forwarded_only_when_recorded:
  assumes "handle_inbound_p2p_message env limits rates actor local_peer faults inbound now unix_nanos secs s = Some (a, ok, s')"
  shows "case a of
      Ignore \<Rightarrow> db_inbox (ns_db s') = db_inbox (ns_db s)
    | Accept \<Rightarrow> \<exists>v g'. evaluate_inbound_message env limits rates actor (ns_registry s) faults (db_inbox (ns_db s)) inbound now unix_nanos
          (ns_gates s) = Some (Inr v, g') \<and>
        (case v of
           Enqueue m c \<Rightarrow> \<exists>i aggregate b k e. inbound_route env actor (gm_content m) = Some (i, aggregate, b, k) \<and>
             find_engine_inbox_event
               (content_event_id env (peer_string env (gossip_source inbound)) (event_type (gm_content m)) b (gossip_data inbound))
               (db_inbox (ns_db s')) = Some e
         | Drop _ \<Rightarrow> False
         | _ \<Rightarrow> True)"
proof -
  let ?author = "peer_string env (gossip_source inbound)"
  obtain v g' where e: "evaluate_inbound_message env limits rates actor (ns_registry s) faults (db_inbox (ns_db s)) inbound now unix_nanos
      (ns_gates s) = Some (v, g')"
    and step: "db_inbox (ns_db s') = db_inbox (ns_db s) \<and> \<not> (a = Accept \<and> (\<exists>m c. v = Inr (Enqueue m c))) \<or>
      (\<exists>m c ev. v = Inr (Enqueue m c) \<and> a = Accept \<and>
         inbound_event env actor ?author local_peer m (gossip_data inbound) = Inr (Some ev) \<and>
         db_inbox (ns_db s') = snd (insert_engine_inbox_event (into_store (with_admission_class (class_string c) ev)) secs (db_inbox (ns_db s))))"
    and accepted: "a = Accept \<longrightarrow> (\<exists>x. v = Inr x \<and> (\<forall>r. x \<noteq> Drop r))"
    using handle_inbox [OF assms] .
  show ?thesis
  proof (cases a)
    case Ignore
    with step show ?thesis by auto
  next
    case Accept
    with accepted obtain x where x: "v = Inr x" "\<And>r. x \<noteq> Drop r" by blast
    have "\<exists>i aggregate b k e. inbound_route env actor (gm_content m) = Some (i, aggregate, b, k) \<and>
        find_engine_inbox_event (content_event_id env ?author (event_type (gm_content m)) b (gossip_data inbound))
          (db_inbox (ns_db s')) = Some e" if "x = Enqueue m c" for m c
    proof -
      from step Accept x that obtain ev where ev: "inbound_event env actor ?author local_peer m (gossip_data inbound) = Inr (Some ev)"
        and t: "db_inbox (ns_db s') = snd (insert_engine_inbox_event (into_store (with_admission_class (class_string c) ev)) secs (db_inbox (ns_db s)))"
        by auto
      obtain i aggregate b k where r: "inbound_route env actor (gm_content m) = Some (i, aggregate, b, k)"
        "ev_event_id ev = content_event_id env ?author (event_type (gm_content m)) b (gossip_data inbound)"
        using inbound_event_fields(3) [OF ev] by blast
      have "find_engine_inbox_event (ev_event_id ev) (db_inbox (ns_db s')) \<noteq> None"
        unfolding t using find_inserted [of "into_store (with_admission_class (class_string c) ev)"]
        by (simp add: into_store_def with_admission_class_def)
      with r show ?thesis by auto
    qed
    with x Accept e show ?thesis by (auto split: InboundVerdict.split)
  qed
qed

theorem forwarded_only_when_recorded_witness:
  "\<exists>s' e. handle_inbound_p2p_message sample_env (with_inbox_bytes 1000 100000) default_rate_limits ActorCommittee ''me'' sample_faults
     sample_gossip 1 20 0 sample_node = Some (Accept, True, s') \<and>
   find_engine_inbox_event
     (content_event_id sample_env (peer_string sample_env [2]) ''PeginConfirmNonce'' (uuid_string sample_env 7) [123, 125])
     (db_inbox (ns_db s')) = Some e"
proof -
  obtain s' where s': "handle_inbound_p2p_message sample_env (with_inbox_bytes 1000 100000) default_rate_limits ActorCommittee ''me''
     sample_faults sample_gossip 1 20 0 sample_node = Some (Accept, True, s')" using sample_accepted by blast
  from forwarded_only_when_recorded [OF s'] sample_enqueued s' show ?thesis
    by (auto simp: sample_gossip_def inbound_route_def sample_message_def event_type_def split: if_splits)
qed

text \<open>
  \<^bold>\<open>C33.\<close> The inbox stays within its quotas although the totals are cached for two seconds. In every run of the node, with
  messages of any peers and the engine working concurrently, at most 16384 network events are queued, at most 12288 of them from senders
  outside the committee, and at most 1024 of any one sender.
\<close>

theorem queued_rows_within_quota:
  assumes "node_run env (with_inbox_bytes max_json max_inbox) rates actor local_peer s"
  shows "queued_count (\<lambda>_ _. True) (db_inbox (ns_db s)) \<le> 16384 \<and>
    queued_count (\<lambda>c _. c \<noteq> ''Committee'') (db_inbox (ns_db s)) \<le> 12288 \<and>
    queued_count (\<lambda>_ a. a = author) (db_inbox (ns_db s)) \<le> 1024"
  using node_run_quota [OF assms] by (simp add: with_inbox_bytes_def quota_inv_def)

theorem queued_rows_within_quota_witness:
  "\<exists>s'. node_run sample_env (with_inbox_bytes 1000 100000) default_rate_limits ActorCommittee ''me'' s' \<and>
     s' \<noteq> sample_node \<and> queued_count (\<lambda>_ _. True) (db_inbox (ns_db s')) \<le> 16384"
proof -
  obtain s' where s': "handle_inbound_p2p_message sample_env (with_inbox_bytes 1000 100000) default_rate_limits ActorCommittee ''me''
     sample_faults sample_gossip 1 20 0 sample_node = Some (Accept, True, s')" using sample_accepted by blast
  have run: "node_run sample_env (with_inbox_bytes 1000 100000) default_rate_limits ActorCommittee ''me'' s'"
    by (rule node_run.message [OF node_run.start s']) (simp_all add: sample_db sample_gates empty_inbox_def)
  have "db_inbox (ns_db s') \<noteq> db_inbox (ns_db sample_node)"
  proof -
    obtain ev where "db_inbox (ns_db s') = snd (insert_engine_inbox_event ev 0 (db_inbox (ns_db sample_node)))"
      using handle_inbox [OF s'] sample_enqueued by (metis option.inject prod.inject)
    then show ?thesis using find_inserted [of ev 0 empty_inbox] by (auto simp: sample_db empty_inbox_def find_engine_inbox_event_def)
  qed
  with run queued_rows_within_quota [OF run] show ?thesis by blast
qed

end
