(* ===== verification/BridgeStore.thy ===== *)
theory BridgeStore
  imports NodeMessages "HOL-Library.AList"
begin

text \<open>
  The bridge tables: peg-in instances, their transaction graphs, open setup sessions and process data
  (\<^verbatim>\<open>src/crates/store/src/schema.rs\<close>, \<^verbatim>\<open>localdb/instance.rs\<close>, \<^verbatim>\<open>localdb/graph.rs\<close> and
  \<^verbatim>\<open>src/node/src/utils/graph_store.rs\<close>).

  A table is the list of its rows; every statement is a predicate and an update on them. The status of an instance and
  of a graph is stored as text, as in the code. \<open>now\<close> is \<^verbatim>\<open>get_current_timestamp_secs\<close>.

  The lemmas show which writes change a status: a graph moves along the allowed transitions only and stays closed
  once it is closed, its definition is never replaced, and a repeated peg-in request does not touch an instance that moved on.
\<close>

section \<open>Status of an instance\<close>

datatype InstanceBridgeInStatus =
    UserInited | CommitteesAnswered | UserBroadcastPeginPrepare | Presigned | RelayerL1Broadcasted | RelayerL2Minted
  | Timeout | UserCanceled | NoEnoughCommitteesAnswered | UserDiscarded

fun status_string :: "InstanceBridgeInStatus \<Rightarrow> string" where
  "status_string UserInited = ''UserInited''"
| "status_string CommitteesAnswered = ''CommitteesAnswered''"
| "status_string UserBroadcastPeginPrepare = ''UserBroadcastPeginPrepare''"
| "status_string Presigned = ''Presigned''"
| "status_string RelayerL1Broadcasted = ''RelayerL1Broadcasted''"
| "status_string RelayerL2Minted = ''RelayerL2Minted''"
| "status_string Timeout = ''Timeout''"
| "status_string UserCanceled = ''UserCanceled''"
| "status_string NoEnoughCommitteesAnswered = ''NoEnoughCommitteesAnswered''"
| "status_string UserDiscarded = ''UserDiscarded''"

definition status_from_str :: "string \<Rightarrow> InstanceBridgeInStatus option" where
  "status_from_str s = List.find (\<lambda>x. status_string x = s)
     [UserInited, CommitteesAnswered, UserBroadcastPeginPrepare, Presigned, RelayerL1Broadcasted, RelayerL2Minted,
      Timeout, UserCanceled, NoEnoughCommitteesAnswered, UserDiscarded]"

definition is_failed :: "InstanceBridgeInStatus \<Rightarrow> bool" where
  "is_failed s \<longleftrightarrow> s \<in> {NoEnoughCommitteesAnswered, UserDiscarded, UserCanceled, Timeout}"

definition deletes_key_on_entry :: "InstanceBridgeInStatus \<Rightarrow> bool" where
  "deletes_key_on_entry s \<longleftrightarrow> s \<in> {NoEnoughCommitteesAnswered, UserDiscarded, UserCanceled}"

section \<open>Status of a graph\<close>

datatype GraphStatus =
    OperatorPresigned | CommitteePresigned | OperatorDataPushed | PreKickoff | OperatorKickOff | Challenge | Disprove
  | Obsoleted | Skipped | OperatorTake1 | OperatorTake2

fun graph_status_string :: "GraphStatus \<Rightarrow> string" where
  "graph_status_string OperatorPresigned = ''OperatorPresigned''"
| "graph_status_string CommitteePresigned = ''CommitteePresigned''"
| "graph_status_string OperatorDataPushed = ''OperatorDataPushed''"
| "graph_status_string PreKickoff = ''PreKickoff''"
| "graph_status_string OperatorKickOff = ''OperatorKickOff''"
| "graph_status_string Challenge = ''Challenge''"
| "graph_status_string Disprove = ''Disprove''"
| "graph_status_string Obsoleted = ''Obsoleted''"
| "graph_status_string Skipped = ''Skipped''"
| "graph_status_string OperatorTake1 = ''OperatorTake1''"
| "graph_status_string OperatorTake2 = ''OperatorTake2''"

definition graph_status_from_str :: "string \<Rightarrow> GraphStatus option" where
  "graph_status_from_str s = List.find (\<lambda>x. graph_status_string x = s)
     [OperatorPresigned, CommitteePresigned, OperatorDataPushed, PreKickoff, OperatorKickOff, Challenge, Disprove,
      Obsoleted, Skipped, OperatorTake1, OperatorTake2]"

datatype GraphStatusSource = Definition | GoatEvent | ChainReconcile

datatype GraphStatusTransitionOutcome = TransitionApplied | AlreadyCurrent | TransitionRejected GraphStatus | TransitionNotFound

definition is_closed :: "GraphStatus \<Rightarrow> bool" where
  "is_closed s \<longleftrightarrow> s \<in> {OperatorTake1, OperatorTake2, Skipped, Disprove}"

definition is_pegout_started :: "GraphStatus \<Rightarrow> bool" where
  "is_pegout_started s \<longleftrightarrow> s \<in> {OperatorKickOff, Challenge}"

definition is_obsoleted :: "GraphStatus \<Rightarrow> bool" where
  "is_obsoleted s \<longleftrightarrow> s = Obsoleted"

definition allowed_transition_from :: "GraphStatus \<Rightarrow> GraphStatusSource \<Rightarrow> GraphStatus list" where
  "allowed_transition_from target source =
     (let early = [OperatorPresigned, CommitteePresigned];
          pre_kickoff = [OperatorPresigned, CommitteePresigned, OperatorDataPushed, Obsoleted];
          kickoff = [OperatorPresigned, CommitteePresigned, OperatorDataPushed, PreKickoff, Obsoleted];
          challenge = [OperatorPresigned, CommitteePresigned, OperatorDataPushed, PreKickoff, Obsoleted, OperatorKickOff];
          take1 = [OperatorPresigned, CommitteePresigned, OperatorDataPushed, PreKickoff, Obsoleted, OperatorKickOff];
          take2_or_disprove =
            [OperatorPresigned, CommitteePresigned, OperatorDataPushed, PreKickoff, Obsoleted, OperatorKickOff, Challenge];
          skipped = [OperatorPresigned, CommitteePresigned, OperatorDataPushed, PreKickoff, Obsoleted];
          obsoleted = [OperatorPresigned, CommitteePresigned, OperatorDataPushed, PreKickoff, OperatorKickOff, Challenge]
      in case source of
          Definition \<Rightarrow> (case target of CommitteePresigned \<Rightarrow> [OperatorPresigned] | _ \<Rightarrow> [])
        | GoatEvent \<Rightarrow>
            (case target of
               OperatorDataPushed \<Rightarrow> early
             | OperatorTake1 \<Rightarrow> take1
             | OperatorTake2 \<Rightarrow> take2_or_disprove
             | Disprove \<Rightarrow> take2_or_disprove
             | _ \<Rightarrow> [])
        | ChainReconcile \<Rightarrow>
            (case target of
               CommitteePresigned \<Rightarrow> [OperatorPresigned]
             | OperatorDataPushed \<Rightarrow> [OperatorPresigned, CommitteePresigned, Obsoleted]
             | Obsoleted \<Rightarrow> obsoleted
             | PreKickoff \<Rightarrow> pre_kickoff
             | OperatorKickOff \<Rightarrow> kickoff
             | Challenge \<Rightarrow> challenge
             | OperatorTake1 \<Rightarrow> take1
             | OperatorTake2 \<Rightarrow> take2_or_disprove
             | Disprove \<Rightarrow> take2_or_disprove
             | Skipped \<Rightarrow> skipped
             | OperatorPresigned \<Rightarrow> []))"

section \<open>Rows\<close>

type_synonym tx_id = "256 word"

record Instance =
  in_instance_id :: uuid
  in_network :: string
  in_from_addr :: string
  in_to_addr :: string
  in_amount :: int
  in_fees :: "64 word list"
  in_input_utxos :: string
  in_status :: string
  in_goat_tx_hash :: string
  in_goat_tx_height :: int
  in_user_xonly_pubkey :: bytes
  in_user_change_addr :: string
  in_user_refund_addr :: string
  in_btc_txid :: "tx_id option"
  in_btc_height :: int
  in_pegin_confirm_txid :: "tx_id option"
  in_pegin_cancel_txid :: "tx_id option"
  in_committees_answers :: "(string \<times> bytes) list"
  in_pegin_data_tx_hash :: string
  in_parameters :: "string option"
  in_post_pegin_txhash :: "string option"
  in_key_deleted :: bool
  in_status_updated_at :: int
  in_created_at :: int
  in_updated_at :: int

record Graph =
  gh_graph_id :: uuid
  gh_instance_id :: uuid
  gh_kickoff_index :: int
  gh_from_addr :: string
  gh_to_addr :: string
  gh_amount :: int
  gh_challenge_amount :: int
  gh_status :: string
  gh_sub_status :: string
  gh_operator_pubkey :: string
  gh_definition_hash :: string
  gh_next_prekickoff :: "tx_id option"
  gh_cur_prekickoff_txid :: "tx_id option"
  gh_force_skip_kickoff_txid :: "tx_id option"
  gh_quick_challenge_txid :: "tx_id option"
  gh_challenge_incomplete_kickoff_txid :: "tx_id option"
  gh_pegin_txid :: "tx_id option"
  gh_kickoff_txid :: "tx_id option"
  gh_take1_txid :: "tx_id option"
  gh_challenge_txid :: "tx_id option"
  gh_take2_txid :: "tx_id option"
  gh_watchtower_challenge_init_txid :: "tx_id option"
  gh_operator_assert_txid :: "tx_id option"
  gh_verifier_assert_txids :: "tx_id list"
  gh_disprove_txids :: "tx_id list"
  gh_watchtower_challenge_timeout_txids :: "tx_id list"
  gh_operator_challenge_nack_txids :: "tx_id list"
  gh_operator_commit_timeout_txid :: "tx_id option"
  gh_init_withdraw_tx_hash :: "string option"
  gh_bridge_out_start_at :: int
  gh_status_updated_at :: int
  gh_proceed_withdraw_height :: int
  gh_created_at :: int
  gh_updated_at :: int

record PendingGraphInit =
  pi_instance_id :: uuid
  pi_operator_pubkey :: string
  pi_graph_id :: uuid
  pi_updated_at :: int
  pi_created_at :: int

record PeginGraphProcessData =
  pg_graph_id :: uuid
  pg_instance_id :: uuid
  pg_process_data :: string
  pg_is_endorsed :: bool

record PeginInstanceProcessData =
  pp_instance_id :: uuid
  pp_process_data :: string

record bridge_db =
  bd_instances :: "Instance list"
  bd_graphs :: "Graph list"
  bd_sessions :: "PendingGraphInit list"
  bd_graph_process :: "PeginGraphProcessData list"
  bd_instance_process :: "PeginInstanceProcessData list"

section \<open>Instance table\<close>

record InstanceUpdate =
  iu_instance_id :: uuid
  iu_from_addr :: "string option"
  iu_to_addr :: "string option"
  iu_btc_txid :: "tx_id option"
  iu_status :: "string option"
  iu_pegin_confirm_txid :: "tx_id option"
  iu_pegin_cancel_txid :: "tx_id option"
  iu_post_pegin_txhash :: "string option"
  iu_btc_height :: "int option"
  iu_committees_answers :: "(string \<times> bytes) list option"
  iu_key_deleted :: "bool option"
  iu_only_if_status_in :: "string list option"

definition instance_update_new :: "uuid \<Rightarrow> InstanceUpdate" where
  "instance_update_new instance_id =
     \<lparr> iu_instance_id = instance_id, iu_from_addr = None, iu_to_addr = None, iu_btc_txid = None, iu_status = None,
       iu_pegin_confirm_txid = None, iu_pegin_cancel_txid = None, iu_post_pegin_txhash = None, iu_btc_height = None,
       iu_committees_answers = None, iu_key_deleted = None, iu_only_if_status_in = None \<rparr>"

definition instance_has_updates :: "InstanceUpdate \<Rightarrow> bool" where
  "instance_has_updates u \<longleftrightarrow>
     iu_from_addr u \<noteq> None \<or> iu_to_addr u \<noteq> None \<or> iu_btc_txid u \<noteq> None \<or> iu_status u \<noteq> None \<or>
     iu_pegin_confirm_txid u \<noteq> None \<or> iu_pegin_cancel_txid u \<noteq> None \<or> iu_post_pegin_txhash u \<noteq> None \<or>
     iu_btc_height u \<noteq> None \<or> iu_committees_answers u \<noteq> None \<or> iu_key_deleted u \<noteq> None"

text \<open>The columns a statement sets, and the rows it is for. A column that is not set keeps its value.\<close>

definition set_instance_columns :: "InstanceUpdate \<Rightarrow> int \<Rightarrow> Instance \<Rightarrow> Instance" where
  "set_instance_columns u now r =
     r\<lparr> in_status := (case iu_status u of None \<Rightarrow> in_status r | Some v \<Rightarrow> v),
        in_status_updated_at := (case iu_status u of None \<Rightarrow> in_status_updated_at r | Some _ \<Rightarrow> now),
        in_pegin_confirm_txid := (case iu_pegin_confirm_txid u of None \<Rightarrow> in_pegin_confirm_txid r | Some v \<Rightarrow> Some v),
        in_pegin_cancel_txid := (case iu_pegin_cancel_txid u of None \<Rightarrow> in_pegin_cancel_txid r | Some v \<Rightarrow> Some v),
        in_post_pegin_txhash := (case iu_post_pegin_txhash u of None \<Rightarrow> in_post_pegin_txhash r | Some v \<Rightarrow> Some v),
        in_btc_height := (case iu_btc_height u of None \<Rightarrow> in_btc_height r | Some v \<Rightarrow> v),
        in_to_addr := (case iu_to_addr u of None \<Rightarrow> in_to_addr r | Some v \<Rightarrow> v),
        in_from_addr := (case iu_from_addr u of None \<Rightarrow> in_from_addr r | Some v \<Rightarrow> v),
        in_btc_txid := (case iu_btc_txid u of None \<Rightarrow> in_btc_txid r | Some v \<Rightarrow> Some v),
        in_committees_answers := (case iu_committees_answers u of None \<Rightarrow> in_committees_answers r | Some v \<Rightarrow> v),
        in_key_deleted := (case iu_key_deleted u of None \<Rightarrow> in_key_deleted r | Some v \<Rightarrow> v),
        in_updated_at := now \<rparr>"

definition instance_update_matches :: "InstanceUpdate \<Rightarrow> Instance \<Rightarrow> bool" where
  "instance_update_matches u r \<longleftrightarrow>
     in_instance_id r = iu_instance_id u \<and>
     (case iu_only_if_status_in u of None \<Rightarrow> True | Some statuses \<Rightarrow> in_status r \<in> set statuses)"

definition update_instance :: "InstanceUpdate \<Rightarrow> int \<Rightarrow> Instance list \<Rightarrow> bool \<times> Instance list" where
  "update_instance u now t =
     (if \<not> instance_has_updates u then (False, t)
      else (0 < count_rows (instance_update_matches u) t, update_rows (instance_update_matches u) (set_instance_columns u now) t))"

definition find_instance :: "uuid \<Rightarrow> Instance list \<Rightarrow> Instance option" where
  "find_instance instance_id t = find_row in_instance_id instance_id t"

text \<open>\<^verbatim>\<open>key_deleted\<close> is not among the inserted columns; its default is false.\<close>

definition insert_instance_if_absent :: "Instance \<Rightarrow> Instance list \<Rightarrow> bool \<times> Instance list" where
  "insert_instance_if_absent r t =
     (if find_instance (in_instance_id r) t = None then (True, t @ [r\<lparr> in_key_deleted := False \<rparr>]) else (False, t))"

definition refresh_pegin_request :: "Instance \<Rightarrow> Instance \<Rightarrow> Instance" where
  "refresh_pegin_request x r =
     r\<lparr> in_network := in_network x,
        in_from_addr := if in_from_addr x = '''' then in_from_addr r else in_from_addr x,
        in_to_addr := in_to_addr x, in_amount := in_amount x, in_fees := in_fees x, in_input_utxos := in_input_utxos x,
        in_status := in_status x, in_goat_tx_hash := in_goat_tx_hash x, in_goat_tx_height := in_goat_tx_height x,
        in_user_xonly_pubkey := in_user_xonly_pubkey x, in_user_change_addr := in_user_change_addr x,
        in_user_refund_addr := in_user_refund_addr x, in_status_updated_at := in_status_updated_at x,
        in_updated_at := in_updated_at x \<rparr>"

definition upsert_pegin_request_instance :: "Instance \<Rightarrow> Instance list \<Rightarrow> bool \<times> Instance list" where
  "upsert_pegin_request_instance x t =
     (case find_instance (in_instance_id x) t of
        None \<Rightarrow> (True, t @ [x\<lparr> in_key_deleted := False \<rparr>])
      | Some r \<Rightarrow>
          (in_status r = status_string UserInited,
           update_rows (\<lambda>r. in_instance_id r = in_instance_id x \<and> in_status r = status_string UserInited)
             (refresh_pegin_request x) t))"

definition update_instance_committee_answer :: "uuid \<Rightarrow> string \<Rightarrow> bytes \<Rightarrow> int \<Rightarrow> Instance list \<Rightarrow> bool \<times> Instance list" where
  "update_instance_committee_answer instance_id committee_addr pubkey now t =
     (0 < count_rows (\<lambda>r. in_instance_id r = instance_id) t,
      update_rows (\<lambda>r. in_instance_id r = instance_id)
        (\<lambda>r. r\<lparr> in_committees_answers := AList.update committee_addr pubkey (in_committees_answers r), in_updated_at := now \<rparr>) t)"

definition update_instance_parameters :: "uuid \<Rightarrow> string \<Rightarrow> int \<Rightarrow> Instance list \<Rightarrow> bool \<times> Instance list" where
  "update_instance_parameters instance_id parameters now t =
     (0 < count_rows (\<lambda>r. in_instance_id r = instance_id) t,
      update_rows (\<lambda>r. in_instance_id r = instance_id) (\<lambda>r. r\<lparr> in_parameters := Some parameters, in_updated_at := now \<rparr>) t)"

section \<open>Setup sessions\<close>

text \<open>\<open>None\<close> is the violated \<^verbatim>\<open>UNIQUE\<close> constraint on the graph id.\<close>

definition upsert_pending_graph_init ::
    "uuid \<Rightarrow> string \<Rightarrow> uuid \<Rightarrow> int \<Rightarrow> PendingGraphInit list \<Rightarrow> PendingGraphInit list option" where
  "upsert_pending_graph_init instance_id operator_pubkey graph_id now t =
     (let own = (\<lambda>r. pi_instance_id r = instance_id \<and> pi_operator_pubkey r = operator_pubkey)
      in if list_ex (\<lambda>r. pi_graph_id r = graph_id \<and> \<not> own r) t then None
         else if list_ex own t then Some (update_rows own (\<lambda>r. r\<lparr> pi_graph_id := graph_id, pi_updated_at := now \<rparr>) t)
         else Some (t @ [\<lparr> pi_instance_id = instance_id, pi_operator_pubkey = operator_pubkey, pi_graph_id = graph_id,
                          pi_updated_at = now, pi_created_at = now \<rparr>]))"

definition find_pending_graph_init_by_instance_and_operator_pubkey ::
    "uuid \<Rightarrow> string \<Rightarrow> PendingGraphInit list \<Rightarrow> PendingGraphInit option" where
  "find_pending_graph_init_by_instance_and_operator_pubkey instance_id operator_pubkey t =
     List.find (\<lambda>r. pi_instance_id r = instance_id \<and> pi_operator_pubkey r = operator_pubkey) t"

definition list_pending_graph_inits_by_instance :: "uuid \<Rightarrow> PendingGraphInit list \<Rightarrow> PendingGraphInit list" where
  "list_pending_graph_inits_by_instance instance_id t = filter (\<lambda>r. pi_instance_id r = instance_id) t"

definition list_pending_graph_inits_by_operator :: "string \<Rightarrow> PendingGraphInit list \<Rightarrow> PendingGraphInit list" where
  "list_pending_graph_inits_by_operator operator_pubkey t =
     sort_key (\<lambda>r. (pi_created_at r, unat (pi_graph_id r))) (filter (\<lambda>r. pi_operator_pubkey r = operator_pubkey) t)"

definition find_pending_graph_init_by_graph_id :: "uuid \<Rightarrow> PendingGraphInit list \<Rightarrow> PendingGraphInit option" where
  "find_pending_graph_init_by_graph_id graph_id t = List.find (\<lambda>r. pi_graph_id r = graph_id) t"

definition delete_pending_graph_init :: "uuid \<Rightarrow> string \<Rightarrow> PendingGraphInit list \<Rightarrow> PendingGraphInit list" where
  "delete_pending_graph_init instance_id operator_pubkey t =
     delete_rows (\<lambda>r. pi_instance_id r = instance_id \<and> pi_operator_pubkey r = operator_pubkey) t"

section \<open>Graph table\<close>

definition find_graph :: "uuid \<Rightarrow> Graph list \<Rightarrow> Graph option" where
  "find_graph graph_id t = find_row gh_graph_id graph_id t"

definition find_graph_by_operator_slot :: "string \<Rightarrow> int \<Rightarrow> Graph list \<Rightarrow> Graph option" where
  "find_graph_by_operator_slot operator_pubkey graph_nonce t =
     List.find (\<lambda>g. gh_operator_pubkey g = operator_pubkey \<and> gh_kickoff_index g = graph_nonce) t"

definition get_graphs_by_instance_id :: "uuid \<Rightarrow> Graph list \<Rightarrow> Graph list" where
  "get_graphs_by_instance_id instance_id t = filter (\<lambda>g. gh_instance_id g = instance_id) t"

text \<open>
  A definition is inserted with the baseline status, or found again under the same hash and instance. A different graph in the
  slot of the operator violates the unique index; the definition hash covers operator and slot, so an equal hash has
  an equal slot.
\<close>

definition upsert_graph_definition :: "Graph \<Rightarrow> Graph list \<Rightarrow> (anyhow_error + nat) \<times> Graph list" where
  "upsert_graph_definition g t =
     (if gh_definition_hash g = '''' then (Inl [''graph is missing its definition hash''], t)
      else if gh_status g \<noteq> graph_status_string OperatorPresigned \<or> gh_sub_status g \<noteq> '''' \<or> gh_challenge_txid g \<noteq> None \<or>
              gh_init_withdraw_tx_hash g \<noteq> None \<or> gh_bridge_out_start_at g \<noteq> 0 \<or> gh_proceed_withdraw_height g \<noteq> 0
      then (Inl [''definition writes must use the OperatorPresigned baseline without runtime data''], t)
      else case find_graph (gh_graph_id g) t of
          None \<Rightarrow>
            if find_graph_by_operator_slot (gh_operator_pubkey g) (gh_kickoff_index g) t \<noteq> None
            then (Inl [''UNIQUE constraint failed: graph.operator_pubkey, graph.kickoff_index''], t)
            else (Inr 1, t @ [g])
        | Some existing \<Rightarrow>
            if gh_definition_hash existing \<noteq> gh_definition_hash g then (Inl [''conflicting graph definition''], t)
            else if gh_instance_id existing \<noteq> gh_instance_id g then (Inl [''graph definition instance mismatch''], t)
            else (Inr 1, update_rows (\<lambda>r. gh_graph_id r = gh_graph_id g)
                (\<lambda>r. r\<lparr> gh_from_addr := if gh_from_addr r = '''' \<and> gh_from_addr g \<noteq> '''' then gh_from_addr g else gh_from_addr r,
                        gh_to_addr := if gh_to_addr r = '''' \<and> gh_to_addr g \<noteq> '''' then gh_to_addr g else gh_to_addr r \<rparr>) t))"

record GraphRuntimeUpdate =
  ru_instance_id :: uuid
  ru_graph_id :: uuid
  ru_challenge_txid :: "tx_id option"
  ru_bridge_out_start_at :: "int option"
  ru_init_withdraw_tx_hash :: "string option"
  ru_proceed_withdraw_height :: "int option"

definition runtime_has_updates :: "GraphRuntimeUpdate \<Rightarrow> bool" where
  "runtime_has_updates u \<longleftrightarrow>
     ru_challenge_txid u \<noteq> None \<or> ru_bridge_out_start_at u \<noteq> None \<or> ru_init_withdraw_tx_hash u \<noteq> None \<or>
     ru_proceed_withdraw_height u \<noteq> None"

text \<open>An empty withdraw hash is stored as \<^verbatim>\<open>NULL\<close>.\<close>

definition set_runtime_columns :: "GraphRuntimeUpdate \<Rightarrow> int \<Rightarrow> Graph \<Rightarrow> Graph" where
  "set_runtime_columns u now r =
     r\<lparr> gh_challenge_txid := (case ru_challenge_txid u of None \<Rightarrow> gh_challenge_txid r | Some v \<Rightarrow> Some v),
        gh_bridge_out_start_at := (case ru_bridge_out_start_at u of None \<Rightarrow> gh_bridge_out_start_at r | Some v \<Rightarrow> v),
        gh_proceed_withdraw_height := (case ru_proceed_withdraw_height u of None \<Rightarrow> gh_proceed_withdraw_height r | Some v \<Rightarrow> v),
        gh_init_withdraw_tx_hash := (case ru_init_withdraw_tx_hash u of
            None \<Rightarrow> gh_init_withdraw_tx_hash r
          | Some v \<Rightarrow> if v = '''' then None else Some v),
        gh_updated_at := now \<rparr>"

definition update_graph_runtime :: "GraphRuntimeUpdate \<Rightarrow> int \<Rightarrow> Graph list \<Rightarrow> bool \<times> Graph list" where
  "update_graph_runtime u now t =
     (let own = (\<lambda>g. gh_graph_id g = ru_graph_id u \<and> gh_instance_id g = ru_instance_id u)
      in if \<not> runtime_has_updates u then (False, t)
         else (0 < count_rows own t, update_rows own (set_runtime_columns u now) t))"

definition graph_status_transition_outcome ::
    "uuid \<Rightarrow> uuid \<Rightarrow> GraphStatus \<Rightarrow> Graph list \<Rightarrow> anyhow_error + GraphStatusTransitionOutcome" where
  "graph_status_transition_outcome instance_id graph_id target t =
     (case find_graph graph_id t of
        None \<Rightarrow> Inr TransitionNotFound
      | Some g \<Rightarrow>
          if gh_instance_id g \<noteq> instance_id then Inr TransitionNotFound
          else case graph_status_from_str (gh_status g) of
              None \<Rightarrow> Inl [''graph has invalid persisted status '' @ gh_status g]
            | Some current \<Rightarrow> Inr (if current = target then AlreadyCurrent else TransitionRejected current))"

text \<open>Every variant is a protocol status, so the first guard of the code never fails.\<close>

definition transition_graph_status ::
    "uuid \<Rightarrow> uuid \<Rightarrow> GraphStatus \<Rightarrow> GraphStatusSource \<Rightarrow> string option \<Rightarrow> int \<Rightarrow> Graph list \<Rightarrow>
     (anyhow_error + GraphStatusTransitionOutcome) \<times> Graph list" where
  "transition_graph_status instance_id graph_id target source sub_status now t =
     (let allowed = map graph_status_string (allowed_transition_from target source);
          own = (\<lambda>g. gh_graph_id g = graph_id \<and> gh_instance_id g = instance_id);
          current = graph_status_transition_outcome instance_id graph_id target
      in if allowed = [] then (current t, t)
         else if 0 < count_rows (\<lambda>g. own g \<and> gh_status g \<in> set allowed) t
         then (Inr TransitionApplied,
               update_rows (\<lambda>g. own g \<and> gh_status g \<in> set allowed)
                 (\<lambda>g. g\<lparr> gh_status := graph_status_string target,
                         gh_sub_status := (case sub_status of None \<Rightarrow> gh_sub_status g | Some v \<Rightarrow> v),
                         gh_status_updated_at := now, gh_updated_at := now \<rparr>) t)
         else if current t \<noteq> Inr AlreadyCurrent then (current t, t)
         else case sub_status of
             None \<Rightarrow> (Inr AlreadyCurrent, t)
           | Some v \<Rightarrow>
               let same = (\<lambda>g. own g \<and> gh_status g = graph_status_string target);
                   t' = update_rows same (\<lambda>g. g\<lparr> gh_sub_status := v, gh_updated_at := now \<rparr>) t
               in if 0 < count_rows same t then (Inr AlreadyCurrent, t') else (current t', t'))"

definition obsolete_graph :: "uuid \<Rightarrow> uuid \<Rightarrow> int \<Rightarrow> Graph list \<Rightarrow> (anyhow_error + bool) \<times> Graph list" where
  "obsolete_graph instance_id graph_id now t =
     (case transition_graph_status instance_id graph_id Obsoleted ChainReconcile None now t of
        (Inl e, t') \<Rightarrow> (Inl e, t')
      | (Inr outcome, t') \<Rightarrow> (Inr (outcome \<in> {TransitionApplied, AlreadyCurrent}), t'))"

text \<open>The loop ends at the first error; the list is of the graphs that are obsolete now.\<close>

primrec obsolete_graphs :: "uuid \<Rightarrow> uuid option \<Rightarrow> int \<Rightarrow> Graph list \<Rightarrow> Graph list \<Rightarrow> (anyhow_error + uuid list) \<times> Graph list" where
  "obsolete_graphs instance_id retained now [] t = (Inr [], t)"
| "obsolete_graphs instance_id retained now (g # gs) t =
     (if Some (gh_graph_id g) = retained then obsolete_graphs instance_id retained now gs t
      else case obsolete_graph instance_id (gh_graph_id g) now t of
          (Inl e, t') \<Rightarrow> (Inl e, t')
        | (Inr obsoleted, t') \<Rightarrow>
            (case obsolete_graphs instance_id retained now gs t' of
               (Inl e, t'') \<Rightarrow> (Inl e, t'')
             | (Inr ids, t'') \<Rightarrow> (Inr (if obsoleted then gh_graph_id g # ids else ids), t'')))"

definition obsolete_instance_graphs_except ::
    "uuid \<Rightarrow> uuid option \<Rightarrow> int \<Rightarrow> Graph list \<Rightarrow> (anyhow_error + uuid list) \<times> Graph list" where
  "obsolete_instance_graphs_except instance_id retained now t =
     obsolete_graphs instance_id retained now (get_graphs_by_instance_id instance_id t) t"

section \<open>Process data\<close>

definition get_pegin_graph_endorsed_len_by_instance_id :: "uuid \<Rightarrow> bool \<Rightarrow> PeginGraphProcessData list \<Rightarrow> nat" where
  "get_pegin_graph_endorsed_len_by_instance_id instance_id is_endorsed t =
     count_rows (\<lambda>r. pg_instance_id r = instance_id \<and> pg_is_endorsed r = is_endorsed) t"

section \<open>Lemmas on statuses\<close>

lemma status_from_string [simp]: "status_from_str (status_string s) = Some s"
  by (cases s) (simp_all add: status_from_str_def)

lemma status_from_strD: "status_from_str x = Some s \<Longrightarrow> x = status_string s"
  unfolding status_from_str_def find_Some_iff by blast

lemma status_string_inj: "status_string s = status_string t \<longleftrightarrow> s = t"
  using status_from_string by (metis option.inject)

lemma graph_status_from_string [simp]: "graph_status_from_str (graph_status_string s) = Some s"
  by (cases s) (simp_all add: graph_status_from_str_def)

lemma graph_status_from_strD: "graph_status_from_str x = Some s \<Longrightarrow> x = graph_status_string s"
  unfolding graph_status_from_str_def find_Some_iff by blast

lemma graph_status_string_inj [simp]: "graph_status_string s = graph_status_string t \<longleftrightarrow> s = t"
  using graph_status_from_string by (metis option.inject)

text \<open>One step of a graph's status, as text, with any evidence.\<close>

definition graph_edge :: "string \<Rightarrow> string \<Rightarrow> bool" where
  "graph_edge s t \<longleftrightarrow>
     (\<exists>a b source. s = graph_status_string a \<and> t = graph_status_string b \<and> a \<in> set (allowed_transition_from b source))"

lemma closed_no_edge: "is_closed a \<Longrightarrow> a \<notin> set (allowed_transition_from b source)"
  by (cases source; cases b) (auto simp: allowed_transition_from_def is_closed_def Let_def)

lemma baseline_no_edge: "allowed_transition_from OperatorPresigned source = []"
  by (cases source) (simp_all add: allowed_transition_from_def Let_def)

lemma closed_edge_final: "is_closed a \<Longrightarrow> graph_edge\<^sup>*\<^sup>* (graph_status_string a) t \<Longrightarrow> t = graph_status_string a"
  by (erule converse_rtranclpE) (auto simp: graph_edge_def dest: closed_no_edge)

lemma baseline_edge_first: "graph_edge\<^sup>*\<^sup>* s (graph_status_string OperatorPresigned) \<Longrightarrow> s = graph_status_string OperatorPresigned"
  by (metis baseline_no_edge empty_iff graph_edge_def graph_status_string_inj list.set(1) rtranclp.cases)

section \<open>Life cycle of a graph row\<close>

definition same_definition :: "Graph \<Rightarrow> Graph \<Rightarrow> bool" where
  "same_definition r r' \<longleftrightarrow>
     gh_graph_id r' = gh_graph_id r \<and> gh_instance_id r' = gh_instance_id r \<and> gh_kickoff_index r' = gh_kickoff_index r \<and>
     gh_operator_pubkey r' = gh_operator_pubkey r \<and> gh_definition_hash r' = gh_definition_hash r \<and>
     gh_amount r' = gh_amount r \<and> gh_kickoff_txid r' = gh_kickoff_txid r \<and> gh_take1_txid r' = gh_take1_txid r \<and>
     gh_take2_txid r' = gh_take2_txid r \<and> gh_disprove_txids r' = gh_disprove_txids r \<and> gh_created_at r' = gh_created_at r"

definition graph_le :: "Graph \<Rightarrow> Graph \<Rightarrow> bool" where
  "graph_le r r' \<longleftrightarrow> same_definition r r' \<and> graph_edge\<^sup>*\<^sup>* (gh_status r) (gh_status r')"

definition slot_of :: "Graph \<Rightarrow> string \<times> int" where
  "slot_of g = (gh_operator_pubkey g, gh_kickoff_index g)"

definition graphs_inv :: "Graph list \<Rightarrow> bool" where
  "graphs_inv t \<longleftrightarrow> distinct (map gh_graph_id t) \<and> distinct (map slot_of t)"

definition graphs_evolve :: "Graph list \<Rightarrow> Graph list \<Rightarrow> bool" where
  "graphs_evolve t t' \<longleftrightarrow>
     (graphs_inv t \<longrightarrow> graphs_inv t') \<and>
     (\<forall>k r. find_graph k t = Some r \<longrightarrow> (\<exists>r'. find_graph k t' = Some r' \<and> graph_le r r'))"

lemma graph_le_refl: "graph_le r r"
  by (simp add: graph_le_def same_definition_def)

lemma graph_le_trans: "graph_le a b \<Longrightarrow> graph_le b c \<Longrightarrow> graph_le a c"
  unfolding graph_le_def same_definition_def by force

lemma graphs_evolve_refl: "graphs_evolve t t"
  by (auto simp: graphs_evolve_def graph_le_refl)

lemma graphs_evolve_trans: "graphs_evolve a b \<Longrightarrow> graphs_evolve b c \<Longrightarrow> graphs_evolve a c"
  unfolding graphs_evolve_def using graph_le_trans by meson

lemma graphs_evolve_update:
  assumes "\<And>r. p r \<Longrightarrow> graph_le r (f r)"
  shows "graphs_evolve t (update_rows p f t)"
proof -
  have keys: "map gh_graph_id (update_rows p f t) = map gh_graph_id t" "map slot_of (update_rows p f t) = map slot_of t"
    using assms by (auto intro!: map_update_rows simp: graph_le_def same_definition_def slot_of_def)
  have "find_graph k (update_rows p f t) = map_option (\<lambda>r. if p r then f r else r) (find_graph k t)" for k
    unfolding find_graph_def using assms by (intro find_row_update_rows) (simp add: graph_le_def same_definition_def)
  with keys assms show ?thesis by (auto simp: graphs_evolve_def graphs_inv_def graph_le_refl)
qed

lemma graphs_evolve_definition: "graphs_evolve t (snd (upsert_graph_definition g t))"
proof -
  have "graphs_evolve t (t @ [g])"
    if "find_graph (gh_graph_id g) t = None" "find_graph_by_operator_slot (gh_operator_pubkey g) (gh_kickoff_index g) t = None"
  proof -
    from that have "gh_graph_id g \<notin> gh_graph_id ` set t" "slot_of g \<notin> slot_of ` set t"
      by (auto simp: find_graph_def find_row_None_iff find_graph_by_operator_slot_def find_None_iff slot_of_def)
    moreover have "find_graph k (t @ [g]) = Some r" if "find_graph k t = Some r" for k r
      using that by (simp add: find_graph_def find_row_append)
    ultimately show ?thesis by (auto simp: graphs_evolve_def graphs_inv_def graph_le_refl)
  qed
  moreover have "graph_le r (r\<lparr> gh_from_addr := x, gh_to_addr := y \<rparr>)" for r x y
    by (simp add: graph_le_def same_definition_def)
  ultimately show ?thesis
    by (simp add: upsert_graph_definition_def graphs_evolve_refl graphs_evolve_update split: option.split)
qed

lemma graphs_evolve_runtime: "graphs_evolve t (snd (update_graph_runtime u now t))"
  by (auto simp: update_graph_runtime_def Let_def graphs_evolve_refl set_runtime_columns_def graph_le_def same_definition_def
      intro: graphs_evolve_update)

lemma graphs_evolve_transition: "graphs_evolve t (snd (transition_graph_status i k target source sub now t))"
proof -
  let ?allowed = "map graph_status_string (allowed_transition_from target source)"
  have "graph_edge\<^sup>*\<^sup>* s (graph_status_string target)" if "s \<in> set ?allowed" for s
    using that by (auto simp: graph_edge_def intro!: r_into_rtranclp)
  then show ?thesis
    by (auto simp: transition_graph_status_def Let_def graphs_evolve_refl graph_le_def same_definition_def
        intro!: graphs_evolve_update split: option.split)
qed

lemma graphs_evolve_obsolete: "graphs_evolve t (snd (obsolete_graph i k now t))"
  using graphs_evolve_transition [of t i k Obsoleted ChainReconcile None now]
  by (auto simp: obsolete_graph_def split: prod.splits sum.splits)

lemma graphs_evolve_obsolete_graphs: "graphs_evolve t (snd (obsolete_graphs i keep now gs t))"
proof (induction gs arbitrary: t)
  case (Cons g gs)
  have step: "graphs_evolve t (snd (obsolete_graph i (gh_graph_id g) now t))" by (rule graphs_evolve_obsolete)
  show ?case
    using Cons [of t] Cons [of "snd (obsolete_graph i (gh_graph_id g) now t)"] step
    by (auto split: prod.splits sum.splits intro: graphs_evolve_trans)
qed (simp add: graphs_evolve_refl)

lemma graphs_evolve_obsolete_except: "graphs_evolve t (snd (obsolete_instance_graphs_except i keep now t))"
  by (simp add: obsolete_instance_graphs_except_def graphs_evolve_obsolete_graphs)

inductive graph_table_step :: "Graph list \<Rightarrow> Graph list \<Rightarrow> bool" where
  defined: "graph_table_step t (snd (upsert_graph_definition g t))"
| runtime: "graph_table_step t (snd (update_graph_runtime u now t))"
| moved: "graph_table_step t (snd (transition_graph_status i k target source sub now t))"
| retired: "graph_table_step t (snd (obsolete_instance_graphs_except i keep now t))"

lemma graph_table_step_evolves: "graph_table_step t t' \<Longrightarrow> graphs_evolve t t'"
  by (induction rule: graph_table_step.induct)
    (simp_all add: graphs_evolve_definition graphs_evolve_runtime graphs_evolve_transition graphs_evolve_obsolete_except)

interpretation graph_rows: row_lifecycle "\<lambda>t k. find_graph k t" graphs_inv graph_table_step graph_le
  by unfold_locales
    (metis graph_table_step_evolves graphs_evolve_def, metis graph_table_step_evolves graphs_evolve_def,
      rule graph_le_refl, erule graph_le_trans, assumption)

end
