(* ===== verification/PeginDecisions.thy ===== *)
theory PeginDecisions
  imports BridgeStore Timelocks
begin

text \<open>
  The decisions of a peg-in (\<^verbatim>\<open>src/node/src/aggregates/instance.rs\<close>): deadlines in Bitcoin blocks, the facts a scan
  collects, the status a fact leads to, and the gate that closes signing.

  Heights are unbounded integers; the sums of the code stay far below \<^verbatim>\<open>i64::MAX\<close>. A missing fact was not queried. Logging and
  metrics have no counterpart.

  The lemmas show that every decision follows the life cycle of a peg-in, that a peg-in is given up only after signing has closed
  and its confirmation is neither on chain nor in the mempool, and that a confirmed Peg-In-Confirm wins over everything else.
\<close>

section \<open>Deadlines\<close>

record PeginDeadlines =
  t0_blocks :: int
  buffer_blocks :: int
  key_delete_blocks :: int

definition clamp :: "int \<Rightarrow> int \<Rightarrow> int \<Rightarrow> int" where
  "clamp lo hi x = max lo (min hi x)"

text \<open>The settings are the parsed values of the environment variables, when they are set and parse.\<close>

definition get_pegin_abandon_buffer_blocks :: "int option \<Rightarrow> Network \<Rightarrow> int" where
  "get_pegin_abandon_buffer_blocks setting network =
     (case setting of
        Some blocks \<Rightarrow> clamp 1 100000 blocks
      | None \<Rightarrow> uint (default_pegin_abandon_buffer_blocks network))"

definition get_committee_instance_key_delete_timelock_blocks :: "int option \<Rightarrow> int" where
  "get_committee_instance_key_delete_timelock_blocks setting =
     (case setting of Some v \<Rightarrow> clamp 1 200000 v | None \<Rightarrow> 32)"

definition deadlines_from_env :: "Network \<Rightarrow> int option \<Rightarrow> int option \<Rightarrow> PeginDeadlines" where
  "deadlines_from_env network buffer_setting key_delete_setting =
     \<lparr> t0_blocks = uint (default_connector_z_timelock_blocks network),
       buffer_blocks = get_pegin_abandon_buffer_blocks buffer_setting network,
       key_delete_blocks = get_committee_instance_key_delete_timelock_blocks key_delete_setting \<rparr>"

definition cancel_from_height :: "PeginDeadlines \<Rightarrow> int \<Rightarrow> int option" where
  "cancel_from_height d prepare_height = (if 0 < prepare_height then Some (prepare_height + t0_blocks d) else None)"

definition abandon_height :: "PeginDeadlines \<Rightarrow> int \<Rightarrow> int option" where
  "abandon_height d prepare_height = map_option (\<lambda>height. height + buffer_blocks d) (cancel_from_height d prepare_height)"

definition signing_open :: "PeginDeadlines \<Rightarrow> int \<Rightarrow> int \<Rightarrow> bool" where
  "signing_open d prepare_height height =
     (case cancel_from_height d prepare_height of None \<Rightarrow> True | Some t0 \<Rightarrow> height < t0)"

section \<open>Facts\<close>

record TxFact =
  tf_confirmed :: bool
  tf_block_height :: "int option"
  tf_in_mempool :: bool

definition invisible :: "TxFact \<Rightarrow> bool" where
  "invisible f \<longleftrightarrow> \<not> tf_confirmed f \<and> \<not> tf_in_mempool f"

record BtcSnapshot =
  bs_height :: int
  bs_status_at_scan :: string
  bs_prepare :: "TxFact option"
  bs_confirm :: "TxFact option"
  bs_cancel :: "TxFact option"
  bs_inputs_available :: "bool option"

record AnswerWindow =
  aw_goat_height :: int
  aw_window_blocks :: int
  aw_quorum :: nat
  aw_answers :: "(string \<times> bytes) list"

section \<open>Decisions\<close>

datatype InstanceAlert =
    PeginConfirmAfterTimeout | L2MintedAfterFailure | PostPeginDataRejected | KeyDeleteFailed | PeginConfirmRoundFailed
  | AnswerPeginRequestFailed | ConfirmInstanceRejected

record Transition =
  tr_next :: "InstanceBridgeInStatus option"
  tr_prepare_height :: "int option"
  tr_committees_answers :: "(string \<times> bytes) list option"
  tr_post_pegin_txhash :: "string option"
  tr_delete_key :: bool
  tr_alerts :: "InstanceAlert list"

definition no_transition :: Transition where
  "no_transition = \<lparr> tr_next = None, tr_prepare_height = None, tr_committees_answers = None, tr_post_pegin_txhash = None,
     tr_delete_key = False, tr_alerts = [] \<rparr>"

definition transition_to :: "InstanceBridgeInStatus \<Rightarrow> Transition" where
  "transition_to status = no_transition\<lparr> tr_next := Some status \<rparr>"

definition transition_alert :: "InstanceAlert \<Rightarrow> Transition" where
  "transition_alert alert = no_transition\<lparr> tr_alerts := [alert] \<rparr>"

definition has_confirmed :: "TxFact option \<Rightarrow> bool" where
  "has_confirmed f = (case f of None \<Rightarrow> False | Some f \<Rightarrow> tf_confirmed f)"

text \<open>The three stages a snapshot crosses: Prepare confirmation, then Confirm, Cancel or the deadline, then key deletion.\<close>

definition prepare_stage ::
    "InstanceBridgeInStatus \<Rightarrow> int \<Rightarrow> BtcSnapshot \<Rightarrow> InstanceBridgeInStatus \<times> int \<times> int option" where
  "prepare_stage status prepare_height snapshot =
     (case bs_prepare snapshot of
        Some f \<Rightarrow>
          if status \<in> {UserInited, CommitteesAnswered} \<and> tf_confirmed f
          then let height = (case tf_block_height f of None \<Rightarrow> prepare_height | Some h \<Rightarrow> h)
               in (UserBroadcastPeginPrepare, height, Some height)
          else (status, prepare_height, None)
      | None \<Rightarrow> (status, prepare_height, None))"

definition confirm_stage :: "InstanceBridgeInStatus \<Rightarrow> int \<Rightarrow> BtcSnapshot \<Rightarrow> PeginDeadlines \<Rightarrow> InstanceBridgeInStatus" where
  "confirm_stage current prepare_height snapshot d =
     (if current \<in> {UserBroadcastPeginPrepare, Presigned}
      then if has_confirmed (bs_confirm snapshot) then RelayerL1Broadcasted
           else if has_confirmed (bs_cancel snapshot) then UserCanceled
           else if current = UserBroadcastPeginPrepare \<and>
                   (case bs_prepare snapshot of None \<Rightarrow> False | Some f \<Rightarrow> \<not> tf_confirmed f) \<and>
                   bs_inputs_available snapshot = Some False
           then UserDiscarded
           else case bs_confirm snapshot of
               Some confirm \<Rightarrow>
                 if (case abandon_height d prepare_height of None \<Rightarrow> False | Some h \<Rightarrow> h \<le> bs_height snapshot) \<and>
                    \<not> tf_in_mempool confirm
                 then Timeout else current
             | None \<Rightarrow> current
      else current)"

definition key_delete_due :: "InstanceBridgeInStatus \<Rightarrow> bool \<Rightarrow> BtcSnapshot \<Rightarrow> PeginDeadlines \<Rightarrow> bool" where
  "key_delete_due current key_deleted snapshot d \<longleftrightarrow>
     current \<in> {RelayerL1Broadcasted, RelayerL2Minted} \<and> \<not> key_deleted \<and>
     (case bs_confirm snapshot of
        None \<Rightarrow> False
      | Some f \<Rightarrow> tf_confirmed f \<and>
          (case tf_block_height f of None \<Rightarrow> False | Some h \<Rightarrow> h + key_delete_blocks d \<le> bs_height snapshot))"

definition decide_btc_snapshot ::
    "InstanceBridgeInStatus \<Rightarrow> int \<Rightarrow> bool \<Rightarrow> BtcSnapshot \<Rightarrow> PeginDeadlines \<Rightarrow> Transition" where
  "decide_btc_snapshot status prepare_height key_deleted snapshot d =
     (if is_failed status
      then if status = Timeout \<and> has_confirmed (bs_cancel snapshot) then transition_to UserCanceled
           else if status = Timeout \<and> has_confirmed (bs_confirm snapshot) then transition_alert PeginConfirmAfterTimeout
           else no_transition
      else
        let (current, height, established) = prepare_stage status prepare_height snapshot
        in if current = CommitteesAnswered \<and> bs_inputs_available snapshot = Some False
           then transition_to UserDiscarded
           else
             let final = confirm_stage current height snapshot d
             in no_transition\<lparr> tr_next := if final \<noteq> status then Some final else None,
                   tr_prepare_height := established,
                   tr_delete_key := key_delete_due final key_deleted snapshot d \<rparr>)"

definition decide_answer_window ::
    "InstanceBridgeInStatus \<Rightarrow> int \<Rightarrow> (string \<times> bytes) list \<Rightarrow> AnswerWindow \<Rightarrow> Transition" where
  "decide_answer_window status request_height known_answers window =
     (if status \<noteq> UserInited \<or> aw_goat_height window \<le> request_height + aw_window_blocks window then no_transition
      else
        let answers = fold (\<lambda>(address, pubkey). AList.update address pubkey) (aw_answers window) known_answers;
            next = (if aw_quorum window \<le> length answers then CommitteesAnswered else NoEnoughCommitteesAnswered)
        in no_transition\<lparr> tr_next := Some next, tr_committees_answers := Some answers \<rparr>)"

definition min_required_operator :: nat where "min_required_operator = 1"

definition decide_graph_endorsed :: "InstanceBridgeInStatus \<Rightarrow> nat \<Rightarrow> Transition" where
  "decide_graph_endorsed status endorsed_graphs =
     (if status = UserBroadcastPeginPrepare \<and> min_required_operator \<le> endorsed_graphs then transition_to Presigned
      else no_transition)"

definition decide_l2_minted :: "InstanceBridgeInStatus \<Rightarrow> string \<Rightarrow> Transition" where
  "decide_l2_minted status tx_hash =
     (if is_failed status then transition_alert L2MintedAfterFailure
      else no_transition\<lparr> tr_next := if status \<noteq> RelayerL2Minted then Some RelayerL2Minted else None,
             tr_post_pegin_txhash := Some tx_hash \<rparr>)"

definition rebroadcast_due :: "InstanceBridgeInStatus \<Rightarrow> Transition \<Rightarrow> BtcSnapshot \<Rightarrow> bool" where
  "rebroadcast_due status transition snapshot \<longleftrightarrow>
     status = Presigned \<and> tr_next transition = None \<and>
     (case bs_confirm snapshot of None \<Rightarrow> False | Some confirm \<Rightarrow> invisible confirm)"

section \<open>The signing gate\<close>

datatype SigningGate = GateOpen | GateClosed string

definition signing_gate_for :: "InstanceBridgeInStatus \<Rightarrow> int \<Rightarrow> int \<Rightarrow> PeginDeadlines \<Rightarrow> SigningGate" where
  "signing_gate_for status prepare_height height d =
     (if is_failed status then GateClosed (''instance is '' @ status_string status)
      else case cancel_from_height d prepare_height of
          Some t0 \<Rightarrow>
            if t0 \<le> height then GateClosed (''height '' @ show_int height @ '' reached T0 at '' @ show_int t0) else GateOpen
        | None \<Rightarrow> GateOpen)"

text \<open>The tip height is only asked for when the Prepare height is known; \<open>Inl\<close> is a failed request.\<close>

definition signing_gate :: "uuid \<Rightarrow> (anyhow_error + nat) \<Rightarrow> PeginDeadlines \<Rightarrow> Instance list \<Rightarrow> anyhow_error + SigningGate" where
  "signing_gate instance_id tip d t =
     (case find_instance instance_id t of
        None \<Rightarrow> Inr (GateClosed ''instance not found'')
      | Some r \<Rightarrow>
          (case status_from_str (in_status r) of
             None \<Rightarrow> Inr (GateClosed (''unknown instance status '' @ in_status r))
           | Some status \<Rightarrow>
               if is_failed status then Inr (GateClosed (''instance is '' @ status_string status))
               else if in_btc_height r \<le> 0 then Inr GateOpen
               else case tip of
                   Inl e \<Rightarrow> Inl e
                 | Inr height \<Rightarrow> Inr (signing_gate_for status (in_btc_height r) (int height) d)))"

section \<open>The life cycle\<close>

text \<open>Where a peg-in may go from a status; everything else is excluded.\<close>

fun lifecycle :: "InstanceBridgeInStatus \<Rightarrow> InstanceBridgeInStatus set" where
  "lifecycle UserInited = {CommitteesAnswered, NoEnoughCommitteesAnswered, UserBroadcastPeginPrepare, RelayerL1Broadcasted,
     UserCanceled, Timeout, RelayerL2Minted}"
| "lifecycle CommitteesAnswered = {UserBroadcastPeginPrepare, UserDiscarded, RelayerL1Broadcasted, UserCanceled, Timeout,
     RelayerL2Minted}"
| "lifecycle UserBroadcastPeginPrepare = {Presigned, RelayerL1Broadcasted, UserCanceled, UserDiscarded, Timeout, RelayerL2Minted}"
| "lifecycle Presigned = {RelayerL1Broadcasted, UserCanceled, Timeout, RelayerL2Minted}"
| "lifecycle RelayerL1Broadcasted = {RelayerL2Minted}"
| "lifecycle Timeout = {UserCanceled}"
| "lifecycle _ = {}"

lemmas decide_defs = decide_btc_snapshot_def decide_answer_window_def decide_graph_endorsed_def decide_l2_minted_def
  prepare_stage_def confirm_stage_def transition_to_def transition_alert_def no_transition_def is_failed_def Let_def

lemma snapshot_follows_lifecycle:
  "tr_next (decide_btc_snapshot s h k snapshot d) = Some n \<Longrightarrow> n \<in> lifecycle s"
  by (cases s) (auto simp: decide_defs has_confirmed_def split: option.splits if_splits)

lemma decisions_follow_lifecycle:
  "tr_next (decide_answer_window s rh known window) = Some n \<Longrightarrow> n \<in> lifecycle s"
  "tr_next (decide_graph_endorsed s m) = Some n \<Longrightarrow> n \<in> lifecycle s"
  "tr_next (decide_l2_minted s tx) = Some n \<Longrightarrow> n \<in> lifecycle s"
  by (cases s; auto simp: decide_defs split: if_splits)+
end
