(* ===== verification/AggregateCommon.thy ===== *)
theory AggregateCommon
  imports PeginDecisions EngineRuntime
begin

text \<open>
  What the aggregates of the node share: the context of an apply (\<^verbatim>\<open>src/crates/engine/src/aggregate.rs\<close>), plans of
  jobs and membership (\<^verbatim>\<open>src/node/src/aggregates/common.rs\<close>), operator slots and setup sessions
  (\<^verbatim>\<open>src/node/src/aggregates/graph.rs\<close>).

  An apply threads its context: the effects collected so far and the database of its transaction. Every clock
  reading inside an apply is the time at which it started. Errors of single queries are not modelled, except violated
  constraints and unreadable statuses, which are values.

  The lemmas are the steps from which the contract of both handlers is put together.
\<close>

section \<open>The context of an apply\<close>

record apply_ctx =
  cx_now :: int
  cx_aggregate :: aggregate_ref
  cx_current :: "engine_aggregate option"
  cx_effects :: effects
  cx_db :: "bridge_db engine_db"

definition cx_status :: "apply_ctx \<Rightarrow> string" where
  "cx_status c = (case cx_current c of None \<Rightarrow> '''' | Some a \<Rightarrow> ag_status a)"

definition cx_state :: "apply_ctx \<Rightarrow> string option" where
  "cx_state c = (case cx_current c of None \<Rightarrow> None | Some a \<Rightarrow> ag_state a)"

definition eff :: "(effects \<Rightarrow> effects) \<Rightarrow> apply_ctx \<Rightarrow> apply_ctx" where
  "eff f c = c\<lparr> cx_effects := f (cx_effects c) \<rparr>"

definition store :: "(bridge_db \<Rightarrow> bridge_db) \<Rightarrow> apply_ctx \<Rightarrow> apply_ctx" where
  "store f c = c\<lparr> cx_db := (cx_db c)\<lparr> db_business := f (db_business (cx_db c)) \<rparr> \<rparr>"

abbreviation cx_store :: "apply_ctx \<Rightarrow> bridge_db" where
  "cx_store c \<equiv> db_business (cx_db c)"

definition waiting_on :: "aggregate_ref \<Rightarrow> string \<Rightarrow> ApplyOutcome" where
  "waiting_on a detail = OutcomeWaiting \<lparr> wf_wake_ref = wake_ref a, wf_detail = detail \<rparr>"

definition waiting_on_ref :: "string \<Rightarrow> string \<Rightarrow> ApplyOutcome" where
  "waiting_on_ref r detail = OutcomeWaiting \<lparr> wf_wake_ref = r, wf_detail = detail \<rparr>"

section \<open>Plans\<close>

record PlannedMessage =
  pm_outbox_id :: string
  pm_phase_ref :: string
  pm_kind :: string
  pm_actor :: string
  pm_payload :: bytes
  pm_ack_set :: "ack_map option"

record NextJob =
  nx_action :: string
  nx_params :: bytes
  nx_delay_secs :: "int option"

definition PARKED_MESSAGE_TTL_SECS :: int where "PARKED_MESSAGE_TTL_SECS = 2 * 24 * 60 * 60"

definition get_topic_name :: "string \<Rightarrow> string \<Rightarrow> string" where
  "get_topic_name proto_base topic = proto_base @ ''/topic/'' @ topic"

definition planned_outbox :: "string \<Rightarrow> PlannedMessage \<Rightarrow> outbox_message" where
  "planned_outbox proto_base m =
     \<lparr> om_outbox_id = pm_outbox_id m, om_phase_ref = pm_phase_ref m, om_kind = pm_kind m,
       om_topic = get_topic_name proto_base (pm_actor m), om_payload = pm_payload m, om_ack_set = pm_ack_set m \<rparr>"

definition job_for :: "message_env \<Rightarrow> apply_ctx \<Rightarrow> string \<Rightarrow> string \<Rightarrow> JobPool \<Rightarrow> bytes \<Rightarrow> job_spec" where
  "job_for env c phase action pool params =
     job_spec_new (sha256_digest env) (hex_encode env) (cx_aggregate c) phase action pool params"

definition delayed :: "int \<Rightarrow> int option \<Rightarrow> job_spec \<Rightarrow> job_spec" where
  "delayed now delay_secs job = (case delay_secs of None \<Rightarrow> job | Some secs \<Rightarrow> with_run_after (now + max secs 0) job)"

definition instance_failed :: "uuid \<Rightarrow> bridge_db \<Rightarrow> bool" where
  "instance_failed instance_id b =
     (case find_instance instance_id (bd_instances b) of
        None \<Rightarrow> False
      | Some r \<Rightarrow> (case status_from_str (in_status r) of None \<Rightarrow> False | Some status \<Rightarrow> is_failed status))"

definition record_event_in :: "new_event \<Rightarrow> apply_ctx \<Rightarrow> apply_ctx" where
  "record_event_in event c = c\<lparr> cx_db := snd (submit_in event (cx_now c) (cx_db c)) \<rparr>"

definition clear_job_result :: "string \<Rightarrow> apply_ctx \<Rightarrow> apply_ctx" where
  "clear_job_result job_id c =
     c\<lparr> cx_db := (cx_db c)\<lparr> db_jobs := snd (clear_engine_job_result job_id (cx_now c) (db_jobs (cx_db c))) \<rparr> \<rparr>"

section \<open>Slots and sessions\<close>

definition GRAPH_JOB_PHASE :: string where "GRAPH_JOB_PHASE = ''graph''"

definition GRAPH_PHASE_POST :: string where "GRAPH_PHASE_POST = ''Post''"

definition as_u64 :: "int \<Rightarrow> 64 word" where
  "as_u64 i = word_of_int i"

definition slot_ref :: "string \<Rightarrow> 64 word \<Rightarrow> string" where
  "slot_ref operator_pubkey graph_nonce = ''slot:'' @ operator_pubkey @ '':'' @ show_nat (unat graph_nonce)"

definition latest_slot :: "string \<Rightarrow> Graph list \<Rightarrow> Graph option" where
  "latest_slot operator_pubkey t =
     (case sort_key (\<lambda>g. - gh_kickoff_index g) (filter (\<lambda>g. gh_operator_pubkey g = operator_pubkey) t) of
        [] \<Rightarrow> None
      | g # _ \<Rightarrow> Some g)"

definition next_slot :: "string \<Rightarrow> Graph list \<Rightarrow> 64 word" where
  "next_slot operator_pubkey t =
     (case latest_slot operator_pubkey t of None \<Rightarrow> 0 | Some g \<Rightarrow> as_u64 (gh_kickoff_index g) + 1)"

definition release_setup_session :: "message_env \<Rightarrow> PendingGraphInit \<Rightarrow> string \<Rightarrow> apply_ctx \<Rightarrow> apply_ctx" where
  "release_setup_session env session reason c =
     (let a = graph_ref env (pi_graph_id session);
          c = eff (cancel_jobs_for_aggregate a \<circ> close_outbox (CloseAggregate (ar_kind a) (ar_id a)) reason) c;
          c = store (\<lambda>b. b\<lparr> bd_sessions :=
                delete_pending_graph_init (pi_instance_id session) (pi_operator_pubkey session) (bd_sessions b) \<rparr>) c
      in eff (wake (slot_ref (pi_operator_pubkey session) (next_slot (pi_operator_pubkey session) (bd_graphs (cx_store c))))) c)"

section \<open>What a step of an apply keeps\<close>

text \<open>
  The tables of the engine evolve, the pending row of the event at hand stays, and graph rows evolve; and the
  instance rows are related as \<open>R\<close> says.
\<close>

definition ctx_step :: "(Instance list \<Rightarrow> Instance list \<Rightarrow> bool) \<Rightarrow> apply_ctx \<Rightarrow> apply_ctx \<Rightarrow> bool" where
  "ctx_step R c c' \<longleftrightarrow>
     db_evolves (cx_db c) (cx_db c') \<and>
     (\<forall>k r. find_engine_inbox_event k (db_inbox (cx_db c)) = Some r \<longrightarrow> ie_state r = InboxPending \<longrightarrow>
        find_engine_inbox_event k (db_inbox (cx_db c')) = Some r) \<and>
     graphs_evolve (bd_graphs (cx_store c)) (bd_graphs (cx_store c')) \<and>
     R (bd_instances (cx_store c)) (bd_instances (cx_store c')) \<and>
     cx_now c' = cx_now c \<and> cx_aggregate c' = cx_aggregate c \<and> cx_current c' = cx_current c"

abbreviation quiet_step :: "apply_ctx \<Rightarrow> apply_ctx \<Rightarrow> bool" where
  "quiet_step \<equiv> ctx_step (=)"

lemma ctx_step_trans:
  "ctx_step R a b \<Longrightarrow> ctx_step S b c \<Longrightarrow> (\<And>x y z. R x y \<Longrightarrow> S y z \<Longrightarrow> T x z) \<Longrightarrow> ctx_step T a c"
  unfolding ctx_step_def
  by (intro conjI allI impI)
    (blast intro: db_evolves_trans, metis, blast intro: graphs_evolve_trans, blast, simp_all)

lemma quiet_refl [simp, intro]: "quiet_step c c"
  by (simp add: ctx_step_def db_evolves_refl graphs_evolve_refl)

lemma quiet_trans: "quiet_step a b \<Longrightarrow> quiet_step b c \<Longrightarrow> quiet_step a c"
  by (erule (1) ctx_step_trans) simp

lemma quiet_eff [simp, intro]: "quiet_step c (eff f c)"
  by (simp add: ctx_step_def eff_def db_evolves_refl graphs_evolve_refl)

lemma db_evolves_business [simp]: "db_evolves db (db\<lparr> db_business := b \<rparr>)"
  by (simp add: db_evolves_def)

lemma quiet_store:
  assumes "graphs_evolve (bd_graphs (cx_store c)) (bd_graphs (f (cx_store c)))"
    "R (bd_instances (cx_store c)) (bd_instances (f (cx_store c)))"
  shows "ctx_step R c (store f c)"
  using assms by (simp add: ctx_step_def store_def)

lemma pending_row_kept:
  assumes "find_engine_inbox_event k t = Some r" "ie_state r = InboxPending"
  shows "find_engine_inbox_event k (snd (insert_engine_inbox_event ev now t)) = Some r"
proof (cases "find_engine_inbox_event (ne_event_id ev) t")
  case None
  with assms show ?thesis by (auto simp: find_insert_new)
next
  case (Some e)
  show ?thesis
  proof (cases "ie_state e = InboxFailed")
    case True
    have "find_engine_inbox_event k (snd (update_inbox (\<lambda>r. ie_event_id r = ne_event_id ev \<and> ie_state r = InboxFailed)
        (\<lambda>r. r\<lparr> ie_state := InboxPending, ie_next_at := now, ie_waiting_ref := None,
               ie_waiting_detail := None, ie_last_error := None, ie_updated_at := now \<rparr>) t)) = Some r"
      using assms by (subst find_update_inbox) auto
    with True Some show ?thesis by (simp add: insert_existing)
  next
    case False
    with Some assms show ?thesis by (simp add: insert_existing)
  qed
qed

lemma quiet_record_event [simp, intro]: "quiet_step c (record_event_in ev c)"
proof -
  have "snd (submit_in ev now db) = db\<lparr> db_inbox := snd (insert_engine_inbox_event (into_store ev) now (db_inbox db)) \<rparr>"
    for now and db :: "bridge_db engine_db"
    by (simp add: submit_in_def Let_def split_beta split: EngineInboxInsert.split)
  then show ?thesis
    by (simp add: ctx_step_def record_event_in_def graphs_evolve_refl db_evolves_inbox inbox_evolves_insert pending_row_kept)
qed

lemma quiet_clear_job_result [simp, intro]: "quiet_step c (clear_job_result id' c)"
  by (simp add: ctx_step_def clear_job_result_def graphs_evolve_refl db_evolves_jobs job_evolves_clear)

lemma quiet_sessions [simp, intro]: "quiet_step c (store (\<lambda>b. b\<lparr> bd_sessions := f (bd_sessions b) \<rparr>) c)"
  by (rule quiet_store) (simp_all add: graphs_evolve_refl)

lemma quiet_release_session [simp, intro]: "quiet_step c (release_setup_session env session reason c)"
  unfolding release_setup_session_def Let_def
  by (rule quiet_trans [OF _ quiet_eff], rule quiet_trans [OF quiet_eff]) (rule quiet_sessions)

lemma quiet_fold:
  assumes "\<And>x c. quiet_step c (f x c)"
  shows "quiet_step c (fold f xs c)"
  by (rule fold_related [of quiet_step]) (auto intro: assms quiet_trans)

end
