(* ===== verification/InstanceAggregate.thy ===== *)
theory InstanceAggregate
  imports AggregateCommon
begin

text \<open>
  The Instance aggregate (\<^verbatim>\<open>src/node/src/aggregates/instance.rs\<close>): the handler that applies an event to a peg-in, commits the
  decided transition to its row, and records jobs, messages and clean-up as effects of the same transaction.

  Codecs and the derivation of the peg-in transactions are fields of an environment; whether the node holds a key is asked of the
  file system and is a field of the aggregate. Alerts and logging have no effect on the database.

  The lemmas show the contract of the handler with the engine, that the stored status follows the life
  cycle of a peg-in, and what entering a failure state leaves behind.
\<close>

section \<open>Phases and jobs\<close>

definition instance_phase_of :: "InstanceBridgeInStatus \<Rightarrow> string" where
  "instance_phase_of status =
     (case status of
        UserInited \<Rightarrow> ''Answer''
      | CommitteesAnswered \<Rightarrow> ''AwaitPrepare''
      | UserBroadcastPeginPrepare \<Rightarrow> ''Presign''
      | Presigned \<Rightarrow> ''Confirm''
      | RelayerL1Broadcasted \<Rightarrow> ''Post''
      | RelayerL2Minted \<Rightarrow> ''Done''
      | _ \<Rightarrow> ''Failed'')"

definition instance_job_phase :: "string \<Rightarrow> string" where
  "instance_job_phase action =
     (if action = ''answer_pegin_request'' then ''Answer''
      else if action = ''confirm_instance'' then ''Presign''
      else if action = ''post_pegin_data'' then ''Post''
      else if action = ''delete_instance_key'' then ''Key''
      else ''Confirm'')"

definition INSTANCE_JOBS :: "string list" where
  "INSTANCE_JOBS =
     [''answer_pegin_request'', ''confirm_instance'', ''start_pegin_confirm'', ''ingest_pegin_confirm_nonce'',
      ''pegin_confirm_vote'', ''ingest_pegin_confirm_vote'', ''pegin_confirm_sign'', ''ingest_pegin_confirm_partial_sig'',
      ''broadcast_pegin_confirm'']"

definition confirm_round_over :: "InstanceBridgeInStatus \<Rightarrow> bool" where
  "confirm_round_over status \<longleftrightarrow> is_failed status \<or> status \<in> {RelayerL1Broadcasted, RelayerL2Minted}"

section \<open>Plans and environment\<close>

record StartGraph =
  st_graph_id :: uuid
  st_operator_pubkey :: string

record InstancePlan =
  ip_messages :: "PlannedMessage list"
  ip_next :: "NextJob list"
  ip_start_graph :: "StartGraph option"
  ip_wake_refs :: "string list"

text \<open>Decoders yield the text of the error or the value.\<close>

record instance_env =
  nv_msg :: message_env
  nv_proto_base :: string
  nv_uuid_from_str :: "string \<Rightarrow> string + uuid"
  nv_snapshot :: "bytes \<Rightarrow> string + BtcSnapshot"
  nv_window :: "bytes \<Rightarrow> string + AnswerWindow"
  nv_minted :: "bytes \<Rightarrow> string + string"
  nv_request :: "bytes \<Rightarrow> string + string"
  nv_inbound :: "bytes \<Rightarrow> string + InboundMessage"
  nv_job_result :: "bytes \<Rightarrow> anyhow_error + job_result_event"
  nv_plan :: "bytes \<Rightarrow> string + InstancePlan"
  nv_key_deleted :: "bytes \<Rightarrow> bool option"
  nv_key_delete_params :: "string \<Rightarrow> bytes"
  nv_height_bytes :: "int \<Rightarrow> bytes"
  nv_partial_signs :: "string \<Rightarrow> bool list option"
  nv_pegin_txids :: "Instance \<Rightarrow> (tx_id \<times> tx_id \<times> tx_id) option"
  nv_operator_start :: "uuid \<Rightarrow> string \<Rightarrow> bytes"

record instance_aggregate =
  ia_actor :: Actor
  ia_deadlines :: PeginDeadlines
  ia_relayer :: bool
  ia_key_delete_enabled :: bool
  ia_local_peer :: string
  ia_holds_instance_key :: "uuid \<Rightarrow> bool"

definition operator_start_event :: "instance_env \<Rightarrow> uuid \<Rightarrow> uuid \<Rightarrow> string \<Rightarrow> new_event" where
  "operator_start_event env instance_id graph_id operator_pubkey =
     new_event_new (''graph:'' @ uuid_string (nv_msg env) graph_id @ '':operator-start'') (graph_ref (nv_msg env) graph_id)
       ''operator_start'' SourceLocal (nv_operator_start env instance_id operator_pubkey)"

section \<open>Committing a transition\<close>

definition instance_job :: "instance_env \<Rightarrow> string \<Rightarrow> bytes \<Rightarrow> apply_ctx \<Rightarrow> apply_ctx" where
  "instance_job env action params c =
     eff (enqueue_job (job_for (nv_msg env) c (instance_job_phase action) action PoolNetwork params)) c"

definition request_key_delete :: "instance_aggregate \<Rightarrow> instance_env \<Rightarrow> Instance \<Rightarrow> string \<Rightarrow> apply_ctx \<Rightarrow> apply_ctx" where
  "request_key_delete self env r reason c =
     (if ia_actor self \<noteq> ActorCommittee \<or> in_key_deleted r then c
      else if \<not> ia_key_delete_enabled self then c
      else eff (enqueue_job (job_for (nv_msg env) c ''Key'' ''delete_instance_key'' PoolNetwork
             (nv_key_delete_params env reason))) c)"

definition close_confirm_round :: "instance_env \<Rightarrow> uuid \<Rightarrow> string \<Rightarrow> apply_ctx \<Rightarrow> apply_ctx" where
  "close_confirm_round env instance_id reason =
     eff (close_outbox (ClosePhase ''instance'' (uuid_string (nv_msg env) instance_id) ''Confirm'') reason)"

definition retire_graph :: "instance_env \<Rightarrow> string \<Rightarrow> Graph \<Rightarrow> apply_ctx \<Rightarrow> apply_ctx" where
  "retire_graph env reason g =
     (let a = graph_ref (nv_msg env) (gh_graph_id g)
      in eff (wake (slot_ref (gh_operator_pubkey g) (as_u64 (gh_kickoff_index g))) \<circ>
              cancel_phase_jobs_for_aggregate a GRAPH_PHASE_POST \<circ> cancel_phase_jobs_for_aggregate a GRAPH_JOB_PHASE \<circ>
              close_outbox (CloseAggregate (ar_kind a) (ar_id a)) reason))"

definition enter_failure ::
    "instance_aggregate \<Rightarrow> instance_env \<Rightarrow> Instance \<Rightarrow> InstanceBridgeInStatus \<Rightarrow> apply_ctx \<Rightarrow> anyhow_error + apply_ctx" where
  "enter_failure self env r failed c =
     (let instance_id = in_instance_id r;
          reason = ''instance '' @ status_string failed;
          (obsoleted, graphs) = obsolete_instance_graphs_except instance_id None (cx_now c) (bd_graphs (cx_store c));
          c = store (\<lambda>b. b\<lparr> bd_graphs := graphs \<rparr>) c
      in case obsoleted of
          Inl e \<Rightarrow> Inl e
        | Inr _ \<Rightarrow>
            let c = eff (close_outbox (CloseAggregate ''instance'' (uuid_string (nv_msg env) instance_id)) reason) c;
                c = eff (fold cancel_phase_jobs [''Answer'', ''Presign'', ''Confirm'', ''Post'']) c;
                c = fold (retire_graph env reason) (get_graphs_by_instance_id instance_id graphs) c;
                c = fold (\<lambda>session. release_setup_session (nv_msg env) session reason)
                      (list_pending_graph_inits_by_instance instance_id (bd_sessions (cx_store c))) c
            in Inr (if deletes_key_on_entry failed then request_key_delete self env r ''failure'' c else c))"

definition on_entered ::
    "instance_aggregate \<Rightarrow> instance_env \<Rightarrow> Instance \<Rightarrow> InstanceBridgeInStatus \<Rightarrow> apply_ctx \<Rightarrow> anyhow_error + apply_ctx" where
  "on_entered self env r next c =
     (case next of
        CommitteesAnswered \<Rightarrow> Inr (eff (cancel_phase_jobs ''Answer'') c)
      | Presigned \<Rightarrow> Inr (if ia_actor self = ActorCommittee then instance_job env ''start_pegin_confirm'' [] c else c)
      | RelayerL1Broadcasted \<Rightarrow>
          let c = close_confirm_round env (in_instance_id r) ''Peg-In-Confirm confirmed'' c
          in Inr (if ia_relayer self then instance_job env ''post_pegin_data'' [] c else c)
      | RelayerL2Minted \<Rightarrow>
          let c = close_confirm_round env (in_instance_id r) ''minted on Goat'' c
          in Inr (eff (cancel_phase_jobs ''Post'' \<circ> cancel_phase_jobs ''Confirm'') c)
      | _ \<Rightarrow> if is_failed next then enter_failure self env r next c else Inr c)"

text \<open>The statement that moves the row; it names the status it moves from.\<close>

definition commit_update :: "instance_env \<Rightarrow> Instance \<Rightarrow> InstanceBridgeInStatus \<Rightarrow> InstanceBridgeInStatus \<Rightarrow> Transition \<Rightarrow> InstanceUpdate" where
  "commit_update env r status next tr =
     (let u = (instance_update_new (in_instance_id r))\<lparr> iu_status := Some (status_string next),
            iu_only_if_status_in := Some [status_string status], iu_btc_height := tr_prepare_height tr,
            iu_committees_answers := tr_committees_answers tr, iu_post_pegin_txhash := tr_post_pegin_txhash tr \<rparr>
      in case tr_committees_answers tr of
          None \<Rightarrow> u
        | Some answers \<Rightarrow>
            if next = CommitteesAnswered
            then case nv_pegin_txids env (r\<lparr> in_committees_answers := answers \<rparr>) of
                Some (deposit, confirm, cancel) \<Rightarrow>
                  u\<lparr> iu_btc_txid := Some deposit, iu_pegin_confirm_txid := Some confirm, iu_pegin_cancel_txid := Some cancel \<rparr>
              | None \<Rightarrow> u
            else u)"

definition write_instance :: "InstanceUpdate \<Rightarrow> apply_ctx \<Rightarrow> bool \<times> apply_ctx" where
  "write_instance u c =
     (let (changed, t) = update_instance u (cx_now c) (bd_instances (cx_store c))
      in (changed, store (\<lambda>b. b\<lparr> bd_instances := t \<rparr>) c))"

definition commit_status ::
    "instance_aggregate \<Rightarrow> instance_env \<Rightarrow> Instance \<Rightarrow> InstanceBridgeInStatus \<Rightarrow> Transition \<Rightarrow> apply_ctx \<Rightarrow>
     anyhow_error + InstanceBridgeInStatus \<times> apply_ctx" where
  "commit_status self env r status tr c =
     (case tr_next tr of
        Some next \<Rightarrow>
          if next \<noteq> status
          then let (changed, c) = write_instance (commit_update env r status next tr) c
               in if \<not> changed then Inl [''instance left its status during the apply'']
                  else (case on_entered self env r next c of Inl e \<Rightarrow> Inl e | Inr c \<Rightarrow> Inr (next, c))
          else Inr (status, case tr_post_pegin_txhash tr of
              None \<Rightarrow> c
            | Some tx_hash \<Rightarrow> snd (write_instance ((instance_update_new (in_instance_id r))\<lparr> iu_post_pegin_txhash := Some tx_hash \<rparr>) c))
      | None \<Rightarrow>
          Inr (status, case tr_post_pegin_txhash tr of
              None \<Rightarrow> c
            | Some tx_hash \<Rightarrow> snd (write_instance ((instance_update_new (in_instance_id r))\<lparr> iu_post_pegin_txhash := Some tx_hash \<rparr>) c)))"

definition mirror :: "InstanceBridgeInStatus \<Rightarrow> apply_ctx \<Rightarrow> apply_ctx" where
  "mirror status = eff (set_phase (instance_phase_of status) \<circ> set_status (status_string status))"

definition commit_transition ::
    "instance_aggregate \<Rightarrow> instance_env \<Rightarrow> Instance \<Rightarrow> InstanceBridgeInStatus \<Rightarrow> Transition \<Rightarrow> apply_ctx \<Rightarrow> anyhow_error + apply_ctx" where
  "commit_transition self env r status tr c =
     (case commit_status self env r status tr c of
        Inl e \<Rightarrow> Inl e
      | Inr (final, c) \<Rightarrow>
          let c = (if tr_prepare_height tr \<noteq> None then instance_job env ''confirm_instance'' [] c else c);
              c = (if tr_delete_key tr then request_key_delete self env r ''success'' c else c)
          in Inr (mirror final c))"

section \<open>Messages and job results\<close>

definition apply_pegin_request ::
    "instance_aggregate \<Rightarrow> instance_env \<Rightarrow> InstanceBridgeInStatus \<Rightarrow> bytes \<Rightarrow> apply_ctx \<Rightarrow> ApplyOutcome \<times> apply_ctx" where
  "apply_pegin_request self env status payload c =
     (if status \<noteq> UserInited then (OutcomeApplied, c)
      else if ia_actor self = ActorCommittee then (OutcomeApplied, instance_job env ''answer_pegin_request'' payload c)
      else (OutcomeApplied, c))"

definition apply_round_message ::
    "instance_aggregate \<Rightarrow> instance_env \<Rightarrow> uuid \<Rightarrow> InstanceBridgeInStatus \<Rightarrow> string \<Rightarrow> bytes \<Rightarrow> apply_ctx \<Rightarrow> ApplyOutcome \<times> apply_ctx" where
  "apply_round_message self env instance_id status kind payload c =
     (case nv_inbound env payload of
        Inl error \<Rightarrow> (OutcomeRejected (''malformed '' @ kind @ '' event: '' @ error), c)
      | Inr inbound \<Rightarrow>
          if im_author inbound = ia_local_peer self then (OutcomeApplied, c)
          else case instance_route_action kind (ia_actor self) of
              None \<Rightarrow> (OutcomeRejected (kind @ '' is not handled by '' @ actor_string (ia_actor self)), c)
            | Some action \<Rightarrow>
                if \<not> ia_relayer self \<and> \<not> ia_holds_instance_key self instance_id then (OutcomeApplied, c)
                else if status = UserInited
                then (waiting_on (cx_aggregate c) ''committee answers not recorded yet'', c)
                else if is_failed status \<or> status = RelayerL2Minted \<or>
                        status = RelayerL1Broadcasted \<and> kind \<noteq> ''PeginConfirmPartialSig''
                then (OutcomeApplied, c)
                else (OutcomeApplied,
                  eff (enqueue_job (with_deadline (cx_now c + PARKED_MESSAGE_TTL_SECS)
                    (job_for (nv_msg env) c ''Confirm'' action PoolNetwork payload))) c))"

text \<open>One session for an instance and operator: a repeated plan resumes the open one.\<close>

definition open_session :: "instance_env \<Rightarrow> uuid \<Rightarrow> StartGraph \<Rightarrow> apply_ctx \<Rightarrow> anyhow_error + apply_ctx" where
  "open_session env instance_id start c =
     (case find_pending_graph_init_by_instance_and_operator_pubkey instance_id (st_operator_pubkey start) (bd_sessions (cx_store c)) of
        Some session \<Rightarrow>
          Inr (record_event_in (operator_start_event env instance_id (pi_graph_id session) (st_operator_pubkey start)) c)
      | None \<Rightarrow>
          (case upsert_pending_graph_init instance_id (st_operator_pubkey start) (st_graph_id start) (cx_now c) (bd_sessions (cx_store c)) of
             None \<Rightarrow> Inl [''UNIQUE constraint failed: pending_graph_init.graph_id'']
           | Some t \<Rightarrow>
               Inr (record_event_in (operator_start_event env instance_id (st_graph_id start) (st_operator_pubkey start))
                 (store (\<lambda>b. b\<lparr> bd_sessions := t \<rparr>) c))))"

definition instance_apply_plan ::
    "instance_env \<Rightarrow> Instance \<Rightarrow> InstanceBridgeInStatus \<Rightarrow> InstancePlan \<Rightarrow> apply_ctx \<Rightarrow> anyhow_error + apply_ctx" where
  "instance_apply_plan env r status plan c =
     (let round_over = confirm_round_over status;
          c = fold (\<lambda>m c. if round_over \<and> pm_phase_ref m = ''Confirm'' then c
                else eff (send (planned_outbox (nv_proto_base env) m)) c) (ip_messages plan) c;
          c = fold (\<lambda>n c. if round_over \<and> instance_job_phase (nx_action n) = ''Confirm'' then c
                else eff (enqueue_job (delayed (cx_now c) (nx_delay_secs n)
                  (job_for (nv_msg env) c (instance_job_phase (nx_action n)) (nx_action n) PoolNetwork (nx_params n)))) c) (ip_next plan) c
      in case (case ip_start_graph plan of
            Some start \<Rightarrow> if \<not> is_failed status then open_session env (in_instance_id r) start c else Inr c
          | None \<Rightarrow> Inr c) of
          Inl e \<Rightarrow> Inl e
        | Inr c \<Rightarrow> Inr (fold (\<lambda>w. eff (wake w)) (ip_wake_refs plan) c))"

text \<open>Alerts and notes of a result are reported only; \<open>Inl\<close> is an error, and the outcome may reject a malformed plan.\<close>

definition instance_apply_job_result ::
    "instance_env \<Rightarrow> Instance \<Rightarrow> InstanceBridgeInStatus \<Rightarrow> job_result_event \<Rightarrow> apply_ctx \<Rightarrow> anyhow_error + ApplyOutcome \<times> apply_ctx" where
  "instance_apply_job_result env r status result c =
     (let finish = (\<lambda>c. Inr (OutcomeApplied, mirror status (clear_job_result (jr_job_id result) c)))
      in if jr_action result = ''delete_instance_key''
         then case jr_outcome result of
             ResultDone bytes \<Rightarrow>
               if nv_key_deleted env bytes = Some True
               then finish (snd (write_instance ((instance_update_new (in_instance_id r))\<lparr> iu_key_deleted := Some True \<rparr>) c))
               else finish c
           | _ \<Rightarrow> finish c
         else if jr_action result = ''post_pegin_data'' then finish c
         else if jr_action result \<in> set INSTANCE_JOBS
         then case jr_outcome result of
             ResultDone bytes \<Rightarrow>
               (case nv_plan env bytes of
                  Inl error \<Rightarrow> Inr (OutcomeRejected (''malformed plan from '' @ jr_action result @ '': '' @ error), c)
                | Inr plan \<Rightarrow> (case instance_apply_plan env r status plan c of Inl e \<Rightarrow> Inl e | Inr c \<Rightarrow> finish c))
           | _ \<Rightarrow> finish c
         else Inr (OutcomeRejected (''unknown instance job action '' @ jr_action result), c))"

definition all_partial_sigs_stored :: "instance_env \<Rightarrow> Instance \<Rightarrow> bridge_db \<Rightarrow> bool" where
  "all_partial_sigs_stored env r b =
     (let committee = length (in_committees_answers r);
          signed = (case find_row pp_instance_id (in_instance_id r) (bd_instance_process b) of
              None \<Rightarrow> []
            | Some d \<Rightarrow> (case nv_partial_signs env (pp_process_data d) of None \<Rightarrow> [] | Some items \<Rightarrow> items))
      in committee \<noteq> 0 \<and> committee \<le> length (filter id signed))"

section \<open>The handler\<close>

definition malformed :: "string \<Rightarrow> string \<Rightarrow> handler_result" where
  "malformed kind error = Returned (OutcomeRejected (''malformed '' @ kind @ '' payload: '' @ error))"

definition applied :: "apply_ctx \<Rightarrow> (anyhow_error + apply_ctx) \<Rightarrow> handler_result \<times> apply_ctx" where
  "applied c r = (case r of Inl e \<Rightarrow> (Errored (ErrorTransient e), c) | Inr c' \<Rightarrow> (Returned OutcomeApplied, c'))"

definition apply_to_instance ::
    "instance_aggregate \<Rightarrow> instance_env \<Rightarrow> uuid \<Rightarrow> Instance \<Rightarrow> InstanceBridgeInStatus \<Rightarrow> engine_inbox_event \<Rightarrow> apply_ctx \<Rightarrow>
     handler_result \<times> apply_ctx" where
  "apply_to_instance self env instance_id r status e c =
     (let payload = (case ie_payload e of None \<Rightarrow> [] | Some p \<Rightarrow> p);
          kind = ie_kind e
      in if kind = ''btc_snapshot''
         then case nv_snapshot env payload of
             Inl error \<Rightarrow> (malformed kind error, c)
           | Inr snap \<Rightarrow>
               let tr = decide_btc_snapshot status (in_btc_height r) (in_key_deleted r) snap (ia_deadlines self);
                   c' = (if ia_relayer self \<and> rebroadcast_due status tr snap \<and> all_partial_sigs_stored env r (cx_store c)
                         then instance_job env ''broadcast_pegin_confirm'' (nv_height_bytes env (bs_height snap)) c else c)
               in applied c (commit_transition self env r status tr c')
         else if kind = ''answer_window''
         then case nv_window env payload of
             Inl error \<Rightarrow> (malformed kind error, c)
           | Inr window \<Rightarrow>
               applied c (commit_transition self env r status
                 (decide_answer_window status (in_goat_tx_height r) (in_committees_answers r) window) c)
         else if kind = ''graph_endorsed''
         then if status \<in> {UserInited, CommitteesAnswered}
              then (Returned (waiting_on (cx_aggregate c) ''instance has not reached the Presign phase''), c)
              else applied c (commit_transition self env r status
                (decide_graph_endorsed status
                  (get_pegin_graph_endorsed_len_by_instance_id instance_id True (bd_graph_process (cx_store c)))) c)
         else if kind = ''l2_minted''
         then case nv_minted env payload of
             Inl error \<Rightarrow> (malformed kind error, c)
           | Inr tx_hash \<Rightarrow> applied c (commit_transition self env r status (decide_l2_minted status tx_hash) c)
         else if kind = ''pegin_request''
         then case nv_request env payload of
             Inl error \<Rightarrow> (malformed kind error, c)
           | Inr _ \<Rightarrow>
               let (outcome, c) = apply_pegin_request self env status payload c in (Returned outcome, mirror status c)
         else if kind = JOB_RESULT_KIND
         then case nv_job_result env payload of
             Inl error \<Rightarrow> (Errored (ErrorInvariant error), c)
           | Inr result \<Rightarrow>
               (case instance_apply_job_result env r status result c of
                  Inl error \<Rightarrow> (Errored (ErrorTransient error), c)
                | Inr (outcome, c') \<Rightarrow> (Returned outcome, c'))
         else if instance_engine_handles kind ActorCommittee
         then let (outcome, c) = apply_round_message self env instance_id status kind payload c in (Returned outcome, mirror status c)
         else (Returned (OutcomeRejected (''unknown instance event kind '' @ kind)), c))"

definition instance_apply ::
    "instance_aggregate \<Rightarrow> instance_env \<Rightarrow> engine_inbox_event \<Rightarrow> apply_ctx \<Rightarrow> handler_result \<times> apply_ctx" where
  "instance_apply self env e c =
     (case nv_uuid_from_str env (ar_id (cx_aggregate c)) of
        Inl error \<Rightarrow> (Errored (ErrorInvariant [''instance aggregate id '' @ ar_id (cx_aggregate c) @ '': '' @ error]), c)
      | Inr instance_id \<Rightarrow>
          (case find_instance instance_id (bd_instances (cx_store c)) of
             None \<Rightarrow> (Returned (waiting_on (cx_aggregate c) ''instance row not found''), c)
           | Some r \<Rightarrow>
               (case status_from_str (in_status r) of
                  None \<Rightarrow> (Errored (ErrorInvariant [''instance has unknown status '' @ in_status r]), c)
                | Some status \<Rightarrow> apply_to_instance self env instance_id r status e c)))"

definition instance_handler :: "instance_aggregate \<Rightarrow> instance_env \<Rightarrow> bridge_db handler" where
  "instance_handler self env = (\<lambda>now a current e db.
     let (result, c) = instance_apply self env e
           \<lparr> cx_now = now, cx_aggregate = a, cx_current = current, cx_effects = default_effects, cx_db = db \<rparr>
     in (result, cx_effects c, cx_db c))"

section \<open>What the handler keeps\<close>

text \<open>A row keeps its identity, its status moves along the life cycle, and a deleted key stays deleted.\<close>

definition instance_le :: "Instance \<Rightarrow> Instance \<Rightarrow> bool" where
  "instance_le r r' \<longleftrightarrow>
     in_instance_id r' = in_instance_id r \<and> (in_key_deleted r \<longrightarrow> in_key_deleted r') \<and>
     (in_status r' = in_status r \<or>
      (\<exists>s n. status_from_str (in_status r) = Some s \<and> n \<in> lifecycle s \<and> in_status r' = status_string n))"

definition instances_follow :: "Instance list \<Rightarrow> Instance list \<Rightarrow> bool" where
  "instances_follow = list_all2 instance_le"

abbreviation lawful_step :: "apply_ctx \<Rightarrow> apply_ctx \<Rightarrow> bool" where
  "lawful_step \<equiv> ctx_step instances_follow"

lemma instances_follow_refl [simp]: "instances_follow t t"
  unfolding instances_follow_def by (rule list_all2_refl) (simp add: instance_le_def)

lemma lawful_quiet: "quiet_step c c' \<Longrightarrow> lawful_step c c'"
  by (auto simp: ctx_step_def)

lemma lawful_quiet_trans: "lawful_step a b \<Longrightarrow> quiet_step b c \<Longrightarrow> lawful_step a c"
  by (erule (1) ctx_step_trans) simp

lemma quiet_lawful_trans: "quiet_step a b \<Longrightarrow> lawful_step b c \<Longrightarrow> lawful_step a c"
  by (erule (1) ctx_step_trans) simp

lemma instances_follow_update:
  assumes "\<And>r. instance_update_matches u r \<Longrightarrow> instance_le r (set_instance_columns u now r)"
  shows "instances_follow t (snd (update_instance u now t))"
proof -
  have "instances_follow t (update_rows (instance_update_matches u) (set_instance_columns u now) t)"
    unfolding instances_follow_def update_rows_def
    by (induct t) (simp_all add: assms, simp add: instance_le_def)
  then show ?thesis by (simp add: update_instance_def)
qed

lemma lawful_write:
  assumes "\<And>r. instance_update_matches u r \<Longrightarrow> instance_le r (set_instance_columns u (cx_now c) r)"
  shows "lawful_step c (snd (write_instance u c))"
  unfolding write_instance_def by (simp add: split_beta quiet_store graphs_evolve_refl instances_follow_update assms)

lemma lawful_write_data:
  assumes "iu_status u = None" "iu_key_deleted u \<in> {None, Some True}"
  shows "lawful_step c (snd (write_instance u c))"
  by (rule lawful_write) (use assms in \<open>auto simp: instance_le_def set_instance_columns_def\<close>)

lemma commit_update_simps [simp]:
  "iu_status (commit_update env r s n tr) = Some (status_string n)"
  "iu_only_if_status_in (commit_update env r s n tr) = Some [status_string s]"
  "iu_instance_id (commit_update env r s n tr) = in_instance_id r"
  "iu_key_deleted (commit_update env r s n tr) = None"
  by (auto simp: commit_update_def instance_update_new_def Let_def split: option.split)

lemma lawful_commit_update:
  assumes "n \<in> lifecycle s"
  shows "lawful_step c (snd (write_instance (commit_update env r s n tr) c))"
proof (rule lawful_write)
  fix x
  assume "instance_update_matches (commit_update env r s n tr) x"
  then have "in_status x = status_string s" by (simp add: instance_update_matches_def)
  with assms show "instance_le x (set_instance_columns (commit_update env r s n tr) (cx_now c) x)"
    by (auto simp: instance_le_def set_instance_columns_def status_from_string)
qed

lemma quiet_instance_job [simp, intro]: "quiet_step c (instance_job env action params c)"
  by (simp add: instance_job_def)

lemma quiet_request_key_delete [simp, intro]: "quiet_step c (request_key_delete self env r reason c)"
  by (simp add: request_key_delete_def)

lemma quiet_mirror [simp, intro]: "quiet_step c (mirror s c)"
  by (simp add: mirror_def)

lemma quiet_retire_graph [simp, intro]: "quiet_step c (retire_graph env reason g c)"
  by (simp add: retire_graph_def Let_def)

lemma quiet_obsolete:
  "obsolete_instance_graphs_except i keep now (bd_graphs (cx_store c)) = (res, t) \<Longrightarrow>
   quiet_step c (store (\<lambda>b. b\<lparr> bd_graphs := t \<rparr>) c)"
  using graphs_evolve_obsolete_except [of "bd_graphs (cx_store c)" i keep now] by (intro quiet_store) simp_all

text \<open>The context after each stage of the clean-up.\<close>

lemma enter_failure_stages:
  assumes "enter_failure self env r failed c = Inr c'"
  obtains ids t where
    "obsolete_instance_graphs_except (in_instance_id r) None (cx_now c) (bd_graphs (cx_store c)) = (Inr ids, t)"
    "c' = (let reason = ''instance '' @ status_string failed;
               c1 = store (\<lambda>b. b\<lparr> bd_graphs := t \<rparr>) c;
               c2 = eff (close_outbox (CloseAggregate ''instance'' (uuid_string (nv_msg env) (in_instance_id r))) reason) c1;
               c3 = eff (fold cancel_phase_jobs [''Answer'', ''Presign'', ''Confirm'', ''Post'']) c2;
               c4 = fold (retire_graph env reason) (get_graphs_by_instance_id (in_instance_id r) t) c3;
               c5 = fold (\<lambda>session. release_setup_session (nv_msg env) session reason)
                      (list_pending_graph_inits_by_instance (in_instance_id r) (bd_sessions (cx_store c4))) c4
           in if deletes_key_on_entry failed then request_key_delete self env r ''failure'' c5 else c5)"
  using assms unfolding enter_failure_def Let_def
  by (auto split: prod.splits sum.splits)

lemma quiet_enter_failure:
  assumes "enter_failure self env r failed c = Inr c'"
  shows "quiet_step c c'"
proof -
  obtain ids t where t: "obsolete_instance_graphs_except (in_instance_id r) None (cx_now c) (bd_graphs (cx_store c)) = (Inr ids, t)"
    and c': "c' = (let reason = ''instance '' @ status_string failed;
               c1 = store (\<lambda>b. b\<lparr> bd_graphs := t \<rparr>) c;
               c2 = eff (close_outbox (CloseAggregate ''instance'' (uuid_string (nv_msg env) (in_instance_id r))) reason) c1;
               c3 = eff (fold cancel_phase_jobs [''Answer'', ''Presign'', ''Confirm'', ''Post'']) c2;
               c4 = fold (retire_graph env reason) (get_graphs_by_instance_id (in_instance_id r) t) c3;
               c5 = fold (\<lambda>session. release_setup_session (nv_msg env) session reason)
                      (list_pending_graph_inits_by_instance (in_instance_id r) (bd_sessions (cx_store c4))) c4
           in if deletes_key_on_entry failed then request_key_delete self env r ''failure'' c5 else c5)"
    using assms by (rule enter_failure_stages)
  have delete: "quiet_step x (if b then request_key_delete self env r s x else x)" for x b s by simp
  show ?thesis
    unfolding c' Let_def
    by (rule quiet_trans [OF _ delete], rule quiet_trans [OF _ quiet_fold], rule quiet_trans [OF _ quiet_fold],
        rule quiet_trans [OF _ quiet_eff], rule quiet_trans [OF _ quiet_eff], rule quiet_obsolete [OF t])
      (rule quiet_retire_graph, rule quiet_release_session)
qed

lemma quiet_close_confirm_round [simp, intro]: "quiet_step c (close_confirm_round env i reason c)"
  by (simp add: close_confirm_round_def)

lemma quiet_on_entered:
  assumes "on_entered self env r n c = Inr c'"
  shows "quiet_step c c'"
proof (cases "is_failed n")
  case True
  with assms show ?thesis
    by (cases n) (auto simp: on_entered_def is_failed_def intro: quiet_enter_failure)
next
  case False
  have job: "quiet_step (close_confirm_round env i reason c) (instance_job env action [] (close_confirm_round env i reason c))"
    for i reason action by simp
  from assms False show ?thesis
    by (cases n) (auto simp: on_entered_def Let_def is_failed_def split: if_splits
        intro: quiet_trans [OF quiet_close_confirm_round job] quiet_trans [OF quiet_close_confirm_round quiet_eff])
qed

lemma lawful_commit_status:
  assumes "commit_status self env r s tr c = Inr (final, c')" "\<And>n. tr_next tr = Some n \<Longrightarrow> n \<in> lifecycle s"
  shows "lawful_step c c'"
proof (cases "\<exists>n. tr_next tr = Some n \<and> n \<noteq> s")
  case True
  then obtain n where n: "tr_next tr = Some n" "n \<noteq> s" by blast
  with assms(1) have "on_entered self env r n (snd (write_instance (commit_update env r s n tr) c)) = Inr c'"
    by (auto simp: commit_status_def split_beta Let_def split: if_splits sum.splits)
  from lawful_quiet_trans [OF lawful_commit_update quiet_on_entered [OF this]] show ?thesis
    using assms(2) n by blast
next
  case False
  then have "c' = (case tr_post_pegin_txhash tr of
              None \<Rightarrow> c
            | Some tx_hash \<Rightarrow> snd (write_instance ((instance_update_new (in_instance_id r))\<lparr> iu_post_pegin_txhash := Some tx_hash \<rparr>) c))"
    using assms(1) by (auto simp: commit_status_def split: option.splits)
  then show ?thesis
    by (auto simp: lawful_quiet instance_update_new_def intro!: lawful_write_data split: option.split)
qed

lemma lawful_commit_transition:
  assumes "commit_transition self env r s tr c = Inr c'" "\<And>n. tr_next tr = Some n \<Longrightarrow> n \<in> lifecycle s"
  shows "lawful_step c c'"
proof -
  obtain final d where d: "commit_status self env r s tr c = Inr (final, d)"
    using assms(1) by (auto simp: commit_transition_def split: sum.splits)
  define e where "e = (if tr_prepare_height tr \<noteq> None then instance_job env ''confirm_instance'' [] d else d)"
  define f where "f = (if tr_delete_key tr then request_key_delete self env r ''success'' e else e)"
  have c': "c' = mirror final f"
    using assms(1) d by (auto simp: commit_transition_def Let_def e_def f_def)
  have "quiet_step d e" "quiet_step e f" "quiet_step f c'" by (simp_all add: e_def f_def c')
  with lawful_commit_status [OF d assms(2)] show ?thesis
    by (blast intro: lawful_quiet_trans)
qed


lemma lawful_applied:
  assumes "applied c (commit_transition self env r s tr d) = (result, c')" "quiet_step c d"
    "\<And>n. tr_next tr = Some n \<Longrightarrow> n \<in> lifecycle s"
  shows "lawful_step c c'"
  using assms(1) quiet_lawful_trans [OF assms(2) lawful_commit_transition [OF _ assms(3)]]
  by (auto simp: applied_def lawful_quiet split: sum.splits)

lemma quiet_open_session:
  assumes "open_session env i start c = Inr c'"
  shows "quiet_step c c'"
proof -
  have "quiet_step c (store (\<lambda>b. b\<lparr> bd_sessions := t \<rparr>) c)" for t
    by (rule quiet_store) (simp_all add: graphs_evolve_refl)
  from quiet_trans [OF this quiet_record_event] assms show ?thesis
    by (auto simp: open_session_def split: option.splits)
qed

lemma quiet_apply_plan:
  assumes "instance_apply_plan env r s plan c = Inr c'"
  shows "quiet_step c c'"
proof -
  define d where "d = fold (\<lambda>m c. if confirm_round_over s \<and> pm_phase_ref m = ''Confirm'' then c
                else eff (send (planned_outbox (nv_proto_base env) m)) c) (ip_messages plan) c"
  define e where "e = fold (\<lambda>n c. if confirm_round_over s \<and> instance_job_phase (nx_action n) = ''Confirm'' then c
                else eff (enqueue_job (delayed (cx_now c) (nx_delay_secs n)
                  (job_for (nv_msg env) c (instance_job_phase (nx_action n)) (nx_action n) PoolNetwork (nx_params n)))) c) (ip_next plan) d"
  have "quiet_step c d" "quiet_step d e"
    unfolding d_def e_def by (rule quiet_fold, simp)+
  moreover obtain f where f: "(case ip_start_graph plan of
            Some start \<Rightarrow> if \<not> is_failed s then open_session env (in_instance_id r) start e else Inr e
          | None \<Rightarrow> Inr e) = Inr f" "c' = fold (\<lambda>w. eff (wake w)) (ip_wake_refs plan) f"
    using assms unfolding instance_apply_plan_def Let_def d_def [symmetric] e_def [symmetric] by (auto split: sum.splits)
  moreover have "quiet_step e f"
    using f(1) by (auto split: option.splits if_splits intro: quiet_open_session)
  moreover have "quiet_step f c'"
    unfolding f(2) by (rule quiet_fold) simp
  ultimately show ?thesis by (blast intro: quiet_trans)
qed

lemma lawful_apply_job_result:
  assumes "instance_apply_job_result env r s result c = Inr (outcome, c')"
  shows "lawful_step c c'"
proof -
  have finish: "quiet_step d (mirror s (clear_job_result (jr_job_id result) d))" for d
    by (rule quiet_trans [OF quiet_clear_job_result quiet_mirror])
  have written: "lawful_step c (mirror s (clear_job_result (jr_job_id result)
      (snd (write_instance ((instance_update_new (in_instance_id r))\<lparr> iu_key_deleted := Some True \<rparr>) c))))"
    by (rule lawful_quiet_trans [OF lawful_write_data finish]) (simp_all add: instance_update_new_def)
  have planned: "lawful_step c (mirror s (clear_job_result (jr_job_id result) d))" if "instance_apply_plan env r s plan c = Inr d" for plan d
    by (rule lawful_quiet [OF quiet_trans [OF quiet_apply_plan [OF that] finish]])
  from assms show ?thesis
    unfolding instance_apply_job_result_def Let_def
    by (auto intro: written planned lawful_quiet finish split: if_splits JobResultOutcome.splits sum.splits)
qed

lemma quiet_apply_messages:
  "apply_pegin_request self env s payload c = (outcome, c') \<Longrightarrow> quiet_step c c'"
  "apply_round_message self env i s kind payload c = (outcome, c') \<Longrightarrow> quiet_step c c'"
  by (auto simp: apply_pegin_request_def apply_round_message_def split: if_splits sum.splits option.splits)

lemma lawful_apply_to_instance:
  assumes "apply_to_instance self env i r s e c = (result, c')"
  shows "lawful_step c c'"
proof -
  have jobs: "quiet_step c (if b then instance_job env action params c else c)" for b action params by simp
  note commits = lawful_applied [OF _ jobs snapshot_follows_lifecycle]
    lawful_applied [OF _ quiet_refl decisions_follow_lifecycle(1)]
    lawful_applied [OF _ quiet_refl decisions_follow_lifecycle(2)]
    lawful_applied [OF _ quiet_refl decisions_follow_lifecycle(3)]
  note messages = lawful_quiet [OF quiet_trans [OF quiet_apply_messages(1) quiet_mirror]]
    lawful_quiet [OF quiet_trans [OF quiet_apply_messages(2) quiet_mirror]]
  show ?thesis
    using assms unfolding apply_to_instance_def Let_def
    by (auto simp del: not_None_eq simp: lawful_quiet split: if_split_asm sum.split_asm prod.split_asm
        intro: commits messages lawful_apply_job_result)
qed

lemma lawful_instance_apply:
  assumes "instance_apply self env e c = (result, c')"
  shows "lawful_step c c'"
  using assms unfolding instance_apply_def
  by (auto simp: lawful_quiet split: sum.splits option.splits intro: lawful_apply_to_instance)

lemma instance_handler_lawful:
  assumes "instance_handler self env now a current e db = (result, ef, db')"
  shows "db_evolves db db' \<and>
    (\<forall>k r. find_engine_inbox_event k (db_inbox db) = Some r \<longrightarrow> ie_state r = InboxPending \<longrightarrow>
       find_engine_inbox_event k (db_inbox db') = Some r) \<and>
    graphs_evolve (bd_graphs (db_business db)) (bd_graphs (db_business db')) \<and>
    instances_follow (bd_instances (db_business db)) (bd_instances (db_business db'))"
proof -
  let ?c = "\<lparr> cx_now = now, cx_aggregate = a, cx_current = current, cx_effects = default_effects, cx_db = db \<rparr>"
  obtain c' where "instance_apply self env e ?c = (result, c')" "db' = cx_db c'"
    using assms by (auto simp: instance_handler_def Let_def split: prod.splits)
  then show ?thesis
    using lawful_instance_apply [of self env e ?c result c'] by (simp add: ctx_step_def)
qed

lemma instance_handler_ok: "handler_ok (instance_handler self env)"
  unfolding handler_ok_def using instance_handler_lawful by metis

end
