(* ===== verification/PegoutDecisions.thy ===== *)
theory PegoutDecisions
  imports PeginDecisions
begin

text \<open>
  The decisions of a peg-out (\<^verbatim>\<open>src/node/src/aggregates/graph_pegout.rs\<close>, \<^verbatim>\<open>graph.rs\<close>, \<^verbatim>\<open>graph_fetch.rs\<close>): which job a
  role runs for a signal of the chain, which status a scan gives a graph, and whether an earlier slot of an operator is settled,
  may be skipped or still blocks its successor.

  The decisions are pure functions of collected facts. A verdict's text is kept where the code returns it.
\<close>

section \<open>Lookups, signals and scans\<close>

datatype GraphLookup = LookupId uuid uuid bool | LookupSlot string "64 word"

record GetGraphRequest =
  gr_instance_id :: "uuid option"
  gr_graph_id :: "uuid option"
  gr_operator_pubkey :: "string option"
  gr_graph_nonce :: "64 word option"
  gr_finalized :: bool

definition lookup_request :: "GraphLookup \<Rightarrow> GetGraphRequest" where
  "lookup_request lookup =
     (case lookup of
        LookupId instance_id graph_id finalized \<Rightarrow>
          \<lparr> gr_instance_id = Some instance_id, gr_graph_id = Some graph_id, gr_operator_pubkey = None, gr_graph_nonce = None,
            gr_finalized = finalized \<rparr>
      | LookupSlot operator_pubkey graph_nonce \<Rightarrow>
          \<lparr> gr_instance_id = None, gr_graph_id = None, gr_operator_pubkey = Some operator_pubkey,
            gr_graph_nonce = Some graph_nonce, gr_finalized = False \<rparr>)"

datatype DisproveTxType =
    TypeDisprove | TypeQuickChallenge | TypeChallengeIncompleteKickoff | TypePubinDisprove | TypeOperatorChallengeNack
  | TypeOperatorCommitTimeout

datatype PegoutSignal =
    PreKickoffSent
  | KickoffSent
  | Take1Ready
  | Take1Sent
  | ChallengeSent tx_id
  | WatchtowerChallengeInitSent
  | WatchtowerChallengeSent nat
  | WatchtowerChallengeTimeout
  | NackReady nat
  | OperatorCommitPubinReady
  | OperatorCommitPubinTimeout
  | AssertReady
  | AssertSent tx_id
  | ChallengeAssertSent tx_id nat
  | WronglyChallengeTimeout tx_id nat
  | DisproveSent DisproveTxType nat tx_id
  | Take2Ready
  | Take2Sent

datatype Unusable =
    ConnectorZeroTaken tx_id
  | PrekickoffInputSpent "tx_id \<times> 32 word" tx_id
  | EarlierSlotDead "64 word"

record ChainScan =
  cs_height :: int
  cs_status_at_scan :: string
  cs_stage :: GraphStatus
  cs_sub_status :: "string option"
  cs_challenge_txid :: "tx_id option"
  cs_unusable :: "Unusable option"
  cs_signals :: "PegoutSignal list"

section \<open>Jobs\<close>

definition PEGOUT_JOBS :: "string list" where
  "PEGOUT_JOBS =
     [''kickoff'', ''settle_predecessors'', ''enforce_previous_slot'', ''proceed_withdraw'', ''challenge_kickoff'',
      ''watchtower_challenge_init'', ''watchtower_challenge'', ''watchtower_proof_timeout'', ''challenge_ack'',
      ''watchtower_timeout'', ''challenge_nack'', ''commit_pubin'', ''commit_timeout'', ''prover_assert'', ''verifier_assert'',
      ''wrongly_challenged'', ''disprove'', ''finish_disproved'', ''take1'', ''finish_happy'', ''take2'', ''finish_unhappy'']"

definition pegout_job_pool :: "string \<Rightarrow> JobPool" where
  "pegout_job_pool action =
     (if action \<in> {''watchtower_challenge'', ''commit_pubin'', ''prover_assert'', ''verifier_assert'', ''wrongly_challenged''}
      then PoolPegout else PoolNetwork)"

definition job_pool :: "string \<Rightarrow> JobPool" where
  "job_pool action =
     (if action \<in> set PEGOUT_JOBS then pegout_job_pool action
      else if action \<in> {''verifier_setup'', ''verifier_solder'', ''ingest_soldering_proof'', ''build_graph'',
                ''verifier_validate_graph'', ''committee_ingest_graph'', ''committee_presign'', ''ingest_presign'',
                ''finalize_graph'', ''ingest_finalized''}
      then PoolCpu else PoolNetwork)"

definition route_signal :: "PegoutSignal \<Rightarrow> Actor \<Rightarrow> bool \<Rightarrow> bool \<Rightarrow> string option" where
  "route_signal signal actor relayer own =
     (let when = (\<lambda>condition job. if condition then Some job else None)
      in case signal of
          PreKickoffSent \<Rightarrow> when (actor = ActorVerifier) ''enforce_previous_slot''
        | KickoffSent \<Rightarrow>
            if actor = ActorCommittee \<and> relayer then Some ''proceed_withdraw''
            else when (actor = ActorVerifier) ''challenge_kickoff''
        | ChallengeSent _ \<Rightarrow> when (actor = ActorOperator \<and> own) ''watchtower_challenge_init''
        | WatchtowerChallengeInitSent \<Rightarrow> when (actor = ActorWatchtower) ''watchtower_challenge''
        | AssertSent _ \<Rightarrow>
            if actor = ActorWatchtower then Some ''watchtower_proof_timeout''
            else when (actor = ActorVerifier) ''verifier_assert''
        | WatchtowerChallengeSent _ \<Rightarrow> when (actor = ActorOperator \<and> own) ''challenge_ack''
        | WatchtowerChallengeTimeout \<Rightarrow> when (actor = ActorOperator \<and> own) ''watchtower_timeout''
        | NackReady _ \<Rightarrow> when (actor = ActorVerifier) ''challenge_nack''
        | OperatorCommitPubinReady \<Rightarrow> when (actor = ActorOperator \<and> own) ''commit_pubin''
        | OperatorCommitPubinTimeout \<Rightarrow> when (actor = ActorVerifier) ''commit_timeout''
        | AssertReady \<Rightarrow> when (actor = ActorOperator \<and> own) ''prover_assert''
        | ChallengeAssertSent _ _ \<Rightarrow> when (actor = ActorOperator \<and> own) ''wrongly_challenged''
        | WronglyChallengeTimeout _ _ \<Rightarrow> when (actor = ActorVerifier) ''disprove''
        | DisproveSent _ _ _ \<Rightarrow> when (actor = ActorCommittee \<and> relayer) ''finish_disproved''
        | Take1Ready \<Rightarrow> when (actor = ActorOperator \<and> own) ''take1''
        | Take1Sent \<Rightarrow> when (actor = ActorCommittee \<and> relayer) ''finish_happy''
        | Take2Ready \<Rightarrow> when (actor = ActorOperator \<and> own) ''take2''
        | Take2Sent \<Rightarrow> when (actor = ActorCommittee \<and> relayer) ''finish_unhappy'')"

section \<open>Decisions\<close>

definition decide_status :: "ChainScan \<Rightarrow> bool \<Rightarrow> GraphStatus option" where
  "decide_status scan instance_failed =
     (if cs_stage scan \<in> {PreKickoff, OperatorKickOff, Challenge, Disprove, OperatorTake1, OperatorTake2, Skipped}
      then Some (cs_stage scan)
      else if cs_unusable scan \<noteq> None then Some Obsoleted
      else if cs_stage scan = OperatorDataPushed then Some OperatorDataPushed
      else if cs_stage scan \<in> {OperatorPresigned, CommitteePresigned} \<and> instance_failed then Some Obsoleted
      else None)"

datatype KickoffConnectorSpend = Unspent | ByKickoff | ByOther

record LocalSlot =
  ls_graph_id :: uuid
  ls_instance_id :: uuid
  ls_status :: GraphStatus
  ls_finalized :: bool
  ls_instance_status :: "InstanceBridgeInStatus option"

record SlotFacts =
  sf_slot :: "64 word"
  sf_local :: "LocalSlot option"
  sf_kickoff_connector :: KickoffConnectorSpend
  sf_prekickoff_dead :: bool
  sf_posted :: bool
  sf_connector_zero_taken :: bool
  sf_cancel_confirmed :: bool
  sf_confirm :: TxFact
  sf_past_abandon_height :: bool

datatype SlotVerdict = Settled | Pull GraphLookup | Skip string | Wait string | Stuck string

definition decide_slot :: "SlotFacts \<Rightarrow> string \<Rightarrow> SlotVerdict" where
  "decide_slot facts operator_pubkey =
     (let slot = show_nat (unat (sf_slot facts))
      in case sf_local facts of
          None \<Rightarrow> Pull (LookupSlot operator_pubkey (sf_slot facts))
        | Some local \<Rightarrow>
            if sf_kickoff_connector facts = ByOther \<or> is_closed (ls_status local) then Settled
            else if sf_kickoff_connector facts = ByKickoff \<or> is_pegout_started (ls_status local)
            then Wait (''slot '' @ slot @ '' is in peg-out'')
            else if sf_prekickoff_dead facts
            then Stuck (''Pre-Kickoff of slot '' @ slot @ '' can never confirm: an input is spent elsewhere'')
            else if sf_posted facts
            then if \<not> ls_finalized local then Pull (LookupId (ls_instance_id local) (ls_graph_id local) True)
                 else if sf_connector_zero_taken facts then Skip ''connector-0 taken by another graph''
                 else Wait (''slot '' @ slot @ '' is posted and available for withdrawal'')
            else if sf_connector_zero_taken facts then Skip ''connector-0 taken by another graph''
            else if sf_cancel_confirmed facts then Skip ''peg-in canceled''
            else case ls_instance_status local of
                Some status \<Rightarrow>
                  if is_failed status
                  then if tf_confirmed (sf_confirm facts)
                       then Stuck (''Peg-In-Confirm of slot '' @ slot @ '' is confirmed although its instance is '' @
                                   status_string status)
                       else if tf_in_mempool (sf_confirm facts)
                       then Wait (''Peg-In-Confirm of slot '' @ slot @ '' is in the mempool'')
                       else if status = Timeout then Skip ''instance timed out''
                       else Skip ''instance failed''
                  else if sf_past_abandon_height facts \<and> (\<not> ls_finalized local \<or> ls_status local = Obsoleted)
                  then Skip ''unfinished at the abandon height''
                  else Wait (''slot '' @ slot @ '' ('' @ (if ls_finalized local then ''finalized'' else ''unfinished'') @
                             '') belongs to a live instance ('' @ status_string status @ '')'')
              | None \<Rightarrow> Wait (''instance of slot '' @ slot @ '' is unknown''))"

text \<open>The local copy of the slot before this one: \<open>None\<close> when it is settled, else why not.\<close>

definition predecessor_settled :: "(uuid \<Rightarrow> string) \<Rightarrow> string \<Rightarrow> 64 word \<Rightarrow> Graph list \<Rightarrow> string option" where
  "predecessor_settled uuid_text operator_pubkey graph_nonce t =
     (if graph_nonce = 0 then None
      else case find_graph_by_operator_slot operator_pubkey (sint graph_nonce - 1) t of
          Some previous \<Rightarrow>
            if (case graph_status_from_str (gh_status previous) of None \<Rightarrow> False | Some status \<Rightarrow> is_closed status) then None
            else Some (''previous slot '' @ show_int (gh_kickoff_index previous) @ '' (graph '' @
                       uuid_text (gh_graph_id previous) @ '') is '' @ gh_status previous)
        | None \<Rightarrow> Some (''previous slot '' @ show_nat (unat (graph_nonce - 1)) @ '' is not stored''))"

section \<open>What the decisions show\<close>

lemma skip_facts:
  assumes "decide_slot facts op = Skip reason"
  obtains local where "sf_local facts = Some local" "sf_kickoff_connector facts = Unspent"
    "\<not> is_closed (ls_status local)" "\<not> is_pegout_started (ls_status local)" "\<not> sf_prekickoff_dead facts"
    "sf_posted facts \<Longrightarrow> sf_connector_zero_taken facts \<and> ls_finalized local"
    "\<not> sf_connector_zero_taken facts \<Longrightarrow> \<not> sf_cancel_confirmed facts \<Longrightarrow>
       \<exists>s. ls_instance_status local = Some s \<and>
         (is_failed s \<and> invisible (sf_confirm facts) \<or>
          \<not> is_failed s \<and> sf_past_abandon_height facts \<and> (\<not> ls_finalized local \<or> ls_status local = Obsoleted))"
  using assms
  by (cases "sf_kickoff_connector facts")
    (fastforce simp: decide_slot_def Let_def invisible_def split: option.splits if_splits)+

lemma route_signal_own:
  "route_signal signal ActorOperator relayer own = Some job \<Longrightarrow> own"
  by (cases signal) (auto simp: route_signal_def split: if_splits)

lemma route_signal_pegout: "route_signal signal actor relayer own = Some job \<Longrightarrow> job \<in> set PEGOUT_JOBS"
  by (cases signal) (auto simp: route_signal_def PEGOUT_JOBS_def split: if_splits)

lemma decide_status_stage:
  "decide_status scan failed = Some s \<Longrightarrow> s \<noteq> Obsoleted \<Longrightarrow> s = cs_stage scan"
  by (auto simp: decide_status_def split: if_splits)

end
