(* ===== verification/InstanceScan.thy ===== *)
theory InstanceScan
  imports InstanceAggregate
begin

text \<open>
  The scans that feed the Instance aggregate (\<^verbatim>\<open>src/node/src/aggregates/instance_scan.rs\<close>, \<^verbatim>\<open>common.rs\<close>,
  \<^verbatim>\<open>src/node/src/utils/btc.rs\<close>): the facts about the transactions of a peg-in, the marks that keep a scan from repeating at
  one tip, and the rows that requests on Goat create.

  The answers of the Bitcoin data source are functions of a view; a failed request is a value, so a scan that cannot see a
  transaction is told apart from one that knows it is absent. Pages of the scan and the requests to Goat are not modelled.

  The lemmas show what a collected fact says about the view, and that a peg-in is only given up when the data source does
  not know its Peg-In-Confirm.
\<close>

section \<open>The Bitcoin data source\<close>

record TxInfo =
  ti_confirmed :: bool
  ti_block_height :: "nat option"
  ti_vout_len :: nat

record OutputStatus =
  ou_spent :: bool
  ou_txid :: "tx_id option"

record btc_view =
  bv_tx_info :: "tx_id \<Rightarrow> anyhow_error + TxInfo option"
  bv_output_status :: "tx_id \<Rightarrow> nat \<Rightarrow> anyhow_error + OutputStatus option"
  bv_tx_confirmed :: "tx_id \<Rightarrow> anyhow_error + bool"
  bv_tx_visible :: "tx_id \<Rightarrow> anyhow_error + bool"

text \<open>The next step of a computation that may fail.\<close>

definition ebind :: "'e + 'a \<Rightarrow> ('a \<Rightarrow> 'e + 'b) \<Rightarrow> 'e + 'b" where
  "ebind r f = (case r of Inl e \<Rightarrow> Inl e | Inr x \<Rightarrow> f x)"

lemma ebind_simps [simp]: "ebind (Inl e) f = Inl e" "ebind (Inr x) f = f x"
  by (simp_all add: ebind_def)

lemma ebind_InrE: "ebind r f = Inr y \<Longrightarrow> (\<And>x. r = Inr x \<Longrightarrow> f x = Inr y \<Longrightarrow> thesis) \<Longrightarrow> thesis"
  by (cases r) auto

definition unknown_tx :: TxFact where
  "unknown_tx = \<lparr> tf_confirmed = False, tf_block_height = None, tf_in_mempool = False \<rparr>"

definition tx_fact :: "btc_view \<Rightarrow> tx_id \<Rightarrow> anyhow_error + TxFact" where
  "tx_fact v txid =
     ebind (bv_tx_info v txid) (\<lambda>info.
       Inr (case info of
              None \<Rightarrow> unknown_tx
            | Some tx \<Rightarrow> \<lparr> tf_confirmed = ti_confirmed tx, tf_block_height = map_option int (ti_block_height tx),
                            tf_in_mempool = \<not> ti_confirmed tx \<rparr>))"

text \<open>The fact of a transaction whose id may be unknown.\<close>

definition known_fact :: "btc_view \<Rightarrow> tx_id option \<Rightarrow> anyhow_error + TxFact option" where
  "known_fact v txid = (case txid of None \<Rightarrow> Inr None | Some txid \<Rightarrow> ebind (tx_fact v txid) (\<lambda>f. Inr (Some f)))"

text \<open>An input whose id does not parse, or whose status cannot be read, counts as unspent.\<close>

fun check_bridge_in_uxto_available_or_self_spent :: "btc_view \<Rightarrow> tx_id option \<Rightarrow> (tx_id option \<times> nat) list \<Rightarrow> bool" where
  "check_bridge_in_uxto_available_or_self_spent v target [] = True"
| "check_bridge_in_uxto_available_or_self_spent v target ((txid, vout) # utxos) =
     (case txid of
        None \<Rightarrow> check_bridge_in_uxto_available_or_self_spent v target utxos
      | Some txid \<Rightarrow>
          (case bv_output_status v txid vout of
             Inr (Some status) \<Rightarrow>
               if ou_spent status then target \<noteq> None \<and> ou_txid status = target
               else check_bridge_in_uxto_available_or_self_spent v target utxos
           | _ \<Rightarrow> check_bridge_in_uxto_available_or_self_spent v target utxos))"

section \<open>Snapshots\<close>

definition empty_snapshot :: "int \<Rightarrow> InstanceBridgeInStatus \<Rightarrow> BtcSnapshot" where
  "empty_snapshot height status = \<lparr> bs_height = height, bs_status_at_scan = status_string status, bs_prepare = None,
     bs_confirm = None, bs_cancel = None, bs_inputs_available = None \<rparr>"

definition prepare_facts ::
    "btc_view \<Rightarrow> (tx_id option \<times> nat) list \<Rightarrow> tx_id \<Rightarrow> BtcSnapshot \<Rightarrow> anyhow_error + TxFact \<times> BtcSnapshot" where
  "prepare_facts v utxos txid s =
     ebind (tx_fact v txid) (\<lambda>prepare.
       Inr (prepare, s\<lparr> bs_prepare := Some prepare,
         bs_inputs_available := if tf_confirmed prepare then bs_inputs_available s
           else Some (check_bridge_in_uxto_available_or_self_spent v (Some txid) utxos) \<rparr>))"

definition confirm_and_cancel :: "btc_view \<Rightarrow> Instance \<Rightarrow> BtcSnapshot \<Rightarrow> anyhow_error + BtcSnapshot" where
  "confirm_and_cancel v r s =
     ebind (known_fact v (in_pegin_confirm_txid r)) (\<lambda>confirm.
       ebind (known_fact v (in_pegin_cancel_txid r)) (\<lambda>cancel.
         Inr (s\<lparr> bs_confirm := confirm, bs_cancel := cancel \<rparr>)))"

definition gather_snapshot ::
    "btc_view \<Rightarrow> (string \<Rightarrow> anyhow_error + (tx_id option \<times> nat) list) \<Rightarrow> Instance \<Rightarrow> InstanceBridgeInStatus \<Rightarrow> int \<Rightarrow>
     anyhow_error + BtcSnapshot option" where
  "gather_snapshot v parse_utxos r status height =
     ebind (parse_utxos (in_input_utxos r)) (\<lambda>utxos.
       let s = empty_snapshot height status
       in case status of
           CommitteesAnswered \<Rightarrow>
             (case in_btc_txid r of
                None \<Rightarrow> Inr (Some s)
              | Some prepare_txid \<Rightarrow>
                  ebind (prepare_facts v utxos prepare_txid s) (\<lambda>(prepare, s).
                    if tf_confirmed prepare then ebind (confirm_and_cancel v r s) (\<lambda>s. Inr (Some s))
                    else Inr (Some s)))
         | UserBroadcastPeginPrepare \<Rightarrow>
             ebind (confirm_and_cancel v r s) (\<lambda>s.
               case in_btc_txid r of
                 None \<Rightarrow> Inr (Some s)
               | Some prepare_txid \<Rightarrow> ebind (prepare_facts v utxos prepare_txid s) (\<lambda>(_, s). Inr (Some s)))
         | Presigned \<Rightarrow> ebind (confirm_and_cancel v r s) (\<lambda>s. Inr (Some s))
         | Timeout \<Rightarrow> ebind (confirm_and_cancel v r s) (\<lambda>s. Inr (Some s))
         | RelayerL1Broadcasted \<Rightarrow>
             if in_pegin_confirm_txid r = None \<or> in_key_deleted r then Inr None
             else ebind (known_fact v (in_pegin_confirm_txid r)) (\<lambda>f. Inr (Some (s\<lparr> bs_confirm := f \<rparr>)))
         | RelayerL2Minted \<Rightarrow>
             if in_pegin_confirm_txid r = None \<or> in_key_deleted r then Inr None
             else ebind (known_fact v (in_pegin_confirm_txid r)) (\<lambda>f. Inr (Some (s\<lparr> bs_confirm := f \<rparr>)))
         | _ \<Rightarrow> Inr None)"

definition snapshot_event :: "message_env \<Rightarrow> (BtcSnapshot \<Rightarrow> bytes) \<Rightarrow> uuid \<Rightarrow> BtcSnapshot \<Rightarrow> new_event" where
  "snapshot_event env to_vec instance_id s =
     new_event_new (''instance:'' @ uuid_string env instance_id @ '':btc:'' @ show_int (bs_height s) @ '':'' @ bs_status_at_scan s)
       (instance_ref env instance_id) ''btc_snapshot'' SourceHeight (to_vec s)"

section \<open>Marks\<close>

text \<open>The last tip and status scanned for an id. A full table is started over.\<close>

type_synonym 's scan_marks = "(uuid \<times> int \<times> 's) list"

definition SCAN_MARKS_LIMIT :: nat where "SCAN_MARKS_LIMIT = 50000"

definition marks_seen :: "uuid \<Rightarrow> int \<Rightarrow> 's \<Rightarrow> 's scan_marks \<Rightarrow> bool" where
  "marks_seen k height status marks \<longleftrightarrow> map_of marks k = Some (height, status)"

definition marks_mark :: "uuid \<Rightarrow> int \<Rightarrow> 's \<Rightarrow> 's scan_marks \<Rightarrow> 's scan_marks" where
  "marks_mark k height status marks =
     AList.update k (height, status) (if SCAN_MARKS_LIMIT \<le> length marks then [] else marks)"

definition marks_forget :: "uuid \<Rightarrow> 's scan_marks \<Rightarrow> 's scan_marks" where
  "marks_forget k marks = AList.delete k marks"

record instance_scan_state =
  is_marks :: "InstanceBridgeInStatus scan_marks"
  is_settled :: "uuid list"
  is_events :: "new_event list"

definition mark_settled_timeout :: "uuid \<Rightarrow> uuid list \<Rightarrow> uuid list" where
  "mark_settled_timeout k ids = List.insert k (if SCAN_MARKS_LIMIT \<le> length ids then [] else ids)"

definition scanned_statuses :: "Actor \<Rightarrow> bool \<Rightarrow> InstanceBridgeInStatus list" where
  "scanned_statuses actor key_delete_enabled =
     [CommitteesAnswered, UserBroadcastPeginPrepare, Presigned, Timeout] @
     (if actor = ActorCommittee \<and> key_delete_enabled then [RelayerL1Broadcasted, RelayerL2Minted] else [])"

text \<open>One instance of the page; the events are those submitted so far.\<close>

definition scan_instance ::
    "message_env \<Rightarrow> (BtcSnapshot \<Rightarrow> bytes) \<Rightarrow> btc_view \<Rightarrow> (string \<Rightarrow> anyhow_error + (tx_id option \<times> nat) list) \<Rightarrow> int \<Rightarrow>
     Instance \<Rightarrow> instance_scan_state \<Rightarrow> instance_scan_state" where
  "scan_instance env to_vec v parse_utxos height r st =
     (let k = in_instance_id r
      in case status_from_str (in_status r) of
          None \<Rightarrow> st
        | Some status \<Rightarrow>
            if marks_seen k height status (is_marks st) \<or> status = Timeout \<and> k \<in> set (is_settled st) then st
            else case gather_snapshot v parse_utxos r status height of
                Inl _ \<Rightarrow> st
              | Inr None \<Rightarrow> st\<lparr> is_marks := marks_forget k (is_marks st) \<rparr>
              | Inr (Some s) \<Rightarrow>
                  st\<lparr> is_events := is_events st @ [snapshot_event env to_vec k s],
                      is_marks := marks_mark k height status (is_marks st),
                      is_settled := if status = Timeout \<and> has_confirmed (bs_confirm s)
                        then mark_settled_timeout k (is_settled st) else is_settled st \<rparr>)"

section \<open>Requests on Goat\<close>

text \<open>
  The transaction of a pending request: the row is refreshed while the answer window is open, and only inserted after
  it. The event follows in the first case.
\<close>

definition store_pegin_request :: "message_env \<Rightarrow> (string \<Rightarrow> bytes) \<Rightarrow> string \<Rightarrow> bool \<Rightarrow> Instance \<Rightarrow> int \<Rightarrow> bridge_db engine_db \<Rightarrow> bridge_db engine_db" where
  "store_pegin_request env to_vec tx_hash outside_window x now db =
     (let b = db_business db
      in if outside_window
         then db\<lparr> db_business := b\<lparr> bd_instances := snd (insert_instance_if_absent x (bd_instances b)) \<rparr> \<rparr>
         else snd (submit_in
                (new_event_new (''instance:'' @ uuid_string env (in_instance_id x) @ '':pegin-request:'' @ tx_hash)
                   (instance_ref env (in_instance_id x)) ''pegin_request'' SourceChain (to_vec tx_hash))
                now (db\<lparr> db_business := b\<lparr> bd_instances := snd (upsert_pegin_request_instance x (bd_instances b)) \<rparr> \<rparr>)))"

section \<open>What a snapshot says\<close>

lemma known_fact_seen:
  assumes "known_fact v txid = Inr (Some f)"
  obtains k info where "txid = Some k" "bv_tx_info v k = Inr info"
    "tf_confirmed f \<longleftrightarrow> (\<exists>t. info = Some t \<and> ti_confirmed t)"
    "tf_in_mempool f \<longleftrightarrow> (\<exists>t. info = Some t \<and> \<not> ti_confirmed t)"
  using assms
  by (auto simp: known_fact_def tx_fact_def unknown_tx_def elim!: ebind_InrE split: option.split_asm)

lemma confirm_and_cancel_confirm:
  "confirm_and_cancel v r s = Inr s' \<Longrightarrow>
   known_fact v (in_pegin_confirm_txid r) = Inr (bs_confirm s') \<and> bs_height s' = bs_height s"
  by (auto simp: confirm_and_cancel_def elim!: ebind_InrE)

lemma prepare_facts_confirm:
  "prepare_facts v utxos txid s = Inr (p, s') \<Longrightarrow> bs_confirm s' = bs_confirm s \<and> bs_height s' = bs_height s"
  by (auto simp: prepare_facts_def elim!: ebind_InrE)

lemma gather_confirm:
  assumes "gather_snapshot v parse_utxos r status height = Inr (Some s)"
  shows "bs_height s = height \<and> (bs_confirm s = None \<or> known_fact v (in_pegin_confirm_txid r) = Inr (bs_confirm s))"
  using assms unfolding gather_snapshot_def Let_def
  by (auto simp: empty_snapshot_def elim!: ebind_InrE
      dest!: confirm_and_cancel_confirm prepare_facts_confirm
      split: InstanceBridgeInStatus.split_asm option.split_asm prod.split_asm if_split_asm)

text \<open>A fact that says the Confirm is invisible means the data source does not know it.\<close>

lemma invisible_unknown:
  "known_fact v txid = Inr (Some f) \<Longrightarrow> invisible f \<Longrightarrow> \<exists>k. txid = Some k \<and> bv_tx_info v k = Inr None"
  by (erule known_fact_seen) (auto simp: invisible_def)

text \<open>A second pass over an instance at the same tip and status submits nothing.\<close>

lemma scan_instance_idempotent:
  assumes "scan_instance env to_vec v parse_utxos height r st = st'" "is_events st' \<noteq> is_events st"
  shows "scan_instance env to_vec v' parse_utxos height r st' = st'"
proof -
  obtain status where "status_from_str (in_status r) = Some status"
    "marks_seen (in_instance_id r) height status (is_marks st')"
    using assms by (auto simp: scan_instance_def Let_def marks_mark_def marks_seen_def update_conv
        split: option.split_asm if_split_asm sum.split_asm)
  then show ?thesis by (simp add: scan_instance_def)
qed

end
