(* ===== verification/GraphChainState.thy ===== *)
theory GraphChainState
  imports PegoutDecisions InstanceScan
begin

text \<open>
  What both chains say about a graph (\<^verbatim>\<open>src/node/src/utils/graph_chain_state.rs\<close>, \<^verbatim>\<open>btc.rs\<close>): the stage it reached and, in a
  challenge, how far each branch got.

  A graph appears as the ids of its transactions, which the code computes from its definition; the positions of connectors
  come from the transaction library and are fields of a topology. An index out of range is a panic, a failed request an
  error; both end the scan without a result.

  The lemmas show that every closed stage is backed by a confirmed transaction of the graph or of its connectors.
\<close>

section \<open>Graphs and outputs\<close>

type_synonym outpoint = "tx_id \<times> nat"

record chain_graph =
  cg_committee_pre_signed :: bool
  cg_watchtower_num :: nat
  cg_prekickoff :: tx_id
  cg_prekickoff_inputs :: "outpoint list"
  cg_kickoff :: tx_id
  cg_take1 :: tx_id
  cg_take1_input :: "outpoint option"
  cg_take2 :: tx_id
  cg_quick_challenge :: tx_id
  cg_challenge_incomplete_kickoff :: tx_id
  cg_nacks :: "tx_id list"
  cg_commit_timeout :: tx_id
  cg_watchtower_challenge_init :: tx_id
  cg_operator_assert :: tx_id
  cg_verifier_asserts :: "tx_id list"
  cg_disproves :: "tx_id list"
  cg_connector_a :: "anyhow_error + outpoint"
  cg_connector_d :: "anyhow_error + outpoint"
  cg_network :: Network
  cg_timelocks :: timelock_config

record topology =
  tp_kickoff_connector :: nat
  tp_connector_a :: nat
  tp_guardian :: nat
  tp_watchtower_num :: "nat \<Rightarrow> nat"
  tp_connector_e :: "nat \<Rightarrow> nat"
  tp_connector_f :: "nat \<Rightarrow> nat"
  tp_watchtower_connector :: "nat \<Rightarrow> nat"
  tp_ack_connector :: "nat \<Rightarrow> nat"
  tp_connector_d :: "nat \<Rightarrow> nat"

datatype scan_error = ScanFailed anyhow_error | ScanPanicked

definition req :: "anyhow_error + 'a \<Rightarrow> scan_error + 'a" where
  "req r = (case r of Inl e \<Rightarrow> Inl (ScanFailed e) | Inr x \<Rightarrow> Inr x)"

lemma req_Inr [simp]: "req r = Inr x \<longleftrightarrow> r = Inr x"
  by (cases r) (auto simp: req_def)

definition outpoint_spent_txid :: "btc_view \<Rightarrow> tx_id \<Rightarrow> nat \<Rightarrow> scan_error + tx_id option" where
  "outpoint_spent_txid v txid vout =
     ebind (req (bv_output_status v txid vout)) (\<lambda>s. Inr (case s of None \<Rightarrow> None | Some status \<Rightarrow> ou_txid status))"

definition outpoint_spent_confirmed :: "btc_view \<Rightarrow> tx_id \<Rightarrow> nat \<Rightarrow> scan_error + tx_id option" where
  "outpoint_spent_confirmed v txid vout =
     ebind (outpoint_spent_txid v txid vout) (\<lambda>s.
       case s of
         None \<Rightarrow> Inr None
       | Some spender \<Rightarrow> ebind (req (bv_tx_confirmed v spender)) (\<lambda>confirmed. Inr (if confirmed then Some spender else None)))"

section \<open>Scan results\<close>

datatype VerifierChallengeStatus = NotChallenged | VerifierAsserted | ProverAnswered | Disproved

record ChallengeSubStatus =
  ss_watchtower_challenge_status :: "bool list"
  ss_verifier_challenge_status :: "VerifierChallengeStatus list"
  ss_disprove_type :: "DisproveTxType option"
  ss_disprove_index :: int

record DetectedDisprove =
  dd_disprove_type :: DisproveTxType
  dd_index :: nat
  dd_challenge_finish_txid :: tx_id

record GraphChainScan =
  gc_status :: GraphStatus
  gc_sub_status :: ChallengeSubStatus
  gc_challenge_txid :: "tx_id option"
  gc_disprove :: "DetectedDisprove option"

definition initial_challenge_sub_status :: "nat \<Rightarrow> nat \<Rightarrow> ChallengeSubStatus" where
  "initial_challenge_sub_status watchtower_num verifier_num =
     \<lparr> ss_watchtower_challenge_status = replicate watchtower_num False,
       ss_verifier_challenge_status = replicate verifier_num NotChallenged, ss_disprove_type = None, ss_disprove_index = 0 \<rparr>"

definition scan_ends ::
    "GraphStatus \<Rightarrow> ChallengeSubStatus \<Rightarrow> tx_id option \<Rightarrow> DetectedDisprove option \<Rightarrow> scan_error + GraphChainScan" where
  "scan_ends status sub challenge disprove =
     Inr \<lparr> gc_status = status, gc_sub_status = sub, gc_challenge_txid = challenge, gc_disprove = disprove \<rparr>"

definition scan_disproved :: "ChallengeSubStatus \<Rightarrow> tx_id option \<Rightarrow> DetectedDisprove \<Rightarrow> scan_error + GraphChainScan" where
  "scan_disproved sub challenge d =
     scan_ends Disprove (sub\<lparr> ss_disprove_type := Some (dd_disprove_type d), ss_disprove_index := int (dd_index d) \<rparr>)
       challenge (Some d)"

section \<open>Detection\<close>

definition detected :: "DisproveTxType \<Rightarrow> nat \<Rightarrow> tx_id \<Rightarrow> DetectedDisprove" where
  "detected type index txid = \<lparr> dd_disprove_type = type, dd_index = index, dd_challenge_finish_txid = txid \<rparr>"

definition detect_guardian_disprove :: "btc_view \<Rightarrow> chain_graph \<Rightarrow> scan_error + DetectedDisprove option" where
  "detect_guardian_disprove v g =
     ebind (req (bv_tx_confirmed v (cg_quick_challenge g))) (\<lambda>quick.
       if quick then Inr (Some (detected TypeQuickChallenge 0 (cg_quick_challenge g)))
       else ebind (req (bv_tx_confirmed v (cg_challenge_incomplete_kickoff g))) (\<lambda>incomplete.
         Inr (if incomplete then Some (detected TypeChallengeIncompleteKickoff 0 (cg_challenge_incomplete_kickoff g))
              else None)))"

fun index_of :: "tx_id \<Rightarrow> nat \<Rightarrow> tx_id list \<Rightarrow> nat option" where
  "index_of x i [] = None"
| "index_of x i (y # ys) = (if x = y then Some i else index_of x (Suc i) ys)"

definition detect_connector_d_disprove :: "btc_view \<Rightarrow> chain_graph \<Rightarrow> scan_error + DetectedDisprove option" where
  "detect_connector_d_disprove v g =
     ebind (req (cg_connector_d g)) (\<lambda>(txid, vout).
       ebind (outpoint_spent_confirmed v txid vout) (\<lambda>s.
         Inr (case s of
                None \<Rightarrow> None
              | Some spender \<Rightarrow>
                  if spender = cg_take2 g then None
                  else Some (case index_of spender 0 (cg_disproves g) of
                      Some index \<Rightarrow> detected TypeDisprove index spender
                    | None \<Rightarrow> detected TypePubinDisprove 0 spender))))"

fun detect_nack :: "btc_view \<Rightarrow> nat \<Rightarrow> tx_id list \<Rightarrow> scan_error + DetectedDisprove option" where
  "detect_nack v i [] = Inr None"
| "detect_nack v i (txid # txids) =
     ebind (req (bv_tx_confirmed v txid)) (\<lambda>confirmed.
       if confirmed then Inr (Some (detected TypeOperatorChallengeNack i txid)) else detect_nack v (Suc i) txids)"

definition detect_watchtower_flow_disprove :: "btc_view \<Rightarrow> chain_graph \<Rightarrow> scan_error + DetectedDisprove option" where
  "detect_watchtower_flow_disprove v g =
     ebind (detect_nack v 0 (cg_nacks g)) (\<lambda>nack.
       case nack of
         Some d \<Rightarrow> Inr (Some d)
       | None \<Rightarrow>
           ebind (req (bv_tx_confirmed v (cg_commit_timeout g))) (\<lambda>confirmed.
             Inr (if confirmed then Some (detected TypeOperatorCommitTimeout 0 (cg_commit_timeout g)) else None)))"

section \<open>The scan\<close>

primrec watchtower_statuses :: "btc_view \<Rightarrow> topology \<Rightarrow> tx_id \<Rightarrow> nat list \<Rightarrow> scan_error + bool list" where
  "watchtower_statuses v tp txid [] = Inr []"
| "watchtower_statuses v tp txid (i # is) =
     ebind (outpoint_spent_txid v txid (tp_watchtower_connector tp i)) (\<lambda>spent.
       ebind (watchtower_statuses v tp txid is) (\<lambda>rest. Inr ((spent \<noteq> None) # rest)))"

primrec verifier_branches ::
    "btc_view \<Rightarrow> chain_graph \<Rightarrow> nat list \<Rightarrow> ChallengeSubStatus \<times> DetectedDisprove option \<Rightarrow>
     scan_error + ChallengeSubStatus \<times> DetectedDisprove option" where
  "verifier_branches v g [] st = Inr st"
| "verifier_branches v g (i # is) st =
     (let (sub, d) = st;
          set_status = (\<lambda>s. sub\<lparr> ss_verifier_challenge_status := (ss_verifier_challenge_status sub)[i := s] \<rparr>);
          assert_txid = cg_verifier_asserts g ! i
      in if length (cg_disproves g) \<le> i then Inl ScanPanicked
         else ebind (req (bv_tx_visible v assert_txid)) (\<lambda>visible.
           if \<not> visible then verifier_branches v g is (sub, d)
           else ebind (outpoint_spent_confirmed v assert_txid 0) (\<lambda>spent.
             case spent of
               None \<Rightarrow> verifier_branches v g is (set_status VerifierAsserted, d)
             | Some txid \<Rightarrow>
                 if txid = cg_disproves g ! i
                 then verifier_branches v g is
                        ((set_status Disproved)\<lparr> ss_disprove_type := Some TypeDisprove, ss_disprove_index := int i \<rparr>,
                         Some (detected TypeDisprove i txid))
                 else verifier_branches v g is (set_status ProverAnswered, d))))"

definition scan_asserted ::
    "btc_view \<Rightarrow> chain_graph \<Rightarrow> ChallengeSubStatus \<Rightarrow> tx_id \<Rightarrow> scan_error + GraphChainScan" where
  "scan_asserted v g sub challenge =
     ebind (verifier_branches v g [0..<length (cg_verifier_asserts g)] (sub, None)) (\<lambda>(sub, d).
       case d of
         Some d \<Rightarrow> scan_ends Disprove sub (Some challenge) (Some d)
       | None \<Rightarrow>
           ebind (detect_connector_d_disprove v g) (\<lambda>d.
             case d of
               Some d \<Rightarrow> scan_disproved sub (Some challenge) d
             | None \<Rightarrow>
                 ebind (req (bv_tx_confirmed v (cg_take2 g))) (\<lambda>taken.
                   scan_ends (if taken then OperatorTake2 else Challenge) sub (Some challenge) None)))"

definition scan_challenged ::
    "btc_view \<Rightarrow> topology \<Rightarrow> chain_graph \<Rightarrow> ChallengeSubStatus \<Rightarrow> tx_id \<Rightarrow> scan_error + GraphChainScan" where
  "scan_challenged v tp g sub challenge =
     ebind (detect_guardian_disprove v g) (\<lambda>d.
       case d of
         Some d \<Rightarrow> scan_disproved sub (Some challenge) d
       | None \<Rightarrow>
           ebind (detect_watchtower_flow_disprove v g) (\<lambda>d.
             case d of
               Some d \<Rightarrow> scan_disproved sub (Some challenge) d
             | None \<Rightarrow>
                 ebind (req (bv_tx_visible v (cg_watchtower_challenge_init g))) (\<lambda>on_chain.
                   if \<not> on_chain then scan_ends Challenge sub (Some challenge) None
                   else ebind (watchtower_statuses v tp (cg_watchtower_challenge_init g) [0..<cg_watchtower_num g]) (\<lambda>flags.
                     let sub = sub\<lparr> ss_watchtower_challenge_status := flags \<rparr>
                     in ebind (req (bv_tx_visible v (cg_operator_assert g))) (\<lambda>asserted.
                       if \<not> asserted then scan_ends Challenge sub (Some challenge) None
                       else scan_asserted v g sub challenge)))))"

definition scan_kicked_off ::
    "btc_view \<Rightarrow> topology \<Rightarrow> chain_graph \<Rightarrow> ChallengeSubStatus \<Rightarrow> scan_error + GraphChainScan" where
  "scan_kicked_off v tp g sub =
     ebind (detect_guardian_disprove v g) (\<lambda>d.
       case d of
         Some d \<Rightarrow> scan_disproved sub None d
       | None \<Rightarrow>
           ebind (req (cg_connector_a g)) (\<lambda>(txid, vout).
             ebind (outpoint_spent_confirmed v txid vout) (\<lambda>spent.
               case spent of
                 None \<Rightarrow> scan_ends OperatorKickOff sub None None
               | Some spent_txid \<Rightarrow>
                   if spent_txid \<noteq> cg_take1 g then scan_challenged v tp g sub spent_txid
                   else scan_ends OperatorTake1 sub None None)))"

text \<open>Whether the graph is posted is asked of Goat.\<close>

definition scan_graph_chain_state ::
    "btc_view \<Rightarrow> topology \<Rightarrow> anyhow_error + bool \<Rightarrow> chain_graph \<Rightarrow> scan_error + GraphChainScan" where
  "scan_graph_chain_state v tp posted g =
     (let sub = initial_challenge_sub_status (cg_watchtower_num g) (length (cg_verifier_asserts g))
      in ebind (req posted) (\<lambda>posted.
           ebind (req (bv_tx_confirmed v (cg_prekickoff g))) (\<lambda>prekickoff.
             if \<not> prekickoff
             then scan_ends (if posted then OperatorDataPushed
                    else if cg_committee_pre_signed g then CommitteePresigned else OperatorPresigned) sub None None
             else ebind (outpoint_spent_confirmed v (cg_prekickoff g) (tp_kickoff_connector tp)) (\<lambda>spent.
               case spent of
                 Some spent_txid \<Rightarrow>
                   if spent_txid \<noteq> cg_kickoff g then scan_ends Skipped sub None None else scan_kicked_off v tp g sub
               | None \<Rightarrow> scan_ends PreKickoff sub None None))))"

section \<open>Closed stages are backed by confirmed transactions\<close>

definition is_confirmed :: "btc_view \<Rightarrow> tx_id \<Rightarrow> bool" where
  "is_confirmed v txid \<longleftrightarrow> bv_tx_confirmed v txid = Inr True"

text \<open>The transaction \<open>spender\<close> is confirmed and spends the output.\<close>

definition spends_confirmed :: "btc_view \<Rightarrow> tx_id \<Rightarrow> outpoint \<Rightarrow> bool" where
  "spends_confirmed v spender output \<longleftrightarrow> is_confirmed v spender \<and>
     (\<exists>status. bv_output_status v (fst output) (snd output) = Inr (Some status) \<and> ou_txid status = Some spender)"

lemma is_confirmedI: "bv_tx_confirmed v t = Inr True \<Longrightarrow> is_confirmed v t"
  by (simp add: is_confirmed_def)

lemma spent_confirmedD:
  "outpoint_spent_confirmed v txid vout = Inr (Some spender) \<Longrightarrow> spends_confirmed v spender (txid, vout)"
  by (auto simp: outpoint_spent_confirmed_def outpoint_spent_txid_def spends_confirmed_def is_confirmed_def
      elim!: ebind_InrE split: option.split_asm if_split_asm)

lemma spends_confirmed_is: "spends_confirmed v t p \<Longrightarrow> is_confirmed v t"
  by (simp add: spends_confirmed_def)

lemma guardian_confirmed:
  "detect_guardian_disprove v g = Inr (Some d) \<Longrightarrow> is_confirmed v (dd_challenge_finish_txid d)"
  by (auto simp: detect_guardian_disprove_def is_confirmed_def detected_def elim!: ebind_InrE split: if_split_asm)

lemma nack_confirmed: "detect_nack v i txids = Inr (Some d) \<Longrightarrow> is_confirmed v (dd_challenge_finish_txid d)"
  by (induction v i txids rule: detect_nack.induct)
    (auto simp: is_confirmed_def detected_def elim!: ebind_InrE split: if_split_asm)

lemma watchtower_flow_confirmed:
  "detect_watchtower_flow_disprove v g = Inr (Some d) \<Longrightarrow> is_confirmed v (dd_challenge_finish_txid d)"
  by (auto simp: detect_watchtower_flow_disprove_def detected_def elim!: ebind_InrE
      split: option.split_asm if_split_asm) (simp_all add: nack_confirmed is_confirmedI)

lemma connector_d_confirmed:
  "detect_connector_d_disprove v g = Inr (Some d) \<Longrightarrow> is_confirmed v (dd_challenge_finish_txid d)"
  by (auto simp: detect_connector_d_disprove_def detected_def elim!: ebind_InrE
      dest!: spent_confirmedD spends_confirmed_is split: option.split_asm prod.split_asm if_split_asm)

lemma verifier_branches_confirmed:
  assumes "verifier_branches v g is (sub, d0) = Inr (sub', Some d)"
    "\<And>d. d0 = Some d \<Longrightarrow> is_confirmed v (dd_challenge_finish_txid d)"
  shows "is_confirmed v (dd_challenge_finish_txid d)"
  using assms
proof (induction "is" arbitrary: sub d0)
  case (Cons i "is")
  consider (same) sub1 where "verifier_branches v g is (sub1, d0) = Inr (sub', Some d)"
    | (found) sub1 txid where "verifier_branches v g is (sub1, Some (detected TypeDisprove i txid)) = Inr (sub', Some d)"
        "outpoint_spent_confirmed v (cg_verifier_asserts g ! i) 0 = Inr (Some txid)"
    using Cons.prems(1) by (auto simp: Let_def elim!: ebind_InrE split: if_split_asm option.split_asm)
  then show ?case
  proof cases
    case same
    then show ?thesis by (rule Cons.IH) (rule Cons.prems(2))
  next
    case found
    from found(1) show ?thesis
      by (rule Cons.IH) (auto simp: detected_def spends_confirmed_is [OF spent_confirmedD [OF found(2)]])
  qed
qed simp

definition closing_evidence :: "btc_view \<Rightarrow> topology \<Rightarrow> chain_graph \<Rightarrow> GraphChainScan \<Rightarrow> bool" where
  "closing_evidence v tp g s \<longleftrightarrow>
     (case gc_status s of
        Skipped \<Rightarrow> \<exists>t. t \<noteq> cg_kickoff g \<and> spends_confirmed v t (cg_prekickoff g, tp_kickoff_connector tp)
      | OperatorTake1 \<Rightarrow> \<exists>p. cg_connector_a g = Inr p \<and> spends_confirmed v (cg_take1 g) p
      | OperatorTake2 \<Rightarrow> is_confirmed v (cg_take2 g)
      | Disprove \<Rightarrow> \<exists>d. gc_disprove s = Some d \<and> is_confirmed v (dd_challenge_finish_txid d)
      | _ \<Rightarrow> True)"

lemma scan_ends_evidence [simp]:
  "scan_ends status sub c d = Inr s \<longleftrightarrow>
     s = \<lparr> gc_status = status, gc_sub_status = sub, gc_challenge_txid = c, gc_disprove = d \<rparr>"
  by (auto simp: scan_ends_def)

lemma closing_evidence_record [simp]:
  "closing_evidence v tp g \<lparr> gc_status = status, gc_sub_status = sub, gc_challenge_txid = c, gc_disprove = d \<rparr> \<longleftrightarrow>
     (case status of
        Skipped \<Rightarrow> \<exists>t. t \<noteq> cg_kickoff g \<and> spends_confirmed v t (cg_prekickoff g, tp_kickoff_connector tp)
      | OperatorTake1 \<Rightarrow> \<exists>p. cg_connector_a g = Inr p \<and> spends_confirmed v (cg_take1 g) p
      | OperatorTake2 \<Rightarrow> is_confirmed v (cg_take2 g)
      | Disprove \<Rightarrow> \<exists>e. d = Some e \<and> is_confirmed v (dd_challenge_finish_txid e)
      | _ \<Rightarrow> True)"
  by (cases status) (simp_all add: closing_evidence_def)

lemma scan_disproved_evidence:
  "scan_disproved sub c d = Inr s \<Longrightarrow> is_confirmed v (dd_challenge_finish_txid d) \<Longrightarrow> closing_evidence v tp g s"
  by (simp add: scan_disproved_def)

lemmas evidence_intros = scan_disproved_evidence guardian_confirmed watchtower_flow_confirmed connector_d_confirmed
  verifier_branches_confirmed is_confirmedI

lemma scan_asserted_evidence:
  assumes "scan_asserted v g sub c = Inr s"
  shows "closing_evidence v tp g s"
  using assms unfolding scan_asserted_def
  by (auto elim!: ebind_InrE split: prod.split_asm option.split_asm if_split_asm)
    (auto intro: evidence_intros)

lemma scan_challenged_evidence:
  assumes "scan_challenged v tp g sub c = Inr s"
  shows "closing_evidence v tp g s"
  using assms unfolding scan_challenged_def Let_def
  by (auto elim!: ebind_InrE split: option.split_asm if_split_asm)
    (auto intro: evidence_intros scan_asserted_evidence)

lemma scan_kicked_off_evidence:
  assumes "scan_kicked_off v tp g sub = Inr s"
  shows "closing_evidence v tp g s"
  using assms unfolding scan_kicked_off_def
  by (auto elim!: ebind_InrE split: option.split_asm prod.split_asm if_split_asm)
    (auto intro: evidence_intros scan_challenged_evidence spent_confirmedD)

lemma scan_evidence:
  assumes "scan_graph_chain_state v tp posted g = Inr s"
  shows "closing_evidence v tp g s"
  using assms unfolding scan_graph_chain_state_def Let_def
  by (auto elim!: ebind_InrE split: option.split_asm if_split_asm)
    (auto intro: scan_kicked_off_evidence spent_confirmedD)

lemma scan_progress:
  assumes "scan_graph_chain_state v tp posted g = Inr s"
    "gc_status s \<notin> {OperatorPresigned, CommitteePresigned, OperatorDataPushed}"
  shows "is_confirmed v (cg_prekickoff g)"
  using assms unfolding scan_graph_chain_state_def Let_def
  by (auto elim!: ebind_InrE split: if_split_asm simp: is_confirmed_def)

end
