(* ===== verification/GraphScan.thy ===== *)
theory GraphScan
  imports GraphChainState
begin

text \<open>
  The scan that feeds the Graph aggregate (\<^verbatim>\<open>src/node/src/aggregates/graph_scan.rs\<close>): the signals a graph's stage and
  challenge branches give, the facts that rule a graph out before its Pre-Kickoff, and the rotation in which a tick walks the
  graphs.

  The monitor table caches confirmation heights; it is threaded through the computation, so an error keeps what was cached
  before it. Loading a definition, whether a graph is posted and the text of a challenge's sub-status are parameters.
  The trace of a pass records the values its cursor takes.

  The lemmas show when the signals that let the operator take the peg-in are given, and that the rotation reaches every
  graph.
\<close>

section \<open>Monitors\<close>

record GraphBtcTxVoutMonitor =
  mo_graph_id :: uuid
  mo_tx_name :: string
  mo_txid :: tx_id
  mo_height :: int
  mo_vout_len :: int
  mo_created_at :: int

type_synonym monitors = "GraphBtcTxVoutMonitor list"

type_synonym 'a scan = "monitors \<Rightarrow> (scan_error + 'a) \<times> monitors"

definition sreturn :: "'a \<Rightarrow> 'a scan" where
  "sreturn x = (\<lambda>ms. (Inr x, ms))"

definition slift :: "scan_error + 'a \<Rightarrow> 'a scan" where
  "slift r = (\<lambda>ms. (r, ms))"

definition sbind :: "'a scan \<Rightarrow> ('a \<Rightarrow> 'b scan) \<Rightarrow> 'b scan" where
  "sbind m f = (\<lambda>ms. case m ms of (Inl e, ms') \<Rightarrow> (Inl e, ms') | (Inr x, ms') \<Rightarrow> f x ms')"

definition find_graph_btc_tx_vout_monitor :: "uuid \<Rightarrow> tx_id \<Rightarrow> monitors \<Rightarrow> GraphBtcTxVoutMonitor option" where
  "find_graph_btc_tx_vout_monitor graph_id txid ms = List.find (\<lambda>m. mo_graph_id m = graph_id \<and> mo_txid m = txid) ms"

definition upsert_graph_btc_tx_vout_monitor :: "GraphBtcTxVoutMonitor \<Rightarrow> monitors \<Rightarrow> monitors" where
  "upsert_graph_btc_tx_vout_monitor m ms =
     delete_rows (\<lambda>x. mo_graph_id x = mo_graph_id m \<and> mo_txid x = mo_txid m) ms @ [m]"

definition fetch_monitor :: "btc_view \<Rightarrow> int \<Rightarrow> uuid \<Rightarrow> tx_id \<Rightarrow> string \<Rightarrow> GraphBtcTxVoutMonitor option scan" where
  "fetch_monitor v now graph_id txid name =
     sbind (slift (req (bv_tx_info v txid))) (\<lambda>info ms.
       case info of
         None \<Rightarrow> (Inr None, ms)
       | Some tx \<Rightarrow>
           (case ti_block_height tx of
              None \<Rightarrow> (Inr None, ms)
            | Some h \<Rightarrow>
                if h = 0 then (Inr None, ms)
                else let m = \<lparr> mo_graph_id = graph_id, mo_tx_name = name, mo_txid = txid, mo_height = int h,
                               mo_vout_len = int (ti_vout_len tx), mo_created_at = now \<rparr>
                     in (Inr (Some m), upsert_graph_btc_tx_vout_monitor m ms)))"

definition confirmed_monitor :: "btc_view \<Rightarrow> int \<Rightarrow> uuid \<Rightarrow> tx_id \<Rightarrow> string \<Rightarrow> GraphBtcTxVoutMonitor option scan" where
  "confirmed_monitor v now graph_id txid name ms =
     (case find_graph_btc_tx_vout_monitor graph_id txid ms of
        Some m \<Rightarrow>
          if 0 < mo_height m \<and> 0 < mo_vout_len m then (Inr (Some m), ms) else fetch_monitor v now graph_id txid name ms
      | None \<Rightarrow> fetch_monitor v now graph_id txid name ms)"

section \<open>Facts before the Pre-Kickoff\<close>

definition dead_slot_below :: "string \<Rightarrow> 64 word \<Rightarrow> (string \<times> 64 word) list \<Rightarrow> 64 word option" where
  "dead_slot_below operator_pubkey slot dead =
     (case map_of dead operator_pubkey of Some d \<Rightarrow> if d < slot then Some d else None | None \<Rightarrow> None)"

definition record_dead_slot :: "string \<Rightarrow> 64 word \<Rightarrow> (string \<times> 64 word) list \<Rightarrow> (string \<times> 64 word) list" where
  "record_dead_slot operator_pubkey slot dead =
     AList.update operator_pubkey (case map_of dead operator_pubkey of None \<Rightarrow> slot | Some d \<Rightarrow> min d slot) dead"

primrec input_spent_elsewhere :: "btc_view \<Rightarrow> tx_id \<Rightarrow> outpoint list \<Rightarrow> scan_error + (outpoint \<times> tx_id) option" where
  "input_spent_elsewhere v prekickoff [] = Inr None"
| "input_spent_elsewhere v prekickoff (p # ps) =
     ebind (outpoint_spent_txid v (fst p) (snd p)) (\<lambda>s.
       case s of
         None \<Rightarrow> input_spent_elsewhere v prekickoff ps
       | Some spender \<Rightarrow>
           if spender = prekickoff then input_spent_elsewhere v prekickoff ps
           else ebind (req (bv_tx_confirmed v spender)) (\<lambda>confirmed.
             if confirmed then Inr (Some (p, spender)) else input_spent_elsewhere v prekickoff ps))"

definition prekickoff_input_spent :: "btc_view \<Rightarrow> chain_graph \<Rightarrow> scan_error + (outpoint \<times> tx_id) option" where
  "prekickoff_input_spent v g = input_spent_elsewhere v (cg_prekickoff g) (cg_prekickoff_inputs g)"

definition connector_zero_taken :: "btc_view \<Rightarrow> chain_graph \<Rightarrow> scan_error + tx_id option" where
  "connector_zero_taken v g =
     (case cg_take1_input g of
        None \<Rightarrow> Inr None
      | Some (txid, vout) \<Rightarrow>
          ebind (outpoint_spent_txid v txid vout) (\<lambda>s.
            case s of
              None \<Rightarrow> Inr None
            | Some spender \<Rightarrow>
                if spender = cg_take1 g \<or> spender = cg_take2 g then Inr None
                else ebind (req (bv_tx_confirmed v spender)) (\<lambda>confirmed. Inr (if confirmed then Some spender else None))))"

definition unusable_fact ::
    "btc_view \<Rightarrow> chain_graph \<Rightarrow> Graph \<Rightarrow> (string \<times> 64 word) list \<Rightarrow> (scan_error + Unusable option) \<times> (string \<times> 64 word) list" where
  "unusable_fact v g row dead =
     (let slot = word_of_int (gh_kickoff_index row)
      in case dead_slot_below (gh_operator_pubkey row) slot dead of
          Some d \<Rightarrow> (Inr (Some (EarlierSlotDead d)), dead)
        | None \<Rightarrow>
            (case prekickoff_input_spent v g of
               Inl e \<Rightarrow> (Inl e, dead)
             | Inr (Some ((txid, vout), spender)) \<Rightarrow>
                 (Inr (Some (PrekickoffInputSpent (txid, of_nat vout) spender)), record_dead_slot (gh_operator_pubkey row) slot dead)
             | Inr None \<Rightarrow> (ebind (connector_zero_taken v g) (\<lambda>t. Inr (map_option ConnectorZeroTaken t)), dead)))"

section \<open>Signals\<close>

definition before_prekickoff :: "GraphStatus \<Rightarrow> bool" where
  "before_prekickoff stage \<longleftrightarrow> stage \<in> {OperatorPresigned, CommitteePresigned, OperatorDataPushed}"

definition stage_signals :: "GraphChainScan \<Rightarrow> PegoutSignal list" where
  "stage_signals chain =
     (let stage = gc_status chain
      in (if before_prekickoff stage then [] else [PreKickoffSent]) @
         (if stage \<in> {OperatorKickOff, Challenge, Disprove, OperatorTake1, OperatorTake2} then [KickoffSent] else []) @
         (case gc_challenge_txid chain of None \<Rightarrow> [] | Some txid \<Rightarrow> [ChallengeSent txid]) @
         (case stage of
            OperatorTake1 \<Rightarrow> [Take1Sent]
          | OperatorTake2 \<Rightarrow> [Take2Sent]
          | Disprove \<Rightarrow>
              (case gc_disprove chain of
                 None \<Rightarrow> []
               | Some d \<Rightarrow> [DisproveSent (dd_disprove_type d) (dd_index d) (dd_challenge_finish_txid d)])
          | _ \<Rightarrow> []))"

definition is_timelock_ready :: "int \<Rightarrow> int \<Rightarrow> int \<Rightarrow> bool" where
  "is_timelock_ready confirmed_height lock_blocks current_height \<longleftrightarrow>
     0 < confirmed_height \<and> confirmed_height + lock_blocks \<le> current_height"

text \<open>The node's network, the clock and the tip a scan works with.\<close>

record scan_ctx =
  sx_view :: btc_view
  sx_topology :: topology
  sx_network :: Network
  sx_now :: int
  sx_height :: int

definition take1_ready :: "scan_ctx \<Rightarrow> Graph \<Rightarrow> timelock_config \<Rightarrow> PegoutSignal option scan" where
  "take1_ready x row timelocks =
     (case gh_kickoff_txid row of
        None \<Rightarrow> sreturn None
      | Some kickoff \<Rightarrow>
          sbind (slift (outpoint_spent_txid (sx_view x) kickoff (tp_connector_a (sx_topology x)))) (\<lambda>a.
            if a \<noteq> None then sreturn None
            else sbind (slift (outpoint_spent_txid (sx_view x) kickoff (tp_guardian (sx_topology x)))) (\<lambda>guardian.
              if guardian \<noteq> None then sreturn None
              else sbind (confirmed_monitor (sx_view x) (sx_now x) (gh_graph_id row) kickoff ''kickoff'') (\<lambda>m.
                sreturn (case m of
                    None \<Rightarrow> None
                  | Some m \<Rightarrow>
                      if is_timelock_ready (mo_height m) (uint (take1_timelock_blocks (sx_network x) timelocks)) (sx_height x)
                      then Some Take1Ready else None)))))"

record branch_state =
  br_signals :: "PegoutSignal list"
  br_all_resolved :: bool
  br_timeout_ready :: bool
  br_nack_ready :: "nat list"

definition spender_confirmed :: "btc_view \<Rightarrow> tx_id option \<Rightarrow> scan_error + bool" where
  "spender_confirmed v s = (case s of None \<Rightarrow> Inr False | Some txid \<Rightarrow> req (bv_tx_confirmed v txid))"

text \<open>One watchtower's branch, given how its two connectors are spent.\<close>

definition watchtower_branch ::
    "scan_ctx \<Rightarrow> timelock_config \<Rightarrow> Graph \<Rightarrow> int \<Rightarrow> tx_id option \<Rightarrow> nat \<Rightarrow> tx_id option \<Rightarrow> bool \<Rightarrow> tx_id option \<Rightarrow> bool \<Rightarrow>
     branch_state \<Rightarrow> branch_state" where
  "watchtower_branch x timelocks row init_height connector_f_spent i watchtower_spent watchtower_confirmed ack_spent ack_confirmed b =
     (let timeout_txid = (if i < length (gh_watchtower_challenge_timeout_txids row)
            then Some (gh_watchtower_challenge_timeout_txids row ! i) else None);
          timed_out = (watchtower_spent \<noteq> None \<and> watchtower_spent = timeout_txid \<and> watchtower_confirmed)
      in if watchtower_spent = None
         then b\<lparr> br_all_resolved := False,
                 br_timeout_ready := br_timeout_ready b \<or>
                   ack_spent = None \<and>
                   is_timelock_ready init_height (uint (watchtower_challenge_timelock_blocks (sx_network x) timelocks)) (sx_height x) \<rparr>
         else if \<not> watchtower_confirmed then b\<lparr> br_all_resolved := False \<rparr>
         else if timed_out then b
         else let b = b\<lparr> br_signals := br_signals b @ [WatchtowerChallengeSent i] \<rparr>
              in if ack_confirmed then b
                 else b\<lparr> br_all_resolved := False,
                         br_nack_ready := br_nack_ready b @
                           (if connector_f_spent = None \<and> ack_spent = None \<and>
                               is_timelock_ready init_height (uint (operator_ack_timelock_blocks (sx_network x) timelocks))
                                 (sx_height x)
                            then [i] else []) \<rparr>)"

primrec watchtower_branches ::
    "scan_ctx \<Rightarrow> timelock_config \<Rightarrow> Graph \<Rightarrow> tx_id \<Rightarrow> int \<Rightarrow> tx_id option \<Rightarrow> nat list \<Rightarrow> branch_state \<Rightarrow> scan_error + branch_state" where
  "watchtower_branches x timelocks row wci init_height connector_f_spent [] b = Inr b"
| "watchtower_branches x timelocks row wci init_height connector_f_spent (i # is) b =
     ebind (outpoint_spent_txid (sx_view x) wci (tp_watchtower_connector (sx_topology x) i)) (\<lambda>watchtower_spent.
       ebind (outpoint_spent_txid (sx_view x) wci (tp_ack_connector (sx_topology x) i)) (\<lambda>ack_spent.
         ebind (spender_confirmed (sx_view x) watchtower_spent) (\<lambda>watchtower_confirmed.
           ebind (spender_confirmed (sx_view x) ack_spent) (\<lambda>ack_confirmed.
             watchtower_branches x timelocks row wci init_height connector_f_spent is
               (watchtower_branch x timelocks row init_height connector_f_spent i watchtower_spent watchtower_confirmed
                  ack_spent ack_confirmed b)))))"

definition commit_signals :: "scan_ctx \<Rightarrow> timelock_config \<Rightarrow> int \<Rightarrow> bool \<Rightarrow> tx_id option \<Rightarrow> tx_id option \<Rightarrow> PegoutSignal list" where
  "commit_signals x timelocks init_height all_resolved connector_e_spent connector_f_spent =
     (if all_resolved \<and> connector_e_spent = None \<and> connector_f_spent = None
      then OperatorCommitPubinReady #
        (if is_timelock_ready init_height (uint (operator_commit_timelock_blocks (sx_network x) timelocks)) (sx_height x)
         then [OperatorCommitPubinTimeout] else [])
      else [])"

definition watchtower_signals ::
    "scan_ctx \<Rightarrow> timelock_config \<Rightarrow> Graph \<Rightarrow> tx_id \<Rightarrow> int \<Rightarrow> nat \<Rightarrow> scan_error + PegoutSignal list" where
  "watchtower_signals x timelocks row wci init_height n =
     ebind (outpoint_spent_txid (sx_view x) wci (tp_connector_e (sx_topology x) n)) (\<lambda>e.
       ebind (outpoint_spent_txid (sx_view x) wci (tp_connector_f (sx_topology x) n)) (\<lambda>f.
         let commit_timed_out = (e \<noteq> None \<and> e = gh_operator_commit_timeout_txid row);
             pubin_committed = (e \<noteq> None \<and> \<not> commit_timed_out)
         in ebind (watchtower_branches x timelocks row wci init_height f [0..<n]
                \<lparr> br_signals = [], br_all_resolved = True, br_timeout_ready = False, br_nack_ready = [] \<rparr>) (\<lambda>b.
           let signals = WatchtowerChallengeInitSent # br_signals b @
                 (if br_timeout_ready b then [WatchtowerChallengeTimeout] else []) @ map NackReady (br_nack_ready b) @
                 commit_signals x timelocks init_height (br_all_resolved b) e f
           in case gh_operator_assert_txid row of
               Some assert_txid \<Rightarrow>
                 if br_all_resolved b \<and> pubin_committed
                 then ebind (req (bv_tx_confirmed (sx_view x) assert_txid)) (\<lambda>confirmed.
                   Inr (if confirmed then signals else signals @ [AssertReady]))
                 else Inr signals
             | None \<Rightarrow> Inr signals)))"

definition watchtower_flow :: "scan_ctx \<Rightarrow> Graph \<Rightarrow> timelock_config \<Rightarrow> PegoutSignal list scan" where
  "watchtower_flow x row timelocks =
     (case gh_watchtower_challenge_init_txid row of
        None \<Rightarrow> sreturn []
      | Some wci \<Rightarrow>
          sbind (confirmed_monitor (sx_view x) (sx_now x) (gh_graph_id row) wci ''watchtower_init'') (\<lambda>m.
            case m of
              None \<Rightarrow> sreturn []
            | Some m \<Rightarrow>
                let n = tp_watchtower_num (sx_topology x) (nat (mo_vout_len m))
                in if n = 0 then sreturn [WatchtowerChallengeInitSent]
                   else slift (watchtower_signals x timelocks row wci (mo_height m) n)))"

definition verifier_monitor_name :: "nat \<Rightarrow> string" where
  "verifier_monitor_name i = ''verifier_assert_'' @ show_nat i"

primrec asserted_verifiers :: "scan_ctx \<Rightarrow> Graph \<Rightarrow> (nat \<times> tx_id) list \<Rightarrow> PegoutSignal list scan" where
  "asserted_verifiers x row [] = sreturn []"
| "asserted_verifiers x row (p # ps) =
     sbind (confirmed_monitor (sx_view x) (sx_now x) (gh_graph_id row) (snd p) (verifier_monitor_name (fst p))) (\<lambda>m.
       sbind (asserted_verifiers x row ps) (\<lambda>rest.
         sreturn (if m \<noteq> None then ChallengeAssertSent (snd p) (fst p) # rest else rest)))"

definition assert_flow :: "scan_ctx \<Rightarrow> Graph \<Rightarrow> PegoutSignal list scan" where
  "assert_flow x row =
     (case gh_operator_assert_txid row of
        None \<Rightarrow> sreturn []
      | Some assert_txid \<Rightarrow>
          sbind (confirmed_monitor (sx_view x) (sx_now x) (gh_graph_id row) assert_txid ''prover_assert'') (\<lambda>m.
            if m = None then sreturn []
            else sbind (asserted_verifiers x row (enumerate 0 (gh_verifier_assert_txids row))) (\<lambda>rest.
              sreturn (AssertSent assert_txid # rest))))"

primrec unanswered_verifiers :: "scan_ctx \<Rightarrow> Graph \<Rightarrow> int \<Rightarrow> (nat \<times> tx_id) list \<Rightarrow> PegoutSignal list scan" where
  "unanswered_verifiers x row disprove_blocks [] = sreturn []"
| "unanswered_verifiers x row disprove_blocks (p # ps) =
     sbind (slift (outpoint_spent_confirmed (sx_view x) (snd p) 0)) (\<lambda>answered.
       if answered \<noteq> None then unanswered_verifiers x row disprove_blocks ps
       else sbind (confirmed_monitor (sx_view x) (sx_now x) (gh_graph_id row) (snd p) (verifier_monitor_name (fst p))) (\<lambda>m.
         sbind (unanswered_verifiers x row disprove_blocks ps) (\<lambda>rest.
           sreturn (case m of
               None \<Rightarrow> rest
             | Some m \<Rightarrow>
                 if mo_height m + disprove_blocks \<le> sx_height x then WronglyChallengeTimeout (snd p) (fst p) # rest else rest))))"

definition wrongly_challenge_timeout :: "scan_ctx \<Rightarrow> Graph \<Rightarrow> timelock_config \<Rightarrow> PegoutSignal list scan" where
  "wrongly_challenge_timeout x row timelocks =
     (case gh_operator_assert_txid row of
        None \<Rightarrow> sreturn []
      | Some assert_txid \<Rightarrow>
          if gh_verifier_assert_txids row = [] then sreturn []
          else sbind (slift (outpoint_spent_confirmed (sx_view x) assert_txid
                 (tp_connector_d (sx_topology x) (length (gh_verifier_assert_txids row))))) (\<lambda>d.
            if d \<noteq> None then sreturn []
            else unanswered_verifiers x row (uint (disprove_timelock_blocks (sx_network x) timelocks))
                   (enumerate 0 (gh_verifier_assert_txids row))))"

definition take2_ready :: "scan_ctx \<Rightarrow> Graph \<Rightarrow> timelock_config \<Rightarrow> bool scan" where
  "take2_ready x row timelocks =
     (case (gh_kickoff_txid row, gh_watchtower_challenge_init_txid row, gh_operator_assert_txid row) of
        (Some kickoff, Some wci, Some assert_txid) \<Rightarrow>
          sbind (slift (outpoint_spent_txid (sx_view x) assert_txid
              (tp_connector_d (sx_topology x) (length (gh_verifier_assert_txids row))))) (\<lambda>d.
            if d \<noteq> None then sreturn False
            else sbind (slift (outpoint_spent_txid (sx_view x) kickoff (tp_guardian (sx_topology x)))) (\<lambda>guardian.
              if guardian \<noteq> None then sreturn False
              else sbind (confirmed_monitor (sx_view x) (sx_now x) (gh_graph_id row) assert_txid ''prover_assert'') (\<lambda>a.
                case a of
                  None \<Rightarrow> sreturn False
                | Some a \<Rightarrow>
                    sbind (confirmed_monitor (sx_view x) (sx_now x) (gh_graph_id row) wci ''watchtower_init'') (\<lambda>w.
                      sreturn (case w of
                          None \<Rightarrow> False
                        | Some w \<Rightarrow>
                            is_timelock_ready (mo_height a) (uint (take2_timelock_blocks (sx_network x) timelocks)) (sx_height x) \<and>
                            is_timelock_ready (mo_height w) (uint (connector_f_timelock_blocks (sx_network x) timelocks))
                              (sx_height x))))))
      | _ \<Rightarrow> sreturn False)"

definition challenge_signals :: "scan_ctx \<Rightarrow> Graph \<Rightarrow> timelock_config \<Rightarrow> PegoutSignal list scan" where
  "challenge_signals x row timelocks =
     sbind (watchtower_flow x row timelocks) (\<lambda>watchtowers.
       sbind (assert_flow x row) (\<lambda>asserts.
         sbind (wrongly_challenge_timeout x row timelocks) (\<lambda>timeouts.
           sbind (take2_ready x row timelocks) (\<lambda>ready.
             sreturn (watchtowers @ asserts @ timeouts @ (if ready then [Take2Ready] else []))))))"

definition graph_timelocks :: "chain_graph \<Rightarrow> scan_error + timelock_config" where
  "graph_timelocks g =
     (case validate_timelock_config (cg_network g) (cg_timelocks g) of
        Inl _ \<Rightarrow> Inl (ScanFailed [''invalid timelock configuration''])
      | Inr _ \<Rightarrow> Inr (cg_timelocks g))"

definition flow_signals :: "scan_ctx \<Rightarrow> Graph \<Rightarrow> chain_graph \<Rightarrow> GraphStatus \<Rightarrow> PegoutSignal list scan" where
  "flow_signals x row g stage =
     (case stage of
        OperatorKickOff \<Rightarrow>
          sbind (slift (graph_timelocks g)) (\<lambda>timelocks.
            sbind (take1_ready x row timelocks) (\<lambda>s. sreturn (case s of None \<Rightarrow> [] | Some signal \<Rightarrow> [signal])))
      | Challenge \<Rightarrow> sbind (slift (graph_timelocks g)) (challenge_signals x row)
      | _ \<Rightarrow> sreturn [])"

text \<open>The facts of one graph, with the table of dead slots beside the monitors.\<close>

definition gather_chain_scan ::
    "scan_ctx \<Rightarrow> (ChallengeSubStatus \<Rightarrow> string) \<Rightarrow> anyhow_error + bool \<Rightarrow> anyhow_error + chain_graph option \<Rightarrow> Graph \<Rightarrow> GraphStatus \<Rightarrow>
     (string \<times> 64 word) list \<Rightarrow> monitors \<Rightarrow> (scan_error + ChainScan option) \<times> (string \<times> 64 word) list \<times> monitors" where
  "gather_chain_scan x to_text posted loaded row status dead ms =
     (case req loaded of
        Inl e \<Rightarrow> (Inl e, dead, ms)
      | Inr None \<Rightarrow> (Inr None, dead, ms)
      | Inr (Some g) \<Rightarrow>
          (case scan_graph_chain_state (sx_view x) (sx_topology x) posted g of
             Inl e \<Rightarrow> (Inl e, dead, ms)
           | Inr chain \<Rightarrow>
               let (unusable, dead) =
                     (if before_prekickoff (gc_status chain) then unusable_fact (sx_view x) g row dead else (Inr None, dead))
               in case unusable of
                   Inl e \<Rightarrow> (Inl e, dead, ms)
                 | Inr unusable \<Rightarrow>
                     let (flow, ms) = flow_signals x row g (gc_status chain) ms
                     in (ebind flow (\<lambda>flow.
                           Inr (Some \<lparr> cs_height = sx_height x, cs_status_at_scan = graph_status_string status,
                             cs_stage = gc_status chain, cs_sub_status = Some (to_text (gc_sub_status chain)),
                             cs_challenge_txid = gc_challenge_txid chain, cs_unusable = unusable,
                             cs_signals = remdups_adj (stage_signals chain @ flow) \<rparr>)), dead, ms)))"

section \<open>The rotation\<close>

type_synonym slot = "string \<times> int"

definition resume_index :: "slot list \<Rightarrow> slot option \<Rightarrow> nat" where
  "resume_index slots cursor =
     (case cursor of
        None \<Rightarrow> 0
      | Some c \<Rightarrow>
          let later = length (takeWhile (\<lambda>s. \<not> c < s) slots)
          in if later < length slots then later else 0)"

record rotation_state =
  ro_cursor :: "slot option"
  ro_scanned :: nat
  ro_marks :: "GraphStatus scan_marks"
  ro_dead :: "(string \<times> 64 word) list"
  ro_monitors :: monitors
  ro_scans :: "(uuid \<times> ChainScan) list"
  ro_trace :: "slot list"

record rotation_env =
  re_ctx :: scan_ctx
  re_to_text :: "ChallengeSubStatus \<Rightarrow> string"
  re_posted :: "uuid \<Rightarrow> anyhow_error + bool"
  re_load :: "Graph \<Rightarrow> anyhow_error + chain_graph option"
  re_obsoleted :: bool
  re_batch :: nat

definition OBSOLETED_FULL_SCAN_EVERY :: int where "OBSOLETED_FULL_SCAN_EVERY = 16"

definition prekickoff_confirmed :: "btc_view \<Rightarrow> Graph \<Rightarrow> anyhow_error + bool" where
  "prekickoff_confirmed v row = (case gh_cur_prekickoff_txid row of None \<Rightarrow> Inr False | Some txid \<Rightarrow> bv_tx_confirmed v txid)"

definition scan_row :: "rotation_env \<Rightarrow> Graph \<Rightarrow> GraphStatus \<Rightarrow> rotation_state \<Rightarrow> rotation_state" where
  "scan_row env row status st =
     (let (result, dead, ms) = gather_chain_scan (re_ctx env) (re_to_text env) (re_posted env (gh_graph_id row)) (re_load env row)
            row status (ro_dead st) (ro_monitors st);
          st = st\<lparr> ro_dead := dead, ro_monitors := ms \<rparr>;
          marked = marks_mark (gh_graph_id row) (sx_height (re_ctx env)) status (ro_marks st)
      in case result of
          Inl _ \<Rightarrow> st
        | Inr None \<Rightarrow> st\<lparr> ro_marks := marked \<rparr>
        | Inr (Some scan) \<Rightarrow> st\<lparr> ro_marks := marked, ro_scans := ro_scans st @ [(gh_graph_id row, scan)] \<rparr>)"

definition visit_row :: "rotation_env \<Rightarrow> Graph \<Rightarrow> rotation_state \<Rightarrow> rotation_state" where
  "visit_row env row st =
     (let st = st\<lparr> ro_cursor := Some (slot_of row), ro_trace := ro_trace st @ [slot_of row] \<rparr>;
          height = sx_height (re_ctx env)
      in case graph_status_from_str (gh_status row) of
          None \<Rightarrow> st
        | Some status \<Rightarrow>
            if marks_seen (gh_graph_id row) height status (ro_marks st) then st
            else let st = st\<lparr> ro_scanned := ro_scanned st + 1 \<rparr>
                 in if re_obsoleted env \<and> height mod OBSOLETED_FULL_SCAN_EVERY \<noteq> 0
                    then (case prekickoff_confirmed (sx_view (re_ctx env)) row of
                            Inl _ \<Rightarrow> st
                          | Inr False \<Rightarrow> st\<lparr> ro_marks := marks_mark (gh_graph_id row) height status (ro_marks st) \<rparr>
                          | Inr True \<Rightarrow> scan_row env row status st)
                    else scan_row env row status st)"

primrec visit_rows :: "rotation_env \<Rightarrow> Graph list \<Rightarrow> rotation_state \<Rightarrow> rotation_state" where
  "visit_rows env [] st = st"
| "visit_rows env (row # rows) st = (if re_batch env \<le> ro_scanned st then st else visit_rows env rows (visit_row env row st))"

definition scan_rows :: "rotation_env \<Rightarrow> Graph list \<Rightarrow> rotation_state \<Rightarrow> rotation_state" where
  "scan_rows env graphs st =
     (if graphs = [] then st
      else let start = resume_index (map slot_of graphs) (ro_cursor st)
           in visit_rows env (map (\<lambda>offset. graphs ! ((start + offset) mod length graphs)) [0..<length graphs])
                (st\<lparr> ro_scanned := 0 \<rparr>))"

section \<open>Unfinished setups\<close>

text \<open>The setups of an operator in the order of their graph ids; a stored graph replaces the session of the same id.\<close>

definition unfinished_setups :: "string \<Rightarrow> bridge_db \<Rightarrow> (uuid \<times> uuid) list" where
  "unfinished_setups operator_pubkey b =
     sort_key (\<lambda>(k, _). unat k) (fold (\<lambda>(k, i). AList.update k i)
       (map (\<lambda>s. (pi_graph_id s, pi_instance_id s)) (list_pending_graph_inits_by_operator operator_pubkey (bd_sessions b)) @
        map (\<lambda>g. (gh_graph_id g, gh_instance_id g))
          (filter (\<lambda>g. gh_operator_pubkey g = operator_pubkey \<and> gh_status g = graph_status_string OperatorPresigned) (bd_graphs b)))
       [])"

definition setup_abandoned_at :: "PeginDeadlines \<Rightarrow> int \<Rightarrow> bridge_db \<Rightarrow> uuid \<Rightarrow> int option" where
  "setup_abandoned_at d height b instance_id =
     (case find_instance instance_id (bd_instances b) of
        None \<Rightarrow> None
      | Some r \<Rightarrow>
          if (case status_from_str (in_status r) of None \<Rightarrow> False | Some status \<Rightarrow> is_failed status) then None
          else case abandon_height d (in_btc_height r) of
              Some h \<Rightarrow> if h \<le> height then Some h else None
            | None \<Rightarrow> None)"

definition abandon_unfinished_setups :: "PeginDeadlines \<Rightarrow> int \<Rightarrow> string \<Rightarrow> bridge_db \<Rightarrow> (uuid \<times> uuid \<times> int) list" where
  "abandon_unfinished_setups d height operator_pubkey b =
     concat (map (\<lambda>(graph_id, instance_id).
       case setup_abandoned_at d height b instance_id of None \<Rightarrow> [] | Some h \<Rightarrow> [(graph_id, instance_id, h)])
       (unfinished_setups operator_pubkey b))"

section \<open>When the operator may take the peg-in\<close>

lemma sbind_InrE:
  assumes "sbind m f ms = (Inr y, ms')"
  obtains x ms1 where "m ms = (Inr x, ms1)" "f x ms1 = (Inr y, ms')"
  using assms by (auto simp: sbind_def split: prod.split_asm sum.split_asm)

lemma sreturn_eq [simp]: "sreturn x ms = (r, ms') \<longleftrightarrow> r = Inr x \<and> ms' = ms"
  by (auto simp: sreturn_def)

lemma slift_eq [simp]: "slift r ms = (r', ms') \<longleftrightarrow> r = r' \<and> ms' = ms"
  by (auto simp: slift_def)

text \<open>A monitor is cached, or its height is the one the data source reports.\<close>

definition monitor_of :: "btc_view \<Rightarrow> uuid \<Rightarrow> tx_id \<Rightarrow> monitors \<Rightarrow> int \<Rightarrow> bool" where
  "monitor_of v graph_id txid ms height \<longleftrightarrow> 0 < height \<and>
     ((\<exists>m. find_graph_btc_tx_vout_monitor graph_id txid ms = Some m \<and> mo_height m = height) \<or>
      (\<exists>tx. bv_tx_info v txid = Inr (Some tx) \<and> map_option int (ti_block_height tx) = Some height))"

lemma confirmed_monitorD:
  assumes "confirmed_monitor v now graph_id txid name ms = (Inr (Some m), ms')"
  shows "monitor_of v graph_id txid ms (mo_height m)"
  using assms
  by (auto simp: confirmed_monitor_def fetch_monitor_def monitor_of_def Let_def elim!: sbind_InrE
      split: option.split_asm if_split_asm)

lemma find_upsert_monitor:
  assumes "(graph_id, txid) \<noteq> (mo_graph_id m, mo_txid m)"
  shows "find_graph_btc_tx_vout_monitor graph_id txid (upsert_graph_btc_tx_vout_monitor m ms) =
    find_graph_btc_tx_vout_monitor graph_id txid ms"
  using assms
  by (induction ms) (auto simp: find_graph_btc_tx_vout_monitor_def upsert_graph_btc_tx_vout_monitor_def delete_rows_def)

lemma confirmed_monitor_other:
  assumes "confirmed_monitor v now graph_id txid name ms = (r, ms')" "txid' \<noteq> txid"
  shows "find_graph_btc_tx_vout_monitor graph_id txid' ms' = find_graph_btc_tx_vout_monitor graph_id txid' ms"
  using assms
  by (auto simp: confirmed_monitor_def fetch_monitor_def sbind_def slift_def Let_def find_upsert_monitor
      split: option.split_asm if_split_asm sum.split_asm prod.split_asm)

lemma take1_readyD:
  assumes "take1_ready x row timelocks ms = (Inr (Some s), ms')"
  obtains kickoff h where "s = Take1Ready" "gh_kickoff_txid row = Some kickoff"
    "outpoint_spent_txid (sx_view x) kickoff (tp_connector_a (sx_topology x)) = Inr None"
    "outpoint_spent_txid (sx_view x) kickoff (tp_guardian (sx_topology x)) = Inr None"
    "monitor_of (sx_view x) (gh_graph_id row) kickoff ms h"
    "h + uint (take1_timelock_blocks (sx_network x) timelocks) \<le> sx_height x"
  using assms unfolding take1_ready_def
  by (auto elim!: sbind_InrE split: option.split_asm if_split_asm simp: is_timelock_ready_def)
    (metis confirmed_monitorD)

lemma take2_readyD:
  assumes "take2_ready x row timelocks ms = (Inr True, ms')"
  obtains kickoff assert_txid h where "gh_kickoff_txid row = Some kickoff" "gh_operator_assert_txid row = Some assert_txid"
    "outpoint_spent_txid (sx_view x) assert_txid (tp_connector_d (sx_topology x) (length (gh_verifier_assert_txids row))) = Inr None"
    "outpoint_spent_txid (sx_view x) kickoff (tp_guardian (sx_topology x)) = Inr None"
    "monitor_of (sx_view x) (gh_graph_id row) assert_txid ms h"
    "h + uint (take2_timelock_blocks (sx_network x) timelocks) \<le> sx_height x"
  using assms unfolding take2_ready_def
  by (auto elim!: sbind_InrE split: option.split_asm if_split_asm simp: is_timelock_ready_def)
    (metis confirmed_monitorD)

section \<open>The rotation reaches every graph\<close>

lemma scan_row_keeps: "ro_cursor (scan_row env row s st) = ro_cursor st" "ro_trace (scan_row env row s st) = ro_trace st"
    "ro_scanned (scan_row env row s st) = ro_scanned st"
  by (auto simp: scan_row_def Let_def split: prod.split sum.split option.split)

lemma visit_row_keeps:
  "ro_cursor (visit_row env row st) = Some (slot_of row)"
  "ro_trace (visit_row env row st) = ro_trace st @ [slot_of row]"
  "ro_scanned (visit_row env row st) \<le> ro_scanned st + 1"
  by (auto simp: visit_row_def Let_def scan_row_keeps split: option.split sum.split bool.split)

text \<open>A pass visits a prefix of its rows that is as long as the batch, or all of them.\<close>

lemma visit_rows_prefix:
  "\<exists>n. n \<le> length rows \<and> (length rows \<le> n \<or> re_batch env \<le> n + ro_scanned st) \<and>
     ro_trace (visit_rows env rows st) = ro_trace st @ map slot_of (take n rows) \<and>
     ro_cursor (visit_rows env rows st) = (if n = 0 then ro_cursor st else Some (slot_of (rows ! (n - 1))))"
proof (induction rows arbitrary: st)
  case (Cons row rows)
  show ?case
  proof (cases "re_batch env \<le> ro_scanned st")
    case True
    then show ?thesis by (intro exI [of _ 0]) simp
  next
    case False
    obtain n where n: "n \<le> length rows" "length rows \<le> n \<or> re_batch env \<le> n + ro_scanned (visit_row env row st)"
      "ro_trace (visit_rows env rows (visit_row env row st)) = ro_trace (visit_row env row st) @ map slot_of (take n rows)"
      "ro_cursor (visit_rows env rows (visit_row env row st)) =
         (if n = 0 then ro_cursor (visit_row env row st) else Some (slot_of (rows ! (n - 1))))"
      using Cons.IH by blast
    show ?thesis
      using False n visit_row_keeps(3) [of env row st]
      by (intro exI [of _ "Suc n"]) (auto simp: visit_row_keeps(1,2) nth_Cons')
  qed
qed simp

lemma resume_after:
  assumes "sorted_wrt (<) slots" "i < length slots"
  shows "resume_index slots (Some (slots ! i)) = Suc i mod length slots"
proof -
  have le: "\<not> slots ! i < slots ! j \<longleftrightarrow> j \<le> i" if "j < length slots" for j
    using assms that by (metis linorder_not_less nat_neq_iff order_less_asym order_less_imp_le sorted_wrt_nth_less)
  have "takeWhile (\<lambda>s. \<not> slots ! i < s) slots = take (Suc i) slots"
    using assms(2) le
    by (intro takeWhile_eq_take_P_nth) auto
  then have "resume_index slots (Some (slots ! i)) = (if Suc i < length slots then Suc i else 0)"
    using assms(2) by (simp add: resume_index_def Let_def min_def)
  moreover have "Suc i = length slots" if "\<not> Suc i < length slots" using that assms(2) by simp
  ultimately show ?thesis by (cases "Suc i < length slots") simp_all
qed

text \<open>The slots a pass adds to the trace follow the cursor cyclically.\<close>

lemma scan_rows_trace:
  assumes "graphs \<noteq> []" "0 < re_batch env"
  obtains n where "min (re_batch env) (length graphs) \<le> n" "n \<le> length graphs" "0 < n"
    "ro_trace (scan_rows env graphs st) = ro_trace st @
       map (\<lambda>k. slot_of (graphs ! ((resume_index (map slot_of graphs) (ro_cursor st) + k) mod length graphs))) [0..<n]"
    "ro_cursor (scan_rows env graphs st) =
       Some (slot_of (graphs ! ((resume_index (map slot_of graphs) (ro_cursor st) + (n - 1)) mod length graphs)))"
proof -
  let ?start = "resume_index (map slot_of graphs) (ro_cursor st)"
  let ?rows = "map (\<lambda>k. graphs ! ((?start + k) mod length graphs)) [0..<length graphs]"
  let ?st = "st\<lparr> ro_scanned := 0 \<rparr>"
  obtain n where *: "n \<le> length ?rows \<and> (length ?rows \<le> n \<or> re_batch env \<le> n + ro_scanned ?st) \<and>
     ro_trace (visit_rows env ?rows ?st) = ro_trace ?st @ map slot_of (take n ?rows) \<and>
     ro_cursor (visit_rows env ?rows ?st) = (if n = 0 then ro_cursor ?st else Some (slot_of (?rows ! (n - 1))))"
    using visit_rows_prefix [of ?rows env ?st] ..
  have st: "ro_cursor ?st = ro_cursor st" "ro_trace ?st = ro_trace st" "ro_scanned ?st = 0" by simp_all
  from * have n: "n \<le> length graphs" "length graphs \<le> n \<or> re_batch env \<le> n"
    "ro_trace (visit_rows env ?rows ?st) = ro_trace st @ map slot_of (take n ?rows)"
    "ro_cursor (visit_rows env ?rows ?st) = (if n = 0 then ro_cursor st else Some (slot_of (?rows ! (n - 1))))"
    by (simp_all only: length_map length_upt st diff_zero add_0_right)
  have pos: "0 < n" using n(2) assms by (cases n) auto
  have scan: "scan_rows env graphs st = visit_rows env ?rows (st\<lparr> ro_scanned := 0 \<rparr>)"
    using assms(1) by (simp add: scan_rows_def Let_def)
  show ?thesis
  proof (rule that [of n])
    show "ro_trace (scan_rows env graphs st) = ro_trace st @
        map (\<lambda>k. slot_of (graphs ! ((?start + k) mod length graphs))) [0..<n]"
      using n(1,3) by (simp add: scan take_map)
    show "ro_cursor (scan_rows env graphs st) = Some (slot_of (graphs ! ((?start + (n - 1)) mod length graphs)))"
      using n(1,4) pos by (simp add: scan)
  qed (use n pos in auto)
qed

definition run_passes :: "rotation_env list \<Rightarrow> Graph list \<Rightarrow> rotation_state \<Rightarrow> rotation_state" where
  "run_passes envs graphs st = fold (\<lambda>env. scan_rows env graphs) envs st"

lemma run_passes_trace:
  assumes "graphs \<noteq> []" "sorted_wrt (<) (map slot_of graphs)" "\<forall>env\<in>set envs. b \<le> re_batch env" "0 < b" "b \<le> length graphs"
  shows "\<exists>m. length envs * b \<le> m \<and>
    ro_trace (run_passes envs graphs st) = ro_trace st @
      map (\<lambda>k. slot_of (graphs ! ((resume_index (map slot_of graphs) (ro_cursor st) + k) mod length graphs))) [0..<m]"
  using assms(3)
proof (induction envs arbitrary: st)
  case (Cons env envs)
  let ?n = "length graphs" and ?slots = "map slot_of graphs"
  let ?s = "resume_index ?slots (ro_cursor st)"
  let ?st = "scan_rows env graphs st"
  have "0 < re_batch env" using Cons.prems assms(4) by auto
  then obtain n where n: "min (re_batch env) ?n \<le> n" "n \<le> ?n" "0 < n"
    "ro_trace ?st = ro_trace st @ map (\<lambda>k. slot_of (graphs ! ((?s + k) mod ?n))) [0..<n]"
    "ro_cursor ?st = Some (slot_of (graphs ! ((?s + (n - 1)) mod ?n)))"
    using scan_rows_trace [OF assms(1)] by metis
  have "resume_index ?slots (ro_cursor ?st) = Suc ((?s + (n - 1)) mod ?n) mod ?n"
    using resume_after [OF assms(2), of "(?s + (n - 1)) mod ?n"] assms(1) n(5) by simp
  also have "\<dots> = (?s + n) mod ?n" using n(3) by (simp add: mod_Suc_eq)
  finally have resume: "resume_index ?slots (ro_cursor ?st) = (?s + n) mod ?n" .
  obtain m where m: "length envs * b \<le> m"
    "ro_trace (run_passes envs graphs ?st) = ro_trace ?st @
       map (\<lambda>k. slot_of (graphs ! ((resume_index ?slots (ro_cursor ?st) + k) mod ?n))) [0..<m]"
    using Cons.IH [of ?st] Cons.prems by auto
  have tail: "map (\<lambda>k. slot_of (graphs ! (((?s + n) mod ?n + k) mod ?n))) [0..<m] =
      map (\<lambda>k. slot_of (graphs ! ((?s + k) mod ?n))) [n..<n + m]"
    by (rule nth_equalityI) (auto simp: mod_add_left_eq add.assoc)
  have "b \<le> n" using n(1) Cons.prems assms(5) by auto
  with m(1) have "length (env # envs) * b \<le> n + m" by simp
  moreover have "ro_trace (run_passes (env # envs) graphs st) = ro_trace st @
      map (\<lambda>k. slot_of (graphs ! ((?s + k) mod ?n))) [0..<n + m]"
    using m(2) n(4) unfolding resume tail
    by (simp add: run_passes_def upt_add_eq_append [of 0 n m, simplified] flip: map_append)
  ultimately show ?case by blast
qed (auto simp: run_passes_def intro: exI [of _ 0])

end
