(* ===== verification/BridgeProperties.thy ===== *)
theory BridgeProperties
  imports GraphAggregate GraphScan EngineProperties
begin

text \<open>
  The properties of the bridge: runs of a node whose engine applies events with the handlers of the Instance and Graph
  aggregates while scans and jobs write the same tables, and the compositions of the scans with the decisions they feed. The
  examples are the concrete inputs on which the properties with hypotheses are applied.
\<close>

section \<open>Runs of the node\<close>

text \<open>What happens to the instance table: an apply, a request on Goat, an answer of a committee member, stored parameters.\<close>

inductive instance_table_step :: "Instance list \<Rightarrow> Instance list \<Rightarrow> bool" where
  followed: "instances_follow t t' \<Longrightarrow> instance_table_step t t'"
| requested: "in_status x = status_string UserInited \<Longrightarrow> instance_table_step t (snd (upsert_pegin_request_instance x t))"
| inserted: "instance_table_step t (snd (insert_instance_if_absent x t))"
| answered: "instance_table_step t (snd (update_instance_committee_answer i address pubkey now t))"
| parameters: "instance_table_step t (snd (update_instance_parameters i text now t))"

text \<open>
  A node applies events with its own handlers; every other step of its engine leaves the bridge tables alone; scans and
  jobs write one table at a time.
\<close>

inductive node_step :: "bridge_db engine_db \<Rightarrow> bridge_db engine_db \<Rightarrow> bool" where
  applied_event: "node_step db (snd (process_event cfg (node_handlers ia ienv ga genv) now0 now1 now2 e db))"
| engine_only: "engine_step db db' \<Longrightarrow> db_business db' = db_business db \<Longrightarrow> node_step db db'"
| request_stored: "in_status x = status_string UserInited \<Longrightarrow> node_step db (store_pegin_request env to_vec tx_hash late x now db)"
| instance_written: "instance_table_step (bd_instances b) t \<Longrightarrow> b = db_business db \<Longrightarrow>
    node_step db (db\<lparr> db_business := b\<lparr> bd_instances := t \<rparr> \<rparr>)"
| graph_written: "graph_table_step (bd_graphs b) t \<Longrightarrow> b = db_business db \<Longrightarrow>
    node_step db (db\<lparr> db_business := b\<lparr> bd_graphs := t \<rparr> \<rparr>)"
| other_written: "bd_instances b = bd_instances (db_business db) \<Longrightarrow> bd_graphs b = bd_graphs (db_business db) \<Longrightarrow>
    node_step db (db\<lparr> db_business := b \<rparr>)"

inductive_cases node_stepE: "node_step db db'"

section \<open>Peg-ins in a run\<close>

definition pegin_edge :: "string \<Rightarrow> string \<Rightarrow> bool" where
  "pegin_edge x y \<longleftrightarrow> (\<exists>s n. x = status_string s \<and> y = status_string n \<and> n \<in> lifecycle s)"

definition pegin_le :: "Instance \<Rightarrow> Instance \<Rightarrow> bool" where
  "pegin_le r r' \<longleftrightarrow> in_instance_id r' = in_instance_id r \<and> (in_key_deleted r \<longrightarrow> in_key_deleted r') \<and>
     pegin_edge\<^sup>*\<^sup>* (in_status r) (in_status r')"

definition instances_inv :: "Instance list \<Rightarrow> bool" where
  "instances_inv t \<longleftrightarrow> distinct (map in_instance_id t)"

lemma instance_le_pegin: "instance_le r r' \<Longrightarrow> pegin_le r r'"
  unfolding instance_le_def pegin_le_def pegin_edge_def
  by (elim conjE disjE exE, simp) (blast dest: status_from_strD intro: r_into_rtranclp)

definition instances_keep :: "Instance list \<Rightarrow> Instance list \<Rightarrow> bool" where
  "instances_keep t t' \<longleftrightarrow> (instances_inv t \<longrightarrow> instances_inv t') \<and>
     (\<forall>k r. find_instance k t = Some r \<longrightarrow> (\<exists>r'. find_instance k t' = Some r' \<and> pegin_le r r'))"

lemma pegin_le_refl: "pegin_le r r"
  by (simp add: pegin_le_def)

lemma instances_keep_refl: "instances_keep t t"
  by (auto simp: instances_keep_def pegin_le_refl)

lemma instances_keep_follow:
  assumes "instances_follow t t'"
  shows "instances_keep t t'"
proof -
  have "map in_instance_id t' = map in_instance_id t \<and>
     (\<forall>k r. find_instance k t = Some r \<longrightarrow> (\<exists>r'. find_instance k t' = Some r' \<and> pegin_le r r'))"
    using assms unfolding instances_follow_def
  proof (induction rule: list_all2_induct)
    case (Cons x xs y ys)
    then have "in_instance_id y = in_instance_id x" by (simp add: instance_le_def)
    with Cons show ?case by (auto simp: find_instance_def find_row_def dest: instance_le_pegin)
  qed (simp add: find_instance_def find_row_def)
  then show ?thesis by (simp add: instances_keep_def instances_inv_def)
qed

lemma instances_keep_update:
  assumes "\<And>r. p r \<Longrightarrow> pegin_le r (f r)"
  shows "instances_keep t (update_rows p f t)"
proof -
  have ids: "in_instance_id (f r) = in_instance_id r" if "p r" for r
    using assms [OF that] by (simp add: pegin_le_def)
  then have "map in_instance_id (update_rows p f t) = map in_instance_id t"
    by (auto intro!: map_update_rows)
  moreover have "find_instance k (update_rows p f t) = map_option (\<lambda>r. if p r then f r else r) (find_instance k t)" for k
    unfolding find_instance_def using ids by (intro find_row_update_rows) simp
  ultimately show ?thesis
    using assms by (auto simp: instances_keep_def instances_inv_def pegin_le_refl)
qed

lemma instances_keep_append:
  "find_instance (in_instance_id x) t = None \<Longrightarrow> instances_keep t (t @ [x])"
  by (auto simp: instances_keep_def instances_inv_def find_instance_def find_row_None_iff find_row_append pegin_le_refl)

lemma instance_table_step_keeps: "instance_table_step t t' \<Longrightarrow> instances_keep t t'"
proof (induction rule: instance_table_step.induct)
  case (followed t t')
  then show ?case by (rule instances_keep_follow)
next
  case (requested x t)
  then have "pegin_le r (refresh_pegin_request x r)" if "in_status r = status_string UserInited" for r
    using that by (simp add: pegin_le_def refresh_pegin_request_def)
  then show ?case
    by (auto simp: upsert_pegin_request_instance_def instances_keep_append intro: instances_keep_update split: option.split)
next
  case (inserted t x)
  then show ?case by (simp add: insert_instance_if_absent_def instances_keep_append instances_keep_refl)
qed (auto simp: update_instance_committee_answer_def update_instance_parameters_def pegin_le_def intro!: instances_keep_update)

interpretation pegin_rows: row_lifecycle "\<lambda>t k. find_instance k t" instances_inv instance_table_step pegin_le
  by unfold_locales
    (metis instance_table_step_keeps instances_keep_def, metis instance_table_step_keeps instances_keep_def, rule pegin_le_refl,
      auto simp: pegin_le_def intro: rtranclp_trans)

section \<open>What a step of the node does to the tables\<close>

lemma process_event_business:
  obtains (same) "db_business (snd (process_event cfg hs now0 now1 now2 e db)) = db_business db"
  | (committed) h current res ef tx where "hs (ar_kind (from_event e)) = Some h"
      "h now0 (from_event e) current e db = (res, ef, tx)"
      "db_business (snd (process_event cfg hs now0 now1 now2 e db)) = db_business tx"
proof -
  obtain result db' where p: "process_event cfg hs now0 now1 now2 e db = (result, db')" by fastforce
  show ?thesis
  proof (cases result)
    case (Inl err)
    then have "db' = db"
      using p by (auto simp: process_event_def Let_def split: option.splits prod.splits handler_result.splits
          ApplyOutcome.splits ApplyError.splits sum.splits if_splits)
    then show ?thesis using p same by simp
  next
    case (Inr q)
    obtain outcome post where q: "q = (outcome, post)" by fastforce
    show ?thesis
    proof (cases "outcome = ProcApplied \<or> outcome = ProcWaiting")
      case True
      obtain h res ef tx w where h: "hs (ar_kind (from_event e)) = Some h"
        "h now0 (from_event e) (find_engine_aggregate (ar_kind (from_event e)) (ar_id (from_event e)) (db_aggregates db)) e db
           = (res, ef, tx)"
        "commit_apply cfg e (from_event e) (find_engine_aggregate (ar_kind (from_event e)) (ar_id (from_event e))
           (db_aggregates db)) ef w now0 tx = Inr (post, db')"
        using process_event_commit [OF p [unfolded Inr q] True] by metis
      from committed [OF h(1,2)] show ?thesis using p commit_apply_tables(1) [OF h(3)] by simp
    next
      case False
      then show ?thesis using process_event_rollback(1) [OF p [unfolded Inr q]] p same by simp
    qed
  qed
qed

lemma node_apply_tables:
  assumes "db' = snd (process_event cfg (node_handlers ia ienv ga genv) now0 now1 now2 e db)"
  shows "instances_follow (bd_instances (db_business db)) (bd_instances (db_business db')) \<and>
    graphs_evolve (bd_graphs (db_business db)) (bd_graphs (db_business db'))"
proof (cases rule: process_event_business [of cfg "node_handlers ia ienv ga genv" now0 now1 now2 e db])
  case same
  then show ?thesis by (simp add: assms graphs_evolve_refl)
next
  case (committed h current res ef tx)
  from committed(1) consider "h = instance_handler ia ienv" | "h = graph_handler ga genv"
    by (auto simp: node_handlers_def split: if_split_asm)
  then show ?thesis
    using committed instance_handler_lawful graph_handler_quiet unfolding assms by cases (metis instances_follow_refl)+
qed

lemma store_request_tables:
  assumes "in_status x = status_string UserInited" "db' = store_pegin_request env to_vec tx_hash late x now db"
  shows "instance_table_step (bd_instances (db_business db)) (bd_instances (db_business db')) \<and>
    bd_graphs (db_business db') = bd_graphs (db_business db)"
proof -
  have "db_business (snd (submit_in ev now d)) = db_business d" for ev and d :: "bridge_db engine_db"
    by (simp add: submit_in_def Let_def split_beta split: EngineInboxInsert.split)
  with assms show ?thesis by (simp add: store_pegin_request_def Let_def requested inserted)
qed

lemma node_step_tables:
  assumes "node_step db db'"
  shows "instance_table_step (bd_instances (db_business db)) (bd_instances (db_business db')) \<and>
    graphs_evolve (bd_graphs (db_business db)) (bd_graphs (db_business db'))"
  using assms
proof (cases rule: node_step.cases)
  case applied_event
  then show ?thesis using node_apply_tables followed by simp
next
  case request_stored
  then show ?thesis using store_request_tables [OF request_stored(2,1)] by (simp add: graphs_evolve_refl)
next
  case (graph_written b t)
  then show ?thesis by (simp add: graph_table_step_evolves followed)
qed (simp_all add: followed graphs_evolve_refl)

lemma node_run_tables:
  assumes "node_step\<^sup>*\<^sup>* db db'"
  shows "instance_table_step\<^sup>*\<^sup>* (bd_instances (db_business db)) (bd_instances (db_business db')) \<and>
    graphs_evolve (bd_graphs (db_business db)) (bd_graphs (db_business db'))"
  using assms
  by (induction rule: rtranclp_induct)
    (auto simp: graphs_evolve_refl dest: node_step_tables intro: rtranclp.rtrancl_into_rtrancl graphs_evolve_trans)


section \<open>Final statuses of a peg-in\<close>

lemma lifecycle_failed: "n \<in> lifecycle s \<Longrightarrow> is_failed s \<Longrightarrow> s = Timeout \<and> n = UserCanceled"
  by (cases s) (auto simp: is_failed_def)

lemma lifecycle_confirmed: "n \<in> lifecycle s \<Longrightarrow> s \<in> {RelayerL1Broadcasted, RelayerL2Minted} \<Longrightarrow> n = RelayerL2Minted"
  by (cases s) auto

lemma pegin_edges_failed:
  assumes "pegin_edge\<^sup>*\<^sup>* x y" "x = status_string s" "is_failed s"
  shows "y = status_string s \<or> s = Timeout \<and> y = status_string UserCanceled"
  using assms(1)
proof (induction rule: rtranclp_induct)
  case (step y z)
  then obtain a n where a: "y = status_string a" "z = status_string n" "n \<in> lifecycle a" by (auto simp: pegin_edge_def)
  from step.IH a(1) have "a = s \<or> s = Timeout \<and> a = UserCanceled" by (metis status_string_inj)
  with a(2,3) lifecycle_failed [OF a(3)] assms(3) show ?case by (elim disjE) (simp_all add: is_failed_def)
qed (simp add: assms(2))

lemma pegin_edges_confirmed:
  assumes "pegin_edge\<^sup>*\<^sup>* x y" "x \<in> status_string ` {RelayerL1Broadcasted, RelayerL2Minted}"
  shows "y \<in> status_string ` {RelayerL1Broadcasted, RelayerL2Minted}"
  using assms(1)
proof (induction rule: rtranclp_induct)
  case (step y z)
  then obtain a n where a: "y = status_string a" "z = status_string n" "n \<in> lifecycle a" by (auto simp: pegin_edge_def)
  from step.IH a(1) have "a \<in> {RelayerL1Broadcasted, RelayerL2Minted}" by (auto simp del: status_string.simps simp: status_string_inj)
  with a(2) lifecycle_confirmed [OF a(3)] show ?case by simp
qed (rule assms(2))

section \<open>Properties of a run\<close>

text \<open>
  \<^bold>\<open>C0.\<close> In every run of a node, a stored peg-in keeps its row, moves only along the life cycle of a peg-in, and
  never restores a deleted key. One whose Peg-In-Confirm is on Bitcoin or minted on Goat never fails afterwards; a failed one
  stays failed, and only a timed out one may still become canceled.
\<close>

theorem pegins_follow_lifecycle:
  assumes "node_step\<^sup>*\<^sup>* db db'" and "instances_inv (bd_instances (db_business db))"
    and "find_instance k (bd_instances (db_business db)) = Some r"
  shows "\<exists>r'. find_instance k (bd_instances (db_business db')) = Some r' \<and>
    pegin_edge\<^sup>*\<^sup>* (in_status r) (in_status r') \<and> (in_key_deleted r \<longrightarrow> in_key_deleted r') \<and>
    (\<forall>s. in_status r = status_string s \<and> is_failed s \<longrightarrow>
       in_status r' = in_status r \<or> s = Timeout \<and> in_status r' = status_string UserCanceled) \<and>
    (in_status r \<in> status_string ` {RelayerL1Broadcasted, RelayerL2Minted} \<longrightarrow>
       in_status r' \<in> status_string ` {RelayerL1Broadcasted, RelayerL2Minted})"
proof -
  from pegin_rows.row_steps [OF _ assms(2,3)] node_run_tables [OF assms(1)]
  obtain r' where "find_instance k (bd_instances (db_business db')) = Some r'" "pegin_le r r'" by blast
  then show ?thesis unfolding pegin_le_def
    using pegin_edges_failed pegin_edges_confirmed by (intro exI [of _ r']) metis
qed

text \<open>
  \<^bold>\<open>C0.\<close> In every run of a node, the graph table holds one graph per id and one per slot of an operator. A stored
  graph keeps its definition (instance, slot, amount, transactions), its status moves along the allowed transitions, and a
  closed graph keeps its status for ever.
\<close>

theorem graphs_keep_definition:
  assumes "node_step\<^sup>*\<^sup>* db db'" and "graphs_inv (bd_graphs (db_business db))"
    and "find_graph k (bd_graphs (db_business db)) = Some g"
  shows "graphs_inv (bd_graphs (db_business db')) \<and>
    (\<exists>g'. find_graph k (bd_graphs (db_business db')) = Some g' \<and> same_definition g g' \<and>
       graph_edge\<^sup>*\<^sup>* (gh_status g) (gh_status g') \<and>
       (\<forall>s. gh_status g = graph_status_string s \<and> is_closed s \<longrightarrow> gh_status g' = gh_status g))"
  using node_run_tables [OF assms(1)] assms(2,3) closed_edge_final
  unfolding graphs_evolve_def graph_le_def by metis

end
