(* ===== verification/Spec2Isabelle.thy ===== *)
theory Spec2Isabelle
  imports EngineProperties LightClientProperties LightClientTools P2pVerdicts P2pAdmission BridgeProperties
begin

text \<open>
  A verification development for the BitVM2 node.

  The program's parts, in dependency order: the store of the execution engine
  (\<^verbatim>\<open>src/crates/store/src/engine\<close>), the engine itself (\<^verbatim>\<open>src/crates/engine\<close>), the protocol timelocks
  (\<^verbatim>\<open>src/crates/bitvm-gc/src/timelocks.rs\<close>) and the header-chain circuit
  (\<^verbatim>\<open>src/circuits/crates/header-chain\<close>).
\<close>

end
